(* ===== verification/Prelude.thy ===== *)
theory Prelude
  imports Main "HOL-Library.Word"
begin

unbundle bit_operations_syntax

text \<open>
  The shared vocabulary of the development: Rust's fixed-width integers, the firmware's error
  type and the outcome of a Rust call (a value, an \<open>Err\<close>, or a panic), byte slices with the
  in-place writes the firmware makes (\<open>copy_from_slice\<close>, \<open>fill\<close>), the little- and big-endian
  encodings of integers, and the packed fields of a bit field.
\<close>

section \<open>Integers\<close>

type_synonym u8 = "8 word"
type_synonym u16 = "16 word"
type_synonym u32 = "32 word"
type_synonym u64 = "64 word"
type_synonym u128 = "128 word"

named_theorems run_simps \<open>evaluation of the outcome monad\<close>
named_theorems slice_simps \<open>reading back slices after in-place writes\<close>
named_theorems field_simps_bits \<open>getters over setters of packed fields\<close>

section \<open>Errors and outcomes\<close>

text \<open>
  \<open>HsmError\<close> is an open \<open>u32\<close> enum: the variants that the modelled code names are constructors,
  every other status code is \<open>HsmErrorCode\<close>.
\<close>

datatype HsmError =
    InvalidArg
  | InternalError
  | UnsupportedCmd
  | DdiEncodeFailed
  | DdiDecodeFailed
  | TborBufferTooShort
  | TborUnsupportedVersion
  | TborMessageTruncated
  | TborOffsetLengthOutOfBounds
  | TborInvalidFixedLength
  | TborInvalidNonePayload
  | TborBufferTooSmall
  | TborTooManyTocEntries
  | TborDataTooLarge
  | TborDataOffsetOverflow
  | VaultSessionLimitReached
  | SessionNotFound
  | KeyNotFound
  | InvalidKeyType
  | InvalidPermissions
  | NotEnoughSpace
  | DefragmentationNeeded
  | SessionNotPending
  | UndoLogFull
  | PartPropNotFound
  | Bk3AlreadyInitialized
  | SdAlreadyInitialized
  | SealedBk3AlreadySet
  | DmaAllocLenOverrun
  | PtaKeyAlreadySet
  | UpsKeyAlreadySet
  | InvalidPskId
  | InvalidAppCredentials
  | NonceMismatch
  | HsmErrorCode u32

text \<open>
  The outcome of a Rust call: \<open>Ok\<close> and \<open>Err\<close> are \<open>HsmResult\<close>, \<open>Panic\<close> is a slice or index
  that is out of range, which Rust turns into a panic.
\<close>

datatype 'a run = Ok 'a | Err HsmError | Panic

definition bindr :: "'a run \<Rightarrow> ('a \<Rightarrow> 'b run) \<Rightarrow> 'b run" where
  "bindr r f = (case r of Ok x \<Rightarrow> f x | Err e \<Rightarrow> Err e | Panic \<Rightarrow> Panic)"

lemma bindr_simps [simp, run_simps]:
  "bindr (Ok x) f = f x" "bindr (Err e) f = Err e" "bindr Panic f = Panic"
  by (simp_all add: bindr_def)

lemma bindr_eq_Ok: "bindr r f = Ok y \<longleftrightarrow> (\<exists>x. r = Ok x \<and> f x = Ok y)"
  by (cases r) simp_all

lemma bindr_eq_Panic: "bindr r f = Panic \<longleftrightarrow> r = Panic \<or> (\<exists>x. r = Ok x \<and> f x = Panic)"
  by (cases r) simp_all

text \<open>
  A method on \<open>&mut self\<close> takes the state and returns the outcome with the new state: an early
  \<open>Err\<close> keeps the writes made before it.
\<close>

type_synonym ('s, 'a) op = "'s \<Rightarrow> 'a run \<times> 's"

definition returns :: "'a \<Rightarrow> ('s, 'a) op" where
  "returns x s = (Ok x, s)"

definition fails :: "HsmError \<Rightarrow> ('s, 'a) op" where
  "fails e s = (Err e, s)"

definition reads :: "('s \<Rightarrow> 'a run) \<Rightarrow> ('s, 'a) op" where
  "reads f s = (f s, s)"

definition bindS :: "('s, 'a) op \<Rightarrow> ('a \<Rightarrow> ('s, 'b) op) \<Rightarrow> ('s, 'b) op" where
  "bindS m f s = (case m s of
      (Ok x, s') \<Rightarrow> f x s'
    | (Err e, s') \<Rightarrow> (Err e, s')
    | (Panic, s') \<Rightarrow> (Panic, s'))"

lemma returns_simp [simp, run_simps]: "returns x s = (Ok x, s)"
  by (simp add: returns_def)

lemma fails_simp [simp, run_simps]: "fails e s = (Err e, s)"
  by (simp add: fails_def)

lemma reads_simp [simp, run_simps]: "reads f s = (f s, s)"
  by (simp add: reads_def)

lemma bindS_Ok [simp, run_simps]: "m s = (Ok x, s') \<Longrightarrow> bindS m f s = f x s'"
  by (simp add: bindS_def)

lemma bindS_Err [simp, run_simps]: "m s = (Err e, s') \<Longrightarrow> bindS m f s = (Err e, s')"
  by (simp add: bindS_def)

lemma bindS_Panic [simp, run_simps]: "m s = (Panic, s') \<Longrightarrow> bindS m f s = (Panic, s')"
  by (simp add: bindS_def)

lemma bindS_eq_Ok:
  "bindS m f s = (Ok y, s'') \<longleftrightarrow> (\<exists>x s'. m s = (Ok x, s') \<and> f x s' = (Ok y, s''))"
  by (cases "m s"; cases "fst (m s)") (auto simp: bindS_def)

text \<open>
  Total correctness of an operation from a state: it does not panic, a success meets \<open>Q\<close>, a failure
  meets \<open>E\<close>.
\<close>

definition achieves :: "('s, 'a) op \<Rightarrow> 's \<Rightarrow> ('a \<Rightarrow> 's \<Rightarrow> bool) \<Rightarrow> (HsmError \<Rightarrow> 's \<Rightarrow> bool) \<Rightarrow> bool" where
  "achieves m s Q E \<longleftrightarrow> (case m s of (Ok x, s') \<Rightarrow> Q x s' | (Err e, s') \<Rightarrow> E e s' | (Panic, s') \<Rightarrow> False)"

lemma achievesI:
  "(\<And>x s'. m s = (Ok x, s') \<Longrightarrow> Q x s') \<Longrightarrow> (\<And>e s'. m s = (Err e, s') \<Longrightarrow> E e s') \<Longrightarrow> fst (m s) \<noteq> Panic \<Longrightarrow>
    achieves m s Q E"
  by (auto simp: achieves_def split: prod.split run.split)

lemma achieves_Ok: "achieves m s Q E \<Longrightarrow> m s = (Ok x, s') \<Longrightarrow> Q x s'"
  by (simp add: achieves_def)

lemma achieves_Err: "achieves m s Q E \<Longrightarrow> m s = (Err e, s') \<Longrightarrow> E e s'"
  by (simp add: achieves_def)

lemma achieves_cases:
  assumes "achieves m s Q E"
  obtains (ok) x s' where "m s = (Ok x, s')" "Q x s'" | (err) e s' where "m s = (Err e, s')" "E e s'"
  using assms by (auto simp: achieves_def split: prod.splits run.splits)

lemma achieves_bind:
  assumes "achieves m s R E" "\<And>x s'. R x s' \<Longrightarrow> achieves (f x) s' Q E"
  shows "achieves (bindS m f) s Q E"
  by (rule achieves_cases [OF assms(1)]) (use assms(2) in \<open>auto simp: achieves_def bindS_def\<close>)

lemma achieves_mono:
  "achieves m s Q E \<Longrightarrow> (\<And>x s'. Q x s' \<Longrightarrow> Q' x s') \<Longrightarrow> (\<And>e s'. E e s' \<Longrightarrow> E' e s') \<Longrightarrow> achieves m s Q' E'"
  by (auto simp: achieves_def split: prod.splits run.splits)

lemma achieves_errs:
  "achieves m s Q E \<Longrightarrow> (\<And>e s'. E e s' \<Longrightarrow> E' e s') \<Longrightarrow> achieves m s Q E'"
  by (rule achieves_mono)

lemma achieves_basic [simp]:
  "achieves (returns x) s Q E \<longleftrightarrow> Q x s" "achieves (fails e) s Q E \<longleftrightarrow> E e s"
  "achieves (reads f) s Q E \<longleftrightarrow> (case f s of Ok x \<Rightarrow> Q x s | Err e \<Rightarrow> E e s | Panic \<Rightarrow> False)"
  by (simp_all add: achieves_def)

section \<open>Loops\<close>

text \<open>
  \<open>for x in xs\<close> with a body that may return early: over a mutable state (\<open>fold_run\<close>) or collecting
  a value per element (\<open>map_run\<close>).
\<close>

primrec fold_run :: "('a \<Rightarrow> 's \<Rightarrow> 's run) \<Rightarrow> 'a list \<Rightarrow> 's \<Rightarrow> 's run" where
  "fold_run f [] s = Ok s"
| "fold_run f (x # xs) s = bindr (f x s) (fold_run f xs)"

primrec map_run :: "('a \<Rightarrow> 'b run) \<Rightarrow> 'a list \<Rightarrow> 'b list run" where
  "map_run f [] = Ok []"
| "map_run f (x # xs) = bindr (f x) (\<lambda>y. bindr (map_run f xs) (\<lambda>ys. Ok (y # ys)))"

lemma fold_run_append: "fold_run f (xs @ ys) s = bindr (fold_run f xs s) (fold_run f ys)"
proof (induction xs arbitrary: s)
  case (Cons x xs)
  then show ?case by (cases "f x s") simp_all
qed simp

lemma fold_run_cong:
  "(\<And>x s. x \<in> set xs \<Longrightarrow> f x s = g x s) \<Longrightarrow> fold_run f xs s = fold_run g xs s"
proof (induction xs arbitrary: s)
  case (Cons x xs)
  then show ?case by (cases "g x s") simp_all
qed simp

lemma map_run_Ok: "(\<And>x. x \<in> set xs \<Longrightarrow> f x = Ok (g x)) \<Longrightarrow> map_run f xs = Ok (map g xs)"
  by (induction xs) simp_all

lemma map_run_total:
  assumes "\<And>x. x \<in> set xs \<Longrightarrow> \<exists>y. f x = Ok y"
  shows "\<exists>ys. map_run f xs = Ok ys \<and> length ys = length xs"
  using assms by (induction xs) fastforce+

lemma map_run_nth: "map_run f xs = Ok ys \<Longrightarrow> i < length xs \<Longrightarrow> f (xs ! i) = Ok (ys ! i)"
  by (induction xs arbitrary: ys i) (auto simp: bindr_eq_Ok nth_Cons')

lemma fold_run_unit_Ok: "fold_run (\<lambda>x _. f x) xs () = Ok () \<longleftrightarrow> (\<forall>x \<in> set xs. f x = Ok ())"
proof (induction xs)
  case (Cons x xs)
  then show ?case by (cases "f x") simp_all
qed simp

lemma fold_run_no_panic:
  "(\<And>x s. x \<in> set xs \<Longrightarrow> f x s \<noteq> Panic) \<Longrightarrow> fold_run f xs s \<noteq> Panic"
  by (induction xs arbitrary: s) (auto simp: bindr_eq_Panic)

section \<open>Slices\<close>

text \<open>
  \<open>slice off len xs\<close> is \<open>xs[off..off + len]\<close>; \<open>splice_at off ys xs\<close> is \<open>xs\<close> after
  \<open>xs[off..off + ys.len()].copy_from_slice(ys)\<close>. Both are used where the range is inside
  \<open>xs\<close>; the definitions that may leave it test the range first and answer \<open>Panic\<close>.
\<close>

definition slice :: "nat \<Rightarrow> nat \<Rightarrow> 'a list \<Rightarrow> 'a list" where
  "slice off len xs = take len (drop off xs)"

definition splice_at :: "nat \<Rightarrow> 'a list \<Rightarrow> 'a list \<Rightarrow> 'a list" where
  "splice_at off ys xs = take off xs @ ys @ drop (off + length ys) xs"

lemma length_slice [simp, slice_simps]: "off + len \<le> length xs \<Longrightarrow> length (slice off len xs) = len"
  by (simp add: slice_def)

lemma length_splice_at [simp, slice_simps]:
  "off + length ys \<le> length xs \<Longrightarrow> length (splice_at off ys xs) = length xs"
  by (simp add: splice_at_def)

lemma nth_slice: "off + len \<le> length xs \<Longrightarrow> i < len \<Longrightarrow> slice off len xs ! i = xs ! (off + i)"
  by (simp add: slice_def)

lemma nth_splice_at:
  assumes "off + length ys \<le> length xs" "i < length xs"
  shows "splice_at off ys xs ! i =
    (if off \<le> i \<and> i < off + length ys then ys ! (i - off) else xs ! i)"
  using assms by (auto simp: splice_at_def nth_append min_def)

lemma slice_splice_same [simp, slice_simps]:
  "off + length ys \<le> length xs \<Longrightarrow> len = length ys \<Longrightarrow> slice off len (splice_at off ys xs) = ys"
  by (simp add: slice_def splice_at_def min_def)

lemma slice_splice_inside:
  assumes "o2 + length ys \<le> length xs" "o2 \<le> o1" "o1 + n \<le> o2 + length ys"
  shows "slice o1 n (splice_at o2 ys xs) = slice (o1 - o2) n ys"
  by (rule nth_equalityI) (use assms in \<open>auto simp: nth_slice nth_splice_at\<close>)

lemma slice_splice_other [slice_simps]:
  assumes "o2 + length ys \<le> length xs" "o1 + n \<le> o2 \<or> o2 + length ys \<le> o1"
    "o1 + n \<le> length xs"
  shows "slice o1 n (splice_at o2 ys xs) = slice o1 n xs"
  by (rule nth_equalityI) (use assms in \<open>auto simp: nth_slice nth_splice_at\<close>)

lemma splice_at_Nil [simp]: "splice_at off [] xs = xs"
  by (simp add: splice_at_def)

lemma slice_zero_all [simp]: "slice 0 (length xs) xs = xs"
  by (simp add: slice_def)

lemma slice_slice: "o1 + n1 \<le> n2 \<Longrightarrow> slice o1 n1 (slice o2 n2 xs) = slice (o2 + o1) n1 xs"
  by (simp add: slice_def drop_take add.commute)

lemma splice_slice_id: "off + len \<le> length xs \<Longrightarrow> splice_at off (slice off len xs) xs = xs"
  by (rule nth_equalityI) (auto simp: nth_splice_at nth_slice)

lemma splice_splice_append:
  assumes "off + length xs + length ys \<le> length zs"
  shows "splice_at (off + length xs) ys (splice_at off xs zs) = splice_at off (xs @ ys) zs"
  by (rule nth_equalityI) (use assms in \<open>auto simp: nth_splice_at nth_append\<close>)

lemma splice_splice_commute:
  assumes "o1 + length xs \<le> o2" "o2 + length ys \<le> length zs"
  shows "splice_at o2 ys (splice_at o1 xs zs) = splice_at o1 xs (splice_at o2 ys zs)"
  by (rule nth_equalityI) (use assms in \<open>auto simp: nth_splice_at\<close>)

lemma take_splice_prefix:
  assumes "length a + length d \<le> length zs"
  shows "take (length a + length d) (splice_at 0 a (splice_at (length a) d zs)) = a @ d"
  using assms by (simp add: splice_at_def min_def)

lemma slice_append1 [simp]: "off + len \<le> length xs \<Longrightarrow> slice off len (xs @ ys) = slice off len xs"
  by (simp add: slice_def)

lemma slice_append2 [simp]: "slice (length xs + off) len (xs @ ys) = slice off len ys"
  by (simp add: slice_def)

section \<open>Integers as bytes\<close>

text \<open>
  The base-256 digits of a number, least significant first, and back. Rust's
  \<open>to_le_bytes\<close>/\<open>from_le_bytes\<close> and \<open>to_be_bytes\<close>/\<open>from_be_bytes\<close> at the width of each type.
\<close>

primrec digits256 :: "nat \<Rightarrow> nat \<Rightarrow> u8 list" where
  "digits256 0 v = []"
| "digits256 (Suc n) v = of_nat v # digits256 n (v div 256)"

primrec val256 :: "u8 list \<Rightarrow> nat" where
  "val256 [] = 0"
| "val256 (b # bs) = unat b + 256 * val256 bs"

lemma length_digits256 [simp]: "length (digits256 n v) = n"
  by (induction n arbitrary: v) simp_all

lemma unat_of_nat_u8 [simp]: "unat (of_nat v :: u8) = v mod 256"
  by (simp add: unat_of_nat)

lemma val256_digits256: "val256 (digits256 n v) = v mod 256 ^ n"
proof (induction n arbitrary: v)
  case 0
  then show ?case by simp
next
  case (Suc n)
  have "v mod (256 * 256 ^ n) = 256 * (v div 256 mod 256 ^ n) + v mod 256"
    by (rule mod_mult2_eq)
  with Suc show ?case by simp
qed

lemma val256_less: "val256 bs < 256 ^ length bs"
proof (induction bs)
  case Nil
  then show ?case by simp
next
  case (Cons b bs)
  have "unat b < 256"
    using unsigned_less [of b, where ?'a = nat] by simp
  with Cons show ?case by simp
qed

lemma digits256_val256: "digits256 (length bs) (val256 bs) = bs"
proof (induction bs)
  case Nil
  then show ?case by simp
next
  case (Cons b bs)
  have "unat b < 256"
    using unsigned_less [of b, where ?'a = nat] by simp
  then have "(of_nat (unat b + 256 * val256 bs) :: u8) = b"
    by (simp only: word_unat_eq_iff unat_of_nat) simp
  with Cons \<open>unat b < 256\<close> show ?case by simp
qed

definition to_le :: "nat \<Rightarrow> 'a::len word \<Rightarrow> u8 list" where
  "to_le n w = digits256 n (unat w)"

definition from_le :: "u8 list \<Rightarrow> 'a::len word" where
  "from_le bs = of_nat (val256 bs)"

definition to_be :: "nat \<Rightarrow> 'a::len word \<Rightarrow> u8 list" where
  "to_be n w = rev (to_le n w)"

definition from_be :: "u8 list \<Rightarrow> 'a::len word" where
  "from_be bs = from_le (rev bs)"

lemma length_to_le [simp]: "length (to_le n w) = n"
  by (simp add: to_le_def)

lemma length_to_be [simp]: "length (to_be n w) = n"
  by (simp add: to_be_def)

lemma from_le_to_le:
  fixes w :: "'a::len word"
  assumes "LENGTH('a) = 8 * n"
  shows "from_le (to_le n w) = w"
proof -
  have "unat w < 256 ^ n"
    using unsigned_less [of w, where ?'a = nat] assms by (simp add: power_mult)
  then show ?thesis
    by (simp add: from_le_def to_le_def val256_digits256)
qed

lemma from_be_to_be:
  fixes w :: "'a::len word"
  assumes "LENGTH('a) = 8 * n"
  shows "from_be (to_be n w) = w"
  using assms by (simp add: from_be_def to_be_def from_le_to_le)

lemma to_le_from_le:
  assumes "LENGTH('a::len) = 8 * length bs"
  shows "to_le (length bs) (from_le bs :: 'a word) = bs"
proof -
  have "val256 bs < 2 ^ LENGTH('a)"
    using val256_less [of bs] assms by (simp add: power_mult)
  then show ?thesis
    by (simp add: to_le_def from_le_def unat_of_nat digits256_val256)
qed

lemma le_round_trips [simp]:
  "from_le (to_le 2 (a :: u16)) = a" "from_le (to_le 4 (b :: u32)) = b"
  "from_le (to_le 8 (c :: u64)) = c"
  by (simp_all add: from_le_to_le)

lemma be_round_trips [simp]:
  "from_be (to_be 2 (a :: u16)) = a" "from_be (to_be 4 (b :: u32)) = b"
  "from_be (to_be 8 (c :: u64)) = c"
  by (simp_all add: from_be_to_be)

section \<open>Searching a list\<close>

lemma find_SomeD: "List.find P xs = Some x \<Longrightarrow> x \<in> set xs \<and> P x"
  by (induction xs) (auto split: if_splits)

lemma find_None: "List.find P xs = None \<longleftrightarrow> (\<forall>x \<in> set xs. \<not> P x)"
  by (induction xs) auto

lemma find_upt_Least:
  assumes "List.find P [0..<n] = Some i"
  shows "i = (LEAST i. i < n \<and> P i)"
proof -
  have "\<forall>j < i. \<not> P j"
    using assms by (auto simp: find_Some_iff)
  moreover have "i < n \<and> P i" using find_SomeD [OF assms] by simp
  ultimately show ?thesis
    by (intro Least_equality [symmetric]) (auto intro: leI)
qed

lemma find_not_takeWhile:
  "List.find (\<lambda>i. \<not> P i) [0..<n] =
    (if length (takeWhile P [0..<n]) < n then Some (length (takeWhile P [0..<n])) else None)"
proof -
  have "dropWhile P [0..<n] = [length (takeWhile P [0..<n])..<n]"
    by (simp add: dropWhile_eq_drop)
  then show ?thesis
    by (simp add: find_dropWhile comp_def upt_rec split: list.split)
qed

section \<open>Packed bit fields\<close>

text \<open>
  \<open>bitfield-struct\<close> packs the fields of a struct into one integer, least significant field first.
  \<open>get_field off w e\<close> reads the \<open>w\<close> bits of \<open>e\<close> from bit \<open>off\<close> and \<open>set_field off w v e\<close> writes
  them, leaving every other bit alone.
\<close>

definition get_field :: "nat \<Rightarrow> nat \<Rightarrow> 'a::len word \<Rightarrow> 'a word" where
  "get_field off w e = drop_bit off e AND mask w"

definition set_field :: "nat \<Rightarrow> nat \<Rightarrow> 'a::len word \<Rightarrow> 'a word \<Rightarrow> 'a word" where
  "set_field off w v e = (e AND NOT (push_bit off (mask w))) OR push_bit off (v AND mask w)"

lemma bit_get_field:
  "bit (get_field off w e) i \<longleftrightarrow> i < w \<and> bit e (off + i)" for e :: "'a::len word"
  by (auto simp: get_field_def bit_simps dest: bit_imp_le_length)

lemma bit_set_field:
  fixes e :: "'a::len word"
  shows "bit (set_field off w v e) i \<longleftrightarrow>
    i < LENGTH('a) \<and> (if off \<le> i \<and> i < off + w then bit v (i - off) else bit e i)"
  by (auto simp: set_field_def bit_simps dest: bit_imp_le_length)

lemma get_set_field_same:
  fixes e :: "'a::len word"
  assumes "off + w \<le> LENGTH('a)"
  shows "get_field off w (set_field off w v e) = v AND mask w"
  by (rule bit_word_eqI) (use assms in \<open>auto simp: bit_get_field bit_set_field bit_simps\<close>)

lemma get_set_field_other:
  fixes e :: "'a::len word"
  assumes "o1 + w1 \<le> o2 \<or> o2 + w2 \<le> o1"
  shows "get_field o1 w1 (set_field o2 w2 v e) = get_field o1 w1 e"
  by (rule bit_word_eqI) (use assms in \<open>auto simp: bit_get_field bit_set_field bit_imp_le_length\<close>)

lemma set_field_get_field:
  fixes e :: "'a::len word"
  assumes "off + w \<le> LENGTH('a)"
  shows "set_field off w (get_field off w e) e = e"
  by (rule bit_word_eqI) (use assms in \<open>auto simp: bit_get_field bit_set_field\<close>)

lemma set_field_idem:
  "set_field off w v (set_field off w u e) = set_field off w v e" for e :: "'a::len word"
  by (rule bit_word_eqI) (auto simp: bit_set_field)

lemma get_field_zero [simp]: "get_field off w (0 :: 'a::len word) = 0"
  by (simp add: get_field_def)

lemma and_mask_ucast [simp]:
  fixes v :: "'b::len word"
  assumes "LENGTH('b) \<le> w"
  shows "(ucast v :: 'a::len word) AND mask w = ucast v"
  by (rule bit_word_eqI) (use assms in \<open>auto simp: bit_simps dest: bit_imp_le_length\<close>)

lemma ucast_ucast_id [simp]:
  fixes v :: "'b::len word"
  assumes "LENGTH('b) \<le> LENGTH('a::len)"
  shows "(ucast (ucast v :: 'a word) :: 'b word) = v"
  by (rule bit_word_eqI) (use assms in \<open>auto simp: bit_simps dest: bit_imp_le_length\<close>)

section \<open>Single bits of a mask\<close>

text \<open>\<open>m & (1 << i) != 0\<close>, \<open>m |= 1 << i\<close> and \<open>m &= !(1 << i)\<close>.\<close>

definition test_bit :: "'a::len word \<Rightarrow> nat \<Rightarrow> bool" where
  "test_bit m i \<longleftrightarrow> m AND push_bit i 1 \<noteq> 0"

definition bit_on :: "nat \<Rightarrow> 'a::len word \<Rightarrow> 'a word" where
  "bit_on i m = m OR push_bit i 1"

definition bit_off :: "nat \<Rightarrow> 'a::len word \<Rightarrow> 'a word" where
  "bit_off i m = m AND NOT (push_bit i 1)"

lemma test_bit_iff [simp]: "test_bit m = bit m" for m :: "'a::len word"
  by (simp add: fun_eq_iff test_bit_def bit_iff_and_push_bit_not_eq_0)

lemma bit_bit_on:
  "bit (bit_on i m) j \<longleftrightarrow> bit m j \<or> (i = j \<and> j < LENGTH('a))" for m :: "'a::len word"
  by (auto simp: bit_on_def bit_simps)

lemma bit_bit_off: "bit (bit_off i m) j \<longleftrightarrow> bit m j \<and> i \<noteq> j" for m :: "'a::len word"
  by (auto simp: bit_off_def bit_simps dest: bit_imp_le_length)

lemma bit_off_on: "\<not> bit m i \<Longrightarrow> bit_off i (bit_on i m) = m" for m :: "'a::len word"
  by (rule bit_word_eqI) (auto simp: bit_bit_on bit_bit_off)

end
