(* ===== verification/Tbor.thy ===== *)
theory Tbor
  imports Prelude
begin

text \<open>
  The firmware's codec for TBOR messages (\<open>fw/core/ddi/tbor/codec\<close>): the 32-bit words of the table of
  contents (\<open>toc.rs\<close>), the validating views of requests and responses (\<open>decode.rs\<close>) and the
  encoders (\<open>encode.rs\<close>). Requests and responses share their code up to the length of the header
  and the place of the entry count, which are parameters of the shared definitions here.
  The correctness of the codec is in \<open>TborProperties\<close>.
\<close>

section \<open>Table of contents\<close>

definition MAX_TOC_ENTRIES :: nat where "MAX_TOC_ENTRIES = 32"

definition MAX_DATA_SIZE :: nat where "MAX_DATA_SIZE = 8191"

definition REQ_HEADER_LEN :: nat where "REQ_HEADER_LEN = 4"

definition RESP_HEADER_LEN :: nat where "RESP_HEADER_LEN = 8"

definition PROTOCOL_VERSION :: u8 where "PROTOCOL_VERSION = 1"

datatype TocType = TSessionId | TKeyId | TSealedKey | TUint8 | TUint16 | TUint32 | TUint64 | TBuffer | TNone | TPadding

fun toc_type_id :: "TocType \<Rightarrow> u8" where
  "toc_type_id TSessionId = 0"
| "toc_type_id TKeyId = 1"
| "toc_type_id TSealedKey = 2"
| "toc_type_id TUint8 = 3"
| "toc_type_id TUint16 = 4"
| "toc_type_id TUint32 = 5"
| "toc_type_id TUint64 = 6"
| "toc_type_id TBuffer = 7"
| "toc_type_id TNone = 8"
| "toc_type_id TPadding = 9"

definition from_raw :: "u8 \<Rightarrow> TocType option" where
  "from_raw raw =
     (if raw = 0 then Some TSessionId else if raw = 1 then Some TKeyId else if raw = 2 then Some TSealedKey
      else if raw = 3 then Some TUint8 else if raw = 4 then Some TUint16 else if raw = 5 then Some TUint32
      else if raw = 6 then Some TUint64 else if raw = 7 then Some TBuffer else if raw = 8 then Some TNone
      else if raw = 9 then Some TPadding else None)"

datatype TocEntry =
    SessionId u16
  | KeyId u16
  | SealedKey "u8 list"
  | Uint8 u8
  | Uint16 u16
  | Uint32 u32
  | Uint64 u64
  | Buffer "u8 list"
  | NoneEntry
  | Padding "u8 list"
  | Unknown u8 u32

definition raw_toc_entry_type :: "u32 \<Rightarrow> u8" where
  "raw_toc_entry_type word = ucast (drop_bit 26 word AND 0x3F)"

definition raw_toc_length :: "u32 \<Rightarrow> nat" where
  "raw_toc_length word = unat (drop_bit 13 word AND 0x1FFF)"

definition raw_toc_offset :: "u32 \<Rightarrow> nat" where
  "raw_toc_offset word = unat (word AND 0x1FFF)"

definition raw_toc_inline_u8 :: "u32 \<Rightarrow> u8" where
  "raw_toc_inline_u8 word = ucast (word AND 0xFF)"

definition raw_toc_inline_u16 :: "u32 \<Rightarrow> u16" where
  "raw_toc_inline_u16 word = ucast (word AND 0xFFFF)"

definition read_toc_word :: "u8 list \<Rightarrow> nat \<Rightarrow> nat \<Rightarrow> u32 run" where
  "read_toc_word buf header_len toc_index =
     (let base = header_len + toc_index * 4 in
      if base + 4 \<le> length buf then Ok (from_be (slice base 4 buf)) else Panic)"

definition read_toc_inline_u8 :: "u8 list \<Rightarrow> nat \<Rightarrow> nat \<Rightarrow> u8 run" where
  "read_toc_inline_u8 buf header_len toc_index =
     bindr (read_toc_word buf header_len toc_index) (\<lambda>word. Ok (raw_toc_inline_u8 word))"

definition read_toc_inline_u16 :: "u8 list \<Rightarrow> nat \<Rightarrow> nat \<Rightarrow> u16 run" where
  "read_toc_inline_u16 buf header_len toc_index =
     bindr (read_toc_word buf header_len toc_index) (\<lambda>word. Ok (raw_toc_inline_u16 word))"

definition read_toc_buffer :: "u8 list \<Rightarrow> nat \<Rightarrow> nat \<Rightarrow> nat \<Rightarrow> u8 list run" where
  "read_toc_buffer buf header_len toc_index data_start =
     bindr (read_toc_word buf header_len toc_index) (\<lambda>word.
       let len = raw_toc_length word; offset = raw_toc_offset word in
       if data_start + offset + len \<le> length buf then Ok (slice (data_start + offset) len buf) else Panic)"

definition read_toc_uint32 :: "u8 list \<Rightarrow> nat \<Rightarrow> nat \<Rightarrow> nat \<Rightarrow> u32 run" where
  "read_toc_uint32 buf header_len toc_index data_start =
     bindr (read_toc_word buf header_len toc_index) (\<lambda>word.
       let base = data_start + raw_toc_offset word in
       if base + 4 \<le> length buf then Ok (from_le (slice base 4 buf)) else Panic)"

definition read_toc_uint64 :: "u8 list \<Rightarrow> nat \<Rightarrow> nat \<Rightarrow> nat \<Rightarrow> u64 run" where
  "read_toc_uint64 buf header_len toc_index data_start =
     bindr (read_toc_word buf header_len toc_index) (\<lambda>word.
       let base = data_start + raw_toc_offset word in
       if base + 8 \<le> length buf then Ok (from_le (slice base 8 buf)) else Panic)"

definition build_toc_inline_u8 :: "u8 \<Rightarrow> u8 \<Rightarrow> u32" where
  "build_toc_inline_u8 entry_type v = push_bit 26 (ucast entry_type) OR ucast v"

definition build_toc_inline_u16 :: "u8 \<Rightarrow> u16 \<Rightarrow> u32" where
  "build_toc_inline_u16 entry_type v = push_bit 26 (ucast entry_type) OR ucast v"

definition build_toc_none :: u32 where
  "build_toc_none = push_bit 26 (ucast (toc_type_id TNone))"

definition build_toc_offset_len :: "u8 \<Rightarrow> nat \<Rightarrow> nat \<Rightarrow> u32" where
  "build_toc_offset_len entry_type len offset =
     push_bit 26 (ucast entry_type) OR push_bit 13 (of_nat len AND 0x1FFF) OR (of_nat offset AND 0x1FFF)"

definition write_toc_word :: "nat \<Rightarrow> nat \<Rightarrow> u32 \<Rightarrow> u8 list \<Rightarrow> u8 list run" where
  "write_toc_word header_len toc_index word buf =
     (let base = header_len + toc_index * 4 in
      if base + 4 \<le> length buf then Ok (splice_at base (to_be 4 word) buf) else Panic)"

definition decode_toc_entry :: "u8 list \<Rightarrow> nat \<Rightarrow> nat \<Rightarrow> nat \<Rightarrow> TocEntry run" where
  "decode_toc_entry buf header_len toc_index data_start =
     bindr (read_toc_word buf header_len toc_index) (\<lambda>word.
       let entry_type = raw_toc_entry_type word;
           u16_value = read_toc_inline_u16 buf header_len toc_index;
           bytes = read_toc_buffer buf header_len toc_index data_start
       in if entry_type = 0 then bindr u16_value (\<lambda>v. Ok (SessionId v))
          else if entry_type = 1 then bindr u16_value (\<lambda>v. Ok (KeyId v))
          else if entry_type = 2 then bindr bytes (\<lambda>b. Ok (SealedKey b))
          else if entry_type = 3 then Ok (Uint8 (raw_toc_inline_u8 word))
          else if entry_type = 4 then bindr u16_value (\<lambda>v. Ok (Uint16 v))
          else if entry_type = 5
            then bindr (read_toc_uint32 buf header_len toc_index data_start) (\<lambda>v. Ok (Uint32 v))
          else if entry_type = 6
            then bindr (read_toc_uint64 buf header_len toc_index data_start) (\<lambda>v. Ok (Uint64 v))
          else if entry_type = 7 then bindr bytes (\<lambda>b. Ok (Buffer b))
          else if entry_type = 8 then Ok NoneEntry
          else if entry_type = 9 then bindr bytes (\<lambda>b. Ok (Padding b))
          else Ok (Unknown entry_type word))"

section \<open>Views\<close>

definition validate_toc_entry :: "u8 list \<Rightarrow> nat \<Rightarrow> nat \<Rightarrow> nat \<Rightarrow> unit run" where
  "validate_toc_entry buf header_len data_size i =
     bindr (read_toc_word buf header_len i) (\<lambda>word.
       let entry_type = raw_toc_entry_type word in
       if entry_type = 0 \<or> entry_type = 1 \<or> entry_type = 3 \<or> entry_type = 4 then Ok ()
       else if entry_type = 8 then
         (if word AND 0x03FFFFFF \<noteq> 0 then Err TborInvalidNonePayload else Ok ())
       else if entry_type = 2 \<or> entry_type = 5 \<or> entry_type = 6 \<or> entry_type = 7 \<or> entry_type = 9 then
         (let len = raw_toc_length word; offset = raw_toc_offset word in
          if offset + len > data_size then Err TborOffsetLengthOutOfBounds
          else if entry_type = 5 \<and> len \<noteq> 4 then Err TborInvalidFixedLength
          else if entry_type = 6 \<and> len \<noteq> 8 then Err TborInvalidFixedLength
          else Ok ())
       else Ok ())"

definition validate_toc_entries :: "u8 list \<Rightarrow> nat \<Rightarrow> nat \<Rightarrow> nat \<Rightarrow> unit run" where
  "validate_toc_entries buf header_len toc_count data_size =
     fold_run (\<lambda>i _. validate_toc_entry buf header_len data_size i) [0..<toc_count] ()"

text \<open>\<open>count_at\<close>: the header byte whose low five bits hold the number of entries less one.\<close>

definition parse_message :: "nat \<Rightarrow> nat \<Rightarrow> u8 list \<Rightarrow> unit run" where
  "parse_message header_len count_at buf =
     (if length buf < header_len + 4 then Err TborBufferTooShort
      else if buf ! 0 \<noteq> PROTOCOL_VERSION then Err TborUnsupportedVersion
      else let toc_count = unat (buf ! count_at AND 0x1F) + 1;
               min_len = header_len + toc_count * 4 in
        if length buf < min_len then Err TborMessageTruncated
        else let data_start = header_len + toc_count * 4; data_size = length buf - data_start in
          validate_toc_entries buf header_len toc_count data_size)"

definition byte_at :: "u8 list \<Rightarrow> nat \<Rightarrow> u8 run" where
  "byte_at buf i = (if i < length buf then Ok (buf ! i) else Panic)"

definition message_toc_count :: "nat \<Rightarrow> u8 list \<Rightarrow> nat run" where
  "message_toc_count count_at buf = bindr (byte_at buf count_at) (\<lambda>b. Ok (unat (b AND 0x1F) + 1))"

definition message_data_start :: "nat \<Rightarrow> nat \<Rightarrow> u8 list \<Rightarrow> nat run" where
  "message_data_start header_len count_at buf =
     bindr (message_toc_count count_at buf) (\<lambda>n. Ok (header_len + n * 4))"

text \<open>\<open>usize\<close> subtraction and open-ended slices panic below zero and past the end.\<close>

definition message_data_size :: "nat \<Rightarrow> nat \<Rightarrow> u8 list \<Rightarrow> nat run" where
  "message_data_size header_len count_at buf =
     bindr (message_data_start header_len count_at buf)
       (\<lambda>d. if d \<le> length buf then Ok (length buf - d) else Panic)"

definition message_data_section :: "nat \<Rightarrow> nat \<Rightarrow> u8 list \<Rightarrow> u8 list run" where
  "message_data_section header_len count_at buf =
     bindr (message_data_start header_len count_at buf)
       (\<lambda>d. if d \<le> length buf then Ok (drop d buf) else Panic)"

definition message_toc_entry :: "nat \<Rightarrow> nat \<Rightarrow> u8 list \<Rightarrow> nat \<Rightarrow> TocEntry run" where
  "message_toc_entry header_len count_at buf index =
     bindr (message_data_start header_len count_at buf) (\<lambda>d. decode_toc_entry buf header_len index d)"

definition message_toc_iter :: "nat \<Rightarrow> nat \<Rightarrow> u8 list \<Rightarrow> TocEntry list run" where
  "message_toc_iter header_len count_at buf =
     bindr (message_toc_count count_at buf) (\<lambda>count.
     bindr (message_data_start header_len count_at buf) (\<lambda>data_start.
       map_run (\<lambda>i. decode_toc_entry buf header_len i data_start) [0..<count]))"

record RequestView =
  req_buf :: "u8 list"

definition req_parse :: "u8 list \<Rightarrow> RequestView run" where
  "req_parse buf = bindr (parse_message REQ_HEADER_LEN 2 buf) (\<lambda>_. Ok \<lparr>req_buf = buf\<rparr>)"

definition req_version :: "RequestView \<Rightarrow> u8 run" where
  "req_version v = byte_at (req_buf v) 0"

definition req_opcode :: "RequestView \<Rightarrow> u8 run" where
  "req_opcode v = byte_at (req_buf v) 3"

definition req_toc_count :: "RequestView \<Rightarrow> nat run" where
  "req_toc_count v = message_toc_count 2 (req_buf v)"

definition req_data_start :: "RequestView \<Rightarrow> nat run" where
  "req_data_start v = message_data_start REQ_HEADER_LEN 2 (req_buf v)"

definition req_data_size :: "RequestView \<Rightarrow> nat run" where
  "req_data_size v = message_data_size REQ_HEADER_LEN 2 (req_buf v)"

definition req_len :: "RequestView \<Rightarrow> nat" where
  "req_len v = length (req_buf v)"

definition req_is_empty :: "RequestView \<Rightarrow> bool" where
  "req_is_empty v \<longleftrightarrow> req_buf v = []"

definition req_as_bytes :: "RequestView \<Rightarrow> u8 list" where
  "req_as_bytes v = req_buf v"

definition req_toc_entry_type :: "RequestView \<Rightarrow> nat \<Rightarrow> u8 run" where
  "req_toc_entry_type v index =
     bindr (read_toc_word (req_buf v) REQ_HEADER_LEN index) (\<lambda>word. Ok (raw_toc_entry_type word))"

definition req_toc_entry :: "RequestView \<Rightarrow> nat \<Rightarrow> TocEntry run" where
  "req_toc_entry v index = message_toc_entry REQ_HEADER_LEN 2 (req_buf v) index"

definition req_toc_iter :: "RequestView \<Rightarrow> TocEntry list run" where
  "req_toc_iter v = message_toc_iter REQ_HEADER_LEN 2 (req_buf v)"

definition req_data_section :: "RequestView \<Rightarrow> u8 list run" where
  "req_data_section v = message_data_section REQ_HEADER_LEN 2 (req_buf v)"

record ResponseView =
  resp_buf :: "u8 list"

definition resp_parse :: "u8 list \<Rightarrow> ResponseView run" where
  "resp_parse buf = bindr (parse_message RESP_HEADER_LEN 3 buf) (\<lambda>_. Ok \<lparr>resp_buf = buf\<rparr>)"

definition resp_version :: "ResponseView \<Rightarrow> u8 run" where
  "resp_version v = byte_at (resp_buf v) 0"

definition resp_flags :: "ResponseView \<Rightarrow> u8 run" where
  "resp_flags v = byte_at (resp_buf v) 1"

definition fips_approved :: "ResponseView \<Rightarrow> bool run" where
  "fips_approved v = bindr (byte_at (resp_buf v) 1) (\<lambda>b. Ok (b AND 1 \<noteq> 0))"

definition resp_status :: "ResponseView \<Rightarrow> u32 run" where
  "resp_status v = (if 8 \<le> length (resp_buf v) then Ok (from_le (slice 4 4 (resp_buf v))) else Panic)"

definition resp_toc_count :: "ResponseView \<Rightarrow> nat run" where
  "resp_toc_count v = message_toc_count 3 (resp_buf v)"

definition resp_data_start :: "ResponseView \<Rightarrow> nat run" where
  "resp_data_start v = message_data_start RESP_HEADER_LEN 3 (resp_buf v)"

definition resp_data_size :: "ResponseView \<Rightarrow> nat run" where
  "resp_data_size v = message_data_size RESP_HEADER_LEN 3 (resp_buf v)"

definition resp_len :: "ResponseView \<Rightarrow> nat" where
  "resp_len v = length (resp_buf v)"

definition resp_is_empty :: "ResponseView \<Rightarrow> bool" where
  "resp_is_empty v \<longleftrightarrow> resp_buf v = []"

definition resp_as_bytes :: "ResponseView \<Rightarrow> u8 list" where
  "resp_as_bytes v = resp_buf v"

definition resp_toc_entry_type :: "ResponseView \<Rightarrow> nat \<Rightarrow> u8 run" where
  "resp_toc_entry_type v index =
     bindr (read_toc_word (resp_buf v) RESP_HEADER_LEN index) (\<lambda>word. Ok (raw_toc_entry_type word))"

definition resp_toc_entry :: "ResponseView \<Rightarrow> nat \<Rightarrow> TocEntry run" where
  "resp_toc_entry v index = message_toc_entry RESP_HEADER_LEN 3 (resp_buf v) index"

definition resp_toc_iter :: "ResponseView \<Rightarrow> TocEntry list run" where
  "resp_toc_iter v = message_toc_iter RESP_HEADER_LEN 3 (resp_buf v)"

definition resp_data_section :: "ResponseView \<Rightarrow> u8 list run" where
  "resp_data_section v = message_data_section RESP_HEADER_LEN 3 (resp_buf v)"

section \<open>Encoders\<close>

text \<open>
  The fields both encoders have; each method consumes the encoder, so a failed call returns only
  its error.
\<close>

record Encoder =
  enc_buf :: "u8 list"
  toc_words :: "u32 list"
  enc_toc_count :: nat
  data_offset :: nat

definition push_toc :: "u32 \<Rightarrow> 'z Encoder_scheme \<Rightarrow> 'z Encoder_scheme run" where
  "push_toc word e =
     (if enc_toc_count e \<ge> MAX_TOC_ENTRIES then Err TborTooManyTocEntries
      else Ok (e\<lparr>toc_words := (toc_words e)[enc_toc_count e := word], enc_toc_count := enc_toc_count e + 1\<rparr>))"

definition stage_data :: "nat \<Rightarrow> u8 list \<Rightarrow> 'z Encoder_scheme \<Rightarrow> 'z Encoder_scheme run" where
  "stage_data header_len data e =
     (let stage_base = header_len + MAX_TOC_ENTRIES * 4;
          dst_start = stage_base + data_offset e;
          dst_end = dst_start + length data in
      if dst_end > length (enc_buf e) then Err TborBufferTooSmall
      else let e' = e\<lparr>enc_buf := splice_at dst_start data (enc_buf e),
                      data_offset := data_offset e + length data\<rparr> in
        if data_offset e' > MAX_DATA_SIZE then Err TborDataOffsetOverflow else Ok e')"

definition enc_session_id :: "u16 \<Rightarrow> 'z Encoder_scheme \<Rightarrow> 'z Encoder_scheme run" where
  "enc_session_id sid = push_toc (build_toc_inline_u16 (toc_type_id TSessionId) sid)"

definition enc_key_id :: "u16 \<Rightarrow> 'z Encoder_scheme \<Rightarrow> 'z Encoder_scheme run" where
  "enc_key_id kid = push_toc (build_toc_inline_u16 (toc_type_id TKeyId) kid)"

definition enc_uint8 :: "u8 \<Rightarrow> 'z Encoder_scheme \<Rightarrow> 'z Encoder_scheme run" where
  "enc_uint8 v = push_toc (build_toc_inline_u8 (toc_type_id TUint8) v)"

definition enc_uint16 :: "u16 \<Rightarrow> 'z Encoder_scheme \<Rightarrow> 'z Encoder_scheme run" where
  "enc_uint16 v = push_toc (build_toc_inline_u16 (toc_type_id TUint16) v)"

definition enc_uint32 :: "nat \<Rightarrow> u32 \<Rightarrow> 'z Encoder_scheme \<Rightarrow> 'z Encoder_scheme run" where
  "enc_uint32 header_len v e =
     (let offset = data_offset e in
      bindr (push_toc (build_toc_offset_len (toc_type_id TUint32) 4 offset) e)
        (stage_data header_len (to_le 4 v)))"

definition enc_uint64 :: "nat \<Rightarrow> u64 \<Rightarrow> 'z Encoder_scheme \<Rightarrow> 'z Encoder_scheme run" where
  "enc_uint64 header_len v e =
     (let offset = data_offset e in
      bindr (push_toc (build_toc_offset_len (toc_type_id TUint64) 8 offset) e)
        (stage_data header_len (to_le 8 v)))"

definition enc_buffer :: "nat \<Rightarrow> u8 list \<Rightarrow> 'z Encoder_scheme \<Rightarrow> 'z Encoder_scheme run" where
  "enc_buffer header_len data e =
     (let offset = data_offset e in
      if length data > MAX_DATA_SIZE then Err TborDataTooLarge
      else bindr (push_toc (build_toc_offset_len (toc_type_id TBuffer) (length data) offset) e)
        (stage_data header_len data))"

definition enc_buffer_reserve :: "nat \<Rightarrow> 'z Encoder_scheme \<Rightarrow> 'z Encoder_scheme run" where
  "enc_buffer_reserve len e =
     (let offset = data_offset e in
      if len > MAX_DATA_SIZE then Err TborDataTooLarge
      else bindr (push_toc (build_toc_offset_len (toc_type_id TBuffer) len offset) e)
        (\<lambda>e. Ok (e\<lparr>data_offset := data_offset e + len\<rparr>)))"

definition enc_sealed_key :: "nat \<Rightarrow> u8 list \<Rightarrow> 'z Encoder_scheme \<Rightarrow> 'z Encoder_scheme run" where
  "enc_sealed_key header_len data e =
     (let offset = data_offset e in
      if length data > MAX_DATA_SIZE then Err TborDataTooLarge
      else bindr (push_toc (build_toc_offset_len (toc_type_id TSealedKey) (length data) offset) e)
        (stage_data header_len data))"

definition enc_none :: "'z Encoder_scheme \<Rightarrow> 'z Encoder_scheme run" where
  "enc_none = push_toc build_toc_none"

definition enc_padding :: "nat \<Rightarrow> nat \<Rightarrow> 'z Encoder_scheme \<Rightarrow> 'z Encoder_scheme run" where
  "enc_padding header_len len e =
     (let offset = data_offset e in
      if len > MAX_DATA_SIZE then Err TborDataTooLarge
      else bindr (push_toc (build_toc_offset_len (toc_type_id TPadding) len offset) e) (\<lambda>e.
        if len > 0 then
          (let stage_base = header_len + MAX_TOC_ENTRIES * 4;
               dst_start = stage_base + data_offset e;
               dst_end = dst_start + len in
           if dst_end > length (enc_buf e) then Err TborBufferTooSmall
           else Ok (e\<lparr>enc_buf := splice_at dst_start (replicate len 0) (enc_buf e),
                      data_offset := data_offset e + len\<rparr>))
        else Ok e))"

text \<open>
  \<open>copy_within\<close> reads its source range before it writes, and panics when that range leaves the
  buffer. \<open>header\<close> holds the bytes the encoder writes in front of the table.
\<close>

definition enc_finish :: "nat \<Rightarrow> u8 list \<Rightarrow> 'z Encoder_scheme \<Rightarrow> u8 list run" where
  "enc_finish header_len header e =
     (if enc_toc_count e = 0 then Err TborTooManyTocEntries
      else let data_start = header_len + enc_toc_count e * 4; total = data_start + data_offset e in
        if total > length (enc_buf e) then Err TborBufferTooSmall
        else let stage_base = header_len + MAX_TOC_ENTRIES * 4 in
          bindr (if data_offset e > 0 \<and> stage_base \<noteq> data_start then
                   (if stage_base + data_offset e \<le> length (enc_buf e)
                    then Ok (splice_at data_start (slice stage_base (data_offset e) (enc_buf e)) (enc_buf e))
                    else Panic)
                 else Ok (enc_buf e)) (\<lambda>buf.
          bindr (fold_run (\<lambda>i. write_toc_word header_len i (toc_words e ! i)) [0..<enc_toc_count e]
                   (splice_at 0 header buf)) (\<lambda>buf.
          Ok (take total buf))))"

definition enc_encoded_len :: "nat \<Rightarrow> 'z Encoder_scheme \<Rightarrow> nat" where
  "enc_encoded_len header_len e = header_len + enc_toc_count e * 4 + data_offset e"

record RequestEncoder = Encoder +
  reqe_version :: u8
  reqe_opcode :: u8

definition req_new :: "u8 list \<Rightarrow> u8 \<Rightarrow> u8 \<Rightarrow> RequestEncoder" where
  "req_new buf version opcode =
     \<lparr>enc_buf = buf, toc_words = replicate MAX_TOC_ENTRIES 0, enc_toc_count = 0, data_offset = 0,
      reqe_version = version, reqe_opcode = opcode\<rparr>"

definition req_finish :: "RequestEncoder \<Rightarrow> u8 list run" where
  "req_finish e =
     (let hdr = (from_le [reqe_version e, 0, of_nat (enc_toc_count e - 1), reqe_opcode e] :: u32) in
      enc_finish REQ_HEADER_LEN (to_le 4 hdr) e)"

record ResponseEncoder = Encoder +
  respe_version :: u8
  respe_flags :: u8
  respe_status :: u32

definition resp_new :: "u8 list \<Rightarrow> u8 \<Rightarrow> u32 \<Rightarrow> bool \<Rightarrow> ResponseEncoder" where
  "resp_new buf version status fips =
     \<lparr>enc_buf = buf, toc_words = replicate MAX_TOC_ENTRIES 0, enc_toc_count = 0, data_offset = 0,
      respe_version = version, respe_flags = (if fips then 1 else 0), respe_status = status\<rparr>"

definition resp_finish :: "ResponseEncoder \<Rightarrow> u8 list run" where
  "resp_finish e =
     (let hdr0 = (from_le [respe_version e, respe_flags e, 0, of_nat (enc_toc_count e - 1)] :: u32) in
      enc_finish RESP_HEADER_LEN (to_le 4 hdr0 @ to_le 4 (respe_status e)) e)"

definition resp_push_toc :: "u32 \<Rightarrow> ResponseEncoder \<Rightarrow> ResponseEncoder run" where
  "resp_push_toc = push_toc"

definition resp_stage_data :: "u8 list \<Rightarrow> ResponseEncoder \<Rightarrow> ResponseEncoder run" where
  "resp_stage_data = stage_data RESP_HEADER_LEN"

definition resp_session_id :: "u16 \<Rightarrow> ResponseEncoder \<Rightarrow> ResponseEncoder run" where
  "resp_session_id = enc_session_id"

definition resp_key_id :: "u16 \<Rightarrow> ResponseEncoder \<Rightarrow> ResponseEncoder run" where
  "resp_key_id = enc_key_id"

definition resp_uint8 :: "u8 \<Rightarrow> ResponseEncoder \<Rightarrow> ResponseEncoder run" where
  "resp_uint8 = enc_uint8"

definition resp_uint16 :: "u16 \<Rightarrow> ResponseEncoder \<Rightarrow> ResponseEncoder run" where
  "resp_uint16 = enc_uint16"

definition resp_uint32 :: "u32 \<Rightarrow> ResponseEncoder \<Rightarrow> ResponseEncoder run" where
  "resp_uint32 = enc_uint32 RESP_HEADER_LEN"

definition resp_uint64 :: "u64 \<Rightarrow> ResponseEncoder \<Rightarrow> ResponseEncoder run" where
  "resp_uint64 = enc_uint64 RESP_HEADER_LEN"

definition resp_buffer :: "u8 list \<Rightarrow> ResponseEncoder \<Rightarrow> ResponseEncoder run" where
  "resp_buffer = enc_buffer RESP_HEADER_LEN"

definition resp_buffer_reserve :: "nat \<Rightarrow> ResponseEncoder \<Rightarrow> ResponseEncoder run" where
  "resp_buffer_reserve = enc_buffer_reserve"

definition resp_sealed_key :: "u8 list \<Rightarrow> ResponseEncoder \<Rightarrow> ResponseEncoder run" where
  "resp_sealed_key = enc_sealed_key RESP_HEADER_LEN"

definition resp_none :: "ResponseEncoder \<Rightarrow> ResponseEncoder run" where
  "resp_none = enc_none"

definition resp_padding :: "nat \<Rightarrow> ResponseEncoder \<Rightarrow> ResponseEncoder run" where
  "resp_padding = enc_padding RESP_HEADER_LEN"

definition resp_encoded_len :: "ResponseEncoder \<Rightarrow> nat" where
  "resp_encoded_len = enc_encoded_len RESP_HEADER_LEN"

end
