(* ===== verification/TborProperties.thy ===== *)
theory TborProperties
  imports Tbor
begin

text \<open>
  Correctness of the TBOR codec: the fields of a table-of-contents word read back what was packed,
  an encoded message is its header, its words and its data in this order, the views accept it and
  return the entries that were encoded, and a view of any accepted message never panics. The
  lemmas on messages are stated once for a header of any length (\<open>tbor_header\<close>) and interpreted
  for requests and for responses.
\<close>

section \<open>Words\<close>

lemma toc_masks:
  "(0x1FFF :: u32) = mask 13" "(0x3F :: u32) = mask 6" "(0xFF :: u32) = mask 8" "(0xFFFF :: u32) = mask 16"
  "(0x03FFFFFF :: u32) = mask 26"
  by (simp_all add: mask_eq_exp_minus_1)

lemma type_id_eq [simp]:
  "toc_type_id t = 0 \<longleftrightarrow> t = TSessionId" "toc_type_id t = 1 \<longleftrightarrow> t = TKeyId" "toc_type_id t = 2 \<longleftrightarrow> t = TSealedKey"
  "toc_type_id t = 3 \<longleftrightarrow> t = TUint8" "toc_type_id t = 4 \<longleftrightarrow> t = TUint16" "toc_type_id t = 5 \<longleftrightarrow> t = TUint32"
  "toc_type_id t = 6 \<longleftrightarrow> t = TUint64" "toc_type_id t = 7 \<longleftrightarrow> t = TBuffer" "toc_type_id t = 8 \<longleftrightarrow> t = TNone"
  "toc_type_id t = 9 \<longleftrightarrow> t = TPadding"
  by (cases t; simp)+

lemma bit_type_id: "bit (toc_type_id t) i \<Longrightarrow> i < 6"
proof -
  have "take_bit 6 (toc_type_id t) = toc_type_id t" by (cases t) simp_all
  then show "bit (toc_type_id t) i \<Longrightarrow> i < 6" by (metis bit_take_bit_iff)
qed

declare toc_type_id.simps [simp del]

lemma unat_of_nat_mask13: "unat (of_nat n AND mask 13 :: u32) = n mod 8192"
proof -
  have "unat (of_nat n AND mask 13 :: u32) = take_bit 13 (take_bit 32 n)"
    by (simp add: unsigned_take_bit_eq unsigned_of_nat flip: take_bit_eq_mask)
  then show ?thesis by (simp add: take_bit_eq_mod mod_mod_cancel)
qed

lemmas toc_word_defs = raw_toc_entry_type_def raw_toc_length_def raw_toc_offset_def raw_toc_inline_u8_def
  raw_toc_inline_u16_def build_toc_inline_u8_def build_toc_inline_u16_def build_toc_none_def build_toc_offset_len_def

lemma raw_type_build [simp]:
  "raw_toc_entry_type (build_toc_inline_u8 (toc_type_id t) v) = toc_type_id t"
  "raw_toc_entry_type (build_toc_inline_u16 (toc_type_id t) w) = toc_type_id t"
  "raw_toc_entry_type build_toc_none = toc_type_id TNone"
  "raw_toc_entry_type (build_toc_offset_len (toc_type_id t) l k) = toc_type_id t"
  unfolding toc_word_defs toc_masks
  by (rule bit_word_eqI, auto simp: bit_simps dest: bit_type_id bit_imp_le_length)+

lemma raw_inline_build [simp]:
  "raw_toc_inline_u8 (build_toc_inline_u8 (toc_type_id t) v) = v"
  "raw_toc_inline_u16 (build_toc_inline_u16 (toc_type_id t) w) = w"
  unfolding toc_word_defs toc_masks
  by (rule bit_word_eqI, auto simp: bit_simps dest: bit_imp_le_length)+

lemma raw_offset_len_build [simp]:
  "raw_toc_length (build_toc_offset_len (toc_type_id t) l k) = l mod 8192"
  "raw_toc_offset (build_toc_offset_len (toc_type_id t) l k) = k mod 8192"
proof -
  have "drop_bit 13 (push_bit 26 (ucast (toc_type_id t)) OR push_bit 13 (of_nat l AND mask 13) OR
      (of_nat k AND mask 13)) AND mask 13 = (of_nat l AND mask 13 :: u32)"
    by (rule bit_word_eqI) (auto simp: bit_simps dest: bit_imp_le_length)
  then show "raw_toc_length (build_toc_offset_len (toc_type_id t) l k) = l mod 8192"
    by (simp add: toc_word_defs toc_masks unat_of_nat_mask13)
  have "(push_bit 26 (ucast (toc_type_id t)) OR push_bit 13 (of_nat l AND mask 13) OR
      (of_nat k AND mask 13)) AND mask 13 = (of_nat k AND mask 13 :: u32)"
    by (rule bit_word_eqI) (auto simp: bit_simps)
  then show "raw_toc_offset (build_toc_offset_len (toc_type_id t) l k) = k mod 8192"
    by (simp add: toc_word_defs toc_masks unat_of_nat_mask13)
qed

lemma none_payload [simp]: "build_toc_none AND 0x03FFFFFF = 0"
  by (simp add: build_toc_none_def toc_type_id.simps)

lemma raw_bounds: "raw_toc_length w \<le> MAX_DATA_SIZE" "raw_toc_offset w \<le> MAX_DATA_SIZE"
proof -
  have "unat (v AND mask 13 :: u32) < 8192" for v
    using unat_of_nat_mask13 [of "unat v"] by simp
  then show "raw_toc_length w \<le> MAX_DATA_SIZE" "raw_toc_offset w \<le> MAX_DATA_SIZE"
    unfolding raw_toc_length_def raw_toc_offset_def toc_masks MAX_DATA_SIZE_def
    by (simp_all add: less_Suc_eq_le [symmetric])
qed

section \<open>The wire form of a list of entries\<close>

fun payload :: "TocEntry \<Rightarrow> u8 list" where
  "payload (SealedKey b) = b"
| "payload (Uint32 v) = to_le 4 v"
| "payload (Uint64 v) = to_le 8 v"
| "payload (Buffer b) = b"
| "payload (Padding b) = b"
| "payload _ = []"

fun word_of :: "nat \<Rightarrow> TocEntry \<Rightarrow> u32" where
  "word_of off (SessionId v) = build_toc_inline_u16 (toc_type_id TSessionId) v"
| "word_of off (KeyId v) = build_toc_inline_u16 (toc_type_id TKeyId) v"
| "word_of off (SealedKey b) = build_toc_offset_len (toc_type_id TSealedKey) (length b) off"
| "word_of off (Uint8 v) = build_toc_inline_u8 (toc_type_id TUint8) v"
| "word_of off (Uint16 v) = build_toc_inline_u16 (toc_type_id TUint16) v"
| "word_of off (Uint32 v) = build_toc_offset_len (toc_type_id TUint32) 4 off"
| "word_of off (Uint64 v) = build_toc_offset_len (toc_type_id TUint64) 8 off"
| "word_of off (Buffer b) = build_toc_offset_len (toc_type_id TBuffer) (length b) off"
| "word_of off NoneEntry = build_toc_none"
| "word_of off (Padding b) = build_toc_offset_len (toc_type_id TPadding) (length b) off"
| "word_of off (Unknown t w) = w"

primrec words_of :: "nat \<Rightarrow> TocEntry list \<Rightarrow> u32 list" where
  "words_of off [] = []"
| "words_of off (x # xs) = word_of off x # words_of (off + length (payload x)) xs"

definition data_of :: "TocEntry list \<Rightarrow> u8 list" where
  "data_of xs = concat (map payload xs)"

definition message :: "u8 list \<Rightarrow> u32 list \<Rightarrow> u8 list \<Rightarrow> u8 list" where
  "message header ws d = header @ concat (map (to_be 4) ws) @ d"

text \<open>What the encoders have a method for: padding is always zero, unknown types cannot be written.\<close>

fun encodable :: "TocEntry \<Rightarrow> bool" where
  "encodable (Padding b) \<longleftrightarrow> b = replicate (length b) 0"
| "encodable (Unknown t w) \<longleftrightarrow> False"
| "encodable _ \<longleftrightarrow> True"

text \<open>The encoder method for an entry.\<close>

fun put :: "nat \<Rightarrow> TocEntry \<Rightarrow> 'z Encoder_scheme \<Rightarrow> 'z Encoder_scheme run" where
  "put h (SessionId v) = enc_session_id v"
| "put h (KeyId v) = enc_key_id v"
| "put h (SealedKey b) = enc_sealed_key h b"
| "put h (Uint8 v) = enc_uint8 v"
| "put h (Uint16 v) = enc_uint16 v"
| "put h (Uint32 v) = enc_uint32 h v"
| "put h (Uint64 v) = enc_uint64 h v"
| "put h (Buffer b) = enc_buffer h b"
| "put h NoneEntry = enc_none"
| "put h (Padding b) = enc_padding h (length b)"
| "put h (Unknown t w) = (\<lambda>_. Err InvalidArg)"

fun resp_put :: "TocEntry \<Rightarrow> ResponseEncoder \<Rightarrow> ResponseEncoder run" where
  "resp_put (SessionId v) = resp_session_id v"
| "resp_put (KeyId v) = resp_key_id v"
| "resp_put (SealedKey b) = resp_sealed_key b"
| "resp_put (Uint8 v) = resp_uint8 v"
| "resp_put (Uint16 v) = resp_uint16 v"
| "resp_put (Uint32 v) = resp_uint32 v"
| "resp_put (Uint64 v) = resp_uint64 v"
| "resp_put (Buffer b) = resp_buffer b"
| "resp_put NoneEntry = resp_none"
| "resp_put (Padding b) = resp_padding (length b)"
| "resp_put (Unknown t w) = (\<lambda>_. Err InvalidArg)"

definition fits :: "nat \<Rightarrow> TocEntry list \<Rightarrow> u8 list \<Rightarrow> bool" where
  "fits h xs buf \<longleftrightarrow> list_all encodable xs \<and> 1 \<le> length xs \<and> length xs \<le> MAX_TOC_ENTRIES \<and>
     length (data_of xs) \<le> MAX_DATA_SIZE \<and> h + MAX_TOC_ENTRIES * 4 + length (data_of xs) \<le> length buf"

lemma data_of_simps [simp]: "data_of [] = []" "data_of (x # xs) = payload x @ data_of xs"
  by (simp_all add: data_of_def)

lemma length_words_of [simp]: "length (words_of off xs) = length xs"
  by (induction xs arbitrary: off) simp_all

lemma nth_words_of:
  "i < length xs \<Longrightarrow> words_of off xs ! i = word_of (off + length (data_of (take i xs))) (xs ! i)"
  by (induction xs arbitrary: off i) (auto simp: nth_Cons' take_Cons' add.assoc)

lemma data_of_take_split:
  "i < length xs \<Longrightarrow> data_of xs = data_of (take i xs) @ payload (xs ! i) @ data_of (drop (Suc i) xs)"
  by (metis append_take_drop_id Cons_nth_drop_Suc concat_append data_of_def data_of_simps(2) map_append)

lemma slice_payload:
  assumes "i < length xs"
  shows "slice (length (data_of (take i xs))) (length (payload (xs ! i))) (data_of xs) = payload (xs ! i)"
    "length (data_of (take i xs)) + length (payload (xs ! i)) \<le> length (data_of xs)"
  by (subst data_of_take_split [OF assms], simp add: slice_def) (simp add: data_of_take_split [OF assms])

lemma length_concat_words [simp]: "length (concat (map (to_be 4) ws)) = length ws * 4"
  by (induction ws) simp_all

lemma slice_concat_words:
  "i < length ws \<Longrightarrow> slice (i * 4) 4 (concat (map (to_be 4) ws)) = to_be 4 (ws ! i)"
proof (induction ws arbitrary: i)
  case (Cons w ws)
  show ?case
  proof (cases i)
    case 0
    then show ?thesis by (simp add: slice_def)
  next
    case (Suc j)
    have "slice (length (to_be 4 w) + j * 4) 4 (to_be 4 w @ concat (map (to_be 4) ws)) =
        slice (j * 4) 4 (concat (map (to_be 4) ws))"
      by (rule slice_append2)
    with Suc Cons show ?thesis by simp
  qed
qed simp

lemma and_0x1F: "unat ((b :: u8) AND 0x1F) = unat b mod 32"
proof -
  have "b AND 0x1F = take_bit 5 b" by (simp add: take_bit_eq_mask mask_eq_exp_minus_1)
  then have "unat (b AND 0x1F) = take_bit 5 (unat b)" by (simp only: unsigned_take_bit_eq)
  then show ?thesis by (simp add: take_bit_eq_mod)
qed

section \<open>Encoding\<close>

definition room :: "nat \<Rightarrow> nat \<Rightarrow> nat \<Rightarrow> 'z Encoder_scheme \<Rightarrow> bool" where
  "room h n k e \<longleftrightarrow> length (toc_words e) = MAX_TOC_ENTRIES \<and> enc_toc_count e + n \<le> MAX_TOC_ENTRIES \<and>
     data_offset e + k \<le> MAX_DATA_SIZE \<and> h + MAX_TOC_ENTRIES * 4 + data_offset e + k \<le> length (enc_buf e)"

definition added :: "nat \<Rightarrow> TocEntry list \<Rightarrow> 'z Encoder_scheme \<Rightarrow> 'z Encoder_scheme" where
  "added h xs e = e\<lparr>
     enc_buf := splice_at (h + MAX_TOC_ENTRIES * 4 + data_offset e) (data_of xs) (enc_buf e),
     toc_words := splice_at (enc_toc_count e) (words_of (data_offset e) xs) (toc_words e),
     enc_toc_count := enc_toc_count e + length xs,
     data_offset := data_offset e + length (data_of xs)\<rparr>"

lemma list_update_splice: "i < length xs \<Longrightarrow> xs[i := x] = splice_at i [x] xs"
  by (simp add: splice_at_def upd_conv_take_nth_drop)

lemma push_room:
  assumes "room h 1 k e"
  shows "push_toc w e =
    Ok (e\<lparr>toc_words := splice_at (enc_toc_count e) [w] (toc_words e), enc_toc_count := enc_toc_count e + 1\<rparr>)"
  using assms by (simp add: push_toc_def room_def list_update_splice)

lemma stage_room:
  assumes "room h n (length d) e"
  shows "stage_data h d e =
    Ok (e\<lparr>enc_buf := splice_at (h + MAX_TOC_ENTRIES * 4 + data_offset e) d (enc_buf e),
          data_offset := data_offset e + length d\<rparr>)"
  using assms by (simp add: stage_data_def room_def Let_def)

lemma push_stage_room:
  assumes "room h 1 (length d) e"
  shows "bindr (push_toc w e) (stage_data h d) =
    Ok (e\<lparr>enc_buf := splice_at (h + MAX_TOC_ENTRIES * 4 + data_offset e) d (enc_buf e),
          toc_words := splice_at (enc_toc_count e) [w] (toc_words e),
          enc_toc_count := enc_toc_count e + 1, data_offset := data_offset e + length d\<rparr>)"
proof -
  define e' where "e' = e\<lparr>toc_words := splice_at (enc_toc_count e) [w] (toc_words e),
      enc_toc_count := enc_toc_count e + 1\<rparr>"
  have "room h 0 (length d) e'" using assms by (simp add: room_def e'_def)
  from stage_room [OF this] push_room [OF assms, of w] show ?thesis by (simp add: e'_def)
qed

lemmas put_defs = enc_session_id_def enc_key_id_def enc_uint8_def enc_uint16_def enc_uint32_def enc_uint64_def
  enc_buffer_def enc_sealed_key_def enc_none_def

lemma put_room:
  assumes "encodable x" "room h 1 (length (payload x)) e"
  shows "put h x e = Ok (added h [x] e)"
proof -
  have small: "length (payload x) \<le> MAX_DATA_SIZE" using assms(2) by (simp add: room_def)
  show ?thesis
  proof (cases x)
    case (Padding b)
    have "bindr (push_toc w e) (\<lambda>e. if length b > 0 then
          (if h + MAX_TOC_ENTRIES * 4 + data_offset e + length b > length (enc_buf e) then Err TborBufferTooSmall
           else Ok (e\<lparr>enc_buf := splice_at (h + MAX_TOC_ENTRIES * 4 + data_offset e) (replicate (length b) 0) (enc_buf e),
                      data_offset := data_offset e + length b\<rparr>)) else Ok e) =
        Ok (e\<lparr>enc_buf := splice_at (h + MAX_TOC_ENTRIES * 4 + data_offset e) b (enc_buf e),
          toc_words := splice_at (enc_toc_count e) [w] (toc_words e),
          enc_toc_count := enc_toc_count e + 1, data_offset := data_offset e + length b\<rparr>)" for w
      using assms Padding push_room [OF assms(2), of w] by (simp add: room_def)
    with Padding small show ?thesis unfolding Padding put.simps enc_padding_def Let_def by (simp add: added_def)
  qed (use assms small in \<open>(simp add: added_def put_defs push_stage_room Let_def; fail) |
      (simp add: added_def put_defs push_room; fail)\<close>)+
qed

lemma data_of_append [simp]: "data_of (xs @ ys) = data_of xs @ data_of ys"
  by (simp add: data_of_def)

lemma words_of_append: "words_of off (xs @ ys) = words_of off xs @ words_of (off + length (data_of xs)) ys"
  by (induction xs arbitrary: off) (simp_all add: add.assoc)

lemma added_added:
  assumes "room h (length xs + length ys) (length (data_of xs) + length (data_of ys)) e"
  shows "added h ys (added h xs e) = added h (xs @ ys) e"
proof -
  let ?b = "h + MAX_TOC_ENTRIES * 4 + data_offset e"
  have "splice_at (?b + length (data_of xs)) (data_of ys) (splice_at ?b (data_of xs) (enc_buf e)) =
      splice_at ?b (data_of xs @ data_of ys) (enc_buf e)"
    by (rule splice_splice_append) (use assms in \<open>simp add: room_def\<close>)
  moreover have "splice_at (enc_toc_count e + length (words_of (data_offset e) xs)) ws
      (splice_at (enc_toc_count e) (words_of (data_offset e) xs) (toc_words e)) =
      splice_at (enc_toc_count e) (words_of (data_offset e) xs @ ws) (toc_words e)"
    if "length ws = length ys" for ws
    by (rule splice_splice_append) (use assms that in \<open>simp add: room_def\<close>)
  ultimately show ?thesis by (simp add: added_def words_of_append add.assoc)
qed

lemma room_added:
  assumes "room h (n + length xs) (k + length (data_of xs)) e"
  shows "room h n k (added h xs e)"
  using assms by (simp add: room_def added_def)

lemma put_all_room:
  assumes "list_all encodable xs" "room h (length xs) (length (data_of xs)) e"
  shows "fold_run (put h) xs e = Ok (added h xs e)"
  using assms
proof (induction xs arbitrary: e)
  case Nil
  then show ?case by (simp add: added_def)
next
  case (Cons x xs)
  have r: "room h 1 (length (payload x)) e" using Cons.prems(2) by (simp add: room_def)
  have "room h (length xs) (length (data_of xs)) (added h [x] e)"
    by (rule room_added) (use Cons.prems(2) in \<open>simp add: add.commute\<close>)
  then have "fold_run (put h) xs (added h [x] e) = Ok (added h xs (added h [x] e))"
    using Cons by simp
  moreover have "added h xs (added h [x] e) = added h (x # xs) e"
    using added_added [of h "[x]" xs e] Cons.prems(2) by simp
  ultimately show ?case using put_room [OF _ r] Cons.prems(1) by simp
qed

lemma write_words:
  assumes "h + length ws * 4 \<le> length b"
  shows "fold_run (\<lambda>i. write_toc_word h i (ws ! i)) [0..<length ws] b =
    Ok (splice_at h (concat (map (to_be 4) ws)) b)"
  using assms
proof (induction ws rule: rev_induct)
  case Nil
  then show ?case by simp
next
  case (snoc w ws)
  let ?t = "concat (map (to_be 4) ws)"
  have "fold_run (\<lambda>i. write_toc_word h i ((ws @ [w]) ! i)) [0..<length ws] b =
      fold_run (\<lambda>i. write_toc_word h i (ws ! i)) [0..<length ws] b"
    by (rule fold_run_cong) (simp_all add: nth_append)
  moreover have "splice_at (h + length ws * 4) (to_be 4 w) (splice_at h ?t b) = splice_at h (?t @ to_be 4 w) b"
    using splice_splice_append [of h ?t "to_be 4 w" b] snoc.prems by simp
  then have "write_toc_word h (length ws) w (splice_at h ?t b) = Ok (splice_at h (?t @ to_be 4 w) b)"
    using snoc.prems by (simp add: write_toc_word_def Let_def)
  ultimately show ?case
    using snoc by (simp add: fold_run_append)
qed

lemma enc_finish_eq:
  assumes "length header = h" "0 < enc_toc_count e" "enc_toc_count e \<le> MAX_TOC_ENTRIES"
    "length (toc_words e) = MAX_TOC_ENTRIES" "h + MAX_TOC_ENTRIES * 4 + data_offset e \<le> length (enc_buf e)"
  shows "enc_finish h header e = Ok (message header (take (enc_toc_count e) (toc_words e))
    (slice (h + MAX_TOC_ENTRIES * 4) (data_offset e) (enc_buf e)))"
proof -
  let ?n = "enc_toc_count e"
  let ?ds = "h + ?n * 4"
  let ?sb = "h + MAX_TOC_ENTRIES * 4"
  let ?d = "slice ?sb (data_offset e) (enc_buf e)"
  let ?ws = "take ?n (toc_words e)"
  let ?b = "splice_at ?ds ?d (enc_buf e)"
  have le: "?ds \<le> ?sb" using assms(3) by simp
  have d: "length ?d = data_offset e" using assms(5) by simp
  have n: "length ?ws = ?n" using assms(3,4) by simp
  have lb: "length ?b = length (enc_buf e)" using le d assms(5) by (intro length_splice_at) linarith
  have shift: "(if data_offset e > 0 \<and> ?sb \<noteq> ?ds
      then (if ?sb + data_offset e \<le> length (enc_buf e) then Ok ?b else Panic) else Ok (enc_buf e)) = Ok ?b"
  proof (cases "data_offset e > 0")
    case True
    then show ?thesis using assms(5) splice_slice_id [of ?sb "data_offset e" "enc_buf e"] by auto
  next
    case False
    then show ?thesis by (simp add: slice_def)
  qed
  let ?b1 = "splice_at 0 header ?b"
  have lb1: "length ?b1 = length (enc_buf e)" using lb assms(1,5) by simp
  have "fold_run (\<lambda>i. write_toc_word h i (toc_words e ! i)) [0..<?n] ?b1 =
      fold_run (\<lambda>i. write_toc_word h i (?ws ! i)) [0..<length ?ws] ?b1"
    unfolding n by (rule fold_run_cong) simp_all
  also have "\<dots> = Ok (splice_at h (concat (map (to_be 4) ?ws)) ?b1)"
    by (rule write_words) (use n lb1 le assms(5) in linarith)
  also have "splice_at h (concat (map (to_be 4) ?ws)) ?b1 = splice_at 0 (header @ concat (map (to_be 4) ?ws)) ?b"
    using splice_splice_append [of 0 header "concat (map (to_be 4) ?ws)" ?b] assms(1,5) n lb le by simp
  finally have w: "fold_run (\<lambda>i. write_toc_word h i (toc_words e ! i)) [0..<?n] ?b1 =
      Ok (splice_at 0 (header @ concat (map (to_be 4) ?ws)) ?b)" .
  have len: "length (header @ concat (map (to_be 4) ?ws)) = ?ds" using assms(1) n by simp
  have tk: "take (?ds + data_offset e) (splice_at 0 (header @ concat (map (to_be 4) ?ws)) ?b) =
      message header ?ws ?d"
    using take_splice_prefix [of "header @ concat (map (to_be 4) ?ws)" ?d "enc_buf e"] len d le assms(5)
    by (simp add: message_def)
  show ?thesis
    unfolding enc_finish_def Let_def shift bindr_simps w tk using assms(2,5) le by simp
qed

section \<open>Decoding\<close>

lemma read_word_message:
  assumes "length header = h" "i < length ws"
  shows "read_toc_word (message header ws d) h i = Ok (ws ! i)"
proof -
  have "slice (h + i * 4) 4 (message header ws d) = slice (i * 4) 4 (concat (map (to_be 4) ws) @ d)"
    unfolding message_def using assms(1) slice_append2 by blast
  also have "\<dots> = to_be 4 (ws ! i)"
    using assms(2) by (simp add: slice_concat_words)
  finally show ?thesis using assms by (simp add: read_toc_word_def message_def Let_def)
qed

lemma slice_message:
  assumes "length header = h"
  shows "slice (h + length ws * 4 + off) len (message header ws d) = slice off len d"
proof -
  have "length (header @ concat (map (to_be 4) ws)) = h + length ws * 4" using assms by simp
  then show ?thesis unfolding message_def
    using slice_append2 [of "header @ concat (map (to_be 4) ws)" off len d] by simp
qed

lemma length_message [simp]: "length (message header ws d) = length header + length ws * 4 + length d"
  by (simp add: message_def)

lemma decode_entry:
  assumes "read_toc_word m h i = Ok (word_of off x)" "encodable x" "off + length (payload x) \<le> MAX_DATA_SIZE"
    "ds + off + length (payload x) \<le> length m" "slice (ds + off) (length (payload x)) m = payload x"
  shows "decode_toc_entry m h i ds = Ok x" "validate_toc_entry m h (length m - ds) i = Ok ()"
proof -
  have "off < 8192" "length (payload x) < 8192" using assms(3) by (simp_all add: MAX_DATA_SIZE_def)
  then show "decode_toc_entry m h i ds = Ok x" "validate_toc_entry m h (length m - ds) i = Ok ()"
    using assms
    by (cases x; simp add: decode_toc_entry_def validate_toc_entry_def read_toc_inline_u16_def read_toc_buffer_def
        read_toc_uint32_def read_toc_uint64_def Let_def)+
qed

lemma decode_after_validate:
  assumes "validate_toc_entry buf h dsz i = Ok ()" "h + i * 4 + 4 \<le> length buf" "ds + dsz \<le> length buf"
  shows "\<exists>x. decode_toc_entry buf h i ds = Ok x"
proof -
  obtain w where "read_toc_word buf h i = Ok w" using assms(2) by (simp add: read_toc_word_def Let_def)
  then show ?thesis
    using assms(1,3)
    by (auto simp: decode_toc_entry_def validate_toc_entry_def read_toc_inline_u16_def read_toc_buffer_def
        read_toc_uint32_def read_toc_uint64_def Let_def split: if_splits)
qed

lemma validate_no_panic: "h + i * 4 + 4 \<le> length buf \<Longrightarrow> validate_toc_entry buf h dsz i \<noteq> Panic"
  by (simp add: validate_toc_entry_def read_toc_word_def Let_def)

text \<open>A message header: its first byte is the version, \<open>ci\<close> is the byte that holds the entry count.\<close>

locale tbor_header =
  fixes h ci :: nat
  assumes count_byte: "0 < ci" "ci < h"
begin

lemma parse_never_panics: "parse_message h ci buf \<noteq> Panic"
  unfolding parse_message_def Let_def validate_toc_entries_def
  by (auto intro!: fold_run_no_panic validate_no_panic split: if_splits)

lemma parsed_view:
  assumes "parse_message h ci buf = Ok ()"
  shows "\<exists>n xs. message_toc_count ci buf = Ok n \<and> 1 \<le> n \<and> n \<le> MAX_TOC_ENTRIES \<and>
    message_data_start h ci buf = Ok (h + n * 4) \<and> message_toc_iter h ci buf = Ok xs \<and> length xs = n \<and>
    map (message_toc_entry h ci buf) [0..<n] = map Ok xs \<and>
    message_data_section h ci buf = Ok (drop (h + n * 4) buf)"
proof -
  define n where "n = unat (buf ! ci AND 0x1F) + 1"
  have "unat (b AND 0x1F) < 32" for b :: u8 by (simp add: and_0x1F)
  then have n: "1 \<le> n" "n \<le> MAX_TOC_ENTRIES" by (simp_all add: n_def MAX_TOC_ENTRIES_def Suc_le_eq)
  have len: "h + n * 4 \<le> length buf" and
    val: "\<forall>i \<in> set [0..<n]. validate_toc_entry buf h (length buf - (h + n * 4)) i = Ok ()"
    using assms unfolding parse_message_def validate_toc_entries_def Let_def n_def [symmetric]
    by (simp_all add: fold_run_unit_Ok split: if_splits)
  have cnt: "message_toc_count ci buf = Ok n"
    using len count_byte by (simp add: message_toc_count_def byte_at_def n_def)
  then have ds: "message_data_start h ci buf = Ok (h + n * 4)" by (simp add: message_data_start_def)
  have dec: "\<exists>x. decode_toc_entry buf h i (h + n * 4) = Ok x" if "i < n" for i
    by (rule decode_after_validate) (use val len that in auto)
  then obtain xs where xs: "map_run (\<lambda>i. decode_toc_entry buf h i (h + n * 4)) [0..<n] = Ok xs" "length xs = n"
    using map_run_total [of "[0..<n]" "\<lambda>i. decode_toc_entry buf h i (h + n * 4)"] by auto
  have "map (message_toc_entry h ci buf) [0..<n] = map Ok xs"
    by (rule nth_equalityI) (use map_run_nth [OF xs(1)] xs(2) ds in \<open>simp_all add: message_toc_entry_def\<close>)
  with n cnt ds xs len show ?thesis
    by (auto simp: message_toc_iter_def message_data_section_def)
qed

lemma parse_encoded:
  assumes "length header = h" "header ! 0 = PROTOCOL_VERSION" "header ! ci = of_nat (length xs - 1)"
    "1 \<le> length xs" "length xs \<le> MAX_TOC_ENTRIES" "list_all encodable xs" "length (data_of xs) \<le> MAX_DATA_SIZE"
  shows "parse_message h ci (message header (words_of 0 xs) (data_of xs)) = Ok ()"
    "message_toc_iter h ci (message header (words_of 0 xs) (data_of xs)) = Ok xs"
proof -
  let ?m = "message header (words_of 0 xs) (data_of xs)"
  let ?ds = "h + length xs * 4"
  have hd: "?m ! 0 = PROTOCOL_VERSION" "?m ! ci = of_nat (length xs - 1)"
    using assms(1-3) count_byte by (simp_all add: message_def nth_append)
  obtain k where k: "length xs = Suc k" using assms(4) by (cases xs) simp_all
  have "?m ! ci = of_nat k" using hd(2) k by simp
  then have cnt: "unat (?m ! ci AND 0x1F) + 1 = length xs"
    using assms(5) k by (simp add: MAX_TOC_ENTRIES_def and_0x1F)
  have dec: "decode_toc_entry ?m h i ?ds = Ok (xs ! i)" "validate_toc_entry ?m h (length ?m - ?ds) i = Ok ()"
    if "i < length xs" for i
  proof -
    let ?off = "length (data_of (take i xs))"
    have r: "read_toc_word ?m h i = Ok (word_of ?off (xs ! i))"
      using read_word_message [OF assms(1), of i "words_of 0 xs"] that by (simp add: nth_words_of)
    have sl: "slice (?ds + ?off) (length (payload (xs ! i))) ?m = payload (xs ! i)"
      using slice_message [OF assms(1), of "words_of 0 xs" ?off] slice_payload(1) [OF that] by simp
    note args = r _ _ _ sl
    show "decode_toc_entry ?m h i ?ds = Ok (xs ! i)" "validate_toc_entry ?m h (length ?m - ?ds) i = Ok ()"
      by (rule decode_entry [OF args]; use assms(1,6,7) slice_payload(2) [OF that] that in
          \<open>simp add: list_all_length\<close>)+
  qed
  show "parse_message h ci ?m = Ok ()"
    unfolding parse_message_def Let_def cnt validate_toc_entries_def
    using hd assms(1,4) dec(2) by (simp add: fold_run_unit_Ok)
  have "message_toc_count ci ?m = Ok (length xs)"
    using cnt count_byte assms(1) by (simp add: message_toc_count_def byte_at_def)
  moreover have "map_run (\<lambda>i. decode_toc_entry ?m h i ?ds) [0..<length xs] = Ok (map ((!) xs) [0..<length xs])"
    by (rule map_run_Ok) (simp add: dec)
  ultimately show "message_toc_iter h ci ?m = Ok xs"
    by (simp add: message_toc_iter_def message_data_start_def map_nth)
qed

end


interpretation resph: tbor_header RESP_HEADER_LEN 3
  by unfold_locales (simp_all add: RESP_HEADER_LEN_def)

lemma resp_put_eq: "resp_put x = put RESP_HEADER_LEN x"
  by (cases x) (simp_all add: resp_session_id_def resp_key_id_def resp_sealed_key_def resp_uint8_def resp_uint16_def
      resp_uint32_def resp_uint64_def resp_buffer_def resp_none_def resp_padding_def)

lemma header_bytes: "to_le 4 (from_le [a, b, c, d] :: u32) = [a, b, c, d]"
  using to_le_from_le [of "[a, b, c, d]", where ?'a = 32] by (simp add: numeral_eq_Suc)

lemma finish_encoded:
  fixes e :: "'z Encoder_scheme"
  assumes "fits h xs (enc_buf e)" "length header = h" "toc_words e = replicate MAX_TOC_ENTRIES 0"
    "enc_toc_count e = 0" "data_offset e = 0"
  shows "fold_run (put h) xs e = Ok (added h xs e)"
    "enc_finish h header (added h xs e) = Ok (message header (words_of 0 xs) (data_of xs))"
proof -
  have room: "room h (length xs) (length (data_of xs)) e"
    using assms by (simp add: room_def fits_def)
  then show "fold_run (put h) xs e = Ok (added h xs e)"
    by (rule put_all_room [rotated]) (use assms(1) in \<open>simp add: fits_def\<close>)
  have "take (length xs) (splice_at 0 (words_of 0 xs) (toc_words e)) = words_of 0 xs"
    by (simp add: splice_at_def)
  moreover have "xs \<noteq> []" using assms(1) by (auto simp: fits_def)
  ultimately show "enc_finish h header (added h xs e) = Ok (message header (words_of 0 xs) (data_of xs))"
    using enc_finish_eq [OF assms(2), of "added h xs e"] assms by (auto simp: added_def fits_def)
qed

section \<open>Properties\<close>



text \<open>The same for responses, with the status code and the FIPS flag.\<close>

lemma response_round_trip:
  assumes "fits RESP_HEADER_LEN xs buf"
  shows "\<exists>m v. bindr (fold_run resp_put xs (resp_new buf PROTOCOL_VERSION status fips)) resp_finish = Ok m \<and>
    length m = RESP_HEADER_LEN + length xs * 4 + length (data_of xs) \<and> resp_parse m = Ok v \<and>
    resp_status v = Ok status \<and> fips_approved v = Ok fips \<and> resp_toc_iter v = Ok xs"
proof -
  let ?e = "resp_new buf PROTOCOL_VERSION status fips"
  let ?fl = "if fips then 1 else 0 :: u8"
  let ?hd = "[PROTOCOL_VERSION, ?fl, 0, of_nat (length xs - 1)] @ to_le 4 status"
  let ?m = "message ?hd (words_of 0 xs) (data_of xs)"
  have hl: "length ?hd = RESP_HEADER_LEN" by (simp add: RESP_HEADER_LEN_def)
  have f: "fits RESP_HEADER_LEN xs (enc_buf ?e)" using assms by (simp add: resp_new_def)
  note enc = finish_encoded [OF f hl]
  have fin: "bindr (fold_run resp_put xs ?e) resp_finish = Ok ?m"
    using enc by (simp add: resp_put_eq [abs_def] resp_finish_def header_bytes added_def resp_new_def)
  have "parse_message RESP_HEADER_LEN 3 ?m = Ok ()" "message_toc_iter RESP_HEADER_LEN 3 ?m = Ok xs"
    by (rule resph.parse_encoded [OF hl]; use assms in \<open>simp add: fits_def\<close>)+
  then have "resp_parse ?m = Ok \<lparr>resp_buf = ?m\<rparr>" "resp_toc_iter \<lparr>resp_buf = ?m\<rparr> = Ok xs"
    by (simp_all add: resp_parse_def resp_toc_iter_def)
  moreover have "fips_approved \<lparr>resp_buf = ?m\<rparr> = Ok fips"
    by (simp add: fips_approved_def byte_at_def message_def)
  moreover have "resp_status \<lparr>resp_buf = ?m\<rparr> = Ok status"
    by (simp add: resp_status_def message_def slice_def)
  ultimately show ?thesis using fin by (simp add: RESP_HEADER_LEN_def)
qed


text \<open>The same for responses.\<close>

lemma parsed_response_total:
  "case resp_parse buf of
     Ok v \<Rightarrow> resp_as_bytes v = buf \<and> (\<exists>ver fl st n xs d. resp_version v = Ok ver \<and> resp_flags v = Ok fl \<and>
       resp_status v = Ok st \<and> resp_toc_count v = Ok n \<and> n \<in> {1..MAX_TOC_ENTRIES} \<and> resp_toc_iter v = Ok xs \<and>
       map (resp_toc_entry v) [0..<n] = map Ok xs \<and> resp_data_section v = Ok d \<and> resp_data_size v = Ok (length d))
   | Err e \<Rightarrow> True
   | Panic \<Rightarrow> False"
proof (cases "parse_message RESP_HEADER_LEN 3 buf")
  case (Ok u)
  then have p: "parse_message RESP_HEADER_LEN 3 buf = Ok ()" by simp
  have "8 \<le> length buf"
    using p by (auto simp: parse_message_def RESP_HEADER_LEN_def split: if_splits)
  with p resph.parsed_view [OF p] show ?thesis
    by (auto simp: resp_parse_def resp_as_bytes_def resp_version_def resp_flags_def resp_status_def byte_at_def
        resp_toc_count_def resp_toc_iter_def resp_toc_entry_def [abs_def] resp_data_section_def resp_data_size_def
        message_data_size_def message_data_section_def split: if_splits)
qed (simp_all add: resp_parse_def resph.parse_never_panics)





end
