(* ===== verification/Mbor.thy ===== *)
theory Mbor
  imports Prelude
begin

text \<open>
  The firmware's codec for MBOR (\<open>fw/core/ddi/mbor/codec\<close>): the encoder over an output buffer
  (\<open>encode.rs\<close>), the decoder that peels fields off the front of the input (\<open>decode.rs\<close>) and the
  length computation a trusted encoder relies on (\<open>len.rs\<close>), followed by the round trip of each
  kind of field and of sequences of fields.
\<close>

section \<open>Wire format\<close>

definition MAP_MARKER :: u8 where "MAP_MARKER = 0xA0"
definition MAP_FIELD_COUNT_MASK :: u8 where "MAP_FIELD_COUNT_MASK = 0x1F"
definition BOOL_MARKER :: u8 where "BOOL_MARKER = 0x14"
definition BYTES_MARKER :: u8 where "BYTES_MARKER = 0x80"
definition BYTES_PAD_MASK :: u8 where "BYTES_PAD_MASK = 3"
definition UINT_MARKER :: u8 where "UINT_MARKER = 0x18"
definition U8_MARKER :: u8 where "U8_MARKER = UINT_MARKER OR 0"
definition U16_MARKER :: u8 where "U16_MARKER = UINT_MARKER OR 1"
definition U32_MARKER :: u8 where "U32_MARKER = UINT_MARKER OR 2"
definition U64_MARKER :: u8 where "U64_MARKER = UINT_MARKER OR 3"

lemmas mbor_markers = MAP_MARKER_def MAP_FIELD_COUNT_MASK_def BOOL_MARKER_def BYTES_MARKER_def BYTES_PAD_MASK_def
  UINT_MARKER_def U8_MARKER_def U16_MARKER_def U32_MARKER_def U64_MARKER_def

definition pad4 :: "u32 \<Rightarrow> u32" where
  "pad4 len = ((len + 3) AND NOT 3) - len"

section \<open>Encoder\<close>

datatype MborEncodeError = BufferOverflow | EncInvalidLen | EncInvalidParameter

text \<open>
  \<open>Overrun\<close>: a trusted encoder asked to write past its buffer, a failed \<open>debug_assert!\<close> in debug
  builds and an out-of-bounds write in release builds.
\<close>

datatype 'a enc_run = Done 'a | EncErr MborEncodeError | Overrun

record MborEncoder =
  buffer :: "u8 list"
  pos :: nat
  trusted :: bool

text \<open>With the crate feature \<open>trusted-encode\<close> every encoder behaves as a trusted one.\<close>

definition mbor_new :: "bool \<Rightarrow> u8 list \<Rightarrow> MborEncoder" where
  "mbor_new trusted_encode buf = \<lparr>buffer = buf, pos = 0, trusted = trusted_encode\<rparr>"

definition mbor_new_trusted :: "u8 list \<Rightarrow> MborEncoder" where
  "mbor_new_trusted buf = \<lparr>buffer = buf, pos = 0, trusted = True\<rparr>"

definition enc_position :: "MborEncoder \<Rightarrow> nat" where
  "enc_position e = pos e"

definition enc_remaining :: "MborEncoder \<Rightarrow> nat" where
  "enc_remaining e = length (buffer e) - pos e"

definition encode :: "u8 list \<Rightarrow> MborEncoder \<Rightarrow> unit enc_run \<times> MborEncoder" where
  "encode v e =
     (if length v + pos e > length (buffer e) then (if trusted e then Overrun else EncErr BufferOverflow, e)
      else (Done (), e\<lparr>buffer := splice_at (pos e) v (buffer e), pos := pos e + length v\<rparr>))"

definition then_encode ::
  "(MborEncoder \<Rightarrow> unit enc_run \<times> MborEncoder) \<Rightarrow> (MborEncoder \<Rightarrow> 'a enc_run \<times> MborEncoder) \<Rightarrow>
     MborEncoder \<Rightarrow> 'a enc_run \<times> MborEncoder" where
  "then_encode f g e = (case f e of
     (Done _, e') \<Rightarrow> g e' | (EncErr x, e') \<Rightarrow> (EncErr x, e') | (Overrun, e') \<Rightarrow> (Overrun, e'))"

definition encode_map :: "u8 \<Rightarrow> MborEncoder \<Rightarrow> unit enc_run \<times> MborEncoder" where
  "encode_map n = encode [MAP_MARKER OR (MAP_FIELD_COUNT_MASK AND n)]"

definition encode_u8 :: "u8 \<Rightarrow> MborEncoder \<Rightarrow> unit enc_run \<times> MborEncoder" where
  "encode_u8 v = encode [U8_MARKER, v]"

definition encode_u16 :: "u16 \<Rightarrow> MborEncoder \<Rightarrow> unit enc_run \<times> MborEncoder" where
  "encode_u16 v = encode (U16_MARKER # to_be 2 v)"

definition encode_u32 :: "u32 \<Rightarrow> MborEncoder \<Rightarrow> unit enc_run \<times> MborEncoder" where
  "encode_u32 v = encode (U32_MARKER # to_be 4 v)"

definition encode_u64 :: "u64 \<Rightarrow> MborEncoder \<Rightarrow> unit enc_run \<times> MborEncoder" where
  "encode_u64 v = encode (U64_MARKER # to_be 8 v)"

definition encode_bool :: "bool \<Rightarrow> MborEncoder \<Rightarrow> unit enc_run \<times> MborEncoder" where
  "encode_bool b = encode [BOOL_MARKER + (if b then 1 else 0)]"

definition encode_byte_slice :: "u8 list \<Rightarrow> MborEncoder \<Rightarrow> unit enc_run \<times> MborEncoder" where
  "encode_byte_slice bs =
     then_encode (encode (BYTES_MARKER # to_be 2 (of_nat (length bs) :: u16))) (encode bs)"

definition encode_padded :: "u8 list \<Rightarrow> u8 \<Rightarrow> MborEncoder \<Rightarrow> unit enc_run \<times> MborEncoder" where
  "encode_padded bs p =
     (let pad = BYTES_PAD_MASK AND p;
          hdr = (BYTES_MARKER OR pad) # to_be 2 (of_nat (length bs) :: u16) @ [0, 0, 0] in
      then_encode (encode (take (3 + unat pad) hdr)) (encode bs))"

text \<open>
  The framing of a byte field whose data is written later: marker, length and padding. The range
  of the data is returned as its start and length (\<open>encode_reserve\<close> returns the slice itself).
\<close>

definition reserve_offset :: "nat \<Rightarrow> u8 \<Rightarrow> MborEncoder \<Rightarrow> (nat \<times> nat) enc_run \<times> MborEncoder" where
  "reserve_offset data_len p e =
     (let pad = BYTES_PAD_MASK AND p; total = 1 + 2 + unat pad + data_len in
      if total + pos e > length (buffer e) then (if trusted e then Overrun else EncErr BufferOverflow, e)
      else
        let e = e\<lparr>buffer := (buffer e)[pos e := BYTES_MARKER OR pad], pos := pos e + 1\<rparr>;
            e = e\<lparr>buffer := splice_at (pos e) (to_be 2 (of_nat data_len :: u16)) (buffer e), pos := pos e + 2\<rparr>;
            e = fold (\<lambda>_ e. e\<lparr>buffer := (buffer e)[pos e := 0], pos := pos e + 1\<rparr>) [0..<unat pad] e;
            start = pos e
        in (Done (start, data_len), e\<lparr>pos := pos e + data_len\<rparr>))"

definition encode_reserve :: "nat \<Rightarrow> u8 \<Rightarrow> MborEncoder \<Rightarrow> (nat \<times> nat) enc_run \<times> MborEncoder" where
  "encode_reserve = reserve_offset"

section \<open>Length computation\<close>

definition incr :: "nat \<Rightarrow> nat \<Rightarrow> nat" where
  "incr n acc = acc + n"

definition len_uint :: "nat \<Rightarrow> nat \<Rightarrow> nat" where
  "len_uint sz = incr (1 + sz)"

definition len_bool :: "nat \<Rightarrow> nat" where
  "len_bool = incr 1"

definition len_map :: "nat \<Rightarrow> nat" where
  "len_map = incr 1"

definition len_byte_slice :: "u8 list \<Rightarrow> nat \<Rightarrow> nat" where
  "len_byte_slice bs acc = incr (length bs) (incr 2 (incr 1 acc))"

definition len_padded :: "u8 list \<Rightarrow> u8 \<Rightarrow> nat \<Rightarrow> nat" where
  "len_padded bs p acc = incr (length bs) (incr (unat p) (incr 2 (incr 1 acc)))"

section \<open>Decoder\<close>

datatype MborDecodeError =
    BufferUnderFlow | ExpectedMap | ExpectedU8 | ExpectedU16 | ExpectedU32 | ExpectedBool | DecodeU8 | DecodeU16
  | DecodeU32 | DecodeU64 | DecodeU8N | DecInvalidId | DecInvalidLen | DecInvalidPadding | DecInvalidParameter

record MborDecoder =
  remaining :: "u8 list option"
  initial_len :: nat

type_synonym 'a dec = "MborDecoder \<Rightarrow> (MborDecodeError + 'a) \<times> MborDecoder"

definition dec_bind :: "'a dec \<Rightarrow> ('a \<Rightarrow> 'b dec) \<Rightarrow> 'b dec" where
  "dec_bind f g d = (case f d of (Inr x, d') \<Rightarrow> g x d' | (Inl e, d') \<Rightarrow> (Inl e, d'))"

definition dec_return :: "'a \<Rightarrow> 'a dec" where
  "dec_return x d = (Inr x, d)"

definition dec_fail :: "MborDecodeError \<Rightarrow> 'a dec" where
  "dec_fail e d = (Inl e, d)"

definition decoder_new :: "u8 list \<Rightarrow> MborDecoder" where
  "decoder_new buf = \<lparr>remaining = Some buf, initial_len = length buf\<rparr>"

definition dec_position :: "MborDecoder \<Rightarrow> nat" where
  "dec_position d = initial_len d - (case remaining d of None \<Rightarrow> 0 | Some b \<Rightarrow> length b)"

definition peek_u8 :: "MborDecoder \<Rightarrow> u8 option" where
  "peek_u8 d = (case remaining d of None \<Rightarrow> None | Some b \<Rightarrow> if 1 < length b then Some (b ! 1) else None)"

definition peek_byte :: "MborDecoder \<Rightarrow> u8 option" where
  "peek_byte d = (case remaining d of None \<Rightarrow> None | Some b \<Rightarrow> if 0 < length b then Some (b ! 0) else None)"

definition dec_bytes :: "nat \<Rightarrow> u8 list dec" where
  "dec_bytes len d = (case remaining d of
     None \<Rightarrow> (Inl BufferUnderFlow, d)
   | Some buf \<Rightarrow>
       if length buf < len then (Inl BufferUnderFlow, d)
       else (Inr (take len buf), d\<lparr>remaining := Some (drop len buf)\<rparr>))"

definition dec_byte :: "u8 dec" where
  "dec_byte = dec_bind (dec_bytes 1) (\<lambda>bs. dec_return (bs ! 0))"

definition dec_skip :: "nat \<Rightarrow> unit dec" where
  "dec_skip len = dec_bind (dec_bytes len) (\<lambda>_. dec_return ())"

text \<open>\<open>try_into\<close> from a slice to an array of \<open>n\<close> bytes.\<close>

definition try_into :: "nat \<Rightarrow> MborDecodeError \<Rightarrow> u8 list \<Rightarrow> u8 list dec" where
  "try_into n e bs = (if length bs = n then dec_return bs else dec_fail e)"

definition decode_map :: "u8 dec" where
  "decode_map = dec_bind dec_byte (\<lambda>b.
     if b AND MAP_MARKER \<noteq> MAP_MARKER then dec_fail ExpectedMap else dec_return (b AND MAP_FIELD_COUNT_MASK))"

definition decode_u8 :: "u8 dec" where
  "decode_u8 = dec_bind (dec_bytes 2) (\<lambda>bs. dec_return (bs ! 1))"

definition decode_u16 :: "u16 dec" where
  "decode_u16 = dec_bind (dec_bytes 3) (\<lambda>bs.
     dec_bind (try_into 2 DecodeU16 (drop 1 bs)) (\<lambda>a. dec_return (from_be a)))"

definition decode_u32 :: "u32 dec" where
  "decode_u32 = dec_bind (dec_bytes 5) (\<lambda>bs.
     dec_bind (try_into 4 DecodeU32 (drop 1 bs)) (\<lambda>a. dec_return (from_be a)))"

definition decode_u64 :: "u64 dec" where
  "decode_u64 = dec_bind (dec_bytes 9) (\<lambda>bs.
     dec_bind (try_into 8 DecodeU64 (drop 1 bs)) (\<lambda>a. dec_return (from_be a)))"

definition decode_bool :: "bool dec" where
  "decode_bool = dec_bind dec_byte (\<lambda>b.
     let b = b AND NOT BOOL_MARKER in
     if b = 0 then dec_return False else if b = 1 then dec_return True else dec_fail ExpectedBool)"

definition decode_array :: "nat \<Rightarrow> u8 list dec" where
  "decode_array n = dec_bind dec_byte (\<lambda>marker.
     if marker AND BYTES_MARKER \<noteq> BYTES_MARKER then dec_fail ExpectedU8
     else let pad = marker AND BYTES_PAD_MASK in
       if pad \<noteq> 0 then dec_fail DecInvalidPadding
       else dec_bind (dec_bytes 2) (\<lambda>len_bytes.
         dec_bind (try_into 2 DecodeU16 len_bytes) (\<lambda>a.
         let len = (from_be a :: u16) in
         if len \<noteq> of_nat n then dec_fail DecInvalidLen
         else dec_bind (dec_bytes (unat len)) (try_into n DecodeU8N))))"

definition decode_byte_slice :: "(u8 \<times> u8 list) dec" where
  "decode_byte_slice = dec_bind dec_byte (\<lambda>marker.
     if marker AND BYTES_MARKER \<noteq> BYTES_MARKER then dec_fail ExpectedU8
     else let pad = marker AND BYTES_PAD_MASK in
       dec_bind (dec_bytes 2) (\<lambda>len_bytes.
       dec_bind (try_into 2 DecodeU16 len_bytes) (\<lambda>a.
       let len = (from_be a :: u16) in
       dec_bind (dec_skip (unat pad)) (\<lambda>_.
       dec_bind (dec_bytes (unat len)) (\<lambda>data. dec_return (pad, data))))))"

definition decode_byte_slice_exact :: "nat \<Rightarrow> u8 list dec" where
  "decode_byte_slice_exact expected_len = dec_bind dec_byte (\<lambda>marker.
     if marker AND BYTES_MARKER \<noteq> BYTES_MARKER then dec_fail ExpectedU8
     else let pad = marker AND BYTES_PAD_MASK in
       dec_bind (dec_bytes 2) (\<lambda>len_bytes.
       dec_bind (try_into 2 DecodeU16 len_bytes) (\<lambda>a.
       let len = (from_be a :: u16) in
       if unat len \<noteq> expected_len then dec_fail DecInvalidLen
       else dec_bind (dec_skip (unat pad)) (\<lambda>_. dec_bytes (unat len)))))"

section \<open>Fields\<close>

text \<open>The kinds of field the derive macros emit, their bytes and the decoder for each.\<close>

datatype field =
    FMap u8 | FU8 u8 | FU16 u16 | FU32 u32 | FU64 u64 | FBool bool | FArray "u8 list" | FBytes u8 "u8 list"

datatype shape = SMap | SU8 | SU16 | SU32 | SU64 | SBool | SArray nat | SBytes

fun shape_of :: "field \<Rightarrow> shape" where
  "shape_of (FMap _) = SMap"
| "shape_of (FU8 _) = SU8"
| "shape_of (FU16 _) = SU16"
| "shape_of (FU32 _) = SU32"
| "shape_of (FU64 _) = SU64"
| "shape_of (FBool _) = SBool"
| "shape_of (FArray bs) = SArray (length bs)"
| "shape_of (FBytes _ _) = SBytes"

fun encode_field :: "field \<Rightarrow> MborEncoder \<Rightarrow> unit enc_run \<times> MborEncoder" where
  "encode_field (FMap n) = encode_map n"
| "encode_field (FU8 v) = encode_u8 v"
| "encode_field (FU16 v) = encode_u16 v"
| "encode_field (FU32 v) = encode_u32 v"
| "encode_field (FU64 v) = encode_u64 v"
| "encode_field (FBool b) = encode_bool b"
| "encode_field (FArray bs) = encode_byte_slice bs"
| "encode_field (FBytes p bs) = encode_padded bs p"

fun len_field :: "field \<Rightarrow> nat \<Rightarrow> nat" where
  "len_field (FMap n) = len_map"
| "len_field (FU8 v) = len_uint 1"
| "len_field (FU16 v) = len_uint 2"
| "len_field (FU32 v) = len_uint 4"
| "len_field (FU64 v) = len_uint 8"
| "len_field (FBool b) = len_bool"
| "len_field (FArray bs) = len_byte_slice bs"
| "len_field (FBytes p bs) = len_padded bs p"

definition dec_map :: "('a \<Rightarrow> 'b) \<Rightarrow> 'a dec \<Rightarrow> 'b dec" where
  "dec_map f m = dec_bind m (\<lambda>x. dec_return (f x))"

fun decode_shape :: "shape \<Rightarrow> field dec" where
  "decode_shape SMap = dec_map FMap decode_map"
| "decode_shape SU8 = dec_map FU8 decode_u8"
| "decode_shape SU16 = dec_map FU16 decode_u16"
| "decode_shape SU32 = dec_map FU32 decode_u32"
| "decode_shape SU64 = dec_map FU64 decode_u64"
| "decode_shape SBool = dec_map FBool decode_bool"
| "decode_shape (SArray n) = dec_map FArray (decode_array n)"
| "decode_shape SBytes = dec_map (\<lambda>(p, bs). FBytes p bs) decode_byte_slice"

primrec encode_fields :: "field list \<Rightarrow> MborEncoder \<Rightarrow> unit enc_run \<times> MborEncoder" where
  "encode_fields [] e = (Done (), e)"
| "encode_fields (f # fs) e = then_encode (encode_field f) (encode_fields fs) e"

primrec decode_shapes :: "shape list \<Rightarrow> field list dec" where
  "decode_shapes [] = dec_return []"
| "decode_shapes (s # ss) = dec_bind (decode_shape s) (\<lambda>f. dec_bind (decode_shapes ss) (\<lambda>fs. dec_return (f # fs)))"

definition len_fields :: "field list \<Rightarrow> nat \<Rightarrow> nat" where
  "len_fields fs acc = fold len_field fs acc"

text \<open>What the wire can carry: 5 bits of field count, 2 bits of padding, 16 bits of length.\<close>

fun field_ok :: "field \<Rightarrow> bool" where
  "field_ok (FMap n) \<longleftrightarrow> n < 32"
| "field_ok (FArray bs) \<longleftrightarrow> length bs < 65536"
| "field_ok (FBytes p bs) \<longleftrightarrow> p < 4 \<and> length bs < 65536"
| "field_ok _ \<longleftrightarrow> True"

fun wire :: "field \<Rightarrow> u8 list" where
  "wire (FMap n) = [MAP_MARKER OR (MAP_FIELD_COUNT_MASK AND n)]"
| "wire (FU8 v) = [U8_MARKER, v]"
| "wire (FU16 v) = U16_MARKER # to_be 2 v"
| "wire (FU32 v) = U32_MARKER # to_be 4 v"
| "wire (FU64 v) = U64_MARKER # to_be 8 v"
| "wire (FBool b) = [BOOL_MARKER + (if b then 1 else 0)]"
| "wire (FArray bs) = BYTES_MARKER # to_be 2 (of_nat (length bs) :: u16) @ bs"
| "wire (FBytes p bs) =
    (BYTES_MARKER OR (BYTES_PAD_MASK AND p)) # to_be 2 (of_nat (length bs) :: u16) @
      replicate (unat (BYTES_PAD_MASK AND p)) 0 @ bs"

section \<open>Encoding writes the wire form\<close>

definition wrote :: "u8 list \<Rightarrow> MborEncoder \<Rightarrow> MborEncoder" where
  "wrote bs e = e\<lparr>buffer := splice_at (pos e) bs (buffer e), pos := pos e + length bs\<rparr>"

lemma encode_eq:
  "encode v e = (if length v + pos e > length (buffer e)
     then (if trusted e then Overrun else EncErr BufferOverflow, e) else (Done (), wrote v e))"
  by (simp add: encode_def wrote_def)

lemma wrote_wrote:
  "pos e + length a + length b \<le> length (buffer e) \<Longrightarrow> wrote b (wrote a e) = wrote (a @ b) e"
  by (simp add: wrote_def splice_splice_append add.assoc)

lemma pad_unat: "unat (BYTES_PAD_MASK AND p) = unat p mod 4"
proof -
  have "BYTES_PAD_MASK AND p = take_bit 2 p"
    by (simp add: BYTES_PAD_MASK_def take_bit_eq_mask mask_eq_exp_minus_1 and.commute)
  then have "unat (BYTES_PAD_MASK AND p) = take_bit 2 (unat p)" by (simp only: unsigned_take_bit_eq)
  then show ?thesis by (simp add: take_bit_eq_mod)
qed

lemma pad_small: "unat (BYTES_PAD_MASK AND p) < 4"
  by (simp add: pad_unat)

lemma take_header:
  "take (3 + n) (x # to_be 2 (w :: u16) @ [0, 0, 0]) = x # to_be 2 w @ replicate n 0" if "n < 4"
proof -
  have "n \<in> {0, 1, 2, 3}" using that by auto
  then show ?thesis by (auto simp: numeral_eq_Suc)
qed

lemma encode_field_fits:
  assumes "pos e + length (wire f) \<le> length (buffer e)"
  shows "encode_field f e = (Done (), wrote (wire f) e)"
proof (cases f)
  case (FArray bs)
  let ?h = "BYTES_MARKER # to_be 2 (of_nat (length bs) :: u16)"
  have "encode ?h e = (Done (), wrote ?h e)" using assms FArray by (simp add: encode_eq)
  moreover have "encode bs (wrote ?h e) = (Done (), wrote bs (wrote ?h e))"
    using assms FArray by (simp add: encode_eq wrote_def)
  moreover have "wrote bs (wrote ?h e) = wrote (wire f) e"
    using assms FArray wrote_wrote [of e ?h bs] by simp
  ultimately show ?thesis using FArray by (simp add: encode_byte_slice_def then_encode_def)
next
  case (FBytes p bs)
  let ?pad = "BYTES_PAD_MASK AND p"
  let ?h = "(BYTES_MARKER OR ?pad) # to_be 2 (of_nat (length bs) :: u16) @ replicate (unat ?pad) 0"
  have "encode ?h e = (Done (), wrote ?h e)" using assms FBytes by (simp add: encode_eq)
  moreover have "encode bs (wrote ?h e) = (Done (), wrote bs (wrote ?h e))"
    using assms FBytes by (simp add: encode_eq wrote_def)
  moreover have "wrote bs (wrote ?h e) = wrote (wire f) e"
    using assms FBytes wrote_wrote [of e ?h bs] by simp
  ultimately show ?thesis
    using FBytes by (simp add: encode_padded_def then_encode_def Let_def take_header [OF pad_small])
qed (use assms in \<open>simp_all add: encode_map_def encode_u8_def encode_u16_def encode_u32_def encode_u64_def
    encode_bool_def encode_eq\<close>)

lemma encode_fields_fit:
  assumes "pos e + length (concat (map wire fs)) \<le> length (buffer e)"
  shows "encode_fields fs e = (Done (), wrote (concat (map wire fs)) e)"
  using assms
proof (induction fs arbitrary: e)
  case Nil
  then show ?case by (simp add: wrote_def)
next
  case (Cons f fs)
  have "encode_field f e = (Done (), wrote (wire f) e)" using Cons.prems by (intro encode_field_fits) simp
  moreover have "encode_fields fs (wrote (wire f) e) = (Done (), wrote (concat (map wire fs)) (wrote (wire f) e))"
    using Cons by (simp add: wrote_def)
  ultimately show ?case using Cons.prems by (simp add: then_encode_def wrote_wrote)
qed

lemma len_field_wire: "field_ok f \<Longrightarrow> len_field f acc = acc + length (wire f)"
proof (induction f)
  case (FBytes p bs)
  then show ?case by (simp add: len_padded_def incr_def pad_unat word_less_nat_alt)
qed (simp_all add: len_map_def len_uint_def len_bool_def len_byte_slice_def incr_def)

lemma len_fields_wire:
  "list_all field_ok fs \<Longrightarrow> len_fields fs acc = acc + length (concat (map wire fs))"
  by (induction fs arbitrary: acc) (simp_all add: len_fields_def len_field_wire)

end
