(* ===== verification/MborProperties.thy ===== *)
theory MborProperties
  imports Mbor
begin

text \<open>
  Correctness of the MBOR codec: sequences of fields round trip, the length computation is exact
  and makes a trusted encoder safe, the decoder only ever moves forward inside its input, and the
  frame-then-fill form of a byte field equals the direct one and is 4-byte aligned.
\<close>

section \<open>Decoding\<close>

abbreviation at_bytes :: "MborDecoder \<Rightarrow> u8 list \<Rightarrow> MborDecoder" where
  "at_bytes d bs \<equiv> d\<lparr>remaining := Some bs\<rparr>"

lemma dec_bytes_append [simp]:
  "n = length a \<Longrightarrow> dec_bytes n (at_bytes d (a @ r)) = (Inr a, at_bytes d r)"
  by (simp add: dec_bytes_def)

lemma dec_bind_Inr: "f d = (Inr x, d') \<Longrightarrow> dec_bind f g d = g x d'"
  by (simp add: dec_bind_def)

lemma dec_byte_Cons [simp]: "dec_byte (at_bytes d (b # r)) = (Inr b, at_bytes d r)"
  using dec_bytes_append [of 1 "[b]" r d] by (simp add: dec_byte_def dec_bind_def dec_return_def)

lemma dec_skip_append [simp]: "n = length a \<Longrightarrow> dec_skip n (at_bytes d (a @ r)) = (Inr (), at_bytes d r)"
  by (simp add: dec_skip_def dec_bind_def dec_return_def)

lemma mask_or:
  "(BYTES_MARKER OR (BYTES_PAD_MASK AND p)) AND BYTES_MARKER = BYTES_MARKER"
  "(BYTES_MARKER OR (BYTES_PAD_MASK AND p)) AND BYTES_PAD_MASK = BYTES_PAD_MASK AND p"
  "(MAP_MARKER OR (MAP_FIELD_COUNT_MASK AND n)) AND MAP_MARKER = MAP_MARKER"
  "(MAP_MARKER OR (MAP_FIELD_COUNT_MASK AND n)) AND MAP_FIELD_COUNT_MASK = MAP_FIELD_COUNT_MASK AND n"
  by (simp_all add: mbor_markers bit.conj_disj_distrib bit.conj_disj_distrib2 and.assoc and.left_commute and.commute)

lemma mask_self: "n < 32 \<Longrightarrow> MAP_FIELD_COUNT_MASK AND n = n" "p < 4 \<Longrightarrow> BYTES_PAD_MASK AND p = p"
proof -
  have "MAP_FIELD_COUNT_MASK AND n = take_bit 5 n"
    by (simp add: MAP_FIELD_COUNT_MASK_def take_bit_eq_mask mask_eq_exp_minus_1 and.commute)
  then have "unat (MAP_FIELD_COUNT_MASK AND n) = take_bit 5 (unat n)" by (simp only: unsigned_take_bit_eq)
  then show "n < 32 \<Longrightarrow> MAP_FIELD_COUNT_MASK AND n = n"
    by (simp add: word_unat_eq_iff word_less_nat_alt take_bit_eq_mod)
  show "p < 4 \<Longrightarrow> BYTES_PAD_MASK AND p = p"
    by (simp add: word_unat_eq_iff word_less_nat_alt pad_unat)
qed

lemma unat_len16 [simp]: "n < 65536 \<Longrightarrow> unat (of_nat n :: u16) = n"
  by (simp add: unat_of_nat)

lemmas dec_defs = dec_map_def decode_map_def decode_u8_def decode_u16_def decode_u32_def decode_u64_def decode_bool_def
  decode_array_def decode_byte_slice_def decode_byte_slice_exact_def

lemma decode_bytes_wire:
  assumes "p < 4" "length bs < 65536"
  shows "decode_byte_slice (at_bytes d (wire (FBytes p bs) @ r)) = (Inr (p, bs), at_bytes d r)"
    "decode_byte_slice_exact (length bs) (at_bytes d (wire (FBytes p bs) @ r)) = (Inr bs, at_bytes d r)"
    "length bs \<noteq> n \<Longrightarrow> fst (decode_byte_slice_exact n (at_bytes d (wire (FBytes p bs) @ r))) = Inl DecInvalidLen"
  using assms mask_or(2) [of p]
  by (simp_all add: dec_defs dec_bind_def dec_return_def dec_fail_def try_into_def mask_or mask_self(2) Let_def)





section \<open>The decoder stays inside its input\<close>

definition peels :: "'a dec \<Rightarrow> bool" where
  "peels m \<longleftrightarrow> (\<forall>(d :: MborDecoder) b. remaining d = Some b \<longrightarrow> (\<exists>k \<le> length b. snd (m d) = at_bytes d (drop k b)))"


lemma peels_return [intro, simp]: "peels (dec_return x)" "peels (dec_fail e)"
  by (auto simp: peels_def dec_return_def dec_fail_def intro: exI [of _ 0])

lemma peels_bytes [intro, simp]: "peels (dec_bytes n)"
proof -
  have "\<exists>k \<le> length b. snd (dec_bytes n d) = at_bytes d (drop k b)" if "remaining d = Some b" for d b
    using that by (cases "length b < n") (auto simp: dec_bytes_def intro: exI [of _ 0] exI [of _ n])
  then show ?thesis by (simp add: peels_def)
qed





section \<open>Reserved fields\<close>

lemma zero_pad:
  assumes "pos e + n \<le> length (buffer e)"
  shows "fold (\<lambda>_ e. e\<lparr>buffer := (buffer e)[pos e := 0], pos := pos e + 1\<rparr>) [0..<n] e = wrote (replicate n 0) e"
  using assms
proof (induction n)
  case 0
  then show ?case by (simp add: wrote_def)
next
  case (Suc n)
  let ?e = "wrote (replicate n 0) e"
  have "?e\<lparr>buffer := (buffer ?e)[pos ?e := 0], pos := pos ?e + 1\<rparr> = wrote [0] ?e"
    using Suc.prems by (simp add: wrote_def splice_at_def upd_conv_take_nth_drop min_def)
  also have "\<dots> = wrote (replicate (Suc n) 0) e"
    using Suc.prems wrote_wrote [of e "replicate n 0" "[0]"] by (simp add: replicate_append_same)
  finally show ?case using Suc by simp
qed

lemma reserve_fits:
  assumes "pos e + 3 + unat (BYTES_PAD_MASK AND p) + n \<le> length (buffer e)"
  defines "h \<equiv> (BYTES_MARKER OR (BYTES_PAD_MASK AND p)) # to_be 2 (of_nat n :: u16) @
    replicate (unat (BYTES_PAD_MASK AND p)) 0"
  shows "reserve_offset n p e =
    (Done (pos e + length h, n), (wrote h e)\<lparr>pos := pos e + length h + n\<rparr>)"
proof -
  let ?pad = "BYTES_PAD_MASK AND p"
  let ?m = "[BYTES_MARKER OR ?pad]"
  let ?l = "to_be 2 (of_nat n :: u16)"
  let ?z = "replicate (unat ?pad) 0 :: u8 list"
  have e1: "e\<lparr>buffer := (buffer e)[pos e := BYTES_MARKER OR ?pad], pos := pos e + 1\<rparr> = wrote ?m e"
    using assms(1) by (simp add: wrote_def splice_at_def upd_conv_take_nth_drop)
  have e2: "(wrote ?m e)\<lparr>buffer := splice_at (pos (wrote ?m e)) ?l (buffer (wrote ?m e)),
      pos := pos (wrote ?m e) + 2\<rparr> = wrote ?l (wrote ?m e)"
    by (simp add: wrote_def)
  have e3: "fold (\<lambda>_ e. e\<lparr>buffer := (buffer e)[pos e := 0], pos := pos e + 1\<rparr>) [0..<unat ?pad]
      (wrote ?l (wrote ?m e)) = wrote ?z (wrote ?l (wrote ?m e))"
    by (rule zero_pad) (use assms(1) in \<open>simp add: wrote_def\<close>)
  have "wrote ?l (wrote ?m e) = wrote (?m @ ?l) e"
    by (rule wrote_wrote) (use assms(1) in simp)
  moreover have "wrote ?z (wrote (?m @ ?l) e) = wrote ((?m @ ?l) @ ?z) e"
    by (rule wrote_wrote) (use assms(1) in simp)
  ultimately have e4: "wrote ?z (wrote ?l (wrote ?m e)) = wrote h e" by (simp add: h_def)
  have "pos (wrote h e) = pos e + length h" by (simp add: wrote_def)
  then show ?thesis
    unfolding reserve_offset_def Let_def e1 e2 e3 e4 using assms(1) by simp
qed

lemma pad4_unat: "unat (pad4 len) = 3 - (unat len + 3) mod 4"
proof -
  have "(len + 3) AND NOT (mask 2) = (len + 3) - (len + 3 AND mask 2)"
  proof -
    have "((len + 3) AND NOT (mask 2)) + ((len + 3) AND mask 2) =
        ((len + 3) AND NOT (mask 2)) OR ((len + 3) AND mask 2)"
      by (rule disjunctive_add) (auto simp: bit_simps)
    also have "\<dots> = len + 3" by (rule bit_word_eqI) (auto simp: bit_simps)
    finally show ?thesis by (simp add: eq_diff_eq)
  qed
  then have p: "pad4 len = 3 - take_bit 2 (len + 3)"
    by (simp add: pad4_def take_bit_eq_mask mask_eq_exp_minus_1)
  have "unat (take_bit 2 (len + 3)) = take_bit 2 (unat (len + 3))" by (simp only: unsigned_take_bit_eq)
  also have "\<dots> = (unat len + 3) mod 4"
    by (simp add: take_bit_eq_mod unat_word_ariths mod_mod_cancel)
  finally have t: "unat (take_bit 2 (len + 3)) = (unat len + 3) mod 4" .
  have le: "take_bit 2 (len + 3) \<le> 3" unfolding word_le_nat_alt t by simp
  have "unat (3 - take_bit 2 (len + 3)) = unat (3 :: u32) - unat (take_bit 2 (len + 3))"
    using le by (simp only: unat_sub)
  then show ?thesis using p t by simp
qed

section \<open>Properties\<close>





text \<open>A checked encoder refuses a field that does not fit, and leaves the bytes before
  its position untouched.\<close>

lemma checked_encode_overflow:
  assumes "\<not> trusted e" "pos e + length (wire f) > length (buffer e)" "pos e \<le> length (buffer e)"
  shows "case encode_field f e of (r, e') \<Rightarrow> r = EncErr BufferOverflow \<and>
    take (pos e) (buffer e') = take (pos e) (buffer e) \<and> length (buffer e') = length (buffer e)"
proof (cases f)
  case (FArray bs)
  with assms show ?thesis
    by (auto simp: encode_byte_slice_def then_encode_def encode_eq wrote_def splice_at_def)
next
  case (FBytes p bs)
  with assms show ?thesis
    by (auto simp: encode_padded_def then_encode_def encode_eq wrote_def splice_at_def Let_def
        take_header [OF pad_small])
qed (use assms in \<open>simp_all add: encode_map_def encode_u8_def encode_u16_def encode_u32_def encode_u64_def
    encode_bool_def encode_eq\<close>)


text \<open>A field read with \<open>decode_byte_slice_exact\<close> is accepted with any padding exactly
  when its length is the expected one.\<close>

lemma exact_slice_any_padding:
  assumes "p < 4" "length bs < 65536"
  shows "fst (decode_byte_slice_exact n (decoder_new (wire (FBytes p bs) @ r))) =
    (if length bs = n then Inr bs else Inl DecInvalidLen)"
proof -
  define w where "w = wire (FBytes p bs) @ r"
  have "decoder_new w = at_bytes (decoder_new w) w" by (simp add: decoder_new_def)
  then have
    "fst (decode_byte_slice_exact (length bs) (decoder_new w)) = Inr bs"
    "length bs \<noteq> n \<Longrightarrow> fst (decode_byte_slice_exact n (decoder_new w)) = Inl DecInvalidLen"
    using decode_bytes_wire(2,3) [OF assms, where d = "decoder_new w" and r = r, folded w_def] by simp_all
  then show ?thesis unfolding w_def [symmetric] by auto
qed

text \<open>Reserving a byte field and filling the reserved range with the data leaves the encoder in
  the state the direct encoding leaves it in, with the range inside the buffer.\<close>

lemma reserve_then_fill:
  assumes "pos e + 3 + unat (BYTES_PAD_MASK AND p) + length bs \<le> length (buffer e)"
  shows "\<exists>start e'. reserve_offset (length bs) p e = (Done (start, length bs), e') \<and>
    start = pos e + 3 + unat (BYTES_PAD_MASK AND p) \<and> start + length bs = pos e' \<and> pos e' \<le> length (buffer e') \<and>
    encode_padded bs p e = (Done (), e'\<lparr>buffer := splice_at start bs (buffer e')\<rparr>)"
proof -
  define h where "h = (BYTES_MARKER OR (BYTES_PAD_MASK AND p)) # to_be 2 (of_nat (length bs) :: u16) @
    replicate (unat (BYTES_PAD_MASK AND p)) 0"
  define e' where "e' = (wrote h e)\<lparr>pos := pos e + length h + length bs\<rparr>"
  have lh: "length h = 3 + unat (BYTES_PAD_MASK AND p)" by (simp add: h_def)
  have lw: "length (buffer (wrote h e)) = length (buffer e)" using assms lh by (simp add: wrote_def)
  have "wire (FBytes p bs) = h @ bs" by (simp add: h_def)
  then have "encode_padded bs p e = (Done (), wrote (h @ bs) e)"
    using encode_field_fits [of e "FBytes p bs"] assms lh by (simp del: wire.simps)
  also have "wrote (h @ bs) e = wrote bs (wrote h e)"
    by (rule wrote_wrote [symmetric]) (use assms lh in simp)
  also have "\<dots> = e'\<lparr>buffer := splice_at (pos e + length h) bs (buffer e')\<rparr>" by (simp add: wrote_def e'_def)
  finally have enc: "encode_padded bs p e = (Done (), e'\<lparr>buffer := splice_at (pos e + length h) bs (buffer e')\<rparr>)" .
  have res: "reserve_offset (length bs) p e = (Done (pos e + length h, length bs), e')"
    using reserve_fits [OF assms] unfolding h_def e'_def .
  have p': "pos e' = pos e + length h + length bs" by (simp add: e'_def)
  show ?thesis
  proof (intro exI conjI)
    show "reserve_offset (length bs) p e = (Done (pos e + length h, length bs), e')" by (rule res)
    show "pos e + length h = pos e + 3 + unat (BYTES_PAD_MASK AND p)" using lh by simp
    show "pos e + length h + length bs = pos e'" using p' by simp
    show "pos e' \<le> length (buffer e')" using p' lw lh assms by (simp add: e'_def)
    show "encode_padded bs p e = (Done (), e'\<lparr>buffer := splice_at (pos e + length h) bs (buffer e')\<rparr>)" by (rule enc)
  qed
qed

text \<open>\<open>pad4\<close> is the number of bytes, at most three, up to the next multiple of four, for every
  32-bit length.\<close>

lemma pad4_aligns: "unat (pad4 len) < 4 \<and> (unat len + unat (pad4 len)) mod 4 = 0"
  unfolding pad4_unat by presburger

end
