(* ===== verification/BlockAlloc.thy ===== *)
theory BlockAlloc
  imports Prelude
begin

text \<open>
  The blob block allocator of the key vault (\<open>key_vault/src/block.rs\<close>) over the geometry
  constants of \<open>key_vault/src/storage.rs\<close>. A table's blob is carved into 8-byte blocks tracked by
  a bitmap of 64 words; \<open>alloc\<close> is a first-fit scan for a contiguous free run and tells
  exhaustion from fragmentation. The theory ends with the allocator's contract as a locale,
  interpreted on these definitions.
\<close>

section \<open>Geometry\<close>

definition MAX_TABLE_COUNT :: nat where "MAX_TABLE_COUNT = 65"
definition ENTRIES_PER_TABLE :: nat where "ENTRIES_PER_TABLE = 256"
definition BITMAP_WORDS :: nat where "BITMAP_WORDS = 64"
definition BLOB_SIZE :: nat where "BLOB_SIZE = 15104"
definition ATTRIBUTES_BLOB_SIZE :: nat where "ATTRIBUTES_BLOB_SIZE = 32"
definition BLOCK_ALIGNMENT :: nat where "BLOCK_ALIGNMENT = 8"
definition BLOB_BLOCKS :: nat where "BLOB_BLOCKS = BLOB_SIZE div BLOCK_ALIGNMENT"

lemmas geometry_defs = MAX_TABLE_COUNT_def ENTRIES_PER_TABLE_def BITMAP_WORDS_def BLOB_SIZE_def
  ATTRIBUTES_BLOB_SIZE_def BLOCK_ALIGNMENT_def BLOB_BLOCKS_def

section \<open>The bitmap\<close>

text \<open>
  The bitmap is the \<open>[u32; BITMAP_WORDS]\<close> the storage hands out: \<open>block / 32\<close> is in range for
  every block below \<open>BLOB_BLOCKS\<close> (lemma \<open>block_word_in_range\<close>), so indexing cannot panic.
\<close>

definition used :: "u32 list \<Rightarrow> nat \<Rightarrow> bool" where
  "used ws block =
     (if block \<ge> BLOB_BLOCKS then True else test_bit (ws ! (block div 32)) (block mod 32))"

definition mark :: "u32 list \<Rightarrow> nat \<Rightarrow> bool \<Rightarrow> u32 list" where
  "mark ws block u =
     (if u then ws[block div 32 := bit_on (block mod 32) (ws ! (block div 32))]
      else ws[block div 32 := bit_off (block mod 32) (ws ! (block div 32))])"

definition blocks_for :: "nat \<Rightarrow> nat" where
  "blocks_for storage_bytes = storage_bytes div BLOCK_ALIGNMENT"

section \<open>Allocation and release\<close>

text \<open>
  The scan over the blocks: \<open>Inr run_start\<close> when a run of \<open>count\<close> free blocks has been seen,
  \<open>Inl total_free\<close> when the blocks are exhausted first.
\<close>

fun alloc_scan :: "u32 list \<Rightarrow> nat \<Rightarrow> nat list \<Rightarrow> nat \<Rightarrow> nat \<Rightarrow> nat \<Rightarrow> nat + nat" where
  "alloc_scan ws count [] run_start r total_free = Inl total_free"
| "alloc_scan ws count (block # bs) run_start r total_free =
     (if used ws block then alloc_scan ws count bs (block + 1) 0 total_free
      else if r + 1 = count then Inr run_start
      else alloc_scan ws count bs run_start (r + 1) (total_free + 1))"

definition alloc :: "u32 list \<Rightarrow> nat \<Rightarrow> u16 run \<times> u32 list" where
  "alloc ws count =
     (if count = 0 \<or> count > BLOB_BLOCKS then (Err NotEnoughSpace, ws)
      else case alloc_scan ws count [0..<BLOB_BLOCKS] 0 0 0 of
        Inr run_start \<Rightarrow>
          (Ok (of_nat run_start),
           fold (\<lambda>b w. mark w b True) [run_start..<run_start + count] ws)
      | Inl total_free \<Rightarrow>
          (Err (if total_free \<ge> count then DefragmentationNeeded else NotEnoughSpace), ws))"

definition free :: "u32 list \<Rightarrow> u16 \<Rightarrow> nat \<Rightarrow> u32 list" where
  "free ws start count =
     fold (\<lambda>b w. if b < BLOB_BLOCKS then mark w b False else w)
       [unat start..<unat start + count] ws"

section \<open>Marking\<close>

lemma BLOB_BLOCKS_eq: "BLOB_BLOCKS = 1888"
  by (simp add: geometry_defs)

lemma block_word_in_range: "b < BLOB_BLOCKS \<Longrightarrow> b div 32 < BITMAP_WORDS"
  by (simp add: geometry_defs)

lemma length_mark [simp]: "length (mark ws b u) = length ws"
  by (simp add: mark_def)

lemma used_beyond [simp]: "b \<ge> BLOB_BLOCKS \<Longrightarrow> used ws b"
  by (simp add: used_def)

lemma used_mark:
  assumes "length ws = BITMAP_WORDS" "b < BLOB_BLOCKS"
  shows "used (mark ws b u) c = (if c = b then u else used ws c)"
proof (cases "c < BLOB_BLOCKS")
  case True
  have eq: "c = b \<longleftrightarrow> c div 32 = b div 32 \<and> c mod 32 = b mod 32"
    by (metis div_mult_mod_eq)
  have "c mod 32 < LENGTH(32)"
    by simp
  with True assms block_word_in_range [OF assms(2)] block_word_in_range [OF True] show ?thesis
    unfolding used_def mark_def eq by (auto simp: nth_list_update bit_bit_on bit_bit_off)
next
  case False
  with assms show ?thesis by auto
qed

lemma length_fold_mark [simp]: "length (fold (\<lambda>b w. mark w b u) bs ws) = length ws"
  by (induction bs arbitrary: ws) simp_all

lemma used_fold_mark:
  assumes "length ws = BITMAP_WORDS" "\<forall>b\<in>set bs. b < BLOB_BLOCKS"
  shows "used (fold (\<lambda>b w. mark w b u) bs ws) c = (if c \<in> set bs then u else used ws c)"
  using assms by (induction bs arbitrary: ws) (auto simp: used_mark)

section \<open>The scan\<close>

definition free_run :: "u32 list \<Rightarrow> nat \<Rightarrow> nat \<Rightarrow> bool" where
  "free_run ws s n \<longleftrightarrow> (\<forall>b. s \<le> b \<and> b < s + n \<longrightarrow> \<not> used ws b)"

definition free_count :: "u32 list \<Rightarrow> nat \<Rightarrow> nat" where
  "free_count ws k = card {b. b < k \<and> \<not> used ws b}"

lemma free_count_0 [simp]: "free_count ws 0 = 0"
  by (simp add: free_count_def)

lemma free_count_Suc: "free_count ws (Suc k) = free_count ws k + (if used ws k then 0 else 1)"
proof -
  have "{b. b < Suc k \<and> \<not> used ws b} =
    (if used ws k then {b. b < k \<and> \<not> used ws b} else insert k {b. b < k \<and> \<not> used ws b})"
    by (auto simp: less_Suc_eq)
  then show ?thesis
    by (simp add: free_count_def)
qed

text \<open>What the scan knows when it has looked at the blocks below \<open>k\<close>.\<close>

definition scan_inv :: "u32 list \<Rightarrow> nat \<Rightarrow> nat \<Rightarrow> nat \<Rightarrow> nat \<Rightarrow> nat \<Rightarrow> bool" where
  "scan_inv ws count k rs r tf \<longleftrightarrow>
     rs + r = k \<and> r < count \<and> free_run ws rs r \<and> (0 < rs \<longrightarrow> used ws (rs - 1)) \<and>
     tf = free_count ws k \<and> (\<forall>s. s + count \<le> k \<longrightarrow> \<not> free_run ws s count)"

lemma scan_inv_used:
  assumes "scan_inv ws count k rs r tf" "used ws k"
  shows "scan_inv ws count (Suc k) (Suc k) 0 tf"
proof -
  have "\<not> free_run ws s count" if "s + count \<le> Suc k" for s
  proof (cases "s + count \<le> k")
    case False
    with that assms have "s \<le> k" "k < s + count"
      by (auto simp: scan_inv_def)
    with assms(2) show ?thesis by (auto simp: free_run_def)
  qed (use assms in \<open>auto simp: scan_inv_def\<close>)
  with assms show ?thesis
    by (auto simp: scan_inv_def free_count_Suc free_run_def)
qed

lemma scan_inv_free:
  assumes "scan_inv ws count k rs r tf" "\<not> used ws k" "r + 1 \<noteq> count"
  shows "scan_inv ws count (Suc k) rs (r + 1) (tf + 1)"
proof -
  have run: "free_run ws rs (r + 1)"
    using assms by (auto simp: scan_inv_def free_run_def less_Suc_eq)
  have "\<not> free_run ws s count" if "s + count \<le> Suc k" for s
  proof (cases "s + count \<le> k")
    case False
    with that assms have "s < rs" "rs \<le> s + count"
      by (auto simp: scan_inv_def)
    then have "used ws (rs - 1)" "s \<le> rs - 1" "rs - 1 < s + count"
      using assms(1) by (auto simp: scan_inv_def)
    then show ?thesis by (auto simp: free_run_def)
  qed (use assms in \<open>auto simp: scan_inv_def\<close>)
  with assms run show ?thesis
    by (auto simp: scan_inv_def free_count_Suc)
qed

lemma scan_inv_found:
  assumes "scan_inv ws count k rs r tf" "\<not> used ws k" "r + 1 = count"
  shows "free_run ws rs count" and "s < rs \<Longrightarrow> \<not> free_run ws s count"
proof -
  show "free_run ws rs count"
    using assms by (auto simp: scan_inv_def free_run_def less_Suc_eq)
next
  assume "s < rs"
  show "\<not> free_run ws s count"
  proof (cases "s + count \<le> k")
    case False
    with \<open>s < rs\<close> assms have "used ws (rs - 1)" "s \<le> rs - 1" "rs - 1 < s + count"
      by (auto simp: scan_inv_def)
    then show ?thesis by (auto simp: free_run_def)
  qed (use assms in \<open>auto simp: scan_inv_def\<close>)
qed

lemma alloc_scan_Inr:
  assumes "alloc_scan ws count [k..<n] rs r tf = Inr start" "scan_inv ws count k rs r tf"
  shows "free_run ws start count \<and> (\<forall>s. s < start \<longrightarrow> \<not> free_run ws s count)"
  using assms
proof (induction "n - k" arbitrary: k rs r tf)
  case 0
  then show ?case by simp
next
  case (Suc m)
  then have "k < n" and *: "[k..<n] = k # [Suc k..<n]" "m = n - Suc k"
    by (simp_all add: upt_conv_Cons)
  consider "used ws k" | "\<not> used ws k" "r + 1 = count" | "\<not> used ws k" "r + 1 \<noteq> count"
    by blast
  then show ?case
  proof cases
    case 1
    with Suc.prems * have "alloc_scan ws count [Suc k..<n] (Suc k) 0 tf = Inr start"
      by simp
    with Suc.hyps(1) [OF *(2)] scan_inv_used [OF Suc.prems(2) 1] show ?thesis by blast
  next
    case 2
    with Suc.prems * have "start = rs" by simp
    with scan_inv_found [OF Suc.prems(2) 2] show ?thesis by blast
  next
    case 3
    with Suc.prems * have "alloc_scan ws count [Suc k..<n] rs (r + 1) (tf + 1) = Inr start"
      by simp
    with Suc.hyps(1) [OF *(2)] scan_inv_free [OF Suc.prems(2) 3] show ?thesis by blast
  qed
qed

lemma alloc_scan_Inl:
  assumes "alloc_scan ws count [k..<n] rs r tf = Inl tot" "scan_inv ws count k rs r tf" "k \<le> n"
  shows "tot = free_count ws n \<and> (\<forall>s. s + count \<le> n \<longrightarrow> \<not> free_run ws s count)"
  using assms
proof (induction "n - k" arbitrary: k rs r tf)
  case 0
  then show ?case by (simp add: scan_inv_def)
next
  case (Suc m)
  then have "Suc k \<le> n" and *: "[k..<n] = k # [Suc k..<n]" "m = n - Suc k"
    by (simp_all add: upt_conv_Cons)
  show ?case
  proof (cases "used ws k")
    case True
    with Suc.prems * have "alloc_scan ws count [Suc k..<n] (Suc k) 0 tf = Inl tot"
      by simp
    with Suc.hyps(1) [OF *(2)] scan_inv_used [OF Suc.prems(2) True] \<open>Suc k \<le> n\<close>
    show ?thesis by blast
  next
    case False
    with Suc.prems * have 1: "r + 1 \<noteq> count"
      and 2: "alloc_scan ws count [Suc k..<n] rs (r + 1) (tf + 1) = Inl tot"
      by (auto split: if_splits)
    from Suc.hyps(1) [OF *(2) 2] scan_inv_free [OF Suc.prems(2) False 1] \<open>Suc k \<le> n\<close>
    show ?thesis by blast
  qed
qed

section \<open>The contract of \<open>alloc\<close> and \<open>free\<close>\<close>

lemma scan_inv_start: "0 < count \<Longrightarrow> scan_inv ws count 0 0 0 0"
  by (simp add: scan_inv_def free_run_def)

lemma free_run_bound:
  assumes "free_run ws s count" "0 < count"
  shows "s + count \<le> BLOB_BLOCKS"
proof (rule ccontr)
  assume "\<not> s + count \<le> BLOB_BLOCKS"
  then have "used ws (s + count - 1)" "s \<le> s + count - 1" "s + count - 1 < s + count"
    using assms(2) by auto
  with assms(1) show False by (auto simp: free_run_def)
qed

lemma free_run_count:
  assumes "free_run ws s count" "0 < count"
  shows "count \<le> free_count ws BLOB_BLOCKS"
proof -
  have "{s..<s + count} \<subseteq> {b. b < BLOB_BLOCKS \<and> \<not> used ws b}"
    using assms free_run_bound [OF assms] by (auto simp: free_run_def)
  then have "card {s..<s + count} \<le> free_count ws BLOB_BLOCKS"
    unfolding free_count_def by (rule card_mono [rotated]) simp
  then show ?thesis by simp
qed

lemma alloc_result:
  "fst (alloc ws count) = (if 0 < count \<and> (\<exists>s. free_run ws s count)
       then Ok (of_nat (LEAST s. free_run ws s count))
       else if 0 < count \<and> count \<le> free_count ws BLOB_BLOCKS then Err DefragmentationNeeded
       else Err NotEnoughSpace)"
proof (cases "count = 0 \<or> count > BLOB_BLOCKS")
  case True
  have "free_count ws BLOB_BLOCKS \<le> card {..<BLOB_BLOCKS}"
    unfolding free_count_def by (rule card_mono) auto
  with True have "count = 0 \<or> \<not> count \<le> free_count ws BLOB_BLOCKS" by auto
  with True free_run_bound [of ws _ count] show ?thesis by (auto simp: alloc_def)
next
  case False
  then have pos: "0 < count" by simp
  show ?thesis
  proof (cases "alloc_scan ws count [0..<BLOB_BLOCKS] 0 0 0")
    case (Inr start)
    note fr = alloc_scan_Inr [OF Inr scan_inv_start [OF pos]]
    then have "(LEAST s. free_run ws s count) = start"
      by (intro Least_equality) (auto intro: leI)
    with Inr False fr show ?thesis by (auto simp: alloc_def)
  next
    case (Inl tot)
    from alloc_scan_Inl [OF Inl scan_inv_start [OF pos]]
    have "tot = free_count ws BLOB_BLOCKS" "\<not> free_run ws s count" for s
      using free_run_bound [OF _ pos, of ws s] by auto
    with Inl False show ?thesis by (simp add: alloc_def)
  qed
qed

lemma alloc_Ok:
  assumes "alloc ws count = (Ok start, ws')" "length ws = BITMAP_WORDS"
  shows "0 < count" "unat start + count \<le> BLOB_BLOCKS" "free_run ws (unat start) count"
    "s < unat start \<Longrightarrow> \<not> free_run ws s count" "length ws' = BITMAP_WORDS"
    "used ws' b \<longleftrightarrow> used ws b \<or> (unat start \<le> b \<and> b < unat start + count)"
proof -
  obtain rs where pos: "0 < count" and scan: "alloc_scan ws count [0..<BLOB_BLOCKS] 0 0 0 = Inr rs"
    and st: "start = of_nat rs" and ws': "ws' = fold (\<lambda>b w. mark w b True) [rs..<rs + count] ws"
    using assms(1) by (auto simp: alloc_def split: if_splits sum.splits)
  note fr = alloc_scan_Inr [OF scan scan_inv_start [OF pos]]
  have le: "rs + count \<le> BLOB_BLOCKS"
    using free_run_bound fr pos by blast
  then have "unat (of_nat rs :: u16) = rs"
    by (simp add: unat_of_nat BLOB_BLOCKS_eq)
  with st have rs: "unat start = rs" by simp
  show "0 < count" "length ws' = BITMAP_WORDS"
    using pos ws' assms(2) by simp_all
  show "unat start + count \<le> BLOB_BLOCKS" "free_run ws (unat start) count"
    using le fr rs by simp_all
  show "s < unat start \<Longrightarrow> \<not> free_run ws s count"
    using fr rs by simp
  show "used ws' b \<longleftrightarrow> used ws b \<or> (unat start \<le> b \<and> b < unat start + count)"
    using le rs assms(2) unfolding ws' by (subst used_fold_mark) auto
qed

lemma alloc_fail: "fst (alloc ws count) = Err e \<Longrightarrow> snd (alloc ws count) = ws"
  by (auto simp: alloc_def split: if_splits sum.splits)

lemma alloc_no_panic [simp]: "alloc ws count \<noteq> (Panic, ws')"
  by (auto simp: alloc_def split: if_splits sum.splits)

lemma free_step:
  "length (fold (\<lambda>b w. if b < BLOB_BLOCKS then mark w b False else w) bs ws) = length ws"
  by (induction bs arbitrary: ws) simp_all

lemma length_free [simp]: "length (free ws start count) = length ws"
  by (simp add: free_def free_step)

lemma used_free:
  assumes "length ws = BITMAP_WORDS"
  shows "used (free ws start count) c \<longleftrightarrow>
    used ws c \<and> (c < BLOB_BLOCKS \<longrightarrow> \<not> (unat start \<le> c \<and> c < unat start + count))"
proof -
  have "used (fold (\<lambda>b w. if b < BLOB_BLOCKS then mark w b False else w) bs ws) c \<longleftrightarrow>
      used ws c \<and> (c < BLOB_BLOCKS \<longrightarrow> c \<notin> set bs)" for bs
    using assms by (induction bs arbitrary: ws) (auto simp: used_mark)
  then show ?thesis
    by (auto simp: free_def)
qed

section \<open>The allocator as the vault uses it\<close>

text \<open>
  What the key vault relies on, over the set of blocks in use: an allocation takes a non-empty
  run disjoint from them, a release gives a run back. \<open>tracks\<close> says that a bitmap records
  exactly a given set of blocks.
\<close>

locale block_allocator =
  fixes alloc_op :: "'m \<Rightarrow> nat \<Rightarrow> u16 run \<times> 'm"
    and free_op :: "'m \<Rightarrow> u16 \<Rightarrow> nat \<Rightarrow> 'm"
    and in_use :: "'m \<Rightarrow> nat \<Rightarrow> bool"
    and ok :: "'m \<Rightarrow> bool"
    and limit :: nat
  assumes alloc_ok: "ok m \<Longrightarrow> alloc_op m n = (Ok s, m') \<Longrightarrow> ok m'"
    and alloc_run: "ok m \<Longrightarrow> alloc_op m n = (Ok s, m') \<Longrightarrow>
      0 < n \<and> unat s + n \<le> limit \<and> (\<forall>b. unat s \<le> b \<and> b < unat s + n \<longrightarrow> \<not> in_use m b)"
    and alloc_in_use: "ok m \<Longrightarrow> alloc_op m n = (Ok s, m') \<Longrightarrow>
      in_use m' b \<longleftrightarrow> in_use m b \<or> (unat s \<le> b \<and> b < unat s + n)"
    and alloc_failed: "ok m \<Longrightarrow> alloc_op m n = (Err e, m') \<Longrightarrow> m' = m"
    and alloc_never_panics: "alloc_op m n \<noteq> (Panic, m')"
    and free_ok: "ok m \<Longrightarrow> ok (free_op m s n)"
    and free_in_use: "ok m \<Longrightarrow> b < limit \<Longrightarrow>
      in_use (free_op m s n) b \<longleftrightarrow> in_use m b \<and> \<not> (unat s \<le> b \<and> b < unat s + n)"
begin

definition tracks :: "'m \<Rightarrow> nat set \<Rightarrow> bool" where
  "tracks m A \<longleftrightarrow> ok m \<and> {b. b < limit \<and> in_use m b} = A"

lemma tracks_bound: "tracks m A \<Longrightarrow> b \<in> A \<Longrightarrow> b < limit"
  by (auto simp: tracks_def)

lemma alloc_fresh:
  assumes "tracks m A" "alloc_op m n = (Ok s, m')"
  shows "A \<inter> {unat s..<unat s + n} = {}" "{unat s..<unat s + n} \<subseteq> {..<limit}" "0 < n"
proof -
  from assms(1) have "ok m" by (simp add: tracks_def)
  note run = alloc_run [OF this assms(2)]
  then show "{unat s..<unat s + n} \<subseteq> {..<limit}" "0 < n" by auto
  from run assms(1) show "A \<inter> {unat s..<unat s + n} = {}" by (fastforce simp: tracks_def)
qed

lemma alloc_tracks:
  assumes "tracks m A" "alloc_op m n = (Ok s, m')"
  shows "tracks m' (A \<union> {unat s..<unat s + n})"
proof -
  from assms(1) have ok: "ok m" and A: "A = {b. b < limit \<and> in_use m b}"
    by (auto simp: tracks_def)
  have "unat s + n \<le> limit"
    using alloc_run [OF ok assms(2)] by simp
  then show ?thesis
    unfolding tracks_def A alloc_in_use [OF ok assms(2)]
    by (intro conjI alloc_ok [OF ok assms(2)]) auto
qed

lemma free_tracks:
  assumes "tracks m A"
  shows "tracks (free_op m s n) (A - {unat s..<unat s + n})"
proof -
  from assms have ok: "ok m" and A: "A = {b. b < limit \<and> in_use m b}"
    by (auto simp: tracks_def)
  show ?thesis
    unfolding tracks_def A by (intro conjI free_ok [OF ok]) (auto simp: free_in_use [OF ok])
qed

text \<open>Releasing a run just taken restores the set of blocks in use.\<close>

lemma free_after_alloc:
  assumes "tracks m A" "alloc_op m n = (Ok s, m')"
  shows "tracks (free_op m' s n) A"
proof -
  have "(A \<union> {unat s..<unat s + n}) - {unat s..<unat s + n} = A"
    using alloc_fresh(1) [OF assms] by blast
  then show ?thesis
    using free_tracks [OF alloc_tracks [OF assms], of s n] by simp
qed

end

interpretation blk: block_allocator alloc free used "\<lambda>ws. length ws = BITMAP_WORDS" BLOB_BLOCKS
proof unfold_locales
  fix m :: "u32 list" and n s m' e b
  assume len: "length m = BITMAP_WORDS"
  {
    assume al: "alloc m n = (Ok s, m')"
    show "length m' = BITMAP_WORDS"
      by (rule alloc_Ok(5) [OF al len])
    show "0 < n \<and> unat s + n \<le> BLOB_BLOCKS \<and>
        (\<forall>b. unat s \<le> b \<and> b < unat s + n \<longrightarrow> \<not> used m b)"
      using alloc_Ok(1-3) [OF al len] by (simp add: free_run_def)
    show "used m' b \<longleftrightarrow> used m b \<or> (unat s \<le> b \<and> b < unat s + n)"
      by (rule alloc_Ok(6) [OF al len])
  next
    assume "alloc m n = (Err e, m')"
    then show "m' = m"
      using alloc_fail [of m n e] by simp
  next
    show "length (free m s n) = BITMAP_WORDS"
      using len by simp
  next
    assume "b < BLOB_BLOCKS"
    then show "used (free m s n) b \<longleftrightarrow> used m b \<and> \<not> (unat s \<le> b \<and> b < unat s + n)"
      using used_free [OF len] by simp
  }
qed simp

end
