(* ===== verification/VaultEntry.thy ===== *)
theory VaultEntry
  imports BlockAlloc
begin

text \<open>
  What the key vault stores about a key: the length contract of each key kind
  (\<open>key_vault/src/kind.rs\<close>), the packed 8-byte metadata entry (\<open>entry.rs\<close>), the 32-byte attribute
  blob in front of the key material (\<open>storage.rs\<close>) and the key identifier (\<open>vault.rs\<close>).
\<close>

section \<open>Key kinds and their lengths\<close>

text \<open>\<open>HsmVaultKeyKind\<close> is an open \<open>u8\<close> enum; the kinds named by the modelled code.\<close>

type_synonym HsmVaultKeyKind = u8

abbreviation (input) Free :: HsmVaultKeyKind where "Free \<equiv> 0"
abbreviation (input) Aes128 :: HsmVaultKeyKind where "Aes128 \<equiv> 16"
abbreviation (input) AesXtsBulk256 :: HsmVaultKeyKind where "AesXtsBulk256 \<equiv> 19"
abbreviation (input) AesGcmBulk256 :: HsmVaultKeyKind where "AesGcmBulk256 \<equiv> 20"
abbreviation (input) AesGcmBulk256Unapproved :: HsmVaultKeyKind where "AesGcmBulk256Unapproved \<equiv> 21"
abbreviation (input) Session :: HsmVaultKeyKind where "Session \<equiv> 27"
abbreviation (input) VarLenHmacSha256 :: HsmVaultKeyKind where "VarLenHmacSha256 \<equiv> 32"
abbreviation (input) SessionExPending :: HsmVaultKeyKind where "SessionExPending \<equiv> 35"
abbreviation (input) SessionEx :: HsmVaultKeyKind where "SessionEx \<equiv> 36"

datatype KeyLen = Fixed u16 | Variable u16 u16 | Invalid

fun max_len :: "KeyLen \<Rightarrow> u16 option" where
  "max_len (Fixed n) = Some n"
| "max_len (Variable mn mx) = Some mx"
| "max_len Invalid = None"

fun check :: "KeyLen \<Rightarrow> nat \<Rightarrow> u16 run" where
  "check (Fixed n) actual = (if actual = unat n then Ok n else Err InvalidArg)"
| "check (Variable mn mx) actual =
     (if unat mn \<le> actual \<and> actual \<le> unat mx then Ok (of_nat actual) else Err InvalidArg)"
| "check Invalid actual = Err InvalidArg"

definition KIND_LEN :: "KeyLen list" where
  "KIND_LEN =
    [Invalid, Fixed 260, Fixed 388, Fixed 516, Fixed 516, Fixed 772, Fixed 1028, Fixed 1284,
     Fixed 1924, Fixed 2564, Fixed 64, Fixed 96, Fixed 136, Fixed 32, Fixed 48, Fixed 68,
     Fixed 16, Fixed 24, Fixed 32, Fixed 2, Fixed 2, Fixed 2, Fixed 32, Fixed 48,
     Fixed 68, Fixed 144, Fixed 144, Fixed 88, Fixed 32, Fixed 48, Fixed 64, Fixed 80,
     Variable 32 64, Variable 48 128, Variable 64 128, Variable 32 256, Variable 72 168,
     Fixed 48, Fixed 48, Fixed 32, Fixed 32, Fixed 48, Fixed 32, Fixed 48]"

definition key_len :: "HsmVaultKeyKind \<Rightarrow> KeyLen run" where
  "key_len k =
     (case (if unat k < length KIND_LEN then KIND_LEN ! unat k else Invalid) of
        Invalid \<Rightarrow> if k = Free then Err InvalidArg else Err InvalidKeyType
      | spec \<Rightarrow> Ok spec)"

text \<open>Every length the table admits is positive and at most that of an RSA-4096 CRT key.\<close>

definition len_bounded :: "KeyLen \<Rightarrow> bool" where
  "len_bounded spec = (case spec of
     Fixed n \<Rightarrow> 0 < unat n \<and> unat n \<le> 2564
   | Variable mn mx \<Rightarrow> 32 \<le> unat mn \<and> unat mn \<le> unat mx \<and> unat mx \<le> 256
   | Invalid \<Rightarrow> True)"

lemma KIND_LEN_bounded: "\<forall>spec \<in> set KIND_LEN. len_bounded spec"
  by (simp add: KIND_LEN_def len_bounded_def)

lemma key_len_Ok:
  assumes "key_len k = Ok spec"
  shows "spec \<noteq> Invalid" "len_bounded spec" "k \<noteq> Free"
proof -
  from assms have k: "unat k < length KIND_LEN" "KIND_LEN ! unat k = spec" "spec \<noteq> Invalid"
    by (cases "unat k < length KIND_LEN"; cases "KIND_LEN ! unat k";
        force simp: key_len_def split: if_splits)+
  then show "spec \<noteq> Invalid" "len_bounded spec"
    using KIND_LEN_bounded nth_mem [of "unat k" KIND_LEN] by auto
  have "KIND_LEN ! 0 = Invalid"
    by (simp add: KIND_LEN_def)
  with k show "k \<noteq> Free" by auto
qed

lemma key_len_not_Panic [simp]: "key_len k \<noteq> Panic"
  by (simp add: key_len_def split: KeyLen.splits)

lemma check_not_Panic [simp]: "check spec n \<noteq> Panic"
  by (cases spec) simp_all

lemma check_Ok:
  assumes "check spec n = Ok m" "len_bounded spec"
  shows "unat m = n" "0 < n" "n \<le> 2564"
  using assms by (cases spec; auto simp: len_bounded_def unat_of_nat split: if_splits)+

section \<open>Storage cost\<close>

definition storage_bytes :: "u16 \<Rightarrow> nat" where
  "storage_bytes n =
     (let aligned = nat ((int (unat n) + int BLOCK_ALIGNMENT - 1) AND NOT (int BLOCK_ALIGNMENT - 1))
      in ATTRIBUTES_BLOB_SIZE + aligned)"

lemma and_not_7: "(x :: int) AND NOT 7 = x div 8 * 8"
proof -
  have "x AND NOT (mask 3) = push_bit 3 (drop_bit 3 x)"
    by (rule bit_eqI) (auto simp: bit_simps)
  then show ?thesis
    by (simp add: push_bit_eq_mult drop_bit_eq_div mask_eq_exp_minus_1)
qed

lemma nat_and_not_7: "nat (int m AND NOT 7) = m div 8 * 8"
proof -
  have "int m div 8 * 8 = int (m div 8 * 8)" by (simp add: of_nat_div)
  then show ?thesis by (simp only: and_not_7 nat_int)
qed

lemma storage_bytes_eq: "storage_bytes n = 32 + (unat n + 7) div 8 * 8"
proof -
  have "int (unat n) + int BLOCK_ALIGNMENT - 1 = int (unat n + 7)" "int BLOCK_ALIGNMENT - 1 = 7"
    by (simp_all add: geometry_defs)
  then show ?thesis
    by (simp only: storage_bytes_def Let_def nat_and_not_7) (simp add: geometry_defs)
qed

lemma storage_bytes_bounds:
  "ATTRIBUTES_BLOB_SIZE + unat n \<le> storage_bytes n" "8 dvd storage_bytes n"
  "storage_bytes n = blocks_for (storage_bytes n) * BLOCK_ALIGNMENT"
  "4 \<le> blocks_for (storage_bytes n)"
  by (auto simp: storage_bytes_eq blocks_for_def geometry_defs)

section \<open>The metadata entry\<close>

text \<open>
  \<open>Entry\<close> is a transparent \<open>u64\<close>: block offset in bits 0 to 15, disabled in bit 16, session in
  bit 17, session id or tag in bits 32 to 47, kind in bits 48 to 55, application in bits 56 to 63.
\<close>

type_synonym Entry = u64

definition entry_block_offset :: "Entry \<Rightarrow> u16" where
  "entry_block_offset e = ucast (get_field 0 16 e)"
definition entry_disabled :: "Entry \<Rightarrow> bool" where
  "entry_disabled e \<longleftrightarrow> get_field 16 1 e \<noteq> 0"
definition entry_session :: "Entry \<Rightarrow> bool" where
  "entry_session e \<longleftrightarrow> get_field 17 1 e \<noteq> 0"
definition entry_session_or_tag :: "Entry \<Rightarrow> u16" where
  "entry_session_or_tag e = ucast (get_field 32 16 e)"
definition entry_kind :: "Entry \<Rightarrow> HsmVaultKeyKind" where
  "entry_kind e = ucast (get_field 48 8 e)"
definition entry_app_id :: "Entry \<Rightarrow> u8" where
  "entry_app_id e = ucast (get_field 56 8 e)"

definition set_block_offset :: "u16 \<Rightarrow> Entry \<Rightarrow> Entry" where
  "set_block_offset v e = set_field 0 16 (ucast v) e"
definition set_disabled :: "bool \<Rightarrow> Entry \<Rightarrow> Entry" where
  "set_disabled b e = set_field 16 1 (if b then 1 else 0) e"
definition set_session :: "bool \<Rightarrow> Entry \<Rightarrow> Entry" where
  "set_session b e = set_field 17 1 (if b then 1 else 0) e"
definition set_session_or_tag :: "u16 \<Rightarrow> Entry \<Rightarrow> Entry" where
  "set_session_or_tag v e = set_field 32 16 (ucast v) e"
definition set_kind :: "HsmVaultKeyKind \<Rightarrow> Entry \<Rightarrow> Entry" where
  "set_kind k e = set_field 48 8 (ucast k) e"
definition set_app_id :: "u8 \<Rightarrow> Entry \<Rightarrow> Entry" where
  "set_app_id a e = set_field 56 8 (ucast a) e"

definition entry_is_free :: "Entry \<Rightarrow> bool" where
  "entry_is_free e \<longleftrightarrow> entry_kind e = Free"

definition attrs_byte_offset :: "Entry \<Rightarrow> nat" where
  "attrs_byte_offset e = unat (entry_block_offset e) * BLOCK_ALIGNMENT"

lemmas entry_getter_defs = entry_block_offset_def entry_disabled_def entry_session_def
  entry_session_or_tag_def entry_kind_def entry_app_id_def
lemmas entry_setter_defs = set_block_offset_def set_disabled_def set_session_def
  set_session_or_tag_def set_kind_def set_app_id_def

lemma entry_get_set_same [simp, field_simps_bits]:
  "entry_block_offset (set_block_offset v e) = v"
  "entry_disabled (set_disabled b e) = b"
  "entry_session (set_session b e) = b"
  "entry_session_or_tag (set_session_or_tag v e) = v"
  "entry_kind (set_kind k e) = k"
  "entry_app_id (set_app_id a e) = a"
  by (simp_all add: entry_getter_defs entry_setter_defs get_set_field_same)

lemma entry_get_set_other [simp, field_simps_bits]:
  "entry_block_offset (set_disabled b e) = entry_block_offset e"
  "entry_block_offset (set_session b e) = entry_block_offset e"
  "entry_block_offset (set_session_or_tag v e) = entry_block_offset e"
  "entry_block_offset (set_kind k e) = entry_block_offset e"
  "entry_block_offset (set_app_id a e) = entry_block_offset e"
  "entry_disabled (set_block_offset u e) = entry_disabled e"
  "entry_disabled (set_session b e) = entry_disabled e"
  "entry_disabled (set_session_or_tag v e) = entry_disabled e"
  "entry_disabled (set_kind k e) = entry_disabled e"
  "entry_disabled (set_app_id a e) = entry_disabled e"
  "entry_session (set_block_offset u e) = entry_session e"
  "entry_session (set_disabled b e) = entry_session e"
  "entry_session (set_session_or_tag v e) = entry_session e"
  "entry_session (set_kind k e) = entry_session e"
  "entry_session (set_app_id a e) = entry_session e"
  "entry_session_or_tag (set_block_offset u e) = entry_session_or_tag e"
  "entry_session_or_tag (set_disabled b e) = entry_session_or_tag e"
  "entry_session_or_tag (set_session b e) = entry_session_or_tag e"
  "entry_session_or_tag (set_kind k e) = entry_session_or_tag e"
  "entry_session_or_tag (set_app_id a e) = entry_session_or_tag e"
  "entry_kind (set_block_offset u e) = entry_kind e"
  "entry_kind (set_disabled b e) = entry_kind e"
  "entry_kind (set_session b e) = entry_kind e"
  "entry_kind (set_session_or_tag v e) = entry_kind e"
  "entry_kind (set_app_id a e) = entry_kind e"
  "entry_app_id (set_block_offset u e) = entry_app_id e"
  "entry_app_id (set_disabled b e) = entry_app_id e"
  "entry_app_id (set_session b e) = entry_app_id e"
  "entry_app_id (set_session_or_tag v e) = entry_app_id e"
  "entry_app_id (set_kind k e) = entry_app_id e"
  by (simp_all add: entry_getter_defs entry_setter_defs get_set_field_other)

lemma entry_zero [simp]: "entry_is_free 0" "entry_kind 0 = Free"
  by (simp_all add: entry_is_free_def entry_kind_def)

lemma attrs_byte_offset_set [simp]:
  "attrs_byte_offset (set_disabled b e) = attrs_byte_offset e"
  by (simp add: attrs_byte_offset_def)

lemma entry_is_free_set_disabled [simp]: "entry_is_free (set_disabled b e) = entry_is_free e"
  by (simp add: entry_is_free_def)

lemma set_disabled_back:
  assumes "\<not> entry_disabled e"
  shows "set_disabled False (set_disabled True e) = e"
proof -
  from assms have "get_field 16 1 e = 0"
    by (simp add: entry_disabled_def)
  then have "set_field 16 1 0 e = e"
    using set_field_get_field [of 16 1 e] by simp
  then show ?thesis
    by (simp add: set_disabled_def set_field_idem)
qed

section \<open>The attribute blob\<close>

record Attributes =
  attrs :: u64
  reserved_8_24 :: "u8 list"
  var_len :: u16
  reserved_26_32 :: "u8 list"

definition Attributes_ZERO :: Attributes where
  "Attributes_ZERO =
     \<lparr>attrs = 0, reserved_8_24 = replicate 16 0, var_len = 0, reserved_26_32 = replicate 6 0\<rparr>"

text \<open>The \<open>repr(C)\<close> byte image (\<open>as_bytes\<close>) and its inverse (\<open>as_mut_bytes().copy_from_slice\<close>).\<close>

definition attributes_as_bytes :: "Attributes \<Rightarrow> u8 list" where
  "attributes_as_bytes a = to_le 8 (attrs a) @ reserved_8_24 a @ to_le 2 (var_len a) @ reserved_26_32 a"

definition attributes_from_bytes :: "u8 list \<Rightarrow> Attributes" where
  "attributes_from_bytes bs =
     \<lparr>attrs = from_le (slice 0 8 bs), reserved_8_24 = slice 8 16 bs,
      var_len = from_le (slice 24 2 bs), reserved_26_32 = slice 26 6 bs\<rparr>"

definition attributes_wf :: "Attributes \<Rightarrow> bool" where
  "attributes_wf a \<longleftrightarrow> length (reserved_8_24 a) = 16 \<and> length (reserved_26_32 a) = 6"

lemma length_attributes [simp]:
  "attributes_wf a \<Longrightarrow> length (attributes_as_bytes a) = ATTRIBUTES_BLOB_SIZE"
  by (simp add: attributes_as_bytes_def attributes_wf_def geometry_defs)

lemma attributes_round_trip:
  "attributes_wf a \<Longrightarrow> attributes_from_bytes (attributes_as_bytes a) = a"
  by (simp add: attributes_as_bytes_def attributes_from_bytes_def attributes_wf_def slice_def)

section \<open>Key identifiers\<close>

type_synonym HsmKeyId = u16

definition make_key_id :: "nat \<Rightarrow> nat \<Rightarrow> HsmKeyId" where
  "make_key_id table entry = push_bit 8 (of_nat table) OR of_nat entry"

definition split_key_id :: "HsmKeyId \<Rightarrow> nat \<times> nat" where
  "split_key_id key_id = (unat (drop_bit 8 key_id), unat (key_id AND 0xFF))"

lemma split_key_id_eq: "split_key_id k = (unat k div 256, unat k mod 256)"
proof -
  have "k AND 0xFF = k AND mask 8"
    by (simp add: mask_eq_exp_minus_1)
  then have "k AND 0xFF = take_bit 8 k"
    by (simp only: take_bit_eq_mask)
  then show ?thesis
    by (simp only: split_key_id_def unat_drop_bit_eq unsigned_take_bit_eq)
      (simp add: drop_bit_eq_div take_bit_eq_mod)
qed

lemma make_key_id_eq:
  assumes "i < 256"
  shows "make_key_id t i = of_nat (256 * t + i)"
proof -
  have "take_bit 8 i = i"
    using assms by (simp add: take_bit_nat_eq_self)
  then have "\<not> bit (of_nat i :: u16) n" if "8 \<le> n" for n
    using that by (metis bit_of_nat_iff bit_of_nat_iff_bit bit_take_bit_iff leD)
  then have "\<not> bit (push_bit 8 (of_nat t) :: u16) n \<or> \<not> bit (of_nat i :: u16) n" for n
    by (auto simp: bit_simps not_le)
  then have "make_key_id t i = push_bit 8 (of_nat t) + of_nat i"
    by (simp add: make_key_id_def disjunctive_add)
  then show ?thesis
    by (simp add: push_bit_eq_mult mult.commute)
qed

lemma split_make_key_id [simp]:
  assumes "t < 256" "i < 256"
  shows "split_key_id (make_key_id t i) = (t, i)"
proof -
  have "unat (of_nat (256 * t + i) :: u16) = 256 * t + i"
    using assms by (simp only: unat_of_nat) simp
  then show ?thesis
    using assms by (simp only: make_key_id_eq split_key_id_eq) simp
qed

lemma make_split_key_id: "split_key_id k = (t, i) \<Longrightarrow> make_key_id t i = k"
  by (auto simp: split_key_id_eq make_key_id_eq simp del: of_nat_add of_nat_mult)

lemma split_key_id_bounds: "split_key_id k = (t, i) \<Longrightarrow> t < 256 \<and> i < 256"
  using unsigned_less [of k, where ?'a = nat]
  by (auto simp: split_key_id_eq intro: less_mult_imp_div_less)
end
