(* ===== verification/Gdma.thy ===== *)
theory Gdma
  imports VaultEntry
begin

text \<open>
  The DMA service the key vault calls for long keys: the contract of the PAL trait
  \<open>HsmGdmaController\<close> (\<open>fw/pal/traits/src/gdma.rs\<close>) as a locale, the software implementation of
  the std PAL, and the Uno PAL's implementation over its GDMA engine, whose zeroization falls back
  to the CPU. The engine itself is hardware: it is an argument of the Uno definitions, with its
  documented behaviour as the hypothesis \<open>engine_ok\<close>.
\<close>

section \<open>Buffers, descriptors and the controller interface\<close>

record DmaBuf =
  buf_ptr :: u32
  buf_bytes :: "u8 list"

abbreviation buf_len :: "DmaBuf \<Rightarrow> nat" where
  "buf_len b \<equiv> length (buf_bytes b)"

record GdmaAddr =
  ga_lo :: u32
  ga_hi :: u32

datatype GdmaBuf = Prp GdmaAddr GdmaAddr | Sgl GdmaAddr GdmaAddr

datatype MemInterface = Device | Host u8

record gdma =
  copy_mem :: "DmaBuf \<Rightarrow> DmaBuf \<Rightarrow> unit run \<times> u8 list"
  zeroize_mem :: "DmaBuf \<Rightarrow> unit run \<times> u8 list"

text \<open>
  What the trait promises: the engine never panics and never writes outside the destination, a
  successful copy of equal lengths leaves the source bytes in the destination, a successful
  zeroization leaves zeros. A failed transfer may leave anything in the destination.
\<close>

locale gdma_controller =
  fixes g :: gdma
  assumes copy_no_panic: "fst (copy_mem g src dst) \<noteq> Panic"
    and copy_length: "buf_len src = buf_len dst \<Longrightarrow> length (snd (copy_mem g src dst)) = buf_len dst"
    and copy_Ok: "buf_len src = buf_len dst \<Longrightarrow> fst (copy_mem g src dst) = Ok () \<Longrightarrow>
      snd (copy_mem g src dst) = buf_bytes src"
    and zeroize_no_panic: "fst (zeroize_mem g dst) \<noteq> Panic"
    and zeroize_length: "length (snd (zeroize_mem g dst)) = buf_len dst"
    and zeroize_Ok: "fst (zeroize_mem g dst) = Ok () \<Longrightarrow>
      snd (zeroize_mem g dst) = replicate (buf_len dst) 0"

text \<open>Both PALs promise more: zeroization never fails.\<close>

locale gdma_scrubbing = gdma_controller +
  assumes zeroize_total: "fst (zeroize_mem g dst) = Ok ()"

context gdma_scrubbing
begin

lemma zeroize_result: "zeroize_mem g dst = (Ok (), replicate (buf_len dst) 0)"
  using zeroize_Ok [OF zeroize_total] zeroize_total by (metis prod.collapse)

end

section \<open>The std PAL\<close>

definition std_copy_mem :: "DmaBuf \<Rightarrow> DmaBuf \<Rightarrow> unit run \<times> u8 list" where
  "std_copy_mem src dst =
     (let len = min (buf_len src) (buf_len dst)
      in (Ok (), splice_at 0 (take len (buf_bytes src)) (buf_bytes dst)))"

definition std_zeroize_mem :: "DmaBuf \<Rightarrow> unit run \<times> u8 list" where
  "std_zeroize_mem dst = (Ok (), replicate (buf_len dst) 0)"

definition std_gdma :: gdma where
  "std_gdma = \<lparr>copy_mem = std_copy_mem, zeroize_mem = std_zeroize_mem\<rparr>"

interpretation stdg: gdma_scrubbing std_gdma
  by unfold_locales
    (simp_all add: std_gdma_def std_copy_mem_def std_zeroize_mem_def splice_at_def Let_def)

text \<open>The std PAL checks a raw SGL descriptor before it dereferences its address.\<close>

definition validate_raw_src :: "u8 list \<Rightarrow> nat \<Rightarrow> unit run" where
  "validate_raw_src desc dst_len =
     (let len = unat (from_le (slice 8 4 desc) :: u32)
      in if len \<noteq> dst_len then Err InvalidArg
         else if len \<noteq> 0 \<and> list_all (\<lambda>b. b = 0) (slice 0 8 desc) then Err InvalidArg
         else Ok ())"

section \<open>The Uno PAL\<close>

definition ZERO_BASE :: u32 where "ZERO_BASE = 0xA0B00000"
definition ZERO_SIZE :: u32 where "ZERO_SIZE = 0x4000"

definition GdmaAddr_ZERO :: GdmaAddr where
  "GdmaAddr_ZERO = \<lparr>ga_lo = 0, ga_hi = 0\<rparr>"

definition host_dma_buf :: "GdmaAddr \<Rightarrow> bool \<Rightarrow> GdmaBuf" where
  "host_dma_buf addr prp = (if prp then Prp addr GdmaAddr_ZERO else Sgl addr GdmaAddr_ZERO)"

definition device_dma_buf :: "u32 \<Rightarrow> u32 \<Rightarrow> GdmaBuf" where
  "device_dma_buf p len = Sgl \<lparr>ga_lo = p, ga_hi = 0\<rparr> \<lparr>ga_lo = len, ga_hi = 0\<rparr>"

definition sgl_desc_buf :: "u8 list \<Rightarrow> GdmaBuf" where
  "sgl_desc_buf desc =
     Sgl \<lparr>ga_lo = from_le (slice 0 4 desc), ga_hi = from_le (slice 4 4 desc)\<rparr>
         \<lparr>ga_lo = from_le (slice 8 4 desc), ga_hi = from_le (slice 12 4 desc)\<rparr>"

definition pfn_to_axi_id :: "u8 \<Rightarrow> u8 option" where
  "pfn_to_axi_id pfn =
     (if pfn = 64 then Some 0x10 else if pfn < 64 then Some (0x20 + pfn) else None)"

definition host_interface :: "u8 \<Rightarrow> MemInterface run" where
  "host_interface part_id =
     (case pfn_to_axi_id part_id of None \<Rightarrow> Err InvalidArg | Some ctrl_id \<Rightarrow> Ok (Host ctrl_id))"

text \<open>
  One transfer of the engine: the source endpoint with the bytes it denotes, the destination
  endpoint with the bytes there before; the outcome and the destination's bytes afterwards.
\<close>

type_synonym engine =
  "GdmaBuf \<Rightarrow> MemInterface \<Rightarrow> u32 \<Rightarrow> u8 list \<Rightarrow> GdmaBuf \<Rightarrow> MemInterface \<Rightarrow> u32 \<Rightarrow> u8 list \<Rightarrow> unit run \<times> u8 list"

definition engine_ok :: "engine \<Rightarrow> bool" where
  "engine_ok eng \<longleftrightarrow>
     (\<forall>sb si sl src db di dl dst.
        fst (eng sb si sl src db di dl dst) \<noteq> Panic \<and>
        length (snd (eng sb si sl src db di dl dst)) = length dst \<and>
        (length src = length dst \<longrightarrow> fst (eng sb si sl src db di dl dst) = Ok () \<longrightarrow>
           snd (eng sb si sl src db di dl dst) = src))"

definition uno_copy_mem :: "engine \<Rightarrow> DmaBuf \<Rightarrow> DmaBuf \<Rightarrow> unit run \<times> u8 list" where
  "uno_copy_mem eng src dst =
     (let src_addr = device_dma_buf (buf_ptr src) (of_nat (buf_len src));
          dst_addr = device_dma_buf (buf_ptr dst) (of_nat (buf_len dst))
      in eng src_addr Device (of_nat (buf_len src)) (buf_bytes src)
             dst_addr Device (of_nat (buf_len dst)) (buf_bytes dst))"

text \<open>The zero window reads as zero, so the bytes a chunk of it denotes are zeros.\<close>

function gdma_zero_region :: "engine \<Rightarrow> u32 \<Rightarrow> nat \<Rightarrow> nat \<Rightarrow> u8 list \<Rightarrow> unit run \<times> u8 list" where
  "gdma_zero_region eng dst_ptr len off dst =
     (if off < len then
        let chunk = min (len - off) (unat ZERO_SIZE);
            src = device_dma_buf ZERO_BASE (of_nat chunk);
            d = device_dma_buf (dst_ptr + of_nat off) (of_nat chunk)
        in case eng src Device (of_nat chunk) (replicate chunk 0)
                    d Device (of_nat chunk) (slice off chunk dst) of
             (Ok _, bs) \<Rightarrow> gdma_zero_region eng dst_ptr len (off + chunk) (splice_at off bs dst)
           | (r, bs) \<Rightarrow> (r, splice_at off bs dst)
      else (Ok (), dst))"
  by pat_completeness auto
termination
  by (relation "measure (\<lambda>(eng, p, len, off, dst). len - off)") (auto simp: ZERO_SIZE_def)

declare gdma_zero_region.simps [simp del]

definition uno_zeroize_mem :: "engine \<Rightarrow> DmaBuf \<Rightarrow> unit run \<times> u8 list" where
  "uno_zeroize_mem eng dst =
     (let len = buf_len dst
      in if len = 0 then (Ok (), buf_bytes dst)
         else case gdma_zero_region eng (buf_ptr dst) len 0 (buf_bytes dst) of
                (Panic, bs) \<Rightarrow> (Panic, bs)
              | (Err _, bs) \<Rightarrow> (Ok (), replicate (length bs) 0)
              | (Ok _, bs) \<Rightarrow> (Ok (), bs))"

definition uno_gdma :: "engine \<Rightarrow> gdma" where
  "uno_gdma eng = \<lparr>copy_mem = uno_copy_mem eng, zeroize_mem = uno_zeroize_mem eng\<rparr>"

text \<open>
  The raw-descriptor copy: an SGL data block must name exactly the destination's length, a segment
  descriptor must name a whole number of descriptors within one page. \<open>host\<close> are the bytes the
  descriptor denotes in host memory.
\<close>

definition raw_transfer_len :: "u8 list \<Rightarrow> nat \<Rightarrow> bool \<Rightarrow> u32 run" where
  "raw_transfer_len desc dst_len prp =
     (if prp then Err UnsupportedCmd
      else let desc_len = from_le (slice 8 4 desc) :: u32; ty = drop_bit 4 (desc ! 15) in
        if ty = 0 then (if unat desc_len \<noteq> dst_len then Err InvalidArg else Ok desc_len)
        else if ty = 2 \<or> ty = 3 then
          (let min_len = (if ty = 2 then 2 * 16 else 16) in
           if desc_len < min_len \<or> desc_len > 4096 \<or> desc_len mod 16 \<noteq> 0 then Err InvalidArg
           else if dst_len < 2 ^ 32 then Ok (of_nat dst_len) else Err InvalidArg)
        else Err InvalidArg)"

definition uno_copy_mem_from_host_raw ::
  "engine \<Rightarrow> u8 \<Rightarrow> u8 list \<Rightarrow> u8 list \<Rightarrow> DmaBuf \<Rightarrow> bool \<Rightarrow> unit run \<times> u8 list" where
  "uno_copy_mem_from_host_raw eng pid host desc dst prp =
     (case raw_transfer_len desc (buf_len dst) prp of
        Err e \<Rightarrow> (Err e, buf_bytes dst)
      | Panic \<Rightarrow> (Panic, buf_bytes dst)
      | Ok len \<Rightarrow>
          (case host_interface pid of
             Ok ifc \<Rightarrow> eng (sgl_desc_buf desc) ifc len host
                         (device_dma_buf (buf_ptr dst) len) Device len (buf_bytes dst)
           | Err e \<Rightarrow> (Err e, buf_bytes dst)
           | Panic \<Rightarrow> (Panic, buf_bytes dst)))"

text \<open>The CPU wipe: a byte-wise head up to an 8-byte boundary, a body of words, a byte-wise tail.\<close>

definition zeroize_at :: "nat \<Rightarrow> nat \<Rightarrow> u8 list \<Rightarrow> u8 list" where
  "zeroize_at off n mem = splice_at off (replicate n 0) mem"

definition cpu_zeroize :: "u32 \<Rightarrow> nat \<Rightarrow> u8 list \<Rightarrow> u8 list" where
  "cpu_zeroize p len mem =
     (let head = min (unat ((8 - (p AND 7)) AND 7)) len;
          mem1 = (if head \<noteq> 0 then zeroize_at 0 head mem else mem);
          body_len = nat (int (len - head) AND NOT 7);
          mem2 = (if body_len \<noteq> 0 then zeroize_at head (body_len div 8 * 8) mem1 else mem1);
          tail_off = head + body_len
      in if tail_off < len then zeroize_at tail_off (len - tail_off) mem2 else mem2)"

section \<open>Correctness of the Uno implementation\<close>

lemma engine_okD:
  assumes "engine_ok eng"
  shows "fst (eng sb si sl src db di dl dst) \<noteq> Panic"
    and "length (snd (eng sb si sl src db di dl dst)) = length dst"
    and "length src = length dst \<Longrightarrow> fst (eng sb si sl src db di dl dst) = Ok () \<Longrightarrow>
      snd (eng sb si sl src db di dl dst) = src"
  using assms by (simp_all add: engine_ok_def)

lemma gdma_zero_region_result:
  assumes "engine_ok eng" "length dst = len" "off \<le> len" "\<forall>i < off. dst ! i = 0"
    and "gdma_zero_region eng p len off dst = (r, bs)"
  shows "r \<noteq> Panic \<and> length bs = len \<and> (r = Ok () \<longrightarrow> bs = replicate len 0)"
  using assms
proof (induction eng p len off dst arbitrary: r bs rule: gdma_zero_region.induct)
  case (1 eng p len off dst)
  show ?case
  proof (cases "off < len")
    case False
    with 1 show ?thesis
      by (auto simp: gdma_zero_region.simps intro!: nth_equalityI)
  next
    case True
    define chunk where "chunk = min (len - off) (unat ZERO_SIZE)"
    define x where "x = eng (device_dma_buf ZERO_BASE (of_nat chunk)) Device (of_nat chunk)
      (replicate chunk 0) (device_dma_buf (p + of_nat off) (of_nat chunk)) Device (of_nat chunk)
      (slice off chunk dst)"
    have chunk: "off + chunk \<le> len" using True by (simp add: chunk_def)
    then have sl: "length (slice off chunk dst) = chunk" using 1 by simp
    have step: "gdma_zero_region eng p len off dst =
      (case x of (Ok _, bs) \<Rightarrow> gdma_zero_region eng p len (off + chunk) (splice_at off bs dst)
        | (r, bs) \<Rightarrow> (r, splice_at off bs dst))"
      using True by (subst gdma_zero_region.simps) (simp add: x_def Let_def flip: chunk_def)
    obtain r' d where x: "x = (r', d)" by (cases x)
    have d: "r' \<noteq> Panic" "length d = chunk" "r' = Ok () \<Longrightarrow> d = replicate chunk 0"
      using engine_okD [OF 1(2)] sl x x_def by (metis fst_conv snd_conv length_replicate)+
    show ?thesis
    proof (cases "r' = Ok ()")
      case False
      with d x step 1 chunk show ?thesis by (cases r') auto
    next
      case True
      have zs: "\<forall>i < off + chunk. splice_at off d dst ! i = 0"
        using d(3) [OF True] 1 chunk by (auto simp: nth_splice_at)
      show ?thesis
        by (rule 1(1) [OF \<open>off < len\<close> chunk_def refl refl, of r' d "()"])
          (use x x_def True d(2) 1(2-) chunk zs step in auto)
    qed
  qed
qed

lemma uno_zeroize_result:
  assumes "engine_ok eng"
  shows "uno_zeroize_mem eng dst = (Ok (), replicate (buf_len dst) 0)"
  using gdma_zero_region_result [OF assms refl le0, of "buf_bytes dst" "buf_ptr dst"]
  by (auto simp: uno_zeroize_mem_def Let_def split: prod.splits run.splits)

lemma uno_gdma_scrubbing: "engine_ok eng \<Longrightarrow> gdma_scrubbing (uno_gdma eng)"
  by unfold_locales (simp_all add: uno_gdma_def uno_copy_mem_def uno_zeroize_result engine_okD Let_def)

text \<open>An engine that copies: the hypothesis can hold.\<close>

definition memcpy_engine :: engine where
  "memcpy_engine sb si sl src db di dl dst =
     (if length src = length dst then (Ok (), src) else (Err InvalidArg, dst))"

lemma memcpy_engine_ok: "engine_ok memcpy_engine"
  by (simp add: engine_ok_def memcpy_engine_def)

section \<open>Descriptors and the CPU wipe\<close>

lemma raw_transfer_len_Ok:
  assumes "raw_transfer_len desc n prp = Ok len" "n < 2 ^ 32"
  shows "\<not> prp" "unat len = n"
  using assms by (auto simp: raw_transfer_len_def Let_def unat_of_nat split: if_splits)

lemma raw_transfer_len_segment:
  assumes "raw_transfer_len desc n prp = Ok len" "drop_bit 4 (desc ! 15) \<noteq> 0"
  shows "16 \<le> unat (from_le (slice 8 4 desc) :: u32)"
    "unat (from_le (slice 8 4 desc) :: u32) \<le> 4096"
    "from_le (slice 8 4 desc) mod (16 :: u32) = 0"
    "drop_bit 4 (desc ! 15) = 2 \<Longrightarrow> 32 \<le> unat (from_le (slice 8 4 desc) :: u32)"
  using assms
  by (auto simp: raw_transfer_len_def Let_def not_less word_le_nat_alt split: if_splits)

lemma pfn_to_axi_id_inj:
  assumes "pfn_to_axi_id a = Some i" "pfn_to_axi_id b = Some i"
  shows "a = b"
  using assms by (auto simp: pfn_to_axi_id_def split: if_splits) (auto simp: word_less_nat_alt unat_word_ariths word_unat_eq_iff)

lemma cpu_zeroize_eq:
  assumes "len \<le> length mem"
  shows "cpu_zeroize p len mem = replicate len 0 @ drop len mem"
proof -
  define head where "head = min (unat ((8 - (p AND 7)) AND 7)) len"
  define body where "body = (len - head) div 8 * 8"
  have mult_div_cancel: "body div 8 * 8 = body" by (simp add: body_def)
  have h: "head \<le> len" "head + body \<le> len" by (auto simp: head_def body_def)
  have "cpu_zeroize p len mem =
    (let mem1 = splice_at 0 (replicate head 0) mem; mem2 = splice_at head (replicate body 0) mem1
     in splice_at (head + body) (replicate (len - (head + body)) 0) mem2)"
    using h
    by (simp only: cpu_zeroize_def Let_def nat_and_not_7 head_def [symmetric] body_def [symmetric]
        zeroize_at_def) (auto simp: body_def [symmetric] mult_div_cancel)
  also have "\<dots> = replicate len 0 @ drop len mem"
    using h assms by (intro nth_equalityI) (auto simp: nth_splice_at Let_def nth_append)
  finally show ?thesis .
qed

end
