(* ===== verification/IoAlloc.thy ===== *)
theory IoAlloc
  imports Gdma
begin

text \<open>
  The scratch memory of an IO: two bump heaps per IO slot with a watermark that scopes rewind and a
  peak that only grows (\<open>fw/plat/uno/fw/pal/src/alloc.rs\<close>), and the wipe at the end of an IO
  (\<open>scrub_io_slot\<close> in \<open>fw/plat/uno/fw/pal/src/gdma.rs\<close>). A buffer is its offset and length in the
  heap; its bytes are those of the heap. The address space has 32 bits and every address here is
  far below its end, so addresses are natural numbers.
\<close>

section \<open>Layout\<close>

definition NONDMA :: nat where "NONDMA = 0"
definition DMA :: nat where "DMA = 1"
definition IO_SLOTS :: nat where "IO_SLOTS = 33"
definition ADMIN_IO_INDEX :: nat where "ADMIN_IO_INDEX = IO_SLOTS - 1"
definition DTCM_IO_BUF_BASE :: nat where "DTCM_IO_BUF_BASE = 0x20000000 + 0x2EC00"
definition DTCM_IO_BUF_STRIDE :: nat where "DTCM_IO_BUF_STRIDE = 0x600"
definition DTCM_IO_BUF_SIZE :: nat where "DTCM_IO_BUF_SIZE = 0x600"
definition SRAM_IO_BUF_BASE :: nat where "SRAM_IO_BUF_BASE = 0x61000000 + 0x20D60"
definition SRAM_IO_BUF_STRIDE :: nat where "SRAM_IO_BUF_STRIDE = 0x4000"

record IoHeap =
  hp_wm :: nat
  hp_pk :: nat
  hp_mem :: "u8 list"

record IoSlot =
  sl_nondma :: IoHeap
  sl_dma :: IoHeap

definition heap_of :: "nat \<Rightarrow> IoSlot \<Rightarrow> IoHeap" where
  "heap_of heap s = (if heap = NONDMA then sl_nondma s else sl_dma s)"

definition upd_heap :: "nat \<Rightarrow> (IoHeap \<Rightarrow> IoHeap) \<Rightarrow> IoSlot \<Rightarrow> IoSlot" where
  "upd_heap heap f s = (if heap = NONDMA then s\<lparr>sl_nondma := f (sl_nondma s)\<rparr> else s\<lparr>sl_dma := f (sl_dma s)\<rparr>)"

definition heap_base_cap :: "nat \<Rightarrow> nat \<Rightarrow> nat \<times> nat" where
  "heap_base_cap io_index heap =
     (if heap = NONDMA then (DTCM_IO_BUF_BASE + io_index * DTCM_IO_BUF_STRIDE, DTCM_IO_BUF_SIZE)
      else (SRAM_IO_BUF_BASE + io_index * SRAM_IO_BUF_STRIDE, SRAM_IO_BUF_STRIDE))"

section \<open>The allocator\<close>

definition set_wm :: "nat \<Rightarrow> nat \<Rightarrow> IoSlot \<Rightarrow> IoSlot" where
  "set_wm heap v = upd_heap heap (hp_wm_update (\<lambda>_. v))"

definition set_pk :: "nat \<Rightarrow> nat \<Rightarrow> IoSlot \<Rightarrow> IoSlot" where
  "set_pk heap v = upd_heap heap (hp_pk_update (\<lambda>_. v))"

definition put_bytes :: "nat \<Rightarrow> nat \<Rightarrow> u8 list \<Rightarrow> IoSlot \<Rightarrow> IoSlot" where
  "put_bytes heap start bs = upd_heap heap (hp_mem_update (splice_at start bs))"

definition reset_io_alloc :: "IoSlot \<Rightarrow> IoSlot" where
  "reset_io_alloc s = set_wm DMA 0 (set_wm NONDMA 0 s)"

definition clear_io_peak :: "IoSlot \<Rightarrow> IoSlot" where
  "clear_io_peak s = set_pk DMA 0 (set_pk NONDMA 0 s)"

definition dma_mark :: "IoSlot \<Rightarrow> nat" where
  "dma_mark s = hp_wm (heap_of DMA s)"

definition dma_restore :: "nat \<Rightarrow> IoSlot \<Rightarrow> IoSlot" where
  "dma_restore m = set_wm DMA m"

definition io_slot_dma_dirty :: "nat \<Rightarrow> IoSlot \<Rightarrow> nat \<times> nat" where
  "io_slot_dma_dirty io_index s =
     (let (base, cap) = heap_base_cap io_index DMA in (base, min (hp_pk (heap_of DMA s)) cap))"

definition io_slot_nondma_dirty :: "nat \<Rightarrow> IoSlot \<Rightarrow> nat \<times> nat" where
  "io_slot_nondma_dirty io_index s =
     (let (base, cap) = heap_base_cap io_index NONDMA in (base, min (hp_pk (heap_of NONDMA s)) cap))"

definition align_up :: "nat \<Rightarrow> nat \<Rightarrow> nat" where
  "align_up addr align = nat (int (addr + align - 1) AND NOT (int align - 1))"

definition bump :: "nat \<Rightarrow> nat \<Rightarrow> nat \<Rightarrow> nat \<Rightarrow> (IoSlot, nat) op" where
  "bump io_index heap n align s =
     (let (base, cap) = heap_base_cap io_index heap;
          mark = min (hp_wm (heap_of heap s)) cap;
          aligned = align_up (base + mark) align;
          start = aligned - base;
          stop = start + n
      in if stop > cap then (Err NotEnoughSpace, s)
         else (Ok start, set_pk heap (max (hp_pk (heap_of heap s)) stop) (set_wm heap stop s)))"

definition io_alloc :: "nat \<Rightarrow> nat \<Rightarrow> (IoSlot, nat) op" where
  "io_alloc io_index n = bump io_index NONDMA n 4"

definition alloc_zeroed :: "nat \<Rightarrow> nat \<Rightarrow> (IoSlot, nat) op" where
  "alloc_zeroed io_index n =
     bindS (io_alloc io_index n) (\<lambda>start s. (Ok start, put_bytes NONDMA start (replicate n 0) s))"

text \<open>A value of a type is its bytes and its alignment.\<close>

definition alloc_val :: "nat \<Rightarrow> nat \<Rightarrow> u8 list \<Rightarrow> (IoSlot, nat) op" where
  "alloc_val io_index align v =
     bindS (bump io_index NONDMA (length v) align) (\<lambda>start s. (Ok start, put_bytes NONDMA start v s))"

definition dma_alloc :: "nat \<Rightarrow> nat \<Rightarrow> (IoSlot, nat) op" where
  "dma_alloc io_index n = bump io_index DMA n 4"

definition dma_alloc_zeroed :: "nat \<Rightarrow> nat \<Rightarrow> (IoSlot, nat) op" where
  "dma_alloc_zeroed io_index n =
     bindS (dma_alloc io_index n) (\<lambda>start s. (Ok start, put_bytes DMA start (replicate n 0) s))"

text \<open>
  The callback of a variable-length allocation gets the bytes of the rest of the heap and returns
  its result with the bytes it leaves there.
\<close>

definition dma_alloc_var_with ::
  "nat \<Rightarrow> (u8 list \<Rightarrow> (nat \<times> 't) run \<times> u8 list) \<Rightarrow> (IoSlot, nat \<times> nat \<times> 't) op" where
  "dma_alloc_var_with io_index f s =
     (let (_, cap) = heap_base_cap io_index DMA;
          mark = min (hp_wm (heap_of DMA s)) cap;
          aligned = align_up mark 4;
          peak_before = hp_pk (heap_of DMA s)
      in if aligned \<ge> cap then (Err NotEnoughSpace, s)
         else bindS (bump io_index DMA (cap - aligned) 4) (\<lambda>start s.
           let n = cap - aligned; (r, bs) = f (slice start n (hp_mem (heap_of DMA s))); s = put_bytes DMA start bs s
           in case r of
                Ok (len, extra) \<Rightarrow>
                  (if len > n then (Err DmaAllocLenOverrun, set_wm DMA start s)
                   else (Ok (start, len, extra),
                     set_pk DMA (max peak_before (start + len)) (set_wm DMA (start + len) s)))
              | Err e \<Rightarrow> (Err e, set_wm DMA start s)
              | Panic \<Rightarrow> (Panic, s)) s)"

definition dma_alloc_var :: "nat \<Rightarrow> (u8 list \<Rightarrow> nat run \<times> u8 list) \<Rightarrow> (IoSlot, nat \<times> nat) op" where
  "dma_alloc_var io_index f s =
     (let (_, cap) = heap_base_cap io_index DMA;
          mark = min (hp_wm (heap_of DMA s)) cap;
          aligned = align_up mark 4;
          peak_before = hp_pk (heap_of DMA s)
      in if aligned \<ge> cap then (Err NotEnoughSpace, s)
         else bindS (bump io_index DMA (cap - aligned) 4) (\<lambda>start s.
           let n = cap - aligned; (r, bs) = f (slice start n (hp_mem (heap_of DMA s))); s = put_bytes DMA start bs s
           in case r of
                Ok len \<Rightarrow>
                  (if len > n then (Err DmaAllocLenOverrun, set_wm DMA start s)
                   else (Ok (start, len), set_pk DMA (max peak_before (start + len)) (set_wm DMA (start + len) s)))
              | Err e \<Rightarrow> (Err e, set_wm DMA start s)
              | Panic \<Rightarrow> (Panic, s)) s)"

text \<open>A scope puts both watermarks back when it is dropped.\<close>

definition scope_drop :: "nat \<times> nat \<Rightarrow> IoSlot \<Rightarrow> IoSlot" where
  "scope_drop marks s = set_wm NONDMA (fst marks) (set_wm DMA (snd marks) s)"

definition alloc_scoped :: "(IoSlot, 'a) op \<Rightarrow> (IoSlot, 'a) op" where
  "alloc_scoped f s =
     (let marks = (hp_wm (heap_of NONDMA s), hp_wm (heap_of DMA s)); (r, s') = f s in (r, scope_drop marks s'))"

definition scope_for_admin :: "(IoSlot, 'a) op \<Rightarrow> (IoSlot, 'a) op" where
  "scope_for_admin f s = (let (r, s') = f (reset_io_alloc s) in (r, scope_drop (0, 0) s'))"

section \<open>The wipe\<close>

definition scrub_io_slot :: "engine \<Rightarrow> nat \<Rightarrow> IoSlot \<Rightarrow> IoSlot" where
  "scrub_io_slot eng io_index s =
     (let (dma_ptr, dma_len) = io_slot_dma_dirty io_index s;
          s = upd_heap DMA (hp_mem_update (\<lambda>mem.
                if dma_len \<noteq> 0 then
                  (case gdma_zero_region eng (of_nat dma_ptr) dma_len 0 (take dma_len mem) of
                     (Ok _, bs) \<Rightarrow> splice_at 0 bs mem
                   | (_, bs) \<Rightarrow> cpu_zeroize (of_nat dma_ptr) dma_len (splice_at 0 bs mem))
                else mem)) s;
          (nd_ptr, nd_len) = io_slot_nondma_dirty io_index s;
          s = upd_heap NONDMA (hp_mem_update (cpu_zeroize (of_nat nd_ptr) nd_len)) s
      in clear_io_peak s)"

section \<open>Correctness of the allocator\<close>

lemma align_up_pow2: "align_up addr (2 ^ n) = (addr + 2 ^ n - 1) div 2 ^ n * 2 ^ n"
proof -
  have "x AND NOT (mask n) = push_bit n (drop_bit n x)" for x :: int
    by (rule bit_eqI) (auto simp: bit_simps)
  then have "int (addr + 2 ^ n - 1) AND NOT (int (2 ^ n) - 1) = int ((addr + 2 ^ n - 1) div 2 ^ n * 2 ^ n)"
    by (simp add: mask_eq_exp_minus_1 push_bit_eq_mult drop_bit_eq_div of_nat_div)
  then show ?thesis unfolding align_up_def by (simp only: nat_int)
qed

lemma align_up_bounds:
  assumes "align = 2 ^ n"
  shows "align dvd align_up addr align" "addr \<le> align_up addr align" "align_up addr align < addr + align"
proof -
  define q where "q = (addr + 2 ^ n - 1) div 2 ^ n"
  have q: "align_up addr align = q * 2 ^ n" by (simp add: assms align_up_pow2 q_def)
  define r where "r = (addr + 2 ^ n - 1) mod 2 ^ n"
  have "q * 2 ^ n + r = addr + 2 ^ n - 1" unfolding q_def r_def by (rule div_mult_mod_eq)
  moreover have "r < 2 ^ n" by (simp add: r_def)
  ultimately show "addr \<le> align_up addr align" "align_up addr align < addr + align"
    using assms unfolding q by linarith+
  show "align dvd align_up addr align" using assms unfolding q by simp
qed

definition heap_cap :: "nat \<Rightarrow> nat" where
  "heap_cap heap = (if heap = NONDMA then DTCM_IO_BUF_SIZE else SRAM_IO_BUF_STRIDE)"

lemma heap_cap_eq [simp]: "snd (heap_base_cap i heap) = heap_cap heap"
  by (simp add: heap_base_cap_def heap_cap_def)

lemma heap_ids [simp]: "NONDMA \<noteq> DMA" "DMA \<noteq> NONDMA"
  by (simp_all add: NONDMA_def DMA_def)

lemma heap_upd [simp]:
  "heap_of NONDMA (upd_heap NONDMA f s) = f (heap_of NONDMA s)" "heap_of DMA (upd_heap DMA f s) = f (heap_of DMA s)"
  "heap_of NONDMA (upd_heap DMA f s) = heap_of NONDMA s" "heap_of DMA (upd_heap NONDMA f s) = heap_of DMA s"
  by (simp_all add: heap_of_def upd_heap_def)

lemma heap_of_sets [simp]:
  "heap \<in> {NONDMA, DMA} \<Longrightarrow> heap' \<in> {NONDMA, DMA} \<Longrightarrow>
    heap_of heap (upd_heap heap' f s) = (if heap = heap' then f (heap_of heap s) else heap_of heap s)"
  by auto

text \<open>
  The scratch invariant of a slot: each heap has its capacity, its peak lies within, and every byte
  from the peak on is zero.
\<close>

definition heap_inv :: "nat \<Rightarrow> IoHeap \<Rightarrow> bool" where
  "heap_inv cap h \<longleftrightarrow> length (hp_mem h) = cap \<and> hp_pk h \<le> cap \<and> (\<forall>j. hp_pk h \<le> j \<longrightarrow> j < cap \<longrightarrow> hp_mem h ! j = 0)"

definition slot_inv :: "IoSlot \<Rightarrow> bool" where
  "slot_inv s \<longleftrightarrow> heap_inv (heap_cap NONDMA) (heap_of NONDMA s) \<and> heap_inv (heap_cap DMA) (heap_of DMA s)"

lemma slot_inv_heap: "slot_inv s \<Longrightarrow> heap \<in> {NONDMA, DMA} \<Longrightarrow> heap_inv (heap_cap heap) (heap_of heap s)"
  by (auto simp: slot_inv_def)

lemma slot_inv_upd:
  assumes "slot_inv s" "heap \<in> {NONDMA, DMA}" "heap_inv (heap_cap heap) (f (heap_of heap s))"
  shows "slot_inv (upd_heap heap f s)"
  using assms by (auto simp: slot_inv_def)

lemma slot_inv_set_wm: "slot_inv s \<Longrightarrow> heap \<in> {NONDMA, DMA} \<Longrightarrow> slot_inv (set_wm heap v s)"
  unfolding set_wm_def by (rule slot_inv_upd) (auto dest: slot_inv_heap simp: heap_inv_def)

lemma slot_inv_raise_pk:
  assumes "slot_inv s" "heap \<in> {NONDMA, DMA}" "hp_pk (heap_of heap s) \<le> v" "v \<le> heap_cap heap"
  shows "slot_inv (set_pk heap v s)"
  unfolding set_pk_def
  by (rule slot_inv_upd [OF assms(1,2)]) (use assms slot_inv_heap [OF assms(1,2)] in \<open>auto simp: heap_inv_def\<close>)

text \<open>A successful allocation is aligned, inside the heap, past everything below the watermark, and below the peak.\<close>

lemma bump_Ok:
  assumes "bump i heap n align s = (Ok start, s')" "heap \<in> {NONDMA, DMA}" "align = 2 ^ k"
  shows "align dvd fst (heap_base_cap i heap) + start" "start + n \<le> heap_cap heap"
    "min (hp_wm (heap_of heap s)) (heap_cap heap) \<le> start"
    "hp_wm (heap_of heap s') = start + n" "start + n \<le> hp_pk (heap_of heap s')"
    "hp_pk (heap_of heap s') = max (hp_pk (heap_of heap s)) (start + n)"
    "s' = set_pk heap (max (hp_pk (heap_of heap s)) (start + n)) (set_wm heap (start + n) s)"
    "hp_mem (heap_of heap s') = hp_mem (heap_of heap s)"
proof -
  obtain base cap where bc: "heap_base_cap i heap = (base, cap)" by fastforce
  have cap: "cap = heap_cap heap" using heap_cap_eq [of i heap] bc by simp
  define a where "a = align_up (base + min (hp_wm (heap_of heap s)) cap) align"
  note b = align_up_bounds [OF assms(3), of "base + min (hp_wm (heap_of heap s)) cap", folded a_def]
  have r: "start = a - base" "start + n \<le> cap"
    "s' = set_pk heap (max (hp_pk (heap_of heap s)) (start + n)) (set_wm heap (start + n) s)"
    using assms(1) by (auto simp: bump_def bc Let_def a_def split: if_splits)
  show "s' = set_pk heap (max (hp_pk (heap_of heap s)) (start + n)) (set_wm heap (start + n) s)" by (rule r(3))
  have "base + start = a" using b(2) r(1) by simp
  then show "align dvd fst (heap_base_cap i heap) + start" using b(1) bc by simp
  show "start + n \<le> heap_cap heap" using r(2) cap by simp
  show "min (hp_wm (heap_of heap s)) (heap_cap heap) \<le> start" using b(2) r(1) cap by simp
  show "hp_wm (heap_of heap s') = start + n" "start + n \<le> hp_pk (heap_of heap s')"
    "hp_pk (heap_of heap s') = max (hp_pk (heap_of heap s)) (start + n)"
    "hp_mem (heap_of heap s') = hp_mem (heap_of heap s)"
    using assms(2) r(3) by (simp_all add: set_pk_def set_wm_def)
qed

lemma bump_fails: "bump i heap n align s \<noteq> (Panic, s')" "bump i heap n align s = (Err e, s') \<Longrightarrow> e = NotEnoughSpace \<and> s' = s"
  by (auto simp: bump_def Let_def split: prod.splits if_splits)

lemma bump_inv:
  assumes "slot_inv s" "heap \<in> {NONDMA, DMA}" "align = 2 ^ k" "bump i heap n align s = (r, s')"
  shows "slot_inv s'"
proof (cases r)
  case (Ok start)
  note b = bump_Ok [OF assms(4) [unfolded Ok] assms(2,3)]
  have "hp_pk (heap_of heap s) \<le> heap_cap heap" using slot_inv_heap [OF assms(1,2)] by (simp add: heap_inv_def)
  then show ?thesis
    unfolding b(7) using assms b(2)
    by (intro slot_inv_raise_pk slot_inv_set_wm) (auto simp: set_wm_def)
next
  case (Err e)
  then show ?thesis using assms bump_fails(2) by metis
qed (use assms bump_fails(1) in blast)

lemma put_bytes_inv:
  assumes "slot_inv s" "heap \<in> {NONDMA, DMA}" "start + length bs \<le> hp_pk (heap_of heap s)"
  shows "slot_inv (put_bytes heap start bs s)"
  unfolding put_bytes_def
  by (rule slot_inv_upd [OF assms(1,2)])
    (use assms slot_inv_heap [OF assms(1,2)] in \<open>auto simp: heap_inv_def nth_splice_at\<close>)

text \<open>
  The contract of the callback of a variable-length allocation: it keeps the length of the buffer
  and, when it succeeds with a length that fits, changes nothing past that length.
\<close>

definition writes_prefix :: "(u8 list \<Rightarrow> (nat \<times> 't) run \<times> u8 list) \<Rightarrow> bool" where
  "writes_prefix f \<longleftrightarrow> (\<forall>buf. length (snd (f buf)) = length buf \<and>
     (\<forall>len x. fst (f buf) = Ok (len, x) \<longrightarrow> drop len (snd (f buf)) = drop len buf))"

lemma align_4_below:
  assumes "m \<le> 0x4000" "4 dvd base"
  shows "align_up (base + m) 4 = base + align_up m 4"
proof -
  obtain c where c: "base = 4 * c" using assms(2) by blast
  have "align_up x 4 = (x + 3) div 4 * 4" for x using align_up_pow2 [of x 2] by simp
  then show ?thesis by (simp add: c add.assoc)
qed

lemma dma_base_aligned: "4 dvd fst (heap_base_cap i DMA)"
  by (simp add: heap_base_cap_def SRAM_IO_BUF_BASE_def SRAM_IO_BUF_STRIDE_def)

lemma var_bump:
  assumes "align_up (min (hp_wm (heap_of DMA s)) (heap_cap DMA)) 4 = a" "a < heap_cap DMA"
  shows "bump i DMA (heap_cap DMA - a) 4 s =
    (Ok a, set_pk DMA (max (hp_pk (heap_of DMA s)) (heap_cap DMA)) (set_wm DMA (heap_cap DMA) s))"
proof -
  obtain base cap where bc: "heap_base_cap i DMA = (base, cap)" by fastforce
  have cap: "cap = heap_cap DMA" using heap_cap_eq [of i DMA] bc by simp
  have "align_up (base + min (hp_wm (heap_of DMA s)) cap) 4 = base + a"
    using align_4_below [of "min (hp_wm (heap_of DMA s)) cap" base] dma_base_aligned [of i] assms(1)
    by (simp add: bc cap heap_cap_def SRAM_IO_BUF_STRIDE_def)
  then show ?thesis using assms(2) by (simp add: bump_def bc cap Let_def)
qed

lemma prefix_write_clean:
  assumes "length mem = a + n" "length bs = n" "k \<le> n" "drop k bs = drop k (slice a n mem)"
    and "\<And>j. pk \<le> j \<Longrightarrow> j < a + n \<Longrightarrow> mem ! j = 0" "max pk (a + k) \<le> j" "j < a + n"
  shows "splice_at a bs mem ! j = 0"
proof -
  have "bs ! (j - a) = drop k bs ! (j - a - k)" using assms(1-3,6,7) by simp
  also have "\<dots> = drop k (slice a n mem) ! (j - a - k)" by (simp only: assms(4))
  also have "\<dots> = slice a n mem ! (j - a)" using assms(1-3,6,7) by simp
  also have "\<dots> = mem ! j" using assms(1-3,6,7) nth_slice [of a n mem "j - a"] by force
  finally show ?thesis using assms by (simp add: nth_splice_at)
qed

lemma dma_alloc_var_inv:
  assumes "slot_inv s" "writes_prefix f" "dma_alloc_var_with i f s = (r, s')" "r \<noteq> Panic"
  shows "slot_inv s'"
proof -
  define a where "a = align_up (min (hp_wm (heap_of DMA s)) (heap_cap DMA)) 4"
  define n where "n = heap_cap DMA - a"
  let ?H = "heap_of DMA s"
  obtain base cap where bc: "heap_base_cap i DMA = (base, cap)" by fastforce
  have cap: "cap = heap_cap DMA" using heap_cap_eq [of i DMA] bc by simp
  have H: "length (hp_mem ?H) = cap" "hp_pk ?H \<le> cap" "\<And>j. hp_pk ?H \<le> j \<Longrightarrow> j < cap \<Longrightarrow> hp_mem ?H ! j = 0"
    using slot_inv_heap [OF assms(1), of DMA] cap by (auto simp: heap_inv_def)
  show ?thesis
  proof (cases "a < cap")
    case False
    then show ?thesis using assms by (auto simp: dma_alloc_var_with_def bc cap a_def Let_def)
  next
    case True
    obtain q bs where f: "f (slice a n (hp_mem ?H)) = (q, bs)" by fastforce
    have len: "length bs = n" using assms(2) f H(1) True by (auto simp: writes_prefix_def n_def cap dest: spec [of _ "slice a n (hp_mem ?H)"])
    define s1 where "s1 = put_bytes DMA a bs (set_pk DMA cap (set_wm DMA cap s))"
    have inv1: "slot_inv s1"
      unfolding s1_def using assms(1) H(2) True len
      by (intro put_bytes_inv slot_inv_raise_pk slot_inv_set_wm) (auto simp: set_wm_def set_pk_def n_def cap)
    have run: "dma_alloc_var_with i f s = (case q of
        Ok (len, x) \<Rightarrow> if len > n then (Err DmaAllocLenOverrun, set_wm DMA a s1)
          else (Ok (a, len, x), set_pk DMA (max (hp_pk ?H) (a + len)) (set_wm DMA (a + len) s1))
      | Err e \<Rightarrow> (Err e, set_wm DMA a s1) | Panic \<Rightarrow> (Panic, s1))"
      using True f H(2) var_bump [of s a i] by (simp add: dma_alloc_var_with_def bc cap a_def [symmetric] n_def [symmetric]
          s1_def set_pk_def set_wm_def max_absorb2 split: run.split)
    show ?thesis
    proof (cases q)
      case (Ok lx)
      obtain k x where lx: "lx = (k, x)" by fastforce
      show ?thesis
      proof (cases "k \<le> n")
        case True
        have tail: "drop k bs = drop k (slice a n (hp_mem ?H))"
          using assms(2) f Ok lx by (auto simp: writes_prefix_def dest: spec [of _ "slice a n (hp_mem ?H)"])
        have "heap_inv cap (heap_of DMA (set_pk DMA (max (hp_pk ?H) (a + k)) (set_wm DMA (a + k) s1)))"
          using H True len \<open>a < cap\<close> prefix_write_clean [of "hp_mem ?H" a n bs k "hp_pk ?H"] tail
          by (simp add: s1_def heap_inv_def put_bytes_def set_pk_def set_wm_def n_def cap)
        then have "slot_inv (set_pk DMA (max (hp_pk ?H) (a + k)) (set_wm DMA (a + k) s1))"
          using inv1 by (simp add: slot_inv_def cap set_pk_def set_wm_def)
        then show ?thesis using assms(3) run Ok lx True by simp
      qed (use assms(3) run Ok lx inv1 slot_inv_set_wm in auto)
    qed (use assms(3,4) run inv1 slot_inv_set_wm in auto)
  qed
qed

text \<open>The two variable-length allocations differ only in the extra value.\<close>

lemma dma_alloc_var_eq:
  "dma_alloc_var i f s = bindS (dma_alloc_var_with i (\<lambda>buf. (bindr (fst (f buf)) (\<lambda>n. Ok (n, ())), snd (f buf))))
     (\<lambda>(start, len, _). returns (start, len)) s"
  by (auto simp: dma_alloc_var_def dma_alloc_var_with_def Let_def bindS_def split: prod.split run.split)

lemma alloc_scoped_inv:
  assumes "slot_inv s" "\<And>r s'. f s = (r, s') \<Longrightarrow> slot_inv s'" "alloc_scoped f s = (r, s')"
  shows "slot_inv s'" "hp_wm (heap_of NONDMA s') = hp_wm (heap_of NONDMA s)" "hp_wm (heap_of DMA s') = hp_wm (heap_of DMA s)"
proof -
  obtain q s1 where f: "f s = (q, s1)" by fastforce
  then have s': "s' = scope_drop (hp_wm (heap_of NONDMA s), hp_wm (heap_of DMA s)) s1"
    using assms(3) by (auto simp: alloc_scoped_def Let_def)
  show "slot_inv s'" unfolding s' scope_drop_def using assms(2) [OF f] by (intro slot_inv_set_wm) auto
  show "hp_wm (heap_of NONDMA s') = hp_wm (heap_of NONDMA s)" "hp_wm (heap_of DMA s') = hp_wm (heap_of DMA s)"
    by (simp_all add: s' scope_drop_def set_wm_def)
qed

section \<open>Correctness of the wipe\<close>

lemma wipe_prefix:
  assumes "length mem = cap" "pk \<le> cap" "\<And>j. pk \<le> j \<Longrightarrow> j < cap \<Longrightarrow> mem ! j = 0"
  shows "replicate pk 0 @ drop pk mem = replicate cap (0 :: u8)"
  by (rule nth_equalityI) (use assms in \<open>auto simp: nth_append\<close>)

lemma dma_wipe:
  assumes "engine_ok eng" "n \<le> length mem"
  shows "(case gdma_zero_region eng p n 0 (take n mem) of
      (Ok _, bs) \<Rightarrow> splice_at 0 bs mem | (_, bs) \<Rightarrow> cpu_zeroize q n (splice_at 0 bs mem)) = replicate n 0 @ drop n mem"
proof -
  obtain r bs where z: "gdma_zero_region eng p n 0 (take n mem) = (r, bs)" by fastforce
  have "r \<noteq> Panic \<and> length bs = n \<and> (r = Ok () \<longrightarrow> bs = replicate n 0)"
    using gdma_zero_region_result [OF assms(1) _ le0 _ z] assms(2) by simp
  then show ?thesis
    using assms(2) z by (cases r) (auto simp: splice_at_def cpu_zeroize_eq)
qed

lemma upd_heap_mem:
  assumes "f (hp_mem (heap_of heap s)) = v"
  shows "upd_heap heap (hp_mem_update f) s = upd_heap heap (hp_mem_update (\<lambda>_. v)) s"
proof -
  have "hp_mem_update f (heap_of heap s) = hp_mem_update (\<lambda>_. v) (heap_of heap s)"
    using assms by (cases "heap_of heap s") simp
  then show ?thesis by (auto simp: upd_heap_def heap_of_def)
qed

definition wiped :: "nat \<Rightarrow> IoHeap \<Rightarrow> IoHeap" where
  "wiped heap h = h\<lparr>hp_pk := 0, hp_mem := replicate (heap_cap heap) 0\<rparr>"

lemma scrub_result:
  assumes "engine_ok eng" "slot_inv s"
  shows "scrub_io_slot eng i s = upd_heap NONDMA (wiped NONDMA) (upd_heap DMA (wiped DMA) s)"
proof -
  obtain base cap where d: "heap_base_cap i DMA = (base, cap)" by fastforce
  obtain base' cap' where n: "heap_base_cap i NONDMA = (base', cap')" by fastforce
  have c: "cap = heap_cap DMA" "cap' = heap_cap NONDMA" using heap_cap_eq [of i] d n by (metis snd_conv)+
  have D: "length (hp_mem (heap_of DMA s)) = cap" "hp_pk (heap_of DMA s) \<le> cap"
    "\<And>j. hp_pk (heap_of DMA s) \<le> j \<Longrightarrow> j < cap \<Longrightarrow> hp_mem (heap_of DMA s) ! j = 0"
    and N: "length (hp_mem (heap_of NONDMA s)) = cap'" "hp_pk (heap_of NONDMA s) \<le> cap'"
    "\<And>j. hp_pk (heap_of NONDMA s) \<le> j \<Longrightarrow> j < cap' \<Longrightarrow> hp_mem (heap_of NONDMA s) ! j = 0"
    using assms(2) by (auto simp: slot_inv_def heap_inv_def c)
  let ?pd = "hp_pk (heap_of DMA s)" and ?pn = "hp_pk (heap_of NONDMA s)"
  define F where "F mem = (if ?pd \<noteq> 0 then (case gdma_zero_region eng (of_nat base) ?pd 0 (take ?pd mem) of
      (Ok _, bs) \<Rightarrow> splice_at 0 bs mem | (_, bs) \<Rightarrow> cpu_zeroize (of_nat base) ?pd (splice_at 0 bs mem)) else mem)" for mem
  have "F (hp_mem (heap_of DMA s)) = replicate cap 0"
    using dma_wipe [OF assms(1), of ?pd "hp_mem (heap_of DMA s)"] wipe_prefix [OF D] D(1,2) by (auto simp: F_def)
  note d1 = upd_heap_mem [of F, OF this]
  have "cpu_zeroize (of_nat base') ?pn (hp_mem (heap_of NONDMA s)) = replicate cap' 0"
    using cpu_zeroize_eq [of ?pn "hp_mem (heap_of NONDMA s)"] wipe_prefix [OF N] N(1,2) by simp
  then have n1: "upd_heap NONDMA (hp_mem_update (cpu_zeroize (of_nat base') ?pn)) (upd_heap DMA f s) =
      upd_heap NONDMA (hp_mem_update (\<lambda>_. replicate cap' 0)) (upd_heap DMA f s)" for f
    by (intro upd_heap_mem) simp
  have "scrub_io_slot eng i s = clear_io_peak (upd_heap NONDMA (hp_mem_update (cpu_zeroize (of_nat base') ?pn))
      (upd_heap DMA (hp_mem_update F) s))"
    using D(2) N(2) by (simp add: scrub_io_slot_def io_slot_dma_dirty_def io_slot_nondma_dirty_def d n min_absorb1 F_def [abs_def] Let_def)
  then show ?thesis
    unfolding d1 n1 by (simp add: clear_io_peak_def set_pk_def upd_heap_def heap_of_def wiped_def c)
qed

section \<open>Histories of a slot\<close>

text \<open>
  What can happen to a slot between two wipes: allocations of every kind, writes into what has been
  allocated since the last wipe, rewinding of watermarks by scopes, marks and resets, and wipes.
\<close>

inductive slot_step :: "engine \<Rightarrow> nat \<Rightarrow> IoSlot \<Rightarrow> IoSlot \<Rightarrow> bool" for eng i where
  alloc: "heap \<in> {NONDMA, DMA} \<Longrightarrow> slot_step eng i s (snd (bump i heap n (2 ^ k) s))"
| var: "writes_prefix (f :: u8 list \<Rightarrow> (nat \<times> unit) run \<times> u8 list) \<Longrightarrow> dma_alloc_var_with i f s = (r, s') \<Longrightarrow> r \<noteq> Panic \<Longrightarrow> slot_step eng i s s'"
| put: "heap \<in> {NONDMA, DMA} \<Longrightarrow> start + length bs \<le> hp_pk (heap_of heap s) \<Longrightarrow> slot_step eng i s (put_bytes heap start bs s)"
| rewind: "slot_step eng i s (scope_drop marks s)"
| restore: "slot_step eng i s (dma_restore m s)"
| reset: "slot_step eng i s (reset_io_alloc s)"
| scrub: "slot_step eng i s (scrub_io_slot eng i s)"

lemma scrub_inv:
  assumes "engine_ok eng" "slot_inv s"
  shows "slot_inv (scrub_io_slot eng i s)"
  unfolding scrub_result [OF assms] by (simp add: slot_inv_def heap_inv_def wiped_def)

lemma slot_step_inv:
  assumes "slot_step eng i s s'" "engine_ok eng" "slot_inv s"
  shows "slot_inv s'"
  using assms
proof cases
  case (alloc heap n k)
  then show ?thesis using bump_inv [OF assms(3), of heap _ k i n] by (metis prod.collapse)
qed (auto intro: dma_alloc_var_inv put_bytes_inv scrub_inv slot_inv_set_wm
  simp: scope_drop_def dma_restore_def reset_io_alloc_def)

lemma slot_history_inv: "(slot_step eng i)\<^sup>*\<^sup>* s s' \<Longrightarrow> engine_ok eng \<Longrightarrow> slot_inv s \<Longrightarrow> slot_inv s'"
  by (induction rule: rtranclp_induct) (auto intro: slot_step_inv)

end
