(* ===== verification/VaultStorage.thy ===== *)
theory VaultStorage
  imports Gdma
begin

text \<open>
  The tables behind the key vault: the GSRAM layout and the accessors of \<open>VaultStorage\<close>
  (\<open>fw/plat/uno/fw/drivers/vault/src/lib.rs\<close>), the implementation of the trait \<open>TableStorage\<close>.
  The address functions are modelled on 32-bit words and shown not to wrap and not to overlap;
  this is what allows the tables to be modelled as separate lists.
\<close>

section \<open>GSRAM layout\<close>

definition IO_GSRAM_BASE :: u32 where "IO_GSRAM_BASE = 0x61000000"
definition KEY_VAULT_TABLE_T_BASE :: u32 where "KEY_VAULT_TABLE_T_BASE = 0x000EBC00"
definition ENTRY_OFFSET :: u32 where "ENTRY_OFFSET = 0x000"
definition ENTRY_STRIDE :: u32 where "ENTRY_STRIDE = 0x8"
definition BITMAP_OFFSET :: u32 where "BITMAP_OFFSET = 0x800"
definition BLOB_OFFSET :: u32 where "BLOB_OFFSET = 0x900"
definition TABLE_BLOB_SIZE :: u32 where "TABLE_BLOB_SIZE = 0x3B00"

definition TABLE_COUNT :: nat where "TABLE_COUNT = MAX_TABLE_COUNT"
definition TABLE_BASE :: u32 where "TABLE_BASE = IO_GSRAM_BASE + KEY_VAULT_TABLE_T_BASE"
definition TABLE_STRIDE :: u32 where "TABLE_STRIDE = BLOB_OFFSET + TABLE_BLOB_SIZE"

definition entry_addr :: "nat \<Rightarrow> nat" where
  "entry_addr table = unat (TABLE_BASE + of_nat table * TABLE_STRIDE + ENTRY_OFFSET)"

definition bitmap_addr :: "nat \<Rightarrow> nat" where
  "bitmap_addr table = unat (TABLE_BASE + of_nat table * TABLE_STRIDE + BITMAP_OFFSET)"

definition blob_addr :: "nat \<Rightarrow> nat" where
  "blob_addr table = unat (TABLE_BASE + of_nat table * TABLE_STRIDE + BLOB_OFFSET)"

lemmas layout_defs = IO_GSRAM_BASE_def KEY_VAULT_TABLE_T_BASE_def ENTRY_OFFSET_def ENTRY_STRIDE_def
  BITMAP_OFFSET_def BLOB_OFFSET_def TABLE_BLOB_SIZE_def TABLE_BASE_def TABLE_STRIDE_def

lemma TABLE_COUNT_eq: "TABLE_COUNT = 65"
  by (simp add: TABLE_COUNT_def geometry_defs)

lemma table_word_addr:
  assumes "t < TABLE_COUNT" "unat off \<le> 0x4400"
  shows "unat (TABLE_BASE + of_nat t * TABLE_STRIDE + off) = 0x610EBC00 + t * 0x4400 + unat off"
proof -
  have "TABLE_BASE + of_nat t * TABLE_STRIDE + off = of_nat (0x610EBC00 + t * 0x4400 + unat off)"
    by (simp add: layout_defs)
  then show ?thesis
    using assms by (simp only: unat_of_nat) (simp add: TABLE_COUNT_eq)
qed

lemma addr_eqs:
  assumes "t < TABLE_COUNT"
  shows "entry_addr t = 0x610EBC00 + t * 0x4400"
    and "bitmap_addr t = 0x610EBC00 + t * 0x4400 + 0x800"
    and "blob_addr t = 0x610EBC00 + t * 0x4400 + 0x900"
  using table_word_addr [OF assms, where off = "0"] table_word_addr [OF assms, where off = "0x800"]
    table_word_addr [OF assms, where off = "0x900"]
  by (simp_all add: entry_addr_def bitmap_addr_def blob_addr_def ENTRY_OFFSET_def
      BITMAP_OFFSET_def BLOB_OFFSET_def)

section \<open>The tables and their accessors\<close>

record vtable =
  vt_entries :: "Entry list"
  vt_bitmap :: "u32 list"
  vt_blob :: "u8 list"

record VaultStorage =
  res_mask :: u128
  tables :: "vtable list"

definition table_count :: "VaultStorage \<Rightarrow> nat" where
  "table_count s = TABLE_COUNT"

definition is_valid_table :: "VaultStorage \<Rightarrow> nat \<Rightarrow> bool" where
  "is_valid_table s table \<longleftrightarrow> table < TABLE_COUNT \<and> drop_bit table (res_mask s) AND 1 \<noteq> 0"

definition storage_entry :: "VaultStorage \<Rightarrow> nat \<Rightarrow> nat \<Rightarrow> Entry run" where
  "storage_entry s table idx =
     (if table \<ge> TABLE_COUNT \<or> idx \<ge> ENTRIES_PER_TABLE then Err InvalidArg
      else Ok (vt_entries (tables s ! table) ! idx))"

text \<open>
  A \<open>_mut\<close> accessor hands out a mutable reference: the model takes the function that the caller
  applies through it.
\<close>

definition upd_table :: "nat \<Rightarrow> (vtable \<Rightarrow> vtable) \<Rightarrow> VaultStorage \<Rightarrow> VaultStorage" where
  "upd_table table f s = s\<lparr>tables := (tables s)[table := f (tables s ! table)]\<rparr>"

definition entry_mut :: "nat \<Rightarrow> nat \<Rightarrow> (Entry \<Rightarrow> Entry) \<Rightarrow> (VaultStorage, unit) op" where
  "entry_mut table idx f s =
     (if table \<ge> TABLE_COUNT \<or> idx \<ge> ENTRIES_PER_TABLE then (Err InvalidArg, s)
      else (Ok (), upd_table table (vt_entries_update (\<lambda>es. es[idx := f (es ! idx)])) s))"

definition storage_bitmap :: "VaultStorage \<Rightarrow> nat \<Rightarrow> u32 list run" where
  "storage_bitmap s table =
     (if table \<ge> TABLE_COUNT then Err InvalidArg else Ok (vt_bitmap (tables s ! table)))"

definition bitmap_mut :: "nat \<Rightarrow> (u32 list \<Rightarrow> 'a run \<times> u32 list) \<Rightarrow> (VaultStorage, 'a) op" where
  "bitmap_mut table f s =
     (if table \<ge> TABLE_COUNT then (Err InvalidArg, s)
      else let (r, ws) = f (vt_bitmap (tables s ! table))
           in (r, upd_table table (vt_bitmap_update (\<lambda>_. ws)) s))"

definition storage_blob :: "VaultStorage \<Rightarrow> nat \<Rightarrow> u8 list run" where
  "storage_blob s table =
     (if table \<ge> TABLE_COUNT then Err InvalidArg else Ok (vt_blob (tables s ! table)))"

definition blob_mut :: "nat \<Rightarrow> (u8 list \<Rightarrow> 'a run \<times> u8 list) \<Rightarrow> (VaultStorage, 'a) op" where
  "blob_mut table f s =
     (if table \<ge> TABLE_COUNT then (Err InvalidArg, s)
      else let (r, bs) = f (vt_blob (tables s ! table))
           in (r, upd_table table (vt_blob_update (\<lambda>_. bs)) s))"

section \<open>Reading after writing\<close>

definition tables_shape :: "VaultStorage \<Rightarrow> bool" where
  "tables_shape s \<longleftrightarrow> length (tables s) = TABLE_COUNT"

lemma res_mask_upd [simp]: "res_mask (upd_table t f s) = res_mask s"
  by (simp add: upd_table_def)

lemma tables_upd [simp]:
  "tables_shape s \<Longrightarrow> t < TABLE_COUNT \<Longrightarrow> tables (upd_table t f s) ! t = f (tables s ! t)"
  "t \<noteq> t' \<Longrightarrow> tables (upd_table t f s) ! t' = tables s ! t'"
  by (simp_all add: upd_table_def tables_shape_def)

lemma tables_shape_upd [simp]: "tables_shape (upd_table t f s) = tables_shape s"
  by (simp add: upd_table_def tables_shape_def)

lemma upd_table_upd [simp]:
  "tables_shape s \<Longrightarrow> t < TABLE_COUNT \<Longrightarrow> upd_table t g (upd_table t f s) = upd_table t (\<lambda>T. g (f T)) s"
  by (simp add: upd_table_def tables_shape_def)

lemma upd_table_id: "f (tables s ! t) = tables s ! t \<Longrightarrow> upd_table t f s = s"
  by (simp add: upd_table_def)

lemma upd_table_cong: "f (tables s ! t) = g (tables s ! t) \<Longrightarrow> upd_table t f s = upd_table t g s"
  by (simp add: upd_table_def)

lemma is_valid_table_upd [simp]: "is_valid_table (upd_table t f s) = is_valid_table s"
  by (simp add: is_valid_table_def fun_eq_iff)

lemma table_count_simp [simp]: "table_count s = TABLE_COUNT"
  by (simp add: table_count_def)

lemma is_valid_table_less: "is_valid_table s t \<Longrightarrow> t < TABLE_COUNT"
  by (simp add: is_valid_table_def)

lemma is_valid_table_iff: "is_valid_table s t \<longleftrightarrow> t < TABLE_COUNT \<and> bit (res_mask s) t"
  by (simp add: is_valid_table_def bit_iff_and_drop_bit_eq_1 and_one_eq odd_iff_mod_2_eq_one)

end
