(* ===== verification/KeyVault.thy ===== *)
theory KeyVault
  imports VaultStorage
begin

text \<open>
  The key vault (\<open>fw/plat/uno/fw/crates/key_vault/src/vault.rs\<close>): every operation of \<open>KeyVault\<close>
  over \<open>VaultStorage\<close>, in the order of the source. The lookups are functions into \<open>run\<close>; the
  operations that write are state-passing functions, so a call that fails half way leaves the
  writes it has made. An index out of range is \<open>Panic\<close>, as in Rust.
\<close>

definition DMA_THRESHOLD :: nat where "DMA_THRESHOLD = 128"

section \<open>Reading metadata\<close>

definition entry_present :: "VaultStorage \<Rightarrow> nat \<Rightarrow> nat \<Rightarrow> Entry run" where
  "entry_present s table slot =
     (if \<not> is_valid_table s table \<or> slot \<ge> ENTRIES_PER_TABLE then Err KeyNotFound
      else bindr (storage_entry s table slot)
             (\<lambda>entry. if entry_is_free entry then Err KeyNotFound else Ok entry))"

definition vault_entry :: "VaultStorage \<Rightarrow> nat \<Rightarrow> nat \<Rightarrow> Entry run" where
  "vault_entry s table slot =
     bindr (entry_present s table slot)
       (\<lambda>entry. if entry_disabled entry then Err KeyNotFound else Ok entry)"

definition free_slot :: "VaultStorage \<Rightarrow> nat \<Rightarrow> nat option" where
  "free_slot s table =
     List.find (\<lambda>i. case storage_entry s table i of Ok e \<Rightarrow> entry_is_free e | _ \<Rightarrow> False)
       [0..<ENTRIES_PER_TABLE]"

text \<open>The blob is at most \<open>BLOB_SIZE\<close> bytes long, so \<open>checked_add\<close> cannot overflow.\<close>

definition read_attrs :: "VaultStorage \<Rightarrow> nat \<Rightarrow> nat \<Rightarrow> Attributes run" where
  "read_attrs s table attrs_off =
     bindr (storage_blob s table)
       (\<lambda>blob. if attrs_off + ATTRIBUTES_BLOB_SIZE \<le> length blob
               then Ok (attributes_from_bytes (slice attrs_off ATTRIBUTES_BLOB_SIZE blob))
               else Err KeyNotFound)"

definition write_attrs :: "nat \<Rightarrow> u16 \<Rightarrow> Attributes \<Rightarrow> (VaultStorage, unit) op" where
  "write_attrs table block a =
     (let attrs_off = unat block * BLOCK_ALIGNMENT in
      blob_mut table
        (\<lambda>blob. if attrs_off + ATTRIBUTES_BLOB_SIZE \<le> length blob
                then (Ok (), splice_at attrs_off (attributes_as_bytes a) blob)
                else (Panic, blob)))"

definition resolved_len :: "VaultStorage \<Rightarrow> nat \<Rightarrow> Entry \<Rightarrow> nat run" where
  "resolved_len s table entry =
     bindr (key_len (entry_kind entry))
       (\<lambda>spec. case spec of
          Fixed n \<Rightarrow> Ok (unat n)
        | Variable _ _ \<Rightarrow>
            bindr (read_attrs s table (attrs_byte_offset entry)) (\<lambda>a. Ok (unat (var_len a)))
        | Invalid \<Rightarrow> Err InvalidKeyType)"

definition location_of :: "VaultStorage \<Rightarrow> nat \<Rightarrow> Entry \<Rightarrow> (nat \<times> nat \<times> nat) run" where
  "location_of s table entry =
     bindr (resolved_len s table entry)
       (\<lambda>len. let off = attrs_byte_offset entry + ATTRIBUTES_BLOB_SIZE in
          bindr (storage_blob s table)
            (\<lambda>blob. if off + len > length blob then Err KeyNotFound else Ok (table, off, len)))"

definition blob_of :: "VaultStorage \<Rightarrow> nat \<Rightarrow> Entry \<Rightarrow> u8 list run" where
  "blob_of s table entry =
     bindr (location_of s table entry)
       (\<lambda>(_, off, len). bindr (storage_blob s table)
          (\<lambda>blob. if off + len \<le> length blob then Ok (slice off len blob) else Panic))"

section \<open>Lookups\<close>

definition vault_key :: "VaultStorage \<Rightarrow> HsmKeyId \<Rightarrow> u8 list run" where
  "vault_key s key_id =
     (let (table, slot) = split_key_id key_id
      in bindr (vault_entry s table slot) (blob_of s table))"

definition key_present :: "VaultStorage \<Rightarrow> HsmKeyId \<Rightarrow> u8 list run" where
  "key_present s key_id =
     (let (table, slot) = split_key_id key_id
      in bindr (entry_present s table slot) (blob_of s table))"

definition key_kind :: "VaultStorage \<Rightarrow> HsmKeyId \<Rightarrow> HsmVaultKeyKind run" where
  "key_kind s key_id =
     (let (table, slot) = split_key_id key_id
      in bindr (vault_entry s table slot) (\<lambda>entry. Ok (entry_kind entry)))"

definition session_binding :: "Entry \<Rightarrow> u16 option" where
  "session_binding e = (if entry_session e then Some (entry_session_or_tag e) else None)"

definition key_session_binding :: "VaultStorage \<Rightarrow> HsmKeyId \<Rightarrow> u16 option run" where
  "key_session_binding s key_id =
     (let (table, slot) = split_key_id key_id
      in bindr (vault_entry s table slot) (\<lambda>entry. Ok (session_binding entry)))"

definition key_entry :: "VaultStorage \<Rightarrow> HsmKeyId \<Rightarrow> Entry run" where
  "key_entry s key_id = (let (table, slot) = split_key_id key_id in entry_present s table slot)"

definition key_attrs :: "VaultStorage \<Rightarrow> HsmKeyId \<Rightarrow> u64 run" where
  "key_attrs s key_id =
     (let (table, slot) = split_key_id key_id
      in bindr (vault_entry s table slot)
           (\<lambda>entry. bindr (read_attrs s table (attrs_byte_offset entry)) (\<lambda>a. Ok (attrs a))))"

definition key_session :: "VaultStorage \<Rightarrow> HsmKeyId \<Rightarrow> u16 option run" where
  "key_session s key_id =
     (let (table, slot) = split_key_id key_id
      in bindr (vault_entry s table slot) (\<lambda>entry. Ok (session_binding entry)))"

definition vault_key_len :: "HsmVaultKeyKind \<Rightarrow> u16 run" where
  "vault_key_len k =
     bindr (key_len k)
       (\<lambda>spec. case max_len spec of None \<Rightarrow> Err InvalidKeyType | Some n \<Rightarrow> Ok n)"

definition key_location :: "VaultStorage \<Rightarrow> HsmKeyId \<Rightarrow> (nat \<times> nat \<times> nat) run" where
  "key_location s key_id =
     (let (table, slot) = split_key_id key_id
      in bindr (vault_entry s table slot) (location_of s table))"

definition key_location_present :: "VaultStorage \<Rightarrow> HsmKeyId \<Rightarrow> (nat \<times> nat \<times> nat) run" where
  "key_location_present s key_id =
     (let (table, slot) = split_key_id key_id
      in bindr (entry_present s table slot) (location_of s table))"

section \<open>Creating a key\<close>

definition stage_entry :: "u8 \<Rightarrow> HsmVaultKeyKind \<Rightarrow> u16 option \<Rightarrow> u16 \<Rightarrow> Entry \<Rightarrow> Entry" where
  "stage_entry app kd sess start e =
     set_app_id app (set_kind kd
       (set_session_or_tag (case sess of None \<Rightarrow> 0 | Some v \<Rightarrow> v)
         (set_session (sess \<noteq> None) (set_disabled False (set_block_offset start e)))))"

definition stage_attrs :: "KeyLen \<Rightarrow> u64 \<Rightarrow> u16 \<Rightarrow> Attributes" where
  "stage_attrs spec at persisted_len =
     (let a = Attributes_ZERO\<lparr>attrs := at\<rparr>
      in case spec of Variable _ _ \<Rightarrow> a\<lparr>var_len := persisted_len\<rparr> | _ \<Rightarrow> a)"

fun stage_in_tables ::
  "(u16 \<Rightarrow> Entry \<Rightarrow> Entry) \<Rightarrow> Attributes \<Rightarrow> nat \<Rightarrow> nat list \<Rightarrow> bool \<Rightarrow>
     (VaultStorage, nat \<times> nat \<times> u16) op" where
  "stage_in_tables mk a need [] saw_defrag s =
     (Err (if saw_defrag then DefragmentationNeeded else NotEnoughSpace), s)"
| "stage_in_tables mk a need (table # rest) saw_defrag s =
     (if \<not> is_valid_table s table then stage_in_tables mk a need rest saw_defrag s
      else case free_slot s table of
        None \<Rightarrow> stage_in_tables mk a need rest saw_defrag s
      | Some slot \<Rightarrow>
          (case bitmap_mut table (\<lambda>m. alloc m need) s of
             (Ok start, s1) \<Rightarrow>
               bindS (entry_mut table slot (mk start))
                 (\<lambda>_. bindS (write_attrs table start a) (\<lambda>_. returns (table, slot, start))) s1
           | (Err DefragmentationNeeded, s1) \<Rightarrow> stage_in_tables mk a need rest True s1
           | (Err NotEnoughSpace, s1) \<Rightarrow> stage_in_tables mk a need rest saw_defrag s1
           | (Err e, s1) \<Rightarrow> (Err e, s1)
           | (Panic, s1) \<Rightarrow> (Panic, s1)))"

definition stage_key_slot ::
  "u8 \<Rightarrow> HsmVaultKeyKind \<Rightarrow> u16 option \<Rightarrow> u64 \<Rightarrow> nat \<Rightarrow> (VaultStorage, nat \<times> nat \<times> u16) op" where
  "stage_key_slot app kd sess at key_bytes =
     bindS (reads (\<lambda>_. key_len kd)) (\<lambda>spec.
     bindS (reads (\<lambda>_. check spec key_bytes)) (\<lambda>persisted_len s.
       let total_bytes = storage_bytes persisted_len; need = blocks_for total_bytes
       in stage_in_tables (stage_entry app kd sess) (stage_attrs spec at persisted_len) need
            [0..<table_count s] False s))"

definition blob_ptr :: "nat \<Rightarrow> nat \<Rightarrow> u32" where
  "blob_ptr table off = of_nat (blob_addr table + off)"

definition write_key :: "gdma \<Rightarrow> nat \<Rightarrow> u16 \<Rightarrow> DmaBuf \<Rightarrow> (VaultStorage, unit) op" where
  "write_key g table block k =
     (let key_off = unat block * BLOCK_ALIGNMENT + ATTRIBUTES_BLOB_SIZE; len = buf_len k in
      blob_mut table
        (\<lambda>blob. if key_off + len > length blob then (Panic, blob)
                else if len > DMA_THRESHOLD then
                  (let (r, dst) = copy_mem g k
                     \<lparr>buf_ptr = blob_ptr table key_off, buf_bytes = slice key_off len blob\<rparr>
                   in (r, splice_at key_off dst blob))
                else (Ok (), splice_at key_off (buf_bytes k) blob)))"

text \<open>The write inside \<open>evict\<close>: the whole \<open>[attrs][key]\<close> region, range-checked, by GDMA or CPU.\<close>

definition zeroize_region :: "gdma \<Rightarrow> nat \<Rightarrow> nat \<Rightarrow> nat \<Rightarrow> u8 list \<Rightarrow> unit run \<times> u8 list" where
  "zeroize_region g table attrs_off total_bytes blob =
     (if attrs_off + total_bytes > length blob then (Err KeyNotFound, blob)
      else if total_bytes > DMA_THRESHOLD then
        (let (r, region) = zeroize_mem g
           \<lparr>buf_ptr = blob_ptr table attrs_off, buf_bytes = slice attrs_off total_bytes blob\<rparr>
         in (r, splice_at attrs_off region blob))
      else (Ok (), splice_at attrs_off (replicate total_bytes 0) blob))"

definition evict :: "gdma \<Rightarrow> nat \<Rightarrow> nat \<Rightarrow> Entry \<Rightarrow> (VaultStorage, unit) op" where
  "evict g table slot entry =
     bindS (reads (\<lambda>s. resolved_len s table entry)) (\<lambda>len.
     let total_bytes = storage_bytes (of_nat len); attrs_off = attrs_byte_offset entry in
     bindS (blob_mut table (zeroize_region g table attrs_off total_bytes)) (\<lambda>_.
     bindS (bitmap_mut table
        (\<lambda>m. (Ok (), free m (entry_block_offset entry) (blocks_for total_bytes)))) (\<lambda>_.
     entry_mut table slot (\<lambda>_. 0))))"

definition vault_create ::
  "gdma \<Rightarrow> u8 \<Rightarrow> DmaBuf \<Rightarrow> HsmVaultKeyKind \<Rightarrow> u16 option \<Rightarrow> u64 \<Rightarrow> (VaultStorage, HsmKeyId) op" where
  "vault_create g app k kd sess at =
     bindS (stage_key_slot app kd sess at (buf_len k)) (\<lambda>(table, slot, start) s.
       case write_key g table start k s of
         (Err e, s1) \<Rightarrow>
           bindS (reads (\<lambda>s. storage_entry s table slot))
             (\<lambda>entry. bindS (evict g table slot entry) (\<lambda>_. fails e)) s1
       | (Ok _, s1) \<Rightarrow> (Ok (make_key_id table slot), s1)
       | (Panic, s1) \<Rightarrow> (Panic, s1))"

definition vault_create_sync ::
  "u8 \<Rightarrow> DmaBuf \<Rightarrow> HsmVaultKeyKind \<Rightarrow> u16 option \<Rightarrow> u64 \<Rightarrow> (VaultStorage, HsmKeyId) op" where
  "vault_create_sync app k kd sess at =
     bindS (stage_key_slot app kd sess at (buf_len k)) (\<lambda>(table, slot, start).
       let len = buf_len k; key_off = unat start * BLOCK_ALIGNMENT + ATTRIBUTES_BLOB_SIZE in
       bindS (blob_mut table
         (\<lambda>blob. if key_off + len \<le> length blob
                 then (Ok (), splice_at key_off (buf_bytes k) blob) else (Panic, blob)))
         (\<lambda>_. returns (make_key_id table slot)))"

section \<open>Deleting, disabling and enabling\<close>

definition vault_delete :: "gdma \<Rightarrow> HsmKeyId \<Rightarrow> (VaultStorage, unit) op" where
  "vault_delete g key_id =
     (let (table, slot) = split_key_id key_id in
      bindS (reads (\<lambda>s. storage_entry s table slot))
        (\<lambda>entry. if entry_is_free entry then fails KeyNotFound else evict g table slot entry))"

definition vault_disable :: "HsmKeyId \<Rightarrow> (VaultStorage, unit) op" where
  "vault_disable key_id =
     (let (table, slot) = split_key_id key_id in
      bindS (reads (\<lambda>s. vault_entry s table slot)) (\<lambda>_. entry_mut table slot (set_disabled True)))"

definition vault_enable :: "HsmKeyId \<Rightarrow> (VaultStorage, unit) op" where
  "vault_enable key_id =
     (let (table, slot) = split_key_id key_id in
      bindS (reads (\<lambda>s. storage_entry s table slot))
        (\<lambda>entry. if entry_is_free entry then fails KeyNotFound
                 else entry_mut table slot (set_disabled False)))"

section \<open>Sweeps over the tables\<close>

text \<open>
  \<open>delete_by_session\<close>, \<open>clear\<close> and \<open>for_each_session_key\<close> visit every slot of every valid table
  in order; the first error ends the sweep.
\<close>

definition all_slots :: "VaultStorage \<Rightarrow> (nat \<times> nat) list" where
  "all_slots s = concat (map (\<lambda>table. if is_valid_table s table
     then map (Pair table) [0..<ENTRIES_PER_TABLE] else []) [0..<table_count s])"

definition entry_bound_to :: "u16 \<Rightarrow> Entry \<Rightarrow> bool" where
  "entry_bound_to sess e \<longleftrightarrow> \<not> entry_is_free e \<and> entry_session e \<and> entry_session_or_tag e = sess"

fun evict_where :: "gdma \<Rightarrow> (Entry \<Rightarrow> bool) \<Rightarrow> (nat \<times> nat) list \<Rightarrow> (VaultStorage, unit) op" where
  "evict_where g P [] s = (Ok (), s)"
| "evict_where g P ((table, slot) # rest) s =
     bindS (reads (\<lambda>s. storage_entry s table slot))
       (\<lambda>entry. if P entry then bindS (evict g table slot entry) (\<lambda>_. evict_where g P rest)
                else evict_where g P rest) s"

definition vault_delete_by_session :: "gdma \<Rightarrow> u16 \<Rightarrow> (VaultStorage, unit) op" where
  "vault_delete_by_session g sess s = evict_where g (entry_bound_to sess) (all_slots s) s"

definition vault_clear :: "gdma \<Rightarrow> (VaultStorage, unit) op" where
  "vault_clear g s = evict_where g (\<lambda>e. \<not> entry_is_free e) (all_slots s) s"

fun visit_session_keys ::
  "VaultStorage \<Rightarrow> u16 \<Rightarrow> (HsmKeyId \<Rightarrow> HsmVaultKeyKind \<Rightarrow> u8 list \<Rightarrow> ('c, unit) op) \<Rightarrow>
     (nat \<times> nat) list \<Rightarrow> ('c, unit) op" where
  "visit_session_keys s sess f [] c = (Ok (), c)"
| "visit_session_keys s sess f ((table, slot) # rest) c =
     bindS (reads (\<lambda>_. storage_entry s table slot))
       (\<lambda>entry. if entry_bound_to sess entry then
            (let key_id = make_key_id table slot in
             bindS (reads (\<lambda>_. key_present s key_id))
               (\<lambda>blob. bindS (f key_id (entry_kind entry) blob)
                  (\<lambda>_. visit_session_keys s sess f rest)))
          else visit_session_keys s sess f rest) c"

definition for_each_session_key ::
  "VaultStorage \<Rightarrow> u16 \<Rightarrow> (HsmKeyId \<Rightarrow> HsmVaultKeyKind \<Rightarrow> u8 list \<Rightarrow> ('c, unit) op) \<Rightarrow> ('c, unit) op" where
  "for_each_session_key s sess f = visit_session_keys s sess f (all_slots s)"

end
