(* ===== verification/KeyVaultInv.thy ===== *)
theory KeyVaultInv
  imports KeyVault
begin

text \<open>
  The well-formedness invariant of a vault table and the abstract view of its keys. A table is
  well formed when every present entry resolves to a legal run of blocks, the runs are disjoint
  and the bitmap records exactly their union; it is clean when every byte outside the runs is
  zero. One lemma (\<open>table_wf_upd\<close>) covers every change of a single slot.
\<close>

section \<open>Runs of blocks\<close>

definition tb_len :: "vtable \<Rightarrow> Entry \<Rightarrow> nat run" where
  "tb_len T e =
     bindr (key_len (entry_kind e))
       (\<lambda>spec. case spec of
          Fixed n \<Rightarrow> Ok (unat n)
        | Variable _ _ \<Rightarrow>
            if attrs_byte_offset e + ATTRIBUTES_BLOB_SIZE \<le> length (vt_blob T)
            then Ok (unat (var_len (attributes_from_bytes
              (slice (attrs_byte_offset e) ATTRIBUTES_BLOB_SIZE (vt_blob T)))))
            else Err KeyNotFound
        | Invalid \<Rightarrow> Err InvalidKeyType)"

lemma resolved_len_eq: "t < TABLE_COUNT \<Longrightarrow> resolved_len s t e = tb_len (tables s ! t) e"
  by (auto simp: resolved_len_def tb_len_def read_attrs_def storage_blob_def intro!: arg_cong2 [where f = bindr]
      split: KeyLen.splits)

definition run_len :: "nat \<Rightarrow> nat" where
  "run_len n = blocks_for (storage_bytes (of_nat n))"

definition tb_blocks :: "vtable \<Rightarrow> Entry \<Rightarrow> nat set" where
  "tb_blocks T e = (case tb_len T e of
     Ok n \<Rightarrow> {unat (entry_block_offset e)..<unat (entry_block_offset e) + run_len n}
   | _ \<Rightarrow> {})"

definition entry_wf :: "vtable \<Rightarrow> Entry \<Rightarrow> bool" where
  "entry_wf T e \<longleftrightarrow> (\<exists>spec n. key_len (entry_kind e) = Ok spec \<and> check spec n = Ok (of_nat n) \<and>
     tb_len T e = Ok n \<and> unat (entry_block_offset e) + run_len n \<le> BLOB_BLOCKS)"

definition present :: "vtable \<Rightarrow> nat \<Rightarrow> bool" where
  "present T i \<longleftrightarrow> i < ENTRIES_PER_TABLE \<and> \<not> entry_is_free (vt_entries T ! i)"

definition slot_blocks :: "vtable \<Rightarrow> nat \<Rightarrow> nat set" where
  "slot_blocks T i = (if present T i then tb_blocks T (vt_entries T ! i) else {})"

definition table_wf :: "vtable \<Rightarrow> bool" where
  "table_wf T \<longleftrightarrow>
     length (vt_entries T) = ENTRIES_PER_TABLE \<and> length (vt_blob T) = BLOB_SIZE \<and>
     (\<forall>i. present T i \<longrightarrow> entry_wf T (vt_entries T ! i)) \<and>
     (\<forall>i j. i \<noteq> j \<longrightarrow> slot_blocks T i \<inter> slot_blocks T j = {}) \<and>
     blk.tracks (vt_bitmap T) (\<Union>i. slot_blocks T i)"

definition table_clean :: "vtable \<Rightarrow> bool" where
  "table_clean T \<longleftrightarrow>
     (\<forall>j < BLOB_SIZE. j div BLOCK_ALIGNMENT \<notin> (\<Union>i. slot_blocks T i) \<longrightarrow> vt_blob T ! j = 0)"

definition vault_wf :: "VaultStorage \<Rightarrow> bool" where
  "vault_wf s \<longleftrightarrow> tables_shape s \<and> (\<forall>t < TABLE_COUNT. table_wf (tables s ! t))"

definition vault_clean :: "VaultStorage \<Rightarrow> bool" where
  "vault_clean s \<longleftrightarrow> (\<forall>t < TABLE_COUNT. table_clean (tables s ! t))"

section \<open>The abstract view\<close>

record vkey =
  vk_kind :: HsmVaultKeyKind
  vk_app :: u8
  vk_session :: "u16 option"
  vk_disabled :: bool
  vk_attrs :: u64
  vk_bytes :: "u8 list"

definition entry_view :: "vtable \<Rightarrow> Entry \<Rightarrow> vkey" where
  "entry_view T e =
     \<lparr>vk_kind = entry_kind e, vk_app = entry_app_id e, vk_session = session_binding e,
      vk_disabled = entry_disabled e,
      vk_attrs = attrs (attributes_from_bytes
        (slice (attrs_byte_offset e) ATTRIBUTES_BLOB_SIZE (vt_blob T))),
      vk_bytes = (case tb_len T e of
        Ok n \<Rightarrow> slice (attrs_byte_offset e + ATTRIBUTES_BLOB_SIZE) n (vt_blob T) | _ \<Rightarrow> [])\<rparr>"

lemma entry_view_simps [simp]:
  "vk_kind (entry_view T e) = entry_kind e" "vk_app (entry_view T e) = entry_app_id e"
  "vk_session (entry_view T e) = session_binding e" "vk_disabled (entry_view T e) = entry_disabled e"
  by (simp_all add: entry_view_def)

definition slot_view :: "vtable \<Rightarrow> nat \<Rightarrow> vkey option" where
  "slot_view T i = (if present T i then Some (entry_view T (vt_entries T ! i)) else None)"

definition vault_abs :: "VaultStorage \<Rightarrow> HsmKeyId \<Rightarrow> vkey option" where
  "vault_abs s key_id =
     (let (t, i) = split_key_id key_id
      in if t < TABLE_COUNT then slot_view (tables s ! t) i else None)"

section \<open>Blocks and bytes\<close>

lemma block_bounds:
  "BLOCK_ALIGNMENT = 8" "ATTRIBUTES_BLOB_SIZE = 32" "BLOB_SIZE = BLOB_BLOCKS * 8"
  by (simp_all add: geometry_defs)

lemma run_len_ge:
  assumes "n < 65536"
  shows "ATTRIBUTES_BLOB_SIZE + n \<le> run_len n * 8" "4 \<le> run_len n"
    "run_len n * 8 = storage_bytes (of_nat n)" "0 < run_len n"
proof -
  have n: "unat (of_nat n :: u16) = n" using assms by (simp add: unat_of_nat)
  show "ATTRIBUTES_BLOB_SIZE + n \<le> run_len n * 8" "4 \<le> run_len n"
    "run_len n * 8 = storage_bytes (of_nat n)" "0 < run_len n"
    using storage_bytes_bounds [of "of_nat n"] n by (simp_all add: run_len_def geometry_defs)
qed

definition agree_on :: "nat set \<Rightarrow> u8 list \<Rightarrow> u8 list \<Rightarrow> bool" where
  "agree_on B xs ys \<longleftrightarrow>
     length xs = length ys \<and> (\<forall>j < length xs. j div BLOCK_ALIGNMENT \<in> B \<longrightarrow> xs ! j = ys ! j)"

lemma agree_on_refl [simp]: "agree_on B xs xs"
  by (simp add: agree_on_def)

lemma agree_on_slice:
  assumes "agree_on {b..<b + n} xs ys" "b * 8 \<le> off" "off + len \<le> (b + n) * 8"
    "(b + n) * 8 \<le> length xs"
  shows "slice off len xs = slice off len ys"
proof (rule nth_equalityI)
  show "length (slice off len xs) = length (slice off len ys)"
    using assms by (simp add: agree_on_def)
  fix i assume "i < length (slice off len xs)"
  then have i: "i < len" "off + len \<le> length xs" using assms by simp_all
  then have "(off + i) div 8 \<in> {b..<b + n}" using assms by auto
  then show "slice off len xs ! i = slice off len ys ! i"
    using assms i by (simp add: nth_slice agree_on_def block_bounds)
qed

lemma agree_on_splice:
  assumes "off + length bs \<le> length xs" "\<forall>j. off \<le> j \<and> j < off + length bs \<longrightarrow> j div BLOCK_ALIGNMENT \<notin> B"
  shows "agree_on B xs (splice_at off bs xs)"
  using assms by (auto simp: agree_on_def nth_splice_at)

lemma agree_on_run:
  assumes "b * 8 \<le> off" "off + length bs \<le> (b + n) * 8" "(b + n) * 8 \<le> length xs"
    and "B \<inter> {b..<b + n} = {}"
  shows "agree_on B xs (splice_at off bs xs)"
proof (rule agree_on_splice)
  show "off + length bs \<le> length xs" using assms by simp
  show "\<forall>j. off \<le> j \<and> j < off + length bs \<longrightarrow> j div BLOCK_ALIGNMENT \<notin> B"
  proof (intro allI impI)
    fix j assume "off \<le> j \<and> j < off + length bs"
    then have "j div BLOCK_ALIGNMENT \<in> {b..<b + n}" using assms by (auto simp: block_bounds)
    then show "j div BLOCK_ALIGNMENT \<notin> B" using assms(4) by blast
  qed
qed

lemma agree_on_subset: "agree_on B xs ys \<Longrightarrow> A \<subseteq> B \<Longrightarrow> agree_on A xs ys"
  by (auto simp: agree_on_def)

section \<open>What a well-formed entry resolves to\<close>

lemma entry_wfE:
  assumes "entry_wf T e"
  obtains n where "tb_len T e = Ok n" "0 < n" "n \<le> 2564" "4 \<le> run_len n" "32 + n \<le> run_len n * 8"
    "run_len n * 8 = storage_bytes (of_nat n)"
    "tb_blocks T e = {unat (entry_block_offset e)..<unat (entry_block_offset e) + run_len n}"
    "attrs_byte_offset e = unat (entry_block_offset e) * 8"
    "unat (entry_block_offset e) + run_len n \<le> BLOB_BLOCKS"
proof -
  from assms obtain spec n where n: "key_len (entry_kind e) = Ok spec" "check spec n = Ok (of_nat n)"
    "tb_len T e = Ok n" "unat (entry_block_offset e) + run_len n \<le> BLOB_BLOCKS"
    by (auto simp: entry_wf_def)
  note b = check_Ok [OF n(2) key_len_Ok(2) [OF n(1)]]
  then have "n < 65536" by simp
  from run_len_ge [OF this] b n show thesis
    by (intro that [of n]) (auto simp: tb_blocks_def attrs_byte_offset_def block_bounds)
qed

lemma tb_len_frame:
  assumes "entry_wf T e" "length (vt_blob T) = BLOB_SIZE"
    and "agree_on (tb_blocks T e) (vt_blob T) (vt_blob T')"
  shows "tb_len T' e = tb_len T e" "tb_blocks T' e = tb_blocks T e" "entry_wf T' e = entry_wf T e"
    "entry_view T' e = entry_view T e"
proof -
  obtain n where n: "tb_len T e = Ok n" "4 \<le> run_len n" "32 + n \<le> run_len n * 8"
    "tb_blocks T e = {unat (entry_block_offset e)..<unat (entry_block_offset e) + run_len n}"
    "attrs_byte_offset e = unat (entry_block_offset e) * 8"
    "unat (entry_block_offset e) + run_len n \<le> BLOB_BLOCKS"
    by (rule entry_wfE [OF assms(1)])
  have sl: "slice off len (vt_blob T) = slice off len (vt_blob T')"
    if "attrs_byte_offset e \<le> off" "off + len \<le> attrs_byte_offset e + run_len n * 8" for off len
    by (rule agree_on_slice [of "unat (entry_block_offset e)" "run_len n"])
      (use that n assms in \<open>auto simp: block_bounds\<close>)
  have len: "length (vt_blob T') = length (vt_blob T)"
    using assms(3) by (simp add: agree_on_def)
  have a: "slice (attrs_byte_offset e) 32 (vt_blob T') = slice (attrs_byte_offset e) 32 (vt_blob T)"
    using sl [of "attrs_byte_offset e" 32] n by simp
  then show l: "tb_len T' e = tb_len T e"
    by (simp add: tb_len_def len block_bounds cong: KeyLen.case_cong)
  then show "tb_blocks T' e = tb_blocks T e" "entry_wf T' e = entry_wf T e"
    by (simp_all add: tb_blocks_def entry_wf_def)
  show "entry_view T' e = entry_view T e"
    using a l n sl [of "attrs_byte_offset e + 32" n] by (simp add: entry_view_def block_bounds)
qed

lemma table_wfD:
  assumes "table_wf T"
  shows "length (vt_entries T) = ENTRIES_PER_TABLE" "length (vt_blob T) = BLOB_SIZE"
    "length (vt_bitmap T) = BITMAP_WORDS" "present T i \<Longrightarrow> entry_wf T (vt_entries T ! i)"
    "i \<noteq> j \<Longrightarrow> slot_blocks T i \<inter> slot_blocks T j = {}"
    "blk.tracks (vt_bitmap T) (\<Union>i. slot_blocks T i)"
  using assms by (auto simp: table_wf_def blk.tracks_def)

section \<open>Changing one slot\<close>

lemma table_wf_upd:
  assumes wf: "table_wf T" and slot: "slot < ENTRIES_PER_TABLE"
    and ents: "vt_entries T' = (vt_entries T)[slot := e']"
    and frame: "\<And>i. i \<noteq> slot \<Longrightarrow> agree_on (slot_blocks T i) (vt_blob T) (vt_blob T')"
    and fresh: "\<not> entry_is_free e' \<Longrightarrow> entry_wf T' e'"
    and disj: "\<And>i. \<not> entry_is_free e' \<Longrightarrow> i \<noteq> slot \<Longrightarrow> slot_blocks T i \<inter> tb_blocks T' e' = {}"
    and tracks: "blk.tracks (vt_bitmap T')
      ((\<Union>i \<in> - {slot}. slot_blocks T i) \<union> (if entry_is_free e' then {} else tb_blocks T' e'))"
  shows "table_wf T'" "i \<noteq> slot \<Longrightarrow> slot_view T' i = slot_view T i"
    "i \<noteq> slot \<Longrightarrow> slot_blocks T' i = slot_blocks T i"
    "slot_blocks T' slot = (if entry_is_free e' then {} else tb_blocks T' e')"
proof -
  note wfd = table_wfD [OF wf]
  have len: "length (vt_blob T') = BLOB_SIZE"
    using frame [of "Suc slot"] wfd by (simp add: agree_on_def)
  have pres: "present T' i = present T i" "vt_entries T' ! i = vt_entries T ! i" if "i \<noteq> slot" for i
    using that ents wfd(1) by (auto simp: present_def)
  have at: "vt_entries T' ! slot = e'" "present T' slot = (\<not> entry_is_free e')"
    using ents wfd(1) slot by (auto simp: present_def)
  have fr: "tb_blocks T' (vt_entries T ! i) = tb_blocks T (vt_entries T ! i)"
    "entry_wf T' (vt_entries T ! i)" "entry_view T' (vt_entries T ! i) = entry_view T (vt_entries T ! i)"
    if "i \<noteq> slot" "present T i" for i
    using tb_len_frame [OF wfd(4) [OF that(2)] wfd(2), of T'] frame [OF that(1)] that wfd(4)
    by (simp_all add: slot_blocks_def)
  show oth: "slot_blocks T' i = slot_blocks T i" if "i \<noteq> slot" for i
    using that fr pres by (simp add: slot_blocks_def)
  show own: "slot_blocks T' slot = (if entry_is_free e' then {} else tb_blocks T' e')"
    using at by (simp add: slot_blocks_def)
  show "slot_view T' i = slot_view T i" if "i \<noteq> slot" for i
    using that fr pres by (simp add: slot_view_def)
  have un: "(\<Union>i. slot_blocks T' i) =
      (\<Union>i \<in> - {slot}. slot_blocks T i) \<union> (if entry_is_free e' then {} else tb_blocks T' e')"
  proof -
    have "(\<Union>i. slot_blocks T' i) = (\<Union>i \<in> - {slot}. slot_blocks T' i) \<union> slot_blocks T' slot"
      by auto
    then show ?thesis using oth own by simp
  qed
  show "table_wf T'"
    unfolding table_wf_def
  proof (intro conjI allI impI)
    show "length (vt_entries T') = ENTRIES_PER_TABLE" "length (vt_blob T') = BLOB_SIZE"
      using ents wfd len by simp_all
    show "blk.tracks (vt_bitmap T') (\<Union>i. slot_blocks T' i)"
      using tracks un by simp
    show "entry_wf T' (vt_entries T' ! i)" if "present T' i" for i
      using that at pres fr fresh by (cases "i = slot") auto
    show "slot_blocks T' i \<inter> slot_blocks T' j = {}" if "i \<noteq> j" for i j
      using that wfd(5) [OF that] oth own disj
      by (cases "i = slot"; cases "j = slot") (simp_all add: Int_commute)
  qed
qed

section \<open>Clean free space\<close>

lemma table_clean_inside:
  assumes "table_clean T" "length (vt_blob T) = BLOB_SIZE" "vt_blob T' = splice_at off bs (vt_blob T)"
    and "b * 8 \<le> off" "off + length bs \<le> (b + n) * 8" "b + n \<le> BLOB_BLOCKS"
    and "{b..<b + n} \<subseteq> (\<Union>i. slot_blocks T' i)" "(\<Union>i. slot_blocks T i) \<subseteq> (\<Union>i. slot_blocks T' i)"
  shows "table_clean T'"
  unfolding table_clean_def
proof (intro allI impI)
  fix j assume j: "j < BLOB_SIZE" "j div BLOCK_ALIGNMENT \<notin> (\<Union>i. slot_blocks T' i)"
  then have "j div 8 \<notin> {b..<b + n}" using assms(7) by (auto simp: block_bounds)
  then have "\<not> (off \<le> j \<and> j < off + length bs)" using assms(4-6) by auto
  then have "vt_blob T' ! j = vt_blob T ! j"
    using assms(2-6) j(1) by (auto simp: nth_splice_at block_bounds)
  then show "vt_blob T' ! j = 0"
    using assms(1,8) j by (auto simp: table_clean_def)
qed

lemma table_clean_zeroed:
  assumes "table_clean T" "length (vt_blob T) = BLOB_SIZE"
    and "vt_blob T' = splice_at (b * 8) (replicate (n * 8) 0) (vt_blob T)" "b + n \<le> BLOB_BLOCKS"
    and "(\<Union>i. slot_blocks T i) - {b..<b + n} \<subseteq> (\<Union>i. slot_blocks T' i)"
  shows "table_clean T'"
  unfolding table_clean_def
proof (intro allI impI)
  fix j assume j: "j < BLOB_SIZE" "j div BLOCK_ALIGNMENT \<notin> (\<Union>i. slot_blocks T' i)"
  show "vt_blob T' ! j = 0"
  proof (cases "b * 8 \<le> j \<and> j < b * 8 + n * 8")
    case True
    then have "j - b * 8 < n * 8" by arith
    with True show ?thesis using assms(2-4) j by (simp add: nth_splice_at block_bounds)
  next
    case False
    then have "j div BLOCK_ALIGNMENT \<notin> {b..<b + n}" by (auto simp: block_bounds)
    then have "vt_blob T ! j = 0" using assms(1,5) j unfolding table_clean_def by blast
    with False show ?thesis using assms(2-4) j by (auto simp: nth_splice_at block_bounds)
  qed
qed

end
