(* ===== verification/KeyVaultSteps.thy ===== *)
theory KeyVaultSteps
  imports KeyVaultInv
begin

text \<open>
  What the building blocks of the vault operations do to one table: staging an entry, writing the
  key material of a slot, and evicting a slot, each with the invariant, the abstract view and the
  cleanliness of the free space.
\<close>

section \<open>Table transformers\<close>

definition tb_stage :: "nat \<Rightarrow> Entry \<Rightarrow> u16 \<Rightarrow> u32 list \<Rightarrow> Attributes \<Rightarrow> vtable \<Rightarrow> vtable" where
  "tb_stage slot e start m a T =
     T\<lparr>vt_entries := (vt_entries T)[slot := e], vt_bitmap := m,
       vt_blob := splice_at (unat start * BLOCK_ALIGNMENT) (attributes_as_bytes a) (vt_blob T)\<rparr>"

definition tb_write :: "nat \<Rightarrow> u8 list \<Rightarrow> vtable \<Rightarrow> vtable" where
  "tb_write off bs T = T\<lparr>vt_blob := splice_at off bs (vt_blob T)\<rparr>"

definition tb_evict :: "nat \<Rightarrow> Entry \<Rightarrow> nat \<Rightarrow> vtable \<Rightarrow> vtable" where
  "tb_evict slot e n T =
     T\<lparr>vt_entries := (vt_entries T)[slot := 0],
       vt_bitmap := free (vt_bitmap T) (entry_block_offset e) (run_len n),
       vt_blob := splice_at (attrs_byte_offset e) (replicate (run_len n * 8) 0) (vt_blob T)\<rparr>"

lemma tb_simps [simp]:
  "vt_entries (tb_stage slot e start m a T) = (vt_entries T)[slot := e]"
  "vt_bitmap (tb_stage slot e start m a T) = m"
  "vt_blob (tb_stage slot e start m a T) =
     splice_at (unat start * BLOCK_ALIGNMENT) (attributes_as_bytes a) (vt_blob T)"
  "vt_entries (tb_write off bs T) = vt_entries T"
  "vt_bitmap (tb_write off bs T) = vt_bitmap T"
  "vt_blob (tb_write off bs T) = splice_at off bs (vt_blob T)"
  "vt_entries (tb_evict slot e n T) = (vt_entries T)[slot := 0]"
  "vt_bitmap (tb_evict slot e n T) = free (vt_bitmap T) (entry_block_offset e) (run_len n)"
  "vt_blob (tb_evict slot e n T) =
     splice_at (attrs_byte_offset e) (replicate (run_len n * 8) 0) (vt_blob T)"
  by (simp_all add: tb_stage_def tb_write_def tb_evict_def)

lemma slot_blocks_split:
  "(\<Union>i. slot_blocks T i) = (\<Union>i \<in> - {k}. slot_blocks T i) \<union> slot_blocks T k"
  by auto

section \<open>Eviction\<close>

lemma tb_evict_wf:
  assumes wf: "table_wf T" and pres: "present T slot" and e: "e = vt_entries T ! slot"
    and n: "tb_len T e = Ok n"
  shows "table_wf (tb_evict slot e n T)"
    and "i \<noteq> slot \<Longrightarrow> slot_view (tb_evict slot e n T) i = slot_view T i"
    and "slot_view (tb_evict slot e n T) slot = None"
    and "table_clean T \<Longrightarrow> table_clean (tb_evict slot e n T)"
proof -
  note wfd = table_wfD [OF wf]
  from wfd(4) [OF pres] n e obtain
    ge: "unat (entry_block_offset e) + run_len n \<le> BLOB_BLOCKS" and
    off: "attrs_byte_offset e = unat (entry_block_offset e) * 8" and
    blks: "tb_blocks T e = {unat (entry_block_offset e)..<unat (entry_block_offset e) + run_len n}"
    by (auto elim: entry_wfE)
  have own: "slot_blocks T slot = tb_blocks T e"
    using pres e by (simp add: slot_blocks_def)
  have slot: "slot < ENTRIES_PER_TABLE" using pres by (simp add: present_def)
  let ?T' = "tb_evict slot e n T"
  have fr: "agree_on (slot_blocks T i) (vt_blob T) (vt_blob ?T')" if "i \<noteq> slot" for i
    using wfd(2) wfd(5) [OF that] own blks off ge
    by (simp, intro agree_on_run [of "unat (entry_block_offset e)" _ _ "run_len n"]) (auto simp: block_bounds)
  have "(\<Union>i. slot_blocks T i) - tb_blocks T e = (\<Union>i \<in> - {slot}. slot_blocks T i)"
    using wfd(5) [of _ slot] own by (subst slot_blocks_split [of T slot]) blast
  then have tr: "blk.tracks (vt_bitmap ?T') (\<Union>i \<in> - {slot}. slot_blocks T i)"
    using blk.free_tracks [OF wfd(6), of "entry_block_offset e" "run_len n"] blks by simp
  note upd = table_wf_upd [OF wf slot _ fr, where e' = 0]
  show "table_wf ?T'" "slot_view ?T' slot = None"
    by (rule upd(1)) (use tr slot wfd(1) in \<open>auto simp: slot_view_def present_def\<close>)
  show "i \<noteq> slot \<Longrightarrow> slot_view ?T' i = slot_view T i"
    by (rule upd(2)) (use tr in simp_all)
  assume cl: "table_clean T"
  have b': "slot_blocks ?T' i = slot_blocks T i" if "i \<noteq> slot" for i
    by (rule upd(3)) (use tr that in simp_all)
  then have "(\<Union>i \<in> - {slot}. slot_blocks T i) \<subseteq> (\<Union>i. slot_blocks ?T' i)"
    by auto
  then show "table_clean ?T'"
    by (intro table_clean_zeroed [OF cl wfd(2), where b = "unat (entry_block_offset e)" and n = "run_len n"])
      (use ge off own blks slot_blocks_split [of T slot] in auto)
qed

section \<open>Writing key material\<close>

lemma tb_write_own:
  assumes wf: "table_wf T" and pres: "present T slot" and e: "e = vt_entries T ! slot"
    and n: "tb_len T e = Ok n" and bs: "length bs = n"
    and T': "T' = tb_write (attrs_byte_offset e + ATTRIBUTES_BLOB_SIZE) bs T"
  shows "table_wf T'" "i \<noteq> slot \<Longrightarrow> slot_view T' i = slot_view T i"
    "slot_view T' slot = Some ((entry_view T e)\<lparr>vk_bytes := bs\<rparr>)"
    "table_clean T \<Longrightarrow> table_clean T'" "tb_len T' e = Ok n"
proof -
  note wfd = table_wfD [OF wf]
  from wfd(4) [OF pres] n e obtain
    ge: "unat (entry_block_offset e) + run_len n \<le> BLOB_BLOCKS" "32 + n \<le> run_len n * 8" and
    off: "attrs_byte_offset e = unat (entry_block_offset e) * 8" and
    blks: "tb_blocks T e = {unat (entry_block_offset e)..<unat (entry_block_offset e) + run_len n}"
    by (auto elim: entry_wfE)
  have own: "slot_blocks T slot = tb_blocks T e" and slot: "slot < ENTRIES_PER_TABLE"
    and nf: "\<not> entry_is_free e"
    using pres e by (simp_all add: slot_blocks_def present_def)
  have at: "slice (attrs_byte_offset e) ATTRIBUTES_BLOB_SIZE (vt_blob T') =
      slice (attrs_byte_offset e) ATTRIBUTES_BLOB_SIZE (vt_blob T)"
    using ge off wfd(2) bs by (simp add: T' slice_splice_other block_bounds)
  have "length (vt_blob T') = length (vt_blob T)"
    using ge off wfd(2) bs by (simp add: T' block_bounds)
  with at have "tb_len T' e = tb_len T e"
    by (simp only: tb_len_def)
  with n show len: "tb_len T' e = Ok n" by simp
  then have blks': "tb_blocks T' e = tb_blocks T e" and ewf: "entry_wf T' e"
    using n wfd(4) [OF pres] e by (simp_all add: tb_blocks_def entry_wf_def)
  have fr: "agree_on (slot_blocks T i) (vt_blob T) (vt_blob T')" if "i \<noteq> slot" for i
    unfolding T' tb_simps
    by (rule agree_on_run [of "unat (entry_block_offset e)" _ _ "run_len n"])
      (use wfd(2) wfd(5) [OF that] own blks off ge bs in \<open>auto simp: block_bounds\<close>)
  have ents: "vt_entries T' = (vt_entries T)[slot := e]"
    using e by (simp add: T')
  have tr: "blk.tracks (vt_bitmap T')
      ((\<Union>i \<in> - {slot}. slot_blocks T i) \<union> (if entry_is_free e then {} else tb_blocks T' e))"
    using wfd(6) slot_blocks_split [of T slot] own nf blks' by (simp add: T')
  have disj: "i \<noteq> slot \<Longrightarrow> slot_blocks T i \<inter> tb_blocks T' e = {}" for i
    using wfd(5) [of i slot] own blks' by simp
  note upd = table_wf_upd [OF wf slot ents fr ewf disj tr]
  show "table_wf T'" by (rule upd(1))
  show "i \<noteq> slot \<Longrightarrow> slot_view T' i = slot_view T i" by (rule upd(2))
  have "present T' slot" "vt_entries T' ! slot = e"
    using pres e by (simp_all add: present_def T')
  then show "slot_view T' slot = Some ((entry_view T e)\<lparr>vk_bytes := bs\<rparr>)"
    using at len ge off bs wfd(2)
    by (simp add: slot_view_def entry_view_def) (simp add: T' block_bounds slice_splice_same)
  assume cl: "table_clean T"
  have sb: "slot_blocks T' i = slot_blocks T i" for i
    using upd(3) [of i] upd(4) own nf blks' by (cases "i = slot") simp_all
  have "tb_blocks T e \<subseteq> (\<Union>i. slot_blocks T i)"
    using own by blast
  with sb blks have run: "{unat (entry_block_offset e)..<unat (entry_block_offset e) + run_len n} \<subseteq>
      (\<Union>i. slot_blocks T' i)" by simp
  have "vt_blob T' = splice_at (attrs_byte_offset e + 32) bs (vt_blob T)"
    by (simp add: T' block_bounds)
  then show "table_clean T'"
    by (rule table_clean_inside [OF cl wfd(2) _ _ _ ge(1) run]) (use ge off bs sb in simp_all)
qed

section \<open>Staging an entry\<close>

lemma stage_attrs_wf [simp]: "attributes_wf (stage_attrs spec at p)"
  by (cases spec) (simp_all add: stage_attrs_def attributes_wf_def Attributes_ZERO_def)

lemma attrs_stage_attrs [simp]: "attrs (stage_attrs spec at p) = at"
  by (cases spec) (simp_all add: stage_attrs_def)

lemma tb_stage_wf:
  assumes wf: "table_wf T" and slot: "slot < ENTRIES_PER_TABLE" "\<not> present T slot"
    and spec: "key_len kd = Ok spec" "check spec n = Ok p"
    and al: "alloc (vt_bitmap T) (run_len n) = (Ok start, m)"
    and e: "entry_kind e = kd" "entry_block_offset e = start"
    and T': "T' = tb_stage slot e start m (stage_attrs spec at p) T"
  shows "table_wf T'" "i \<noteq> slot \<Longrightarrow> slot_view T' i = slot_view T i"
    "tb_len T' e = Ok n" "vk_attrs (entry_view T' e) = at"
    "table_clean T \<Longrightarrow> table_clean T'" "present T' slot" "vt_entries T' ! slot = e"
proof -
  note wfd = table_wfD [OF wf]
  note fresh = blk.alloc_fresh [OF wfd(6) al]
  note bnd = check_Ok [OF spec(2) key_len_Ok(2) [OF spec(1)]]
  then have "n < 65536" by simp
  note rl = run_len_ge [OF this]
  have nf: "\<not> entry_is_free e" using e key_len_Ok(3) [OF spec(1)] by (simp add: entry_is_free_def)
  have off: "attrs_byte_offset e = unat start * 8"
    using e by (simp add: attrs_byte_offset_def block_bounds)
  have le: "unat start + run_len n \<le> BLOB_BLOCKS"
    using alloc_Ok(2) [OF al wfd(3)] .
  have at: "slice (attrs_byte_offset e) ATTRIBUTES_BLOB_SIZE (vt_blob T') =
      attributes_as_bytes (stage_attrs spec at p)"
    using le rl wfd(2) slice_splice_same [of "unat start * 8" "attributes_as_bytes (stage_attrs spec at p)" "vt_blob T"]
    by (simp add: T' off block_bounds)
  have lenb: "length (vt_blob T') = BLOB_SIZE"
    using le rl wfd(2) by (simp add: T' block_bounds)
  show att: "vk_attrs (entry_view T' e) = at"
    by (simp add: entry_view_def at attributes_round_trip)
  show len: "tb_len T' e = Ok n"
  proof (cases spec)
    case (Variable mn mx)
    then have "var_len (stage_attrs spec at p) = p" by (simp add: stage_attrs_def)
    moreover have "attrs_byte_offset e + ATTRIBUTES_BLOB_SIZE \<le> length (vt_blob T')"
      using lenb le rl off by (simp add: block_bounds)
    ultimately show ?thesis
      using spec(1) Variable e bnd by (simp add: tb_len_def at attributes_round_trip)
  qed (use spec e bnd key_len_Ok(1) [OF spec(1)] in \<open>auto simp: tb_len_def split: if_splits\<close>)
  have p: "p = of_nat n" using bnd(1) by auto
  have ewf: "entry_wf T' e"
    unfolding entry_wf_def using spec e len le p by auto
  have blks: "tb_blocks T' e = {unat start..<unat start + run_len n}"
    using len e by (simp add: tb_blocks_def)
  have own: "slot_blocks T slot = {}" using slot by (simp add: slot_blocks_def)
  have disj: "slot_blocks T i \<inter> tb_blocks T' e = {}" for i
    using fresh(1) blks by auto
  have fr: "agree_on (slot_blocks T i) (vt_blob T) (vt_blob T')" for i
    unfolding T' tb_simps
    by (rule agree_on_run [of "unat start" _ _ "run_len n"])
      (use wfd(2) disj blks le rl in \<open>auto simp: block_bounds\<close>)
  have tr: "blk.tracks (vt_bitmap T')
      ((\<Union>i \<in> - {slot}. slot_blocks T i) \<union> (if entry_is_free e then {} else tb_blocks T' e))"
    using blk.alloc_tracks [OF wfd(6) al] slot_blocks_split [of T slot] own nf blks by (simp add: T')
  have ents: "vt_entries T' = (vt_entries T)[slot := e]" by (simp add: T')
  note upd = table_wf_upd [OF wf slot(1) ents fr ewf disj tr]
  show "table_wf T'" by (rule upd(1))
  show "i \<noteq> slot \<Longrightarrow> slot_view T' i = slot_view T i" by (rule upd(2))
  show "present T' slot" "vt_entries T' ! slot = e"
    using slot nf wfd(1) by (simp_all add: present_def T')
  assume cl: "table_clean T"
  have "slot_blocks T i \<subseteq> slot_blocks T' i" for i
    using upd(3) [of i] own by (cases "i = slot") simp_all
  then have sub: "(\<Union>i. slot_blocks T i) \<subseteq> (\<Union>i. slot_blocks T' i)" by blast
  have "slot_blocks T' slot = {unat start..<unat start + run_len n}"
    using upd(4) nf blks by simp
  then have run: "{unat start..<unat start + run_len n} \<subseteq> (\<Union>i. slot_blocks T' i)" by blast
  have "vt_blob T' = splice_at (unat start * 8) (attributes_as_bytes (stage_attrs spec at p)) (vt_blob T)"
    by (simp add: T' block_bounds)
  then show "table_clean T'"
    by (rule table_clean_inside [OF cl wfd(2) _ _ _ le run sub]) (use rl in \<open>simp_all add: block_bounds\<close>)
qed

end
