(* ===== verification/KeyVaultCorrect.thy ===== *)
theory KeyVaultCorrect
  imports KeyVaultSteps
begin

text \<open>
  Correctness of the vault operations against the abstract view: lookups read it, creation adds
  one key, deletion and the sweeps remove keys, disabling and enabling toggle one flag. Every
  operation keeps the invariant and the cleanliness of the free space, and none panics.
\<close>

section \<open>Storage accessors on a well-formed vault\<close>

lemma storage_entry_eq:
  "t < TABLE_COUNT \<Longrightarrow> i < ENTRIES_PER_TABLE \<Longrightarrow> storage_entry s t i = Ok (vt_entries (tables s ! t) ! i)"
  by (simp add: storage_entry_def)

lemma storage_blob_eq: "t < TABLE_COUNT \<Longrightarrow> storage_blob s t = Ok (vt_blob (tables s ! t))"
  by (simp add: storage_blob_def)

lemma vault_wfD:
  assumes "vault_wf s" "t < TABLE_COUNT"
  shows "table_wf (tables s ! t)" "tables_shape s"
  using assms by (simp_all add: vault_wf_def)

lemma vault_wf_upd:
  assumes "vault_wf s" "t < TABLE_COUNT" "table_wf (f (tables s ! t))"
  shows "vault_wf (upd_table t f s)"
proof -
  have "table_wf (tables (upd_table t f s) ! t')" if "t' < TABLE_COUNT" for t'
    using assms that by (cases "t' = t") (auto simp: vault_wf_def)
  then show ?thesis using assms by (simp add: vault_wf_def)
qed

lemma vault_clean_upd:
  assumes "vault_wf s" "vault_clean s" "t < TABLE_COUNT" "table_clean (f (tables s ! t))"
  shows "vault_clean (upd_table t f s)"
proof -
  have "table_clean (tables (upd_table t f s) ! t')" if "t' < TABLE_COUNT" for t'
    using assms that by (cases "t' = t") (auto simp: vault_wf_def vault_clean_def)
  then show ?thesis by (simp add: vault_clean_def)
qed

lemma slot_bounds: "ENTRIES_PER_TABLE = 256" "TABLE_COUNT = 65"
  by (simp_all add: geometry_defs TABLE_COUNT_eq)

lemma split_make [simp]:
  "t < TABLE_COUNT \<Longrightarrow> i < ENTRIES_PER_TABLE \<Longrightarrow> split_key_id (make_key_id t i) = (t, i)"
  by (simp add: slot_bounds)

lemma slot_less: "split_key_id k = (t, i) \<Longrightarrow> i < ENTRIES_PER_TABLE"
  using split_key_id_bounds by (simp add: slot_bounds)

lemma vault_abs_upd:
  assumes "vault_wf s" "t < TABLE_COUNT" "slot < ENTRIES_PER_TABLE"
    and "\<And>i. i \<noteq> slot \<Longrightarrow> slot_view (f (tables s ! t)) i = slot_view (tables s ! t) i"
  shows "vault_abs (upd_table t f s) =
    (vault_abs s)(make_key_id t slot := slot_view (f (tables s ! t)) slot)"
proof
  fix k
  obtain t' i where k: "split_key_id k = (t', i)" by fastforce
  have kk: "k = make_key_id t slot \<longleftrightarrow> t' = t \<and> i = slot"
    using k make_split_key_id [OF k] split_make [OF assms(2,3)] by (metis prod.inject)
  show "vault_abs (upd_table t f s) k =
      ((vault_abs s)(make_key_id t slot := slot_view (f (tables s ! t)) slot)) k"
  proof (cases "t' = t")
    case True
    then show ?thesis
      using assms(1,2) assms(4) [of i] k kk by (cases "i = slot") (simp_all add: vault_abs_def vault_wf_def)
  next
    case False
    then show ?thesis using k kk by (simp add: vault_abs_def)
  qed
qed

section \<open>Lookups read the abstract view\<close>

text \<open>The live keys of the partition: present, in a table it owns, and not disabled.\<close>

definition owned :: "VaultStorage \<Rightarrow> HsmKeyId \<Rightarrow> bool" where
  "owned s key_id \<longleftrightarrow> is_valid_table s (fst (split_key_id key_id))"

definition owned_key :: "VaultStorage \<Rightarrow> HsmKeyId \<Rightarrow> vkey option" where
  "owned_key s key_id = (if owned s key_id then vault_abs s key_id else None)"

definition live_key :: "VaultStorage \<Rightarrow> HsmKeyId \<Rightarrow> vkey option" where
  "live_key s key_id = (case owned_key s key_id of
     Some v \<Rightarrow> if vk_disabled v then None else Some v | None \<Rightarrow> None)"

lemma entry_present_result:
  assumes "split_key_id k = (t, i)"
  shows "entry_present s t i = (case owned_key s k of
    None \<Rightarrow> Err KeyNotFound | Some _ \<Rightarrow> Ok (vt_entries (tables s ! t) ! i))"
  using assms slot_less [OF assms] is_valid_table_less [of s t]
  by (auto simp: entry_present_def owned_key_def owned_def vault_abs_def slot_view_def present_def
      storage_entry_eq)

lemma owned_keyD:
  assumes "owned_key s k = Some v" "split_key_id k = (t, i)"
  shows "is_valid_table s t" "t < TABLE_COUNT" "present (tables s ! t) i"
    "v = entry_view (tables s ! t) (vt_entries (tables s ! t) ! i)"
  using assms is_valid_table_less [of s t]
  by (auto simp: owned_key_def owned_def vault_abs_def slot_view_def split: if_splits)

lemma vault_entry_result:
  assumes "split_key_id k = (t, i)"
  shows "vault_entry s t i = (case live_key s k of
    None \<Rightarrow> Err KeyNotFound | Some _ \<Rightarrow> Ok (vt_entries (tables s ! t) ! i))"
proof (cases "owned_key s k")
  case (Some v)
  with owned_keyD(4) [OF this assms] show ?thesis
    by (simp add: vault_entry_def entry_present_result [OF assms] live_key_def)
qed (simp add: vault_entry_def entry_present_result [OF assms] live_key_def)

lemma location_of_result:
  assumes "vault_wf s" "t < TABLE_COUNT" "entry_wf (tables s ! t) e" "tb_len (tables s ! t) e = Ok n"
  shows "location_of s t e = Ok (t, attrs_byte_offset e + ATTRIBUTES_BLOB_SIZE, n)"
    "attrs_byte_offset e + ATTRIBUTES_BLOB_SIZE + n \<le> BLOB_SIZE"
proof -
  from assms(3,4) obtain "32 + n \<le> run_len n * 8"
    "attrs_byte_offset e = unat (entry_block_offset e) * 8"
    "unat (entry_block_offset e) + run_len n \<le> BLOB_BLOCKS"
    by (auto elim: entry_wfE)
  then show le: "attrs_byte_offset e + ATTRIBUTES_BLOB_SIZE + n \<le> BLOB_SIZE"
    by (simp add: block_bounds)
  show "location_of s t e = Ok (t, attrs_byte_offset e + ATTRIBUTES_BLOB_SIZE, n)"
    using assms le vault_wfD [OF assms(1,2)]
    by (simp add: location_of_def resolved_len_eq storage_blob_eq table_wfD)
qed

lemma blob_of_result:
  assumes "vault_wf s" "t < TABLE_COUNT" "entry_wf (tables s ! t) e"
  shows "blob_of s t e = Ok (vk_bytes (entry_view (tables s ! t) e))"
proof -
  obtain n where n: "tb_len (tables s ! t) e = Ok n" using assms(3) by (auto elim: entry_wfE)
  show ?thesis
    using location_of_result [OF assms n] n vault_wfD [OF assms(1,2)] assms(2)
    by (simp add: blob_of_def storage_blob_eq entry_view_def table_wfD)
qed

lemma read_attrs_result:
  assumes "vault_wf s" "t < TABLE_COUNT" "entry_wf (tables s ! t) e"
  shows "bindr (read_attrs s t (attrs_byte_offset e)) (\<lambda>a. Ok (attrs a)) =
    Ok (vk_attrs (entry_view (tables s ! t) e))"
proof -
  from assms(3) obtain n where "4 \<le> run_len n"
    "attrs_byte_offset e = unat (entry_block_offset e) * 8"
    "unat (entry_block_offset e) + run_len n \<le> BLOB_BLOCKS"
    by (auto elim: entry_wfE)
  then have "attrs_byte_offset e + ATTRIBUTES_BLOB_SIZE \<le> BLOB_SIZE"
    by (simp add: block_bounds)
  then show ?thesis
    using assms vault_wfD [OF assms(1,2)]
    by (simp add: read_attrs_def storage_blob_eq entry_view_def table_wfD)
qed

lemma owned_entry_wf:
  assumes "vault_wf s" "owned_key s k = Some v" "split_key_id k = (t, i)"
  shows "entry_wf (tables s ! t) (vt_entries (tables s ! t) ! i)"
  using owned_keyD [OF assms(2,3)] vault_wfD [OF assms(1)] table_wfD(4) by blast

text \<open>Every lookup is the abstract view of the live key, or \<open>KeyNotFound\<close>.\<close>

lemma lookup_results:
  assumes "vault_wf s"
  shows "vault_key s k = (case live_key s k of None \<Rightarrow> Err KeyNotFound | Some v \<Rightarrow> Ok (vk_bytes v))"
    "key_kind s k = (case live_key s k of None \<Rightarrow> Err KeyNotFound | Some v \<Rightarrow> Ok (vk_kind v))"
    "key_session s k = (case live_key s k of None \<Rightarrow> Err KeyNotFound | Some v \<Rightarrow> Ok (vk_session v))"
    "key_session_binding s k = (case live_key s k of None \<Rightarrow> Err KeyNotFound | Some v \<Rightarrow> Ok (vk_session v))"
    "key_attrs s k = (case live_key s k of None \<Rightarrow> Err KeyNotFound | Some v \<Rightarrow> Ok (vk_attrs v))"
    "key_present s k = (case owned_key s k of None \<Rightarrow> Err KeyNotFound | Some v \<Rightarrow> Ok (vk_bytes v))"
proof -
  obtain t i where k: "split_key_id k = (t, i)" by fastforce
  let ?e = "vt_entries (tables s ! t) ! i"
  have ow: "t < TABLE_COUNT \<and> entry_wf (tables s ! t) ?e \<and> v = entry_view (tables s ! t) ?e"
    if "owned_key s k = Some v" for v
    using that owned_keyD [OF that k] owned_entry_wf [OF assms that k] by simp
  have lv: "owned_key s k = Some v" if "live_key s k = Some v" for v
    using that by (auto simp: live_key_def split: option.splits if_splits)
  note ev = vault_entry_result [OF k] entry_present_result [OF k] k
  show "key_present s k = (case owned_key s k of None \<Rightarrow> Err KeyNotFound | Some v \<Rightarrow> Ok (vk_bytes v))"
    using ow blob_of_result [OF assms] by (cases "owned_key s k") (simp_all add: key_present_def ev)
  show "vault_key s k = (case live_key s k of None \<Rightarrow> Err KeyNotFound | Some v \<Rightarrow> Ok (vk_bytes v))"
    using lv ow blob_of_result [OF assms] by (cases "live_key s k") (simp_all add: vault_key_def ev)
  show "key_kind s k = (case live_key s k of None \<Rightarrow> Err KeyNotFound | Some v \<Rightarrow> Ok (vk_kind v))"
    using lv ow by (cases "live_key s k") (simp_all add: key_kind_def ev)
  show "key_session s k = (case live_key s k of None \<Rightarrow> Err KeyNotFound | Some v \<Rightarrow> Ok (vk_session v))"
    using lv ow by (cases "live_key s k") (simp_all add: key_session_def ev)
  show "key_session_binding s k = (case live_key s k of None \<Rightarrow> Err KeyNotFound | Some v \<Rightarrow> Ok (vk_session v))"
    using lv ow by (cases "live_key s k") (simp_all add: key_session_binding_def ev)
  show "key_attrs s k = (case live_key s k of None \<Rightarrow> Err KeyNotFound | Some v \<Rightarrow> Ok (vk_attrs v))"
    using lv ow read_attrs_result [OF assms] by (cases "live_key s k") (simp_all add: key_attrs_def ev)
qed

section \<open>Eviction\<close>

lemma zeroize_region_result:
  assumes "gdma_scrubbing g" "off + n \<le> length blob"
  shows "zeroize_region g t off n blob = (Ok (), splice_at off (replicate n 0) blob)"
  using assms(2) gdma_scrubbing.zeroize_result [OF assms(1)]
  by (simp add: zeroize_region_def)

lemma evict_result:
  assumes "gdma_scrubbing g" "vault_wf s" "t < TABLE_COUNT" "present (tables s ! t) slot"
    and e: "e = vt_entries (tables s ! t) ! slot"
  obtains n where "tb_len (tables s ! t) e = Ok n"
    "evict g t slot e s = (Ok (), upd_table t (tb_evict slot e n) s)"
proof -
  note wf = vault_wfD [OF assms(2,3)]
  note wfd = table_wfD [OF wf(1)]
  have slot: "slot < ENTRIES_PER_TABLE" using assms(4) by (simp add: present_def)
  from wfd(4) [OF assms(4)] e obtain n where n: "tb_len (tables s ! t) e = Ok n"
    "run_len n * 8 = storage_bytes (of_nat n)" "attrs_byte_offset e = unat (entry_block_offset e) * 8"
    "unat (entry_block_offset e) + run_len n \<le> BLOB_BLOCKS"
    by (auto elim: entry_wfE)
  have z: "zeroize_region g t (attrs_byte_offset e) (storage_bytes (of_nat n)) (vt_blob (tables s ! t)) =
      (Ok (), splice_at (attrs_byte_offset e) (replicate (run_len n * 8) 0) (vt_blob (tables s ! t)))"
    using n wfd(2) by (subst zeroize_region_result [OF assms(1)]) (simp_all add: block_bounds)
  have "evict g t slot e s = (Ok (), upd_table t (tb_evict slot e n) s)"
    using assms(3) slot wf(2) n z
    by (simp add: evict_def resolved_len_eq bindS_def blob_mut_def bitmap_mut_def entry_mut_def
        run_len_def [symmetric])
      (rule upd_table_cong, cases "tables s ! t", simp add: tb_evict_def)
  with n that show thesis by blast
qed

lemma evict_correct:
  assumes "gdma_scrubbing g" "vault_wf s" "t < TABLE_COUNT" "present (tables s ! t) slot"
    and e: "e = vt_entries (tables s ! t) ! slot"
  obtains s' where "evict g t slot e s = (Ok (), s')" "vault_wf s'"
    "vault_clean s \<Longrightarrow> vault_clean s'" "res_mask s' = res_mask s"
    "vault_abs s' = (vault_abs s)(make_key_id t slot := None)"
    "\<And>t' i. (t', i) \<noteq> (t, slot) \<Longrightarrow> t' < TABLE_COUNT \<Longrightarrow> i < ENTRIES_PER_TABLE \<Longrightarrow>
      vt_entries (tables s' ! t') ! i = vt_entries (tables s ! t') ! i"
    "vt_entries (tables s' ! t) ! slot = 0"
proof -
  obtain n where n: "tb_len (tables s ! t) e = Ok n"
    and ev: "evict g t slot e s = (Ok (), upd_table t (tb_evict slot e n) s)"
    by (rule evict_result [OF assms])
  note wf = vault_wfD [OF assms(2,3)]
  note tb = tb_evict_wf [OF wf(1) assms(4) e n]
  have slot: "slot < ENTRIES_PER_TABLE" using assms(4) by (simp add: present_def)
  show thesis
  proof (rule that [OF ev])
    show "vault_wf (upd_table t (tb_evict slot e n) s)"
      using vault_wf_upd [OF assms(2,3)] tb(1) by simp
    show "vault_clean s \<Longrightarrow> vault_clean (upd_table t (tb_evict slot e n) s)"
      using vault_clean_upd [OF assms(2) _ assms(3)] tb(4) assms(3) by (simp add: vault_clean_def)
    show "vault_abs (upd_table t (tb_evict slot e n) s) = (vault_abs s)(make_key_id t slot := None)"
      using vault_abs_upd [OF assms(2,3) slot, of "tb_evict slot e n"] tb(2,3) by simp
    show "vt_entries (tables (upd_table t (tb_evict slot e n) s) ! t') ! i = vt_entries (tables s ! t') ! i"
      if "(t', i) \<noteq> (t, slot)" for t' i
      using that wf(2) assms(3) by (cases "t' = t") simp_all
    show "vt_entries (tables (upd_table t (tb_evict slot e n) s) ! t) ! slot = 0"
      using wf(2) assms(3) slot table_wfD(1) [OF wf(1)] by simp
  qed simp
qed

lemma evict_sem:
  assumes "gdma_scrubbing g" "vault_wf s" "t < TABLE_COUNT" "present (tables s ! t) slot"
  shows "\<exists>s'. evict g t slot (vt_entries (tables s ! t) ! slot) s = (Ok (), s') \<and> vault_wf s' \<and>
    (vault_clean s \<longrightarrow> vault_clean s') \<and> res_mask s' = res_mask s \<and>
    vault_abs s' = (vault_abs s)(make_key_id t slot := None)"
  by (rule evict_correct [OF assms refl]) blast

section \<open>Sweeps\<close>

lemma set_all_slots:
  "set (all_slots s) = {(t, i). is_valid_table s t \<and> i < ENTRIES_PER_TABLE}"
proof -
  have "\<exists>x\<in>{0..<TABLE_COUNT} \<inter> Collect (is_valid_table s). (t, i) \<in> Pair x ` {0..<ENTRIES_PER_TABLE}"
    if "is_valid_table s t" "i < ENTRIES_PER_TABLE" for t i
    using that is_valid_table_less [OF that(1)] by (intro bexI [of _ t]) auto
  then show ?thesis by (auto simp: all_slots_def split: if_splits)
qed

lemma evict_where_correct:
  assumes "gdma_scrubbing g" "vault_wf s" "\<And>e. P e \<Longrightarrow> \<not> entry_is_free e"
    and "\<forall>(t, i) \<in> set slots. t < TABLE_COUNT \<and> i < ENTRIES_PER_TABLE"
  shows "\<exists>s'. evict_where g P slots s = (Ok (), s') \<and> vault_wf s' \<and>
    (vault_clean s \<longrightarrow> vault_clean s') \<and> res_mask s' = res_mask s \<and>
    (\<forall>k. vault_abs s' k = (let (t, i) = split_key_id k in
      if (t, i) \<in> set slots \<and> P (vt_entries (tables s ! t) ! i) then None else vault_abs s k))"
  using assms(2,4)
proof (induction slots arbitrary: s)
  case Nil
  then show ?case by (auto split: prod.splits)
next
  case (Cons x slots)
  obtain t i where x: "x = (t, i)" by fastforce
  with Cons.prems have t: "t < TABLE_COUNT" "i < ENTRIES_PER_TABLE" by auto
  let ?e = "vt_entries (tables s ! t) ! i"
  show ?case
  proof (cases "P ?e")
    case False
    then have "evict_where g P (x # slots) s = evict_where g P slots s"
      using x t by (simp add: storage_entry_eq bindS_def)
    moreover have "(let (t', i') = split_key_id k in
        if (t', i') \<in> set (x # slots) \<and> P (vt_entries (tables s ! t') ! i') then None else vault_abs s k) =
      (let (t', i') = split_key_id k in
        if (t', i') \<in> set slots \<and> P (vt_entries (tables s ! t') ! i') then None else vault_abs s k)" for k
      using False x by (auto split: prod.splits)
    ultimately show ?thesis using Cons.IH [OF Cons.prems(1)] Cons.prems(2) by simp
  next
    case True
    with t assms(3) have pr: "present (tables s ! t) i" by (simp add: present_def)
    obtain s1 where s1: "evict g t i ?e s = (Ok (), s1)" "vault_wf s1"
      "vault_clean s \<Longrightarrow> vault_clean s1" "res_mask s1 = res_mask s"
      "vault_abs s1 = (vault_abs s)(make_key_id t i := None)"
      "\<And>t' i'. (t', i') \<noteq> (t, i) \<Longrightarrow> t' < TABLE_COUNT \<Longrightarrow> i' < ENTRIES_PER_TABLE \<Longrightarrow>
        vt_entries (tables s1 ! t') ! i' = vt_entries (tables s ! t') ! i'"
      "vt_entries (tables s1 ! t) ! i = 0"
      using evict_correct [OF assms(1) Cons.prems(1) t(1) pr refl] by blast
    have run: "evict_where g P (x # slots) s = evict_where g P slots s1"
      using x t True s1(1) by (simp add: storage_entry_eq bindS_def)
    have nP: "\<not> P 0" using assms(3) [of 0] by auto
    have "(let (t', i') = split_key_id k in
        if (t', i') \<in> set slots \<and> P (vt_entries (tables s1 ! t') ! i') then None else vault_abs s1 k) =
      (let (t', i') = split_key_id k in
        if (t', i') \<in> set (x # slots) \<and> P (vt_entries (tables s ! t') ! i') then None else vault_abs s k)" for k
    proof -
      obtain t' i' where k: "split_key_id k = (t', i')" by fastforce
      show ?thesis
      proof (cases "(t', i') = (t, i)")
        case True
        then have "k = make_key_id t i" using make_split_key_id [OF k] by simp
        with True k x \<open>P ?e\<close> s1(5,7) nP show ?thesis by simp
      next
        case False
        then have "k \<noteq> make_key_id t i" using k t by auto
        moreover have "(t', i') \<in> set slots \<Longrightarrow>
            vt_entries (tables s1 ! t') ! i' = vt_entries (tables s ! t') ! i'"
          using s1(6) [OF False] Cons.prems(2) by auto
        ultimately show ?thesis using False k x s1(5) by auto
      qed
    qed
    note eq = this
    have "\<forall>(t, i) \<in> set slots. t < TABLE_COUNT \<and> i < ENTRIES_PER_TABLE" using Cons.prems(2) by simp
    from Cons.IH [OF s1(2) this] obtain s2 where s2: "evict_where g P slots s1 = (Ok (), s2)"
      "vault_wf s2" "vault_clean s1 \<longrightarrow> vault_clean s2" "res_mask s2 = res_mask s1"
      "\<And>k. vault_abs s2 k = (let (t, i) = split_key_id k in
        if (t, i) \<in> set slots \<and> P (vt_entries (tables s1 ! t) ! i) then None else vault_abs s1 k)"
      by (elim exE conjE) simp
    show ?thesis
    proof (intro exI [of _ s2] conjI allI)
      fix k show "vault_abs s2 k = (let (t, i) = split_key_id k in
        if (t, i) \<in> set (x # slots) \<and> P (vt_entries (tables s ! t) ! i) then None else vault_abs s k)"
        by (rule trans [OF s2(5) eq])
    qed (use run s1(3,4) s2(1-4) in simp_all)
  qed
qed

section \<open>Staging\<close>

lemma free_slot_Some:
  assumes "free_slot s t = Some i" "t < TABLE_COUNT"
  shows "i < ENTRIES_PER_TABLE" "\<not> present (tables s ! t) i"
  using find_SomeD [OF assms(1) [unfolded free_slot_def]] assms(2)
  by (auto simp: storage_entry_def present_def split: run.splits if_splits)

lemma free_slot_None:
  "t < TABLE_COUNT \<Longrightarrow> free_slot s t = None \<longleftrightarrow> (\<forall>i < ENTRIES_PER_TABLE. present (tables s ! t) i)"
  by (auto simp: free_slot_def find_None storage_entry_def present_def)

text \<open>A table can take a run of \<open>need\<close> blocks: it is owned, has a free slot and a free run.\<close>

definition stageable :: "VaultStorage \<Rightarrow> nat \<Rightarrow> nat \<Rightarrow> bool" where
  "stageable s need t \<longleftrightarrow> is_valid_table s t \<and> (\<exists>i < ENTRIES_PER_TABLE. \<not> present (tables s ! t) i) \<and>
     (\<exists>b. free_run (vt_bitmap (tables s ! t)) b need)"

text \<open>A table that has a free slot and enough free blocks, but not in one run.\<close>

definition fragmented :: "VaultStorage \<Rightarrow> nat \<Rightarrow> nat \<Rightarrow> bool" where
  "fragmented s need t \<longleftrightarrow> is_valid_table s t \<and> (\<exists>i < ENTRIES_PER_TABLE. \<not> present (tables s ! t) i) \<and>
     \<not> (\<exists>b. free_run (vt_bitmap (tables s ! t)) b need) \<and>
     need \<le> free_count (vt_bitmap (tables s ! t)) BLOB_BLOCKS"

lemma bitmap_mut_alloc_fail:
  assumes "tables_shape s" "t < TABLE_COUNT" "fst (alloc (vt_bitmap (tables s ! t)) need) = Err x"
  shows "bitmap_mut t (\<lambda>m. alloc m need) s = (Err x, s)"
proof -
  have "alloc (vt_bitmap (tables s ! t)) need = (Err x, vt_bitmap (tables s ! t))"
    using assms(3) alloc_fail by (metis prod.collapse)
  then show ?thesis
    using assms by (simp add: bitmap_mut_def upd_table_id)
qed

lemma stage_in_tables_result:
  assumes "vault_wf s" "0 < need" "4 \<le> need" "attributes_wf a" "\<forall>t \<in> set ts. t < TABLE_COUNT"
  shows "(\<exists>pre t post slot start m. ts = pre @ t # post \<and> (\<forall>t' \<in> set pre. \<not> stageable s need t') \<and>
      stageable s need t \<and> free_slot s t = Some slot \<and>
      alloc (vt_bitmap (tables s ! t)) need = (Ok start, m) \<and>
      stage_in_tables mk a need ts saw s = (Ok (t, slot, start),
        upd_table t (tb_stage slot (mk start (vt_entries (tables s ! t) ! slot)) start m a) s)) \<or>
    ((\<forall>t \<in> set ts. \<not> stageable s need t) \<and>
      stage_in_tables mk a need ts saw s =
        (Err (if saw \<or> (\<exists>t \<in> set ts. fragmented s need t) then DefragmentationNeeded else NotEnoughSpace), s))"
  using assms(5)
proof (induction ts arbitrary: saw)
  case Nil
  then show ?case by simp
next
  case (Cons t ts)
  then have t: "t < TABLE_COUNT" by simp
  note wf = vault_wfD [OF assms(1) t]
  have skip: ?case
    if st: "\<not> stageable s need t" and ev: "stage_in_tables mk a need (t # ts) saw s =
      stage_in_tables mk a need ts (saw \<or> fragmented s need t) s"
  proof -
    have "\<forall>t \<in> set ts. t < TABLE_COUNT" using Cons.prems by simp
    from Cons.IH [OF this, of "saw \<or> fragmented s need t"] show ?thesis
    proof (elim disjE exE conjE)
      fix pre t1 post slot start m
      assume *: "ts = pre @ t1 # post" "\<forall>t' \<in> set pre. \<not> stageable s need t'" "stageable s need t1"
        "free_slot s t1 = Some slot" "alloc (vt_bitmap (tables s ! t1)) need = (Ok start, m)"
        "stage_in_tables mk a need ts (saw \<or> fragmented s need t) s = (Ok (t1, slot, start),
          upd_table t1 (tb_stage slot (mk start (vt_entries (tables s ! t1) ! slot)) start m a) s)"
      show ?thesis
        by (rule disjI1, rule exI [of _ "t # pre"], rule exI [of _ t1], rule exI [of _ post],
            rule exI [of _ slot], rule exI [of _ start], rule exI [of _ m])
          (use * st ev in simp)
    qed (use st ev in auto)
  qed
  show ?case
  proof (cases "is_valid_table s t \<and> (\<exists>i < ENTRIES_PER_TABLE. \<not> present (tables s ! t) i)")
    case False
    then have "\<not> stageable s need t" "\<not> fragmented s need t"
      by (auto simp: stageable_def fragmented_def)
    moreover have "stage_in_tables mk a need (t # ts) saw s = stage_in_tables mk a need ts saw s"
      using False free_slot_None [OF t, of s] by auto
    ultimately show ?thesis using skip by simp
  next
    case True
    then obtain slot where slot: "free_slot s t = Some slot"
      using free_slot_None [OF t, of s] by (cases "free_slot s t") auto
    obtain r m where al: "alloc (vt_bitmap (tables s ! t)) need = (r, m)" by fastforce
    note res = alloc_result [of "vt_bitmap (tables s ! t)" need]
    show ?thesis
    proof (cases "\<exists>b. free_run (vt_bitmap (tables s ! t)) b need")
      case False
      with res assms(2) have r: "fst (alloc (vt_bitmap (tables s ! t)) need) =
        Err (if need \<le> free_count (vt_bitmap (tables s ! t)) BLOB_BLOCKS then DefragmentationNeeded
             else NotEnoughSpace)" by auto
      then have bm: "bitmap_mut t (\<lambda>m. alloc m need) s = (Err (if fragmented s need t then DefragmentationNeeded
             else NotEnoughSpace), s)"
        using bitmap_mut_alloc_fail [OF wf(2) t r] True False by (auto simp: fragmented_def)
      show ?thesis
        by (rule skip) (use False True slot bm in \<open>auto simp: stageable_def\<close>)
    next
      case run: True
      with res assms(2) al obtain start where r: "r = Ok start" by auto
      with True run have st: "stageable s need t" by (simp add: stageable_def)
      have le: "unat start + need \<le> BLOB_BLOCKS"
        using alloc_Ok(2) table_wfD(3) [OF wf(1)] al r by blast
      have "stage_in_tables mk a need (t # ts) saw s = (Ok (t, slot, start),
          upd_table t (tb_stage slot (mk start (vt_entries (tables s ! t) ! slot)) start m a) s)"
        using True slot al r t wf(2) free_slot_Some [OF slot t] table_wfD(2) [OF wf(1)] le assms(3,4)
        by (simp add: bitmap_mut_def bindS_def entry_mut_def write_attrs_def blob_mut_def block_bounds
            Let_def)
          (rule upd_table_cong, cases "tables s ! t", simp add: tb_stage_def block_bounds)
      with st slot al r show ?thesis by (intro disjI1) fastforce
    qed
  qed
qed

end
