(* ===== verification/KeyVaultOps.thy ===== *)
theory KeyVaultOps
  imports KeyVaultCorrect
begin

text \<open>
  The public operations of the vault: creation (GDMA and CPU), deletion, the session and partition
  sweeps, disabling and enabling.
\<close>

section \<open>Creation\<close>

definition new_key :: "u8 \<Rightarrow> HsmVaultKeyKind \<Rightarrow> u16 option \<Rightarrow> u64 \<Rightarrow> u8 list \<Rightarrow> vkey" where
  "new_key app kd sess at bs =
     \<lparr>vk_kind = kd, vk_app = app, vk_session = sess, vk_disabled = False, vk_attrs = at, vk_bytes = bs\<rparr>"

lemma stage_entry_simps [simp]:
  "entry_kind (stage_entry app kd sess start e) = kd"
  "entry_app_id (stage_entry app kd sess start e) = app"
  "entry_block_offset (stage_entry app kd sess start e) = start"
  "entry_disabled (stage_entry app kd sess start e) = False"
  "session_binding (stage_entry app kd sess start e) = sess"
  by (cases sess; simp add: stage_entry_def session_binding_def)+

definition staged ::
  "VaultStorage \<Rightarrow> VaultStorage \<Rightarrow> nat \<Rightarrow> nat \<Rightarrow> u16 \<Rightarrow> nat \<Rightarrow> vkey \<Rightarrow> bool" where
  "staged s s1 t slot start n v \<longleftrightarrow>
     is_valid_table s t \<and> slot < ENTRIES_PER_TABLE \<and> \<not> present (tables s ! t) slot \<and>
     vault_wf s1 \<and> (vault_clean s \<longrightarrow> vault_clean s1) \<and> res_mask s1 = res_mask s \<and>
     present (tables s1 ! t) slot \<and>
     entry_block_offset (vt_entries (tables s1 ! t) ! slot) = start \<and>
     tb_len (tables s1 ! t) (vt_entries (tables s1 ! t) ! slot) = Ok n \<and>
     (entry_view (tables s1 ! t) (vt_entries (tables s1 ! t) ! slot))\<lparr>vk_bytes := vk_bytes v\<rparr> = v \<and>
     vault_abs s1 = (vault_abs s)(make_key_id t slot \<mapsto>
       entry_view (tables s1 ! t) (vt_entries (tables s1 ! t) ! slot))"

lemma staged_tb_stage:
  assumes wf: "vault_wf s" and t: "is_valid_table s t" and slot: "slot < ENTRIES_PER_TABLE"
    "\<not> present (tables s ! t) slot"
    and spec: "key_len kd = Ok spec" "check spec n = Ok p"
    and al: "alloc (vt_bitmap (tables s ! t)) (run_len n) = (Ok start, m)"
    and s1: "s1 = upd_table t (tb_stage slot (stage_entry app kd sess start (vt_entries (tables s ! t) ! slot))
      start m (stage_attrs spec at p)) s"
  shows "staged s s1 t slot start n (new_key app kd sess at bs)"
proof -
  have tc: "t < TABLE_COUNT" using is_valid_table_less [OF t] .
  let ?T = "tables s ! t" and ?e = "stage_entry app kd sess start (vt_entries (tables s ! t) ! slot)"
  let ?f = "tb_stage slot ?e start m (stage_attrs spec at p)"
  note wf' = vault_wfD [OF wf tc]
  have ek: "entry_kind ?e = kd" "entry_block_offset ?e = start" by simp_all
  note st = tb_stage_wf [OF wf'(1) slot spec al ek refl, where at = at]
  have T1: "tables s1 ! t = ?f ?T" using s1 wf'(2) tc by simp
  have "vault_abs s1 = (vault_abs s)(make_key_id t slot := slot_view (?f ?T) slot)"
    unfolding s1 by (rule vault_abs_upd [OF wf tc slot(1)]) (rule st(2))
  then have "vault_abs s1 = (vault_abs s)(make_key_id t slot \<mapsto> entry_view (?f ?T) ?e)"
    using st(6,7) by (simp add: slot_view_def)
  moreover have "vault_wf s1" unfolding s1 by (rule vault_wf_upd [OF wf tc]) (rule st(1))
  moreover have "vault_clean s \<longrightarrow> vault_clean s1"
    unfolding s1 using vault_clean_upd [OF wf _ tc] st(5) tc by (simp add: vault_clean_def)
  moreover have "(entry_view (?f ?T) ?e)\<lparr>vk_bytes := bs\<rparr> = new_key app kd sess at bs"
    using st(4) by (simp add: new_key_def entry_view_def)
  ultimately show ?thesis
    using t slot st(3,6,7) unfolding staged_def T1 by (simp add: s1 new_key_def)
qed

lemma run_len_of_check:
  assumes "key_len kd = Ok spec" "check spec n = Ok p"
  shows "blocks_for (storage_bytes p) = run_len n" "0 < run_len n" "4 \<le> run_len n"
proof -
  note b = check_Ok [OF assms(2) key_len_Ok(2) [OF assms(1)]]
  then show "0 < run_len n" "4 \<le> run_len n" using run_len_ge [of n] by simp_all
  show "blocks_for (storage_bytes p) = run_len n"
    using b(1) by (auto simp: run_len_def)
qed

text \<open>Staging either finds the first table with a free slot and run, or leaves the vault alone.\<close>

lemma stage_key_slot_result:
  assumes wf: "vault_wf s" and spec: "key_len kd = Ok spec" "check spec n = Ok p"
  shows "if \<exists>t. stageable s (run_len n) t
    then \<exists>t slot start s1. stage_key_slot app kd sess at n s = (Ok (t, slot, start), s1) \<and>
      t = (LEAST t. stageable s (run_len n) t) \<and> stageable s (run_len n) t \<and>
      free_slot s t = Some slot \<and> (\<forall>bs. staged s s1 t slot start n (new_key app kd sess at bs))
    else stage_key_slot app kd sess at n s =
      (Err (if \<exists>t. fragmented s (run_len n) t then DefragmentationNeeded else NotEnoughSpace), s)"
proof -
  note rl = run_len_of_check [OF spec]
  let ?ts = "[0..<TABLE_COUNT]"
  have ev: "stage_key_slot app kd sess at n s =
      stage_in_tables (stage_entry app kd sess) (stage_attrs spec at p) (run_len n) ?ts False s"
    using spec rl by (simp add: stage_key_slot_def bindS_def Let_def)
  have bnd: "stageable s (run_len n) t \<or> fragmented s (run_len n) t \<Longrightarrow> t \<in> set ?ts" for t
    using is_valid_table_less by (auto simp: stageable_def fragmented_def)
  have "\<forall>t \<in> set ?ts. t < TABLE_COUNT" by simp
  from stage_in_tables_result [OF wf rl(2,3) stage_attrs_wf [of spec at p] this,
      where mk = "stage_entry app kd sess" and saw = False] show ?thesis
  proof (elim disjE exE conjE)
    fix pre t post slot start m
    assume ts: "?ts = pre @ t # post" and pre: "\<forall>t' \<in> set pre. \<not> stageable s (run_len n) t'"
      and st: "stageable s (run_len n) t" and slot: "free_slot s t = Some slot"
      and al: "alloc (vt_bitmap (tables s ! t)) (run_len n) = (Ok start, m)"
      and run: "stage_in_tables (stage_entry app kd sess) (stage_attrs spec at p) (run_len n) ?ts False s =
        (Ok (t, slot, start), upd_table t (tb_stage slot
          (stage_entry app kd sess start (vt_entries (tables s ! t) ! slot)) start m (stage_attrs spec at p)) s)"
    have t: "is_valid_table s t" using st by (simp add: stageable_def)
    have min: "stageable s (run_len n) u \<Longrightarrow> t \<le> u" for u
    proof (rule ccontr)
      assume u: "stageable s (run_len n) u" "\<not> t \<le> u"
      have "sorted (pre @ t # post)" by (metis ts sorted_upt)
      then have "\<forall>x \<in> set post. t \<le> x" by (simp add: sorted_append)
      moreover have "u \<in> set (pre @ t # post)" using bnd u(1) ts by metis
      ultimately show False using u pre by auto
    qed
    then have "t = (LEAST t. stageable s (run_len n) t)"
      using st by (intro Least_equality [symmetric])
    moreover have "staged s (upd_table t (tb_stage slot
          (stage_entry app kd sess start (vt_entries (tables s ! t) ! slot)) start m (stage_attrs spec at p)) s)
        t slot start n (new_key app kd sess at bs)" for bs
      using free_slot_Some [OF slot is_valid_table_less [OF t]]
      by (intro staged_tb_stage [OF wf t _ _ spec al refl]) simp_all
    ultimately show ?thesis using st ev run slot by auto
  next
    assume no: "\<forall>t \<in> set ?ts. \<not> stageable s (run_len n) t"
      and run: "stage_in_tables (stage_entry app kd sess) (stage_attrs spec at p) (run_len n) ?ts False s =
        (Err (if False \<or> (\<exists>t \<in> set ?ts. fragmented s (run_len n) t) then DefragmentationNeeded
          else NotEnoughSpace), s)"
    have "\<not> (\<exists>t. stageable s (run_len n) t)" using no bnd by blast
    moreover have "(\<exists>t \<in> set ?ts. fragmented s (run_len n) t) \<longleftrightarrow> (\<exists>t. fragmented s (run_len n) t)"
      using bnd by blast
    ultimately show ?thesis using run ev by simp
  qed
qed

text \<open>Before it looks at the tables, staging rejects a kind or a length outside the contract.\<close>

lemma stage_key_slot_reject:
  "key_len kd = Err e \<Longrightarrow> stage_key_slot app kd sess at n s = (Err e, s)"
  "key_len kd = Ok spec \<Longrightarrow> check spec n = Err e \<Longrightarrow> stage_key_slot app kd sess at n s = (Err e, s)"
  by (simp_all add: stage_key_slot_def bindS_def)

lemma stage_cases:
  assumes wf: "vault_wf s"
  obtains (err) e where "stage_key_slot app kd sess at n s = (Err e, s)"
  | (ok) t slot start s1 where "stage_key_slot app kd sess at n s = (Ok (t, slot, start), s1)"
      "\<And>bs. staged s s1 t slot start n (new_key app kd sess at bs)"
proof -
  consider (k) e where "key_len kd = Err e" | (c) spec e where "key_len kd = Ok spec" "check spec n = Err e"
    | (s) spec p where "key_len kd = Ok spec" "check spec n = Ok p"
    by (metis key_len_not_Panic check_not_Panic run.exhaust)
  then show thesis
  proof cases
    case k then show ?thesis using err stage_key_slot_reject(1) by blast
  next
    case c then show ?thesis using err stage_key_slot_reject(2) by blast
  next
    case s
    from stage_key_slot_result [OF wf s, of app sess at] show ?thesis
      using err ok by (auto split: if_splits)
  qed
qed

section \<open>Writing the key of a staged entry\<close>

lemma staged_write:
  assumes st: "staged s s1 t slot start n v" and bs: "length bs = n"
    and s2: "s2 = upd_table t (tb_write (unat start * BLOCK_ALIGNMENT + ATTRIBUTES_BLOB_SIZE) bs) s1"
  shows "vault_wf s2" "vault_clean s \<Longrightarrow> vault_clean s2" "res_mask s2 = res_mask s"
    "vault_abs s2 = (vault_abs s)(make_key_id t slot \<mapsto> v\<lparr>vk_bytes := bs\<rparr>)"
    "present (tables s2 ! t) slot" "is_valid_table s t" "vault_abs s (make_key_id t slot) = None"
proof -
  let ?e = "vt_entries (tables s1 ! t) ! slot"
  from st have d: "is_valid_table s t" "slot < ENTRIES_PER_TABLE" "\<not> present (tables s ! t) slot"
    "vault_wf s1" "vault_clean s \<longrightarrow> vault_clean s1" "res_mask s1 = res_mask s"
    "present (tables s1 ! t) slot" "entry_block_offset ?e = start" "tb_len (tables s1 ! t) ?e = Ok n"
    "(entry_view (tables s1 ! t) ?e)\<lparr>vk_bytes := vk_bytes v\<rparr> = v"
    "vault_abs s1 = (vault_abs s)(make_key_id t slot \<mapsto> entry_view (tables s1 ! t) ?e)"
    by (simp_all add: staged_def)
  have tc: "t < TABLE_COUNT" using is_valid_table_less [OF d(1)] .
  note wf = vault_wfD [OF d(4) tc]
  have off: "unat start * BLOCK_ALIGNMENT = attrs_byte_offset ?e"
    using d(8) by (simp add: attrs_byte_offset_def)
  note w = tb_write_own [OF wf(1) d(7) refl d(9) bs refl]
  show "vault_wf s2" unfolding s2 off by (rule vault_wf_upd [OF d(4) tc]) (rule w(1))
  show "vault_clean s \<Longrightarrow> vault_clean s2"
    unfolding s2 off using vault_clean_upd [OF d(4) _ tc] w(4) d(5) tc by (simp add: vault_clean_def)
  show "res_mask s2 = res_mask s" using d(6) by (simp add: s2)
  have "(entry_view (tables s1 ! t) ?e)\<lparr>vk_bytes := bs\<rparr> =
      (entry_view (tables s1 ! t) ?e)\<lparr>vk_bytes := vk_bytes v\<rparr>\<lparr>vk_bytes := bs\<rparr>" by simp
  also have "\<dots> = v\<lparr>vk_bytes := bs\<rparr>" by (simp only: d(10))
  finally have "slot_view (tb_write (attrs_byte_offset ?e + ATTRIBUTES_BLOB_SIZE) bs (tables s1 ! t)) slot =
      Some (v\<lparr>vk_bytes := bs\<rparr>)" using w(3) by simp
  then show "vault_abs s2 = (vault_abs s)(make_key_id t slot \<mapsto> v\<lparr>vk_bytes := bs\<rparr>)"
    unfolding s2 off by (subst vault_abs_upd [OF d(4) tc d(2)]) (simp_all add: d(11) w(2))
  show "present (tables s2 ! t) slot" using d(7) wf(2) tc by (simp add: s2 present_def)
  show "is_valid_table s t" by (rule d(1))
  show "vault_abs s (make_key_id t slot) = None"
    using d(2,3) tc by (simp add: vault_abs_def slot_view_def)
qed

lemma write_key_result:
  assumes g: "gdma_controller g" and st: "staged s s1 t slot start (buf_len k) v"
  obtains r bs where "length bs = buf_len k" "r \<noteq> Panic" "r = Ok () \<Longrightarrow> bs = buf_bytes k"
    "write_key g t start k s1 =
      (r, upd_table t (tb_write (unat start * BLOCK_ALIGNMENT + ATTRIBUTES_BLOB_SIZE) bs) s1)"
proof -
  let ?e = "vt_entries (tables s1 ! t) ! slot" and ?off = "unat start * BLOCK_ALIGNMENT + ATTRIBUTES_BLOB_SIZE"
  from st have d: "is_valid_table s t" "vault_wf s1" "present (tables s1 ! t) slot"
    "entry_block_offset ?e = start" "tb_len (tables s1 ! t) ?e = Ok (buf_len k)"
    by (simp_all add: staged_def)
  have tc: "t < TABLE_COUNT" using is_valid_table_less [OF d(1)] .
  note wf = vault_wfD [OF d(2) tc]
  have le: "?off + buf_len k \<le> length (vt_blob (tables s1 ! t))"
    using location_of_result(2) [OF d(2) tc table_wfD(4) [OF wf(1) d(3)] d(5)] d(4) table_wfD(2) [OF wf(1)]
    by (simp add: attrs_byte_offset_def)
  define dst where "dst = \<lparr>buf_ptr = blob_ptr t ?off, buf_bytes = slice ?off (buf_len k) (vt_blob (tables s1 ! t))\<rparr>"
  have dl: "buf_len k = buf_len dst" using le by (simp add: dst_def)
  obtain r bs where c: "copy_mem g k dst = (r, bs)" by fastforce
  show thesis
  proof (cases "buf_len k > DMA_THRESHOLD")
    case True
    have "write_key g t start k s1 = (r, upd_table t (tb_write ?off bs) s1)"
      using True le tc c [unfolded dst_def]
      by (simp add: write_key_def blob_mut_def Let_def) (rule upd_table_cong, simp add: tb_write_def)
    then show ?thesis
      using that [of bs r] gdma_controller.copy_length [OF g dl]
        gdma_controller.copy_no_panic [OF g, of k dst] gdma_controller.copy_Ok [OF g dl] c dl by simp
  next
    case False
    then have "write_key g t start k s1 = (Ok (), upd_table t (tb_write ?off (buf_bytes k)) s1)"
      using le tc by (simp add: write_key_def blob_mut_def Let_def) (rule upd_table_cong, simp add: tb_write_def)
    then show ?thesis using that [of "buf_bytes k" "Ok ()"] by simp
  qed
qed

section \<open>Creating keys\<close>

lemma create_Ok:
  assumes "gdma_controller g" "vault_wf s" "vault_create g app k kd sess at s = (Ok kid, s')"
  shows "vault_wf s'" "vault_clean s \<Longrightarrow> vault_clean s'" "res_mask s' = res_mask s" "owned s kid"
    "vault_abs s kid = None" "vault_abs s' = (vault_abs s)(kid \<mapsto> new_key app kd sess at (buf_bytes k))"
proof -
  have "\<exists>t slot start s1. stage_key_slot app kd sess at (buf_len k) s = (Ok (t, slot, start), s1) \<and>
      staged s s1 t slot start (buf_len k) (new_key app kd sess at [])"
    by (rule stage_cases [OF assms(2), of app kd sess at "buf_len k"])
      (use assms(3) in \<open>auto simp: vault_create_def\<close>)
  then obtain t slot start s1 where st: "stage_key_slot app kd sess at (buf_len k) s = (Ok (t, slot, start), s1)"
    and staged: "staged s s1 t slot start (buf_len k) (new_key app kd sess at [])" by blast
  obtain r bs where w: "length bs = buf_len k" "r \<noteq> Panic" "r = Ok () \<Longrightarrow> bs = buf_bytes k"
    "write_key g t start k s1 =
      (r, upd_table t (tb_write (unat start * BLOCK_ALIGNMENT + ATTRIBUTES_BLOB_SIZE) bs) s1)"
    using write_key_result [OF assms(1) staged] by blast
  have r: "r = Ok ()" "kid = make_key_id t slot" "s' = upd_table t (tb_write (unat start * BLOCK_ALIGNMENT + ATTRIBUTES_BLOB_SIZE) bs) s1"
    using assms(3) st w(4) by (auto simp: vault_create_def bindS_def split: run.splits prod.splits)
  note sw = staged_write [OF staged w(1) r(3)]
  have tc: "t < TABLE_COUNT" "slot < ENTRIES_PER_TABLE"
    using is_valid_table_less [OF sw(6)] sw(5) by (simp_all add: present_def)
  show "vault_wf s'" "vault_clean s \<Longrightarrow> vault_clean s'" "res_mask s' = res_mask s"
    "vault_abs s kid = None" using sw r by simp_all
  show "owned s kid" using sw(6) r(2) tc by (simp add: owned_def)
  show "vault_abs s' = (vault_abs s)(kid \<mapsto> new_key app kd sess at (buf_bytes k))"
    using sw(4) w(3) r by (simp add: new_key_def)
qed

lemma create_no_panic_err:
  assumes g: "gdma_scrubbing g" and wf: "vault_wf s" and cr: "vault_create g app k kd sess at s = (r, s')"
  shows "r \<noteq> Panic" "r = Err e \<Longrightarrow> vault_wf s' \<and> (vault_clean s \<longrightarrow> vault_clean s') \<and>
    res_mask s' = res_mask s \<and> vault_abs s' = vault_abs s"
proof -
  have gc: "gdma_controller g" using g by (simp add: gdma_scrubbing_def)
  have "r \<noteq> Panic \<and> (r = Err e \<longrightarrow> vault_wf s' \<and> (vault_clean s \<longrightarrow> vault_clean s') \<and>
    res_mask s' = res_mask s \<and> vault_abs s' = vault_abs s)"
  proof (rule stage_cases [OF wf, of app kd sess at "buf_len k"])
    fix x assume "stage_key_slot app kd sess at (buf_len k) s = (Err x, s)"
    then show ?thesis using cr wf by (auto simp: vault_create_def bindS_def)
  next
    fix t slot start s1
    assume ok: "stage_key_slot app kd sess at (buf_len k) s = (Ok (t, slot, start), s1)"
      "\<And>bs. staged s s1 t slot start (buf_len k) (new_key app kd sess at bs)"
    note staged = ok(2) [of "[]"]
    obtain q bs where w: "length bs = buf_len k" "q \<noteq> Panic" "q = Ok () \<Longrightarrow> bs = buf_bytes k"
      "write_key g t start k s1 =
        (q, upd_table t (tb_write (unat start * BLOCK_ALIGNMENT + ATTRIBUTES_BLOB_SIZE) bs) s1)"
      using write_key_result [OF gc staged] by blast
    define s2 where "s2 = upd_table t (tb_write (unat start * BLOCK_ALIGNMENT + ATTRIBUTES_BLOB_SIZE) bs) s1"
    note sw = staged_write [OF staged w(1) s2_def]
    have tc: "t < TABLE_COUNT" "slot < ENTRIES_PER_TABLE"
      using is_valid_table_less [OF sw(6)] sw(5) by (simp_all add: present_def)
    obtain s3 where s3: "evict g t slot (vt_entries (tables s2 ! t) ! slot) s2 = (Ok (), s3)" "vault_wf s3"
      "vault_clean s2 \<longrightarrow> vault_clean s3" "res_mask s3 = res_mask s2"
      "vault_abs s3 = (vault_abs s2)(make_key_id t slot := None)"
      using evict_sem [OF g sw(1) tc(1) sw(5)] by blast
    have ev: "vault_create g app k kd sess at s =
        (case q of Ok _ \<Rightarrow> (Ok (make_key_id t slot), s2) | Err e \<Rightarrow> (Err e, s3) | Panic \<Rightarrow> (Panic, s2))"
      using ok(1) w(4) s3(1) tc
      by (cases q) (simp_all add: vault_create_def bindS_def storage_entry_eq s2_def [symmetric])
    have "vault_abs s3 = vault_abs s" using s3(5) sw(4,7) by (auto simp: fun_upd_idem_iff)
    then show ?thesis using ev cr w(2) s3 sw by (cases q) auto
  qed
  then show "r \<noteq> Panic" "r = Err e \<Longrightarrow> vault_wf s' \<and> (vault_clean s \<longrightarrow> vault_clean s') \<and>
    res_mask s' = res_mask s \<and> vault_abs s' = vault_abs s" by auto
qed

text \<open>The CPU-only creation is the GDMA one with a controller that copies in software.\<close>

lemma create_sync_eq:
  assumes "vault_wf s"
  shows "vault_create_sync app k kd sess at s = vault_create std_gdma app k kd sess at s"
proof (rule stage_cases [OF assms, of app kd sess at "buf_len k"])
  fix e assume "stage_key_slot app kd sess at (buf_len k) s = (Err e, s)"
  then show ?thesis by (simp add: vault_create_def vault_create_sync_def bindS_def)
next
  fix t slot start s1
  assume ok: "stage_key_slot app kd sess at (buf_len k) s = (Ok (t, slot, start), s1)"
    "\<And>bs. staged s s1 t slot start (buf_len k) (new_key app kd sess at bs)"
  note staged = ok(2) [of "[]"]
  have d: "is_valid_table s t" "vault_wf s1" "present (tables s1 ! t) slot"
    "entry_block_offset (vt_entries (tables s1 ! t) ! slot) = start"
    "tb_len (tables s1 ! t) (vt_entries (tables s1 ! t) ! slot) = Ok (buf_len k)"
    using staged by (simp_all add: staged_def)
  have tc: "t < TABLE_COUNT" using is_valid_table_less [OF d(1)] .
  note wf = vault_wfD [OF d(2) tc]
  have le: "unat start * BLOCK_ALIGNMENT + ATTRIBUTES_BLOB_SIZE + buf_len k \<le> length (vt_blob (tables s1 ! t))"
    using location_of_result(2) [OF d(2) tc table_wfD(4) [OF wf(1) d(3)] d(5)] d(4) table_wfD(2) [OF wf(1)]
    by (simp add: attrs_byte_offset_def)
  have "write_key std_gdma t start k s1 = blob_mut t (\<lambda>blob.
      (Ok (), splice_at (unat start * BLOCK_ALIGNMENT + ATTRIBUTES_BLOB_SIZE) (buf_bytes k) blob)) s1"
    using le tc by (simp add: write_key_def blob_mut_def Let_def std_gdma_def std_copy_mem_def splice_at_def)
  then show ?thesis
    using ok(1) le tc
    by (simp add: vault_create_def vault_create_sync_def bindS_def blob_mut_def Let_def)
qed

section \<open>Deleting\<close>

lemma delete_result:
  assumes g: "gdma_scrubbing g" and wf: "vault_wf s"
  shows "case vault_delete g k s of (r, s') \<Rightarrow>
    vault_wf s' \<and> (vault_clean s \<longrightarrow> vault_clean s') \<and> res_mask s' = res_mask s \<and>
    (if fst (split_key_id k) \<ge> TABLE_COUNT then r = Err InvalidArg \<and> s' = s
     else if vault_abs s k = None then r = Err KeyNotFound \<and> s' = s
     else r = Ok () \<and> vault_abs s' = (vault_abs s)(k := None))"
proof -
  obtain t i where k: "split_key_id k = (t, i)" by fastforce
  note i = slot_less [OF k]
  consider (big) "t \<ge> TABLE_COUNT" | (free) "t < TABLE_COUNT" "\<not> present (tables s ! t) i"
    | (pres) "t < TABLE_COUNT" "present (tables s ! t) i" by force
  then show ?thesis
  proof cases
    case big
    then show ?thesis using k wf by (simp add: vault_delete_def bindS_def storage_entry_def)
  next
    case free
    then have "vault_delete g k s = (Err KeyNotFound, s)" "vault_abs s k = None"
      using k i by (simp_all add: vault_delete_def bindS_def storage_entry_eq present_def
          vault_abs_def slot_view_def)
    then show ?thesis using k wf free by simp
  next
    case pres
    obtain s' where s': "evict g t i (vt_entries (tables s ! t) ! i) s = (Ok (), s')" "vault_wf s'"
      "vault_clean s \<longrightarrow> vault_clean s'" "res_mask s' = res_mask s"
      "vault_abs s' = (vault_abs s)(make_key_id t i := None)"
      using evict_sem [OF g wf pres] by blast
    have "vault_delete g k s = (Ok (), s')"
      using k i pres s'(1) by (simp add: vault_delete_def bindS_def storage_entry_eq present_def)
    moreover have "vault_abs s k \<noteq> None"
      using pres k by (simp add: vault_abs_def slot_view_def)
    ultimately show ?thesis
      using k s' pres make_split_key_id [OF k] by simp
  qed
qed

lemma session_view:
  "split_key_id k = (t, i) \<Longrightarrow> t < TABLE_COUNT \<Longrightarrow> i < ENTRIES_PER_TABLE \<Longrightarrow>
    entry_bound_to sess (vt_entries (tables s ! t) ! i) \<longleftrightarrow>
    (\<exists>v. vault_abs s k = Some v \<and> vk_session v = Some sess)"
  by (auto simp: entry_bound_to_def vault_abs_def slot_view_def present_def session_binding_def
      split: if_splits)

definition without_keys :: "VaultStorage \<Rightarrow> (vkey \<Rightarrow> bool) \<Rightarrow> HsmKeyId \<Rightarrow> vkey option" where
  "without_keys s P k = (case vault_abs s k of
     Some v \<Rightarrow> if owned s k \<and> P v then None else Some v | None \<Rightarrow> None)"

lemma sweep_result:
  assumes g: "gdma_scrubbing g" and wf: "vault_wf s" and P: "\<And>e. P e \<Longrightarrow> \<not> entry_is_free e"
    and Q: "\<And>k t i. split_key_id k = (t, i) \<Longrightarrow> t < TABLE_COUNT \<Longrightarrow>
      P (vt_entries (tables s ! t) ! i) \<longleftrightarrow> (\<exists>v. vault_abs s k = Some v \<and> Q v)"
  shows "\<exists>s'. evict_where g P (all_slots s) s = (Ok (), s') \<and> vault_wf s' \<and>
    (vault_clean s \<longrightarrow> vault_clean s') \<and> res_mask s' = res_mask s \<and> vault_abs s' = without_keys s Q"
proof -
  have "\<forall>(t, i) \<in> set (all_slots s). t < TABLE_COUNT \<and> i < ENTRIES_PER_TABLE"
    using is_valid_table_less by (auto simp: set_all_slots)
  from evict_where_correct [OF g wf P this, simplified Let_def] obtain s' where s':
    "evict_where g P (all_slots s) s = (Ok (), s')" "vault_wf s'" "vault_clean s \<longrightarrow> vault_clean s'"
    "res_mask s' = res_mask s"
    "\<And>k. vault_abs s' k = (case split_key_id k of (t, i) \<Rightarrow>
      if (t, i) \<in> set (all_slots s) \<and> P (vt_entries (tables s ! t) ! i) then None else vault_abs s k)"
    by blast
  have "vault_abs s' k = without_keys s Q k" for k
  proof -
    obtain t i where k: "split_key_id k = (t, i)" by fastforce
    then show ?thesis
      using Q [OF k] slot_less [OF k] is_valid_table_less [of s t]
      by (cases "is_valid_table s t"; cases "vault_abs s k")
        (auto simp: s'(5) without_keys_def owned_def set_all_slots)
  qed
  with s' show ?thesis by blast
qed

section \<open>Disabling and enabling\<close>

lemma tb_set_disabled:
  assumes wf: "table_wf T" and pres: "present T slot"
    and T': "T' = vt_entries_update (\<lambda>es. es[slot := set_disabled b (es ! slot)]) T"
  shows "table_wf T'" "i \<noteq> slot \<Longrightarrow> slot_view T' i = slot_view T i" "table_clean T \<Longrightarrow> table_clean T'"
    "slot_view T' slot = Some ((entry_view T (vt_entries T ! slot))\<lparr>vk_disabled := b\<rparr>)"
proof -
  let ?e = "vt_entries T ! slot"
  note wfd = table_wfD [OF wf]
  have slot: "slot < ENTRIES_PER_TABLE" "\<not> entry_is_free ?e" using pres by (simp_all add: present_def)
  have T'': "vt_entries T' = (vt_entries T)[slot := set_disabled b ?e]" "vt_blob T' = vt_blob T"
    "vt_bitmap T' = vt_bitmap T" by (simp_all add: T')
  have len: "tb_len T' (set_disabled b ?e) = tb_len T ?e" 
    by (simp only: tb_len_def T''(2) attrs_byte_offset_set entry_get_set_other)
  then have b: "tb_blocks T' (set_disabled b ?e) = slot_blocks T slot"
    using pres by (simp only: tb_blocks_def slot_blocks_def entry_get_set_other if_True)
  obtain n where n: "tb_len T ?e = Ok n" using wfd(4) [OF pres] by (auto elim: entry_wfE)
  have "entry_wf T' (set_disabled b ?e)"
    using wfd(4) [OF pres] len by (simp add: entry_wf_def)
  note upd = table_wf_upd [OF wf slot(1) T''(1) _ this]
  have tr: "blk.tracks (vt_bitmap T') ((\<Union>i \<in> - {slot}. slot_blocks T i) \<union>
      (if entry_is_free (set_disabled b ?e) then {} else tb_blocks T' (set_disabled b ?e)))"
    unfolding b T''(3) using wfd(6) slot(2) by (subst (asm) slot_blocks_split [of T slot]) simp
  show "table_wf T'" by (rule upd(1)) (use tr b wfd(5) T'' in auto)
  show "i \<noteq> slot \<Longrightarrow> slot_view T' i = slot_view T i"
    by (rule upd(2)) (use tr b wfd(5) T'' in auto)
  have "slot_blocks T' i = slot_blocks T i" for i
  proof (cases "i = slot")
    case True
    have "slot_blocks T' slot = (if entry_is_free (set_disabled b ?e) then {} else tb_blocks T' (set_disabled b ?e))"
      by (rule upd(4)) (use tr b wfd(5) T'' in auto)
    with True b slot(2) show ?thesis by simp
  next
    case False
    then show ?thesis by (intro upd(3)) (use tr b wfd(5) T'' in auto)
  qed
  then show "table_clean T \<Longrightarrow> table_clean T'" by (simp add: table_clean_def T''(2))
  have "present T' slot" "vt_entries T' ! slot = set_disabled b ?e"
    using slot wfd(1) T''(1) by (simp_all add: present_def)
  then show "slot_view T' slot = Some ((entry_view T ?e)\<lparr>vk_disabled := b\<rparr>)"
    using len n by (simp add: slot_view_def entry_view_def T''(2) session_binding_def)
qed

lemma set_disabled_result:
  assumes wf: "vault_wf s" and k: "split_key_id k = (t, i)" and v: "vault_abs s k = Some v"
  shows "\<exists>s'. entry_mut t i (set_disabled b) s = (Ok (), s') \<and> vault_wf s' \<and>
    (vault_clean s \<longrightarrow> vault_clean s') \<and> res_mask s' = res_mask s \<and>
    vault_abs s' = (vault_abs s)(k \<mapsto> v\<lparr>vk_disabled := b\<rparr>)"
proof -
  let ?f = "vt_entries_update (\<lambda>es. es[i := set_disabled b (es ! i)])"
  have tc: "t < TABLE_COUNT" "present (tables s ! t) i"
    and ve: "v = entry_view (tables s ! t) (vt_entries (tables s ! t) ! i)"
    using v k by (auto simp: vault_abs_def slot_view_def split: if_splits)
  note i = slot_less [OF k]
  note tb = tb_set_disabled [OF vault_wfD(1) [OF wf tc(1)] tc(2) refl, where b = b]
  show ?thesis
  proof (intro exI conjI impI)
    show "entry_mut t i (set_disabled b) s = (Ok (), upd_table t ?f s)"
      using tc i by (simp add: entry_mut_def)
    show "vault_wf (upd_table t ?f s)"
      by (rule vault_wf_upd [OF wf tc(1)]) (rule tb(1))
    show "vault_clean s \<Longrightarrow> vault_clean (upd_table t ?f s)"
      using tc(1) tb(3) by (intro vault_clean_upd [OF wf _ tc(1)]) (simp_all add: vault_clean_def)
    show "vault_abs (upd_table t ?f s) = (vault_abs s)(k \<mapsto> v\<lparr>vk_disabled := b\<rparr>)"
      using tb(2,4) make_split_key_id [OF k] ve
      by (subst vault_abs_upd [OF wf tc(1) i]) simp_all
  qed simp
qed

lemma disable_result:
  assumes wf: "vault_wf s"
  shows "case vault_disable k s of (r, s') \<Rightarrow>
    vault_wf s' \<and> (vault_clean s \<longrightarrow> vault_clean s') \<and> res_mask s' = res_mask s \<and>
    (case live_key s k of
       None \<Rightarrow> r = Err KeyNotFound \<and> s' = s
     | Some v \<Rightarrow> r = Ok () \<and> vault_abs s' = (vault_abs s)(k \<mapsto> v\<lparr>vk_disabled := True\<rparr>))"
proof (cases "live_key s k")
  case None
  obtain t i where k: "split_key_id k = (t, i)" by fastforce
  have "vault_disable k s = (Err KeyNotFound, s)"
    using k vault_entry_result [OF k, of s] None by (simp add: vault_disable_def bindS_def)
  then show ?thesis using None wf by simp
next
  case (Some v)
  obtain t i where k: "split_key_id k = (t, i)" by fastforce
  have "vault_abs s k = Some v"
    using Some by (auto simp: live_key_def owned_key_def split: option.splits if_splits)
  from set_disabled_result [OF wf k this, of True] obtain s' where
    s': "entry_mut t i (set_disabled True) s = (Ok (), s')" "vault_wf s'"
    "vault_clean s \<longrightarrow> vault_clean s'" "res_mask s' = res_mask s"
    "vault_abs s' = (vault_abs s)(k \<mapsto> v\<lparr>vk_disabled := True\<rparr>)" by blast
  have "vault_disable k s = (Ok (), s')"
    using k s'(1) vault_entry_result [OF k, of s] Some by (simp add: vault_disable_def bindS_def)
  then show ?thesis using s' Some by simp
qed

lemma enable_result:
  assumes wf: "vault_wf s"
  shows "case vault_enable k s of (r, s') \<Rightarrow>
    vault_wf s' \<and> (vault_clean s \<longrightarrow> vault_clean s') \<and> res_mask s' = res_mask s \<and>
    (if fst (split_key_id k) \<ge> TABLE_COUNT then r = Err InvalidArg \<and> s' = s
     else case vault_abs s k of
       None \<Rightarrow> r = Err KeyNotFound \<and> s' = s
     | Some v \<Rightarrow> r = Ok () \<and> vault_abs s' = (vault_abs s)(k \<mapsto> v\<lparr>vk_disabled := False\<rparr>))"
proof -
  obtain t i where k: "split_key_id k = (t, i)" by fastforce
  note i = slot_less [OF k]
  show ?thesis
  proof (cases "vault_abs s k")
    case None
    then show ?thesis
      using k i wf by (auto simp: vault_enable_def bindS_def storage_entry_def vault_abs_def
          slot_view_def present_def split: if_splits)
  next
    case (Some v)
    have tc: "t < TABLE_COUNT" "present (tables s ! t) i"
      using Some k by (auto simp: vault_abs_def slot_view_def split: if_splits)
    from set_disabled_result [OF wf k Some, of False] obtain s' where
      s': "entry_mut t i (set_disabled False) s = (Ok (), s')" "vault_wf s'"
      "vault_clean s \<longrightarrow> vault_clean s'" "res_mask s' = res_mask s"
      "vault_abs s' = (vault_abs s)(k \<mapsto> v\<lparr>vk_disabled := False\<rparr>)" by blast
    have "vault_enable k s = (Ok (), s')"
      using k s'(1) tc i by (simp add: vault_enable_def bindS_def storage_entry_eq present_def)
    then show ?thesis using s' Some k tc by simp
  qed
qed

section \<open>Visiting the keys of a session\<close>

fun visit_all :: "('a \<Rightarrow> 'b \<Rightarrow> 'd \<Rightarrow> ('c, unit) op) \<Rightarrow> ('a \<times> 'b \<times> 'd) list \<Rightarrow> ('c, unit) op" where
  "visit_all f [] c = (Ok (), c)"
| "visit_all f ((k, kd, bs) # xs) c = bindS (f k kd bs) (\<lambda>_. visit_all f xs) c"

definition session_keys ::
  "VaultStorage \<Rightarrow> u16 \<Rightarrow> (nat \<times> nat) list \<Rightarrow> (HsmKeyId \<times> HsmVaultKeyKind \<times> u8 list) list" where
  "session_keys s sess slots =
     map (\<lambda>(t, i). (make_key_id t i, entry_kind (vt_entries (tables s ! t) ! i),
            vk_bytes (entry_view (tables s ! t) (vt_entries (tables s ! t) ! i))))
       (filter (\<lambda>(t, i). entry_bound_to sess (vt_entries (tables s ! t) ! i)) slots)"

lemma owned_key_slot:
  assumes "is_valid_table s t" "i < ENTRIES_PER_TABLE"
  shows "owned_key s (make_key_id t i) = slot_view (tables s ! t) i"
  using assms is_valid_table_less [OF assms(1)] by (simp add: owned_key_def owned_def vault_abs_def)

lemma visit_session_keys_eq:
  assumes "vault_wf s" "\<forall>(t, i) \<in> set slots. is_valid_table s t \<and> i < ENTRIES_PER_TABLE"
  shows "visit_session_keys s sess f slots c = visit_all f (session_keys s sess slots) c"
  using assms(2)
proof (induction slots arbitrary: c)
  case Nil
  then show ?case by (simp add: session_keys_def)
next
  case (Cons x slots)
  obtain t i where x: "x = (t, i)" by fastforce
  with Cons.prems have t: "is_valid_table s t" "i < ENTRIES_PER_TABLE" by auto
  have tc: "t < TABLE_COUNT" using is_valid_table_less [OF t(1)] .
  let ?e = "vt_entries (tables s ! t) ! i"
  have ih: "visit_session_keys s sess f slots = visit_all f (session_keys s sess slots)"
    using Cons by (auto simp: fun_eq_iff)
  show ?case
  proof (cases "entry_bound_to sess ?e")
    case True
    then have "owned_key s (make_key_id t i) = Some (entry_view (tables s ! t) ?e)"
      using t by (simp add: owned_key_slot slot_view_def present_def entry_bound_to_def)
    then have "key_present s (make_key_id t i) = Ok (vk_bytes (entry_view (tables s ! t) ?e))"
      using lookup_results(6) [OF assms(1)] by simp
    then show ?thesis
      using True t tc x ih by (simp add: storage_entry_eq bindS_def session_keys_def Let_def)
  next
    case False
    then show ?thesis
      using t tc x ih by (simp add: storage_entry_eq bindS_def session_keys_def)
  qed
qed

lemma distinct_all_slots: "distinct (all_slots s)"
proof -
  have "distinct (concat (map (\<lambda>t. if P t then map (Pair t) [0..<n] else []) xs))"
    if "distinct xs" for P and n :: nat and xs :: "nat list"
    using that by (induction xs) (auto simp: distinct_map inj_on_def)
  then show ?thesis by (simp add: all_slots_def)
qed

lemma set_session_keys:
  "set (session_keys s sess (all_slots s)) =
    {(k, vk_kind v, vk_bytes v) | k v. owned_key s k = Some v \<and> vk_session v = Some sess}" (is "?L = ?R")
proof (intro equalityI subsetI)
  fix y assume "y \<in> ?L"
  then obtain t i where ti: "is_valid_table s t" "i < ENTRIES_PER_TABLE"
    "entry_bound_to sess (vt_entries (tables s ! t) ! i)"
    and y: "y = (make_key_id t i, entry_kind (vt_entries (tables s ! t) ! i),
      vk_bytes (entry_view (tables s ! t) (vt_entries (tables s ! t) ! i)))"
    by (auto simp: session_keys_def set_all_slots)
  have "owned_key s (make_key_id t i) = Some (entry_view (tables s ! t) (vt_entries (tables s ! t) ! i))"
    "session_binding (vt_entries (tables s ! t) ! i) = Some sess"
    using ti by (simp_all add: owned_key_slot slot_view_def present_def entry_bound_to_def session_binding_def)
  then show "y \<in> ?R" using y by auto
next
  fix y assume "y \<in> ?R"
  then obtain k v where y: "y = (k, vk_kind v, vk_bytes v)" "owned_key s k = Some v" "vk_session v = Some sess"
    by auto
  obtain t i where k: "split_key_id k = (t, i)" by fastforce
  note o = owned_keyD [OF y(2) k]
  have "entry_bound_to sess (vt_entries (tables s ! t) ! i)" "i < ENTRIES_PER_TABLE"
    using o(3,4) y(3) by (auto simp: entry_bound_to_def present_def session_binding_def split: if_splits)
  then have "(make_key_id t i, entry_kind (vt_entries (tables s ! t) ! i),
      vk_bytes (entry_view (tables s ! t) (vt_entries (tables s ! t) ! i))) \<in> ?L"
    using o(1) by (force simp: session_keys_def set_all_slots)
  then show "y \<in> ?L" using y(1) o(4) make_split_key_id [OF k] by simp
qed

lemma distinct_session_keys: "distinct (map fst (session_keys s sess (all_slots s)))"
proof -
  let ?fs = "filter (\<lambda>(t, i). entry_bound_to sess (vt_entries (tables s ! t) ! i)) (all_slots s)"
  have "inj_on (\<lambda>(t, i). make_key_id t i) (set (all_slots s))"
    by (rule inj_on_inverseI [where g = split_key_id])
      (use is_valid_table_less in \<open>auto simp: set_all_slots\<close>)
  then have "distinct (map (\<lambda>(t, i). make_key_id t i) ?fs)"
    using distinct_all_slots by (auto simp: distinct_map intro: inj_on_subset)
  moreover have "map fst (session_keys s sess (all_slots s)) = map (\<lambda>(t, i). make_key_id t i) ?fs"
    by (auto simp: session_keys_def)
  ultimately show ?thesis by simp
qed

section \<open>The sweeps\<close>

lemma delete_by_session_result:
  assumes "gdma_scrubbing g" "vault_wf s"
  shows "\<exists>s'. vault_delete_by_session g sess s = (Ok (), s') \<and> vault_wf s' \<and>
    (vault_clean s \<longrightarrow> vault_clean s') \<and> res_mask s' = res_mask s \<and>
    vault_abs s' = without_keys s (\<lambda>v. vk_session v = Some sess)"
  unfolding vault_delete_by_session_def
proof (rule sweep_result [OF assms])
  fix k t i assume k: "split_key_id k = (t, i)" "t < TABLE_COUNT"
  show "entry_bound_to sess (vt_entries (tables s ! t) ! i) \<longleftrightarrow>
      (\<exists>v. vault_abs s k = Some v \<and> vk_session v = Some sess)"
    by (rule session_view [OF k slot_less [OF k(1)]])
qed (simp add: entry_bound_to_def)

lemma clear_result:
  assumes "gdma_scrubbing g" "vault_wf s"
  shows "\<exists>s'. vault_clear g s = (Ok (), s') \<and> vault_wf s' \<and>
    (vault_clean s \<longrightarrow> vault_clean s') \<and> res_mask s' = res_mask s \<and>
    vault_abs s' = without_keys s (\<lambda>_. True)"
  unfolding vault_clear_def
proof (rule sweep_result [OF assms])
  fix k t i assume k: "split_key_id k = (t, i)" "t < TABLE_COUNT"
  show "\<not> entry_is_free (vt_entries (tables s ! t) ! i) \<longleftrightarrow> (\<exists>v. vault_abs s k = Some v \<and> True)"
    using k slot_less [OF k(1)] by (simp add: vault_abs_def slot_view_def present_def)
qed simp

end
