(* ===== verification/PartProps.thy ===== *)
theory PartProps
  imports Prelude
begin

text \<open>
  The partition vocabulary of \<open>fw/pal/traits/src/part.rs\<close>: the lifecycle states, the property
  identifiers and the metadata that fixes the kind, access and presence of each property.
\<close>

section \<open>Lifecycle states\<close>

datatype PartState = Unallocated | Allocated | Enabled | Disabled | Initializing | Initialized | Faulted

fun part_state_u8 :: "PartState \<Rightarrow> u8" where
  "part_state_u8 Unallocated = 0"
| "part_state_u8 Allocated = 1"
| "part_state_u8 Enabled = 2"
| "part_state_u8 Disabled = 3"
| "part_state_u8 Initializing = 4"
| "part_state_u8 Initialized = 5"
| "part_state_u8 Faulted = 6"

definition part_state_from_u8 :: "u8 \<Rightarrow> PartState option" where
  "part_state_from_u8 raw =
     (if raw = 0 then Some Unallocated else if raw = 1 then Some Allocated else if raw = 2 then Some Enabled
      else if raw = 3 then Some Disabled else if raw = 4 then Some Initializing
      else if raw = 5 then Some Initialized else if raw = 6 then Some Faulted else None)"

lemma part_state_round_trip [simp]: "part_state_from_u8 (part_state_u8 s) = Some s"
  by (cases s) (simp_all add: part_state_from_u8_def)

section \<open>Property identifiers\<close>

type_synonym PartPropId = u16

definition P_ID :: PartPropId where "P_ID = 0x0001"
definition P_STATE :: PartPropId where "P_STATE = 0x0003"
definition P_GEN :: PartPropId where "P_GEN = 0x0004"
definition P_RES_COUNT :: PartPropId where "P_RES_COUNT = 0x0006"
definition P_BK3_INITIALIZED :: PartPropId where "P_BK3_INITIALIZED = 0x0008"
definition P_SD_INITIALIZED :: PartPropId where "P_SD_INITIALIZED = 0x0009"
definition P_ID_KEY_ID :: PartPropId where "P_ID_KEY_ID = 0x0010"
definition P_MK_KEY_ID :: PartPropId where "P_MK_KEY_ID = 0x0011"
definition P_UPS_KEY_ID :: PartPropId where "P_UPS_KEY_ID = 0x0012"
definition P_PTA_KEY_ID :: PartPropId where "P_PTA_KEY_ID = 0x0013"
definition P_RSA_UNWRAPPING_KEY_ID :: PartPropId where "P_RSA_UNWRAPPING_KEY_ID = 0x0014"
definition P_SESSION_ENC_KEY_ID :: PartPropId where "P_SESSION_ENC_KEY_ID = 0x0015"
definition P_ESTABLISH_CRED_KEY_ID :: PartPropId where "P_ESTABLISH_CRED_KEY_ID = 0x0016"
definition P_LOCAL_MK_KEY_ID :: PartPropId where "P_LOCAL_MK_KEY_ID = 0x001B"
definition P_EPHEMERAL_MK_KEY_ID :: PartPropId where "P_EPHEMERAL_MK_KEY_ID = 0x001C"
definition P_SD_MK_KEY_ID :: PartPropId where "P_SD_MK_KEY_ID = 0x001D"
definition P_ID_PUB_KEY :: PartPropId where "P_ID_PUB_KEY = 0x0017"
definition P_SESSION_ENC_PUB_KEY :: PartPropId where "P_SESSION_ENC_PUB_KEY = 0x0018"
definition P_ESTABLISH_CRED_PUB_KEY :: PartPropId where "P_ESTABLISH_CRED_PUB_KEY = 0x0019"
definition P_PTA_PUB_KEY :: PartPropId where "P_PTA_PUB_KEY = 0x001A"
definition P_PSK_CO :: PartPropId where "P_PSK_CO = 0x0020"
definition P_PSK_CU :: PartPropId where "P_PSK_CU = 0x0021"
definition P_CREDENTIAL :: PartPropId where "P_CREDENTIAL = 0x0022"
definition P_NONCE :: PartPropId where "P_NONCE = 0x0023"
definition P_SEALED_BK3 :: PartPropId where "P_SEALED_BK3 = 0x0030"
definition P_MASKED_BK_BOOT :: PartPropId where "P_MASKED_BK_BOOT = 0x0031"
definition P_VM_LAUNCH_GUID :: PartPropId where "P_VM_LAUNCH_GUID = 0x0033"
definition P_POLICY_HASH :: PartPropId where "P_POLICY_HASH = 0x0034"
definition P_POTA_THUMBPRINT :: PartPropId where "P_POTA_THUMBPRINT = 0x0035"
definition P_SATA_THUMBPRINT :: PartPropId where "P_SATA_THUMBPRINT = 0x0037"
definition P_SAPOTA_THUMBPRINT :: PartPropId where "P_SAPOTA_THUMBPRINT = 0x0038"
definition P_BK3_SESSION :: PartPropId where "P_BK3_SESSION = 0x0036"

lemmas prop_ids = P_ID_def P_STATE_def P_GEN_def P_RES_COUNT_def P_BK3_INITIALIZED_def P_SD_INITIALIZED_def
  P_ID_KEY_ID_def P_MK_KEY_ID_def P_UPS_KEY_ID_def P_PTA_KEY_ID_def P_RSA_UNWRAPPING_KEY_ID_def
  P_SESSION_ENC_KEY_ID_def P_ESTABLISH_CRED_KEY_ID_def P_LOCAL_MK_KEY_ID_def P_EPHEMERAL_MK_KEY_ID_def
  P_SD_MK_KEY_ID_def P_ID_PUB_KEY_def P_SESSION_ENC_PUB_KEY_def P_ESTABLISH_CRED_PUB_KEY_def P_PTA_PUB_KEY_def
  P_PSK_CO_def P_PSK_CU_def P_CREDENTIAL_def P_NONCE_def P_SEALED_BK3_def P_MASKED_BK_BOOT_def
  P_VM_LAUNCH_GUID_def P_POLICY_HASH_def P_POTA_THUMBPRINT_def P_SATA_THUMBPRINT_def P_SAPOTA_THUMBPRINT_def
  P_BK3_SESSION_def

section \<open>Metadata\<close>

datatype PartPropAccess = Rw | Ro

datatype PartPropDefault = RequiredPresent | AbsentUntilSet

datatype PartPropKind = KU8 | KU16 | KU32 | KBool | FixedBytes nat | VarBytes nat

record PartPropMeta =
  meta_kind :: PartPropKind
  meta_access :: PartPropAccess
  meta_default :: PartPropDefault
  meta_sensitive :: bool

definition meta_fixed :: "nat \<Rightarrow> PartPropAccess \<Rightarrow> PartPropDefault \<Rightarrow> bool \<Rightarrow> PartPropMeta" where
  "meta_fixed len access def sens =
     \<lparr>meta_kind = FixedBytes len, meta_access = access, meta_default = def, meta_sensitive = sens\<rparr>"

definition meta_var :: "nat \<Rightarrow> PartPropAccess \<Rightarrow> PartPropDefault \<Rightarrow> bool \<Rightarrow> PartPropMeta" where
  "meta_var mx access def sens =
     \<lparr>meta_kind = VarBytes mx, meta_access = access, meta_default = def, meta_sensitive = sens\<rparr>"

definition meta_scalar :: "PartPropKind \<Rightarrow> PartPropAccess \<Rightarrow> PartPropDefault \<Rightarrow> bool \<Rightarrow> PartPropMeta" where
  "meta_scalar kind access def sens =
     \<lparr>meta_kind = kind, meta_access = access, meta_default = def, meta_sensitive = sens\<rparr>"

definition SEALED_BK3_MAX_LEN :: nat where "SEALED_BK3_MAX_LEN = 512"
definition MASKED_BK_BOOT_LEN :: nat where "MASKED_BK_BOOT_LEN = 300"
definition PROP_POLICY_HASH_LEN :: nat where "PROP_POLICY_HASH_LEN = 48"
definition PROP_PSK_LEN :: nat where "PROP_PSK_LEN = 32"

definition prop_meta :: "PartPropId \<Rightarrow> PartPropMeta option" where
  "prop_meta p =
     (if p = P_ID then Some (meta_fixed 16 Ro AbsentUntilSet False)
      else if p = P_STATE then Some (meta_scalar KU8 Rw RequiredPresent False)
      else if p = P_GEN then Some (meta_scalar KU32 Ro RequiredPresent False)
      else if p = P_RES_COUNT then Some (meta_scalar KU8 Ro RequiredPresent False)
      else if p = P_BK3_INITIALIZED then Some (meta_scalar KBool Rw RequiredPresent False)
      else if p = P_SD_INITIALIZED then Some (meta_scalar KBool Rw RequiredPresent False)
      else if p = P_ID_KEY_ID then Some (meta_scalar KU16 Ro AbsentUntilSet False)
      else if p \<in> {P_MK_KEY_ID, P_UPS_KEY_ID, P_PTA_KEY_ID, P_SESSION_ENC_KEY_ID, P_ESTABLISH_CRED_KEY_ID,
          P_LOCAL_MK_KEY_ID, P_EPHEMERAL_MK_KEY_ID, P_SD_MK_KEY_ID, P_RSA_UNWRAPPING_KEY_ID}
        then Some (meta_scalar KU16 Rw AbsentUntilSet False)
      else if p \<in> {P_ID_PUB_KEY, P_SESSION_ENC_PUB_KEY, P_ESTABLISH_CRED_PUB_KEY}
        then Some (meta_fixed 96 Ro AbsentUntilSet False)
      else if p = P_PTA_PUB_KEY then Some (meta_fixed 96 Rw AbsentUntilSet False)
      else if p \<in> {P_PSK_CO, P_PSK_CU} then Some (meta_fixed PROP_PSK_LEN Rw RequiredPresent True)
      else if p = P_CREDENTIAL then Some (meta_fixed 32 Rw AbsentUntilSet True)
      else if p = P_NONCE then Some (meta_fixed 32 Rw RequiredPresent True)
      else if p = P_SEALED_BK3 then Some (meta_var SEALED_BK3_MAX_LEN Rw AbsentUntilSet True)
      else if p = P_MASKED_BK_BOOT then Some (meta_var MASKED_BK_BOOT_LEN Rw AbsentUntilSet True)
      else if p = P_VM_LAUNCH_GUID then Some (meta_fixed 16 Ro AbsentUntilSet False)
      else if p = P_POLICY_HASH then Some (meta_fixed PROP_POLICY_HASH_LEN Rw AbsentUntilSet False)
      else if p = P_POTA_THUMBPRINT then Some (meta_fixed 48 Rw AbsentUntilSet False)
      else if p = P_SATA_THUMBPRINT then Some (meta_fixed 48 Rw AbsentUntilSet False)
      else if p = P_SAPOTA_THUMBPRINT then Some (meta_fixed 48 Rw AbsentUntilSet False)
      else if p = P_BK3_SESSION then Some (meta_fixed 48 Rw AbsentUntilSet True)
      else None)"

end
