(* ===== verification/SessionSpec.thy ===== *)
theory SessionSpec
  imports Prelude
begin

text \<open>
  The abstract session table that both PALs implement: eight slots, each free, pending (a
  handshake in flight), active or waiting for renegotiation. The locale \<open>session_slots\<close> is the
  contract the session layer relies on; its lemmas are proved once and hold for the Uno and the
  std implementation, which interpret it.
\<close>

definition MAX_SESSIONS :: nat where "MAX_SESSIONS = 8"

datatype HsmSessionState = StActive | StNeedsRenegotiation | StPending | StInvalid

datatype SessionRole = CryptoOfficer | CryptoUser

text \<open>An active or renegotiating slot holds a physical key id and whether its PSK change is used.\<close>

datatype 'p slot = SFree | SPending 'p | SActive u16 bool | SRenego u16 bool

type_synonym 'p slots = "nat \<Rightarrow> 'p slot"

definition role_slot_range :: "SessionRole \<Rightarrow> nat \<times> nat" where
  "role_slot_range role = (case role of CryptoOfficer \<Rightarrow> (0, 0) | CryptoUser \<Rightarrow> (1, MAX_SESSIONS - 1))"

fun slot_state :: "'p slot \<Rightarrow> HsmSessionState" where
  "slot_state SFree = StInvalid"
| "slot_state (SPending _) = StPending"
| "slot_state (SActive _ _) = StActive"
| "slot_state (SRenego _ _) = StNeedsRenegotiation"

fun established :: "'p slot \<Rightarrow> bool" where
  "established (SActive _ _) = True"
| "established (SRenego _ _) = True"
| "established _ = False"

section \<open>Abstract operations\<close>

definition spec_create :: "u16 \<Rightarrow> 'p slots \<Rightarrow> u16 run \<times> 'p slots" where
  "spec_create p v = (case List.find (\<lambda>i. v i = SFree) [0..<MAX_SESSIONS] of
     None \<Rightarrow> (Err VaultSessionLimitReached, v)
   | Some i \<Rightarrow> (Ok (of_nat i), v(i := SActive p False)))"

definition spec_delete :: "u16 \<Rightarrow> 'p slots \<Rightarrow> unit run \<times> 'p slots" where
  "spec_delete sid v = (if v (unat sid) = SFree then (Err SessionNotFound, v)
     else (Ok (), v(unat sid := SFree)))"

definition spec_promote :: "u16 \<Rightarrow> u16 \<Rightarrow> 'p slots \<Rightarrow> unit run \<times> 'p slots" where
  "spec_promote sid p v = (case v (unat sid) of
     SFree \<Rightarrow> (Err SessionNotFound, v)
   | SPending _ \<Rightarrow> (Ok (), v(unat sid := SActive p False))
   | _ \<Rightarrow> (Err SessionNotPending, v))"

definition spec_consume :: "u16 \<Rightarrow> 'p slots \<Rightarrow> unit run \<times> 'p slots" where
  "spec_consume sid v = (case v (unat sid) of
     SActive p psk \<Rightarrow> if psk then (Err InvalidPermissions, v) else (Ok (), v(unat sid := SActive p True))
   | SRenego p psk \<Rightarrow> if psk then (Err InvalidPermissions, v) else (Ok (), v(unat sid := SRenego p True))
   | _ \<Rightarrow> (Err SessionNotFound, v))"

text \<open>\<open>keep\<close>: whether the used PSK change survives a renegotiation; the two PALs differ here.\<close>

definition spec_recreate :: "bool \<Rightarrow> u16 \<Rightarrow> u16 \<Rightarrow> 'p slots \<Rightarrow> u16 run \<times> 'p slots" where
  "spec_recreate keep sid p v = (case v (unat sid) of
     SFree \<Rightarrow> (Err SessionNotFound, v)
   | SRenego _ psk \<Rightarrow> (Ok sid, v(unat sid := SActive p (keep \<and> psk)))
   | _ \<Rightarrow> (Err InvalidArg, v))"

definition spec_renego_all :: "'p slots \<Rightarrow> unit run \<times> 'p slots" where
  "spec_renego_all v = (Ok (), \<lambda>i. if established (v i) then SRenego 0 False else SFree)"

text \<open>Reserving a slot for a handshake: an empty slot of the role's range, else a pending one.\<close>

definition reserve_ok :: "SessionRole \<Rightarrow> 'p \<Rightarrow> 'p slots \<Rightarrow> u16 run \<Rightarrow> 'p slots \<Rightarrow> bool" where
  "reserve_ok role h v r v' \<longleftrightarrow> (case role_slot_range role of (lo, hi) \<Rightarrow>
     (case List.find (\<lambda>i. v i = SFree) [lo..<hi + 1] of
        Some i \<Rightarrow> r = Ok (of_nat i) \<and> v' = v(i := SPending h)
      | None \<Rightarrow>
          if \<exists>i. lo \<le> i \<and> i \<le> hi \<and> \<not> established (v i) then
            (\<exists>i. lo \<le> i \<and> i \<le> hi \<and> \<not> established (v i) \<and> r = Ok (of_nat i) \<and> v' = v(i := SPending h))
          else r = Err VaultSessionLimitReached \<and> v' = v))"

section \<open>Refinement\<close>

definition refines ::
  "('s \<Rightarrow> bool) \<Rightarrow> ('s \<Rightarrow> 'v) \<Rightarrow> ('s, 'a) op \<Rightarrow> ('v \<Rightarrow> 'a run \<times> 'v) \<Rightarrow> bool" where
  "refines okay view impl spec \<longleftrightarrow>
     (\<forall>s. okay s \<longrightarrow> okay (snd (impl s)) \<and> (fst (impl s), view (snd (impl s))) = spec (view s))"

lemma refinesD:
  assumes "refines okay view impl spec" "okay s" "impl s = (r, s')"
  shows "okay s'" "(r, view s') = spec (view s)"
  using assms by (auto simp: refines_def dest!: spec [of _ s])

definition void :: "('s, 'a) op \<Rightarrow> ('s, unit) op" where
  "void m = bindS m (\<lambda>_. returns ())"

lemma void_eq: "void m s = (case m s of (Ok _, s') \<Rightarrow> (Ok (), s') | (Err e, s') \<Rightarrow> (Err e, s') | (Panic, s') \<Rightarrow> (Panic, s'))"
  by (simp add: void_def bindS_def split: prod.splits run.splits)

section \<open>The contract\<close>

locale session_slots =
  fixes view :: "'s \<Rightarrow> 'p slots" and okay :: "'s \<Rightarrow> bool"
    and create_op :: "u16 \<Rightarrow> ('s, u16) op" and delete_op :: "u16 \<Rightarrow> ('s, unit) op"
    and reserve_op :: "SessionRole \<Rightarrow> 'p \<Rightarrow> ('s, u16) op" and promote_op :: "u16 \<Rightarrow> u16 \<Rightarrow> ('s, unit) op"
    and consume_op :: "u16 \<Rightarrow> ('s, unit) op" and recreate_op :: "u16 \<Rightarrow> u16 \<Rightarrow> ('s, u16) op"
    and renego_all_op :: "('s, unit) op" and keep :: bool
    and can_reserve :: "'s \<Rightarrow> 'p \<Rightarrow> bool"
  assumes create_refines: "refines okay view (create_op p) (spec_create p)"
    and delete_refines: "refines okay view (delete_op i) (spec_delete i)"
    and promote_refines: "refines okay view (promote_op i p) (spec_promote i p)"
    and consume_refines: "refines okay view (consume_op i) (spec_consume i)"
    and recreate_refines: "refines okay view (recreate_op i p) (spec_recreate keep i p)"
    and renego_all_refines: "refines okay view renego_all_op spec_renego_all"
    and reserve_refines: "okay s \<Longrightarrow> can_reserve s h \<Longrightarrow> reserve_op role h s = (r, s') \<Longrightarrow>
      okay s' \<and> reserve_ok role h (view s) r (view s')"
begin

text \<open>A session changes its PSK at most once between two handshakes.\<close>

lemma consume_once:
  assumes "okay s" "consume_op i s = (Ok (), s')"
  shows "fst (consume_op i s') = Err InvalidPermissions"
proof -
  note c = refinesD [OF consume_refines assms]
  obtain r s2 where c2: "consume_op i s' = (r, s2)" by fastforce
  note d = refinesD [OF consume_refines c(1) c2]
  from c(2) have "\<exists>p. view s' (unat i) = SActive p True \<or> view s' (unat i) = SRenego p True"
    by (cases "view s (unat i)") (auto simp: spec_consume_def split: if_splits)
  then show ?thesis
    using d(2) c2 by (auto simp: spec_consume_def)
qed

text \<open>A new handshake never evicts an established session.\<close>

lemma reserve_keeps_established:
  assumes "okay s" "can_reserve s h" "reserve_op role h s = (r, s')" "established (view s j)"
  shows "view s' j = view s j"
proof -
  have rr: "reserve_ok role h (view s) r (view s')" using reserve_refines [OF assms(1-3)] by simp
  obtain lo hi where rg: "role_slot_range role = (lo, hi)" by fastforce
  show ?thesis
  proof (cases "List.find (\<lambda>i. view s i = SFree) [lo..<hi + 1]")
    case None
    with rr rg assms(4) show ?thesis by (auto simp: reserve_ok_def split: if_splits)
  next
    case (Some i)
    then have "view s i = SFree" using find_SomeD by fast
    with Some rr rg assms(4) show ?thesis by (auto simp: reserve_ok_def)
  qed
qed

text \<open>A reserved slot lies in the range of its role and holds the handshake just begun.\<close>

lemma reserve_in_range:
  assumes "okay s" "can_reserve s h" "reserve_op role h s = (Ok i, s')"
  shows "view s' (unat i) = SPending h" "fst (role_slot_range role) \<le> unat i"
    "unat i \<le> snd (role_slot_range role)"
proof -
  have rr: "reserve_ok role h (view s) (Ok i) (view s')" using reserve_refines [OF assms] by simp
  obtain lo hi where rg: "role_slot_range role = (lo, hi)" by fastforce
  have hi: "hi < 8" using rg by (auto simp: role_slot_range_def MAX_SESSIONS_def split: SessionRole.splits)
  have "\<exists>j. lo \<le> j \<and> j \<le> hi \<and> i = of_nat j \<and> view s' = (view s)(j := SPending h)"
  proof (cases "List.find (\<lambda>i. view s i = SFree) [lo..<hi + 1]")
    case None
    with rr rg show ?thesis by (auto simp: reserve_ok_def split: if_splits)
  next
    case (Some j)
    then have "lo \<le> j \<and> j \<le> hi" using find_SomeD [OF Some] by auto
    with Some rr rg show ?thesis by (auto simp: reserve_ok_def)
  qed
  then obtain j where j: "lo \<le> j" "j \<le> hi" "i = of_nat j" "view s' = (view s)(j := SPending h)" by blast
  then have "unat i = j" using hi by (simp add: unat_of_nat)
  with j rg show "view s' (unat i) = SPending h" "fst (role_slot_range role) \<le> unat i"
    "unat i \<le> snd (role_slot_range role)" by simp_all
qed

text \<open>A handshake that completes yields an active session with an unused PSK change.\<close>

lemma handshake_completes:
  assumes "okay s" "can_reserve s h" "reserve_op role h s = (Ok i, s1)" "promote_op i p s1 = (r, s2)"
  shows "r = Ok ()" "view s2 = (view s1)(unat i := SActive p False)" "okay s2"
    "consume_op i s2 = (Ok (), s3) \<Longrightarrow> view s3 (unat i) = SActive p True"
    "fst (consume_op i s2) = Ok ()"
proof -
  note res = reserve_in_range(1) [OF assms(1-3)]
  have ok: "okay s1" using reserve_refines [OF assms(1-3)] by simp
  note pr = refinesD [OF promote_refines ok assms(4)]
  then show "okay s2" by simp
  show v: "r = Ok ()" "view s2 = (view s1)(unat i := SActive p False)"
    using pr(2) res by (auto simp: spec_promote_def)
  obtain q s4 where c: "consume_op i s2 = (q, s4)" by fastforce
  note co = refinesD [OF consume_refines pr(1) c]
  then show "fst (consume_op i s2) = Ok ()" using v c by (simp add: spec_consume_def)
  show "consume_op i s2 = (Ok (), s3) \<Longrightarrow> view s3 (unat i) = SActive p True"
    using co(2) c v by (auto simp: spec_consume_def)
qed

end

end
