(* ===== verification/SessionStore.thy ===== *)
theory SessionStore
  imports SessionSpec
begin

text \<open>
  The Uno session table (\<open>fw/plat/uno/fw/drivers/session_store/src/session_store.rs\<close>): an 18-byte
  persistent region (allocation mask, renegotiation mask, eight little-endian key ids) and a
  2-byte volatile region (pending mask, PSK-change mask). The model keeps the bytes and masks of
  the source; \<open>session_view\<close> reads them as the abstract slots of \<open>SessionSpec\<close>.
\<close>

section \<open>The regions\<close>

definition SESSION_STORE_LEN :: nat where "SESSION_STORE_LEN = 2 + MAX_SESSIONS * 2"
definition ALLOC_MASK :: nat where "ALLOC_MASK = 0"
definition RENEGO_MASK :: nat where "RENEGO_MASK = 1"
definition PHYS_IDS :: nat where "PHYS_IDS = 2"

lemmas session_layout = SESSION_STORE_LEN_def ALLOC_MASK_def RENEGO_MASK_def PHYS_IDS_def MAX_SESSIONS_def

record SessionTable =
  region :: "u8 list"
  session_meta :: "u8 list"

definition alloc_mask :: "SessionTable \<Rightarrow> u8" where
  "alloc_mask s = region s ! ALLOC_MASK"

definition renego_mask :: "SessionTable \<Rightarrow> u8" where
  "renego_mask s = region s ! RENEGO_MASK"

definition set_alloc_mask :: "u8 \<Rightarrow> SessionTable \<Rightarrow> SessionTable" where
  "set_alloc_mask m s = s\<lparr>region := (region s)[ALLOC_MASK := m]\<rparr>"

definition set_renego_mask :: "u8 \<Rightarrow> SessionTable \<Rightarrow> SessionTable" where
  "set_renego_mask m s = s\<lparr>region := (region s)[RENEGO_MASK := m]\<rparr>"

definition phys_id :: "SessionTable \<Rightarrow> nat \<Rightarrow> u16" where
  "phys_id s slot = from_le (slice (PHYS_IDS + slot * 2) 2 (region s))"

definition set_phys_id :: "nat \<Rightarrow> u16 \<Rightarrow> SessionTable \<Rightarrow> SessionTable" where
  "set_phys_id slot v s = s\<lparr>region := splice_at (PHYS_IDS + slot * 2) (to_le 2 v) (region s)\<rparr>"

definition pending_mask :: "SessionTable \<Rightarrow> u8" where
  "pending_mask s = session_meta s ! 0"

definition set_pending_mask :: "u8 \<Rightarrow> SessionTable \<Rightarrow> SessionTable" where
  "set_pending_mask v s = s\<lparr>session_meta := (session_meta s)[0 := v]\<rparr>"

definition psk_change_mask :: "SessionTable \<Rightarrow> u8" where
  "psk_change_mask s = session_meta s ! 1"

definition set_psk_change_mask :: "u8 \<Rightarrow> SessionTable \<Rightarrow> SessionTable" where
  "set_psk_change_mask v s = s\<lparr>session_meta := (session_meta s)[1 := v]\<rparr>"

text \<open>\<open>u8::trailing_ones\<close> and \<open>u8::count_ones\<close>.\<close>

definition trailing_ones :: "u8 \<Rightarrow> nat" where
  "trailing_ones m = length (takeWhile (bit m) [0..<8])"

definition count_ones :: "u8 \<Rightarrow> nat" where
  "count_ones m = length (filter (bit m) [0..<8])"

section \<open>Operations\<close>

definition active_slot :: "SessionTable \<Rightarrow> u16 \<Rightarrow> nat run" where
  "active_slot s sid =
     (let slot = unat sid in
      if slot \<ge> MAX_SESSIONS \<or> \<not> test_bit (alloc_mask s) slot then Err SessionNotFound else Ok slot)"

definition session_create :: "u16 \<Rightarrow> (SessionTable, u16) op" where
  "session_create p s =
     (let slot = trailing_ones (alloc_mask s) in
      if slot \<ge> MAX_SESSIONS then (Err VaultSessionLimitReached, s)
      else (Ok (of_nat slot), set_phys_id slot p (set_alloc_mask (bit_on slot (alloc_mask s)) s)))"

definition session_delete :: "u16 \<Rightarrow> (SessionTable, u16) op" where
  "session_delete sid =
     bindS (reads (\<lambda>s. active_slot s sid)) (\<lambda>slot s.
       let phys = phys_id s slot;
           s = set_alloc_mask (bit_off slot (alloc_mask s)) s;
           s = set_renego_mask (bit_off slot (renego_mask s)) s;
           s = set_pending_mask (bit_off slot (pending_mask s)) s;
           s = set_psk_change_mask (bit_off slot (psk_change_mask s)) s
       in (Ok phys, set_phys_id slot 0 s))"

definition physical_id :: "SessionTable \<Rightarrow> u16 \<Rightarrow> u16 run" where
  "physical_id s sid = bindr (active_slot s sid) (\<lambda>slot. Ok (phys_id s slot))"

definition session_recreate :: "u16 \<Rightarrow> u16 \<Rightarrow> (SessionTable, u16) op" where
  "session_recreate sid p =
     bindS (reads (\<lambda>s. active_slot s sid)) (\<lambda>slot s.
       if \<not> test_bit (renego_mask s) slot then (Err InvalidArg, s)
       else (Ok sid, set_phys_id slot p (set_renego_mask (bit_off slot (renego_mask s)) s)))"

definition session_state :: "SessionTable \<Rightarrow> u16 \<Rightarrow> HsmSessionState" where
  "session_state s sid = (case active_slot s sid of
     Ok slot \<Rightarrow>
       if test_bit (pending_mask s) slot then StPending
       else if test_bit (renego_mask s) slot then StNeedsRenegotiation
       else StActive
   | _ \<Rightarrow> StInvalid)"

definition limit_reached :: "SessionTable \<Rightarrow> bool" where
  "limit_reached s \<longleftrightarrow> count_ones (alloc_mask s) \<ge> MAX_SESSIONS"

definition set_needs_renego :: "u16 \<Rightarrow> SessionTable \<Rightarrow> SessionTable" where
  "set_needs_renego sid s =
     (let slot = unat sid in
      if slot < MAX_SESSIONS \<and> test_bit (alloc_mask s) slot
      then set_renego_mask (bit_on slot (renego_mask s)) s else s)"

definition mark_all_needs_renego :: "(SessionTable, unit) op" where
  "mark_all_needs_renego s =
     (let survivors = alloc_mask s AND NOT (pending_mask s);
          s = set_alloc_mask survivors s;
          s = set_renego_mask survivors s;
          s = s\<lparr>region := splice_at PHYS_IDS (replicate (length (region s) - PHYS_IDS) 0) (region s)\<rparr>
      in (Ok (), set_psk_change_mask 0 (set_pending_mask 0 s)))"

definition clear_all :: "(SessionTable, unit) op" where
  "clear_all s =
     (Ok (), set_psk_change_mask 0 (set_pending_mask 0 (s\<lparr>region := replicate (length (region s)) 0\<rparr>)))"

definition occupied_physical_ids :: "SessionTable \<Rightarrow> u16 option list" where
  "occupied_physical_ids s =
     (let m = alloc_mask s AND NOT (renego_mask s)
      in map (\<lambda>slot. if test_bit m slot then Some (phys_id s slot) else None) [0..<MAX_SESSIONS])"

definition install_pending :: "nat \<Rightarrow> u16 \<Rightarrow> SessionTable \<Rightarrow> SessionTable" where
  "install_pending slot p s =
     (let s = set_alloc_mask (bit_on slot (alloc_mask s)) s;
          s = set_renego_mask (bit_off slot (renego_mask s)) s;
          s = set_pending_mask (bit_on slot (pending_mask s)) s;
          s = set_psk_change_mask (bit_off slot (psk_change_mask s)) s
      in set_phys_id slot p s)"

definition session_create_pending :: "SessionRole \<Rightarrow> u16 \<Rightarrow> (SessionTable, u16 \<times> u16 option) op" where
  "session_create_pending role p s =
     (let (lo, hi) = role_slot_range role in
      case List.find (\<lambda>slot. \<not> test_bit (alloc_mask s) slot) [lo..<hi + 1] of
        Some slot \<Rightarrow> (Ok (of_nat slot, None), install_pending slot p s)
      | None \<Rightarrow>
          (case List.find (\<lambda>slot. test_bit (pending_mask s) slot) [lo..<hi + 1] of
             Some slot \<Rightarrow> (Ok (of_nat slot, Some (phys_id s slot)), install_pending slot p s)
           | None \<Rightarrow> (Err VaultSessionLimitReached, s)))"

definition pending_phys :: "SessionTable \<Rightarrow> u16 \<Rightarrow> u16 run" where
  "pending_phys s sid =
     bindr (active_slot s sid)
       (\<lambda>slot. if \<not> test_bit (pending_mask s) slot then Err SessionNotPending else Ok (phys_id s slot))"

definition session_promote :: "u16 \<Rightarrow> u16 \<Rightarrow> (SessionTable, u16) op" where
  "session_promote sid p =
     bindS (reads (\<lambda>s. active_slot s sid)) (\<lambda>slot s.
       if \<not> test_bit (pending_mask s) slot then (Err SessionNotPending, s)
       else let old = phys_id s slot;
                s = set_pending_mask (bit_off slot (pending_mask s)) s;
                s = set_psk_change_mask (bit_off slot (psk_change_mask s)) s
            in (Ok old, set_phys_id slot p s))"

definition try_consume_psk_change :: "u16 \<Rightarrow> (SessionTable, unit) op" where
  "try_consume_psk_change sid =
     bindS (reads (\<lambda>s. active_slot s sid)) (\<lambda>slot s.
       if test_bit (pending_mask s) slot then (Err SessionNotFound, s)
       else if test_bit (psk_change_mask s) slot then (Err InvalidPermissions, s)
       else (Ok (), set_psk_change_mask (bit_on slot (psk_change_mask s)) s))"

section \<open>Reading after writing\<close>

definition session_shape :: "SessionTable \<Rightarrow> bool" where
  "session_shape s \<longleftrightarrow> length (region s) = SESSION_STORE_LEN \<and> length (session_meta s) = 2"

lemma shape_set [simp]:
  "session_shape (set_alloc_mask m s) = session_shape s"
  "session_shape (set_renego_mask m s) = session_shape s"
  "session_shape (set_pending_mask m s) = session_shape s"
  "session_shape (set_psk_change_mask m s) = session_shape s"
  by (simp_all add: session_shape_def set_alloc_mask_def set_renego_mask_def set_pending_mask_def
      set_psk_change_mask_def)

lemma shape_set_phys [simp]:
  "session_shape s \<Longrightarrow> slot < 8 \<Longrightarrow> session_shape (set_phys_id slot v s)"
  by (simp add: session_shape_def set_phys_id_def session_layout)

lemmas session_field_defs = alloc_mask_def renego_mask_def pending_mask_def psk_change_mask_def
  set_alloc_mask_def set_renego_mask_def set_pending_mask_def set_psk_change_mask_def

lemma masks_set [simp]:
  assumes "session_shape s"
  shows "alloc_mask (set_alloc_mask m s) = m" "alloc_mask (set_renego_mask m s) = alloc_mask s"
    "alloc_mask (set_pending_mask m s) = alloc_mask s" "alloc_mask (set_psk_change_mask m s) = alloc_mask s"
    "renego_mask (set_alloc_mask m s) = renego_mask s" "renego_mask (set_renego_mask m s) = m"
    "renego_mask (set_pending_mask m s) = renego_mask s" "renego_mask (set_psk_change_mask m s) = renego_mask s"
    "pending_mask (set_alloc_mask m s) = pending_mask s" "pending_mask (set_renego_mask m s) = pending_mask s"
    "pending_mask (set_pending_mask m s) = m" "pending_mask (set_psk_change_mask m s) = pending_mask s"
    "psk_change_mask (set_alloc_mask m s) = psk_change_mask s"
    "psk_change_mask (set_renego_mask m s) = psk_change_mask s"
    "psk_change_mask (set_pending_mask m s) = psk_change_mask s" "psk_change_mask (set_psk_change_mask m s) = m"
  using assms by (simp_all add: session_field_defs session_shape_def session_layout)

lemma masks_set_phys [simp]:
  assumes "session_shape s" "slot < 8"
  shows "alloc_mask (set_phys_id slot v s) = alloc_mask s" "renego_mask (set_phys_id slot v s) = renego_mask s"
    "pending_mask (set_phys_id slot v s) = pending_mask s"
    "psk_change_mask (set_phys_id slot v s) = psk_change_mask s"
  using assms by (simp_all add: session_field_defs set_phys_id_def session_shape_def session_layout nth_splice_at)

lemma phys_set [simp]:
  "phys_id (set_alloc_mask m s) j = phys_id s j" "phys_id (set_renego_mask m s) j = phys_id s j"
  "phys_id (set_pending_mask m s) j = phys_id s j" "phys_id (set_psk_change_mask m s) j = phys_id s j"
  by (simp_all add: phys_id_def session_field_defs session_layout slice_def drop_update_cancel)

lemma phys_set_phys [simp]:
  assumes "session_shape s" "slot < 8" "j < 8"
  shows "phys_id (set_phys_id slot v s) j = (if j = slot then v else phys_id s j)"
proof (cases "j = slot")
  case True
  then show ?thesis
    using assms slice_splice_same [of "2 + slot * 2" "to_le 2 v" "region s"]
    by (simp add: phys_id_def set_phys_id_def session_shape_def session_layout)
next
  case False
  then have "2 + slot * 2 + 2 \<le> 2 + j * 2 \<or> 2 + j * 2 + 2 \<le> 2 + slot * 2" by arith
  then show ?thesis
    using assms False
    by (auto simp: phys_id_def set_phys_id_def session_shape_def session_layout slice_splice_other)
qed

section \<open>The abstract view\<close>

definition session_view :: "SessionTable \<Rightarrow> u16 slots" where
  "session_view s i =
     (if \<not> bit (alloc_mask s) i then SFree
      else if bit (pending_mask s) i then SPending (phys_id s i)
      else if bit (renego_mask s) i then SRenego (phys_id s i) (bit (psk_change_mask s) i)
      else SActive (phys_id s i) (bit (psk_change_mask s) i))"

definition session_wf :: "SessionTable \<Rightarrow> bool" where
  "session_wf s \<longleftrightarrow> session_shape s \<and>
     (\<forall>i. (bit (pending_mask s) i \<longrightarrow>
            bit (alloc_mask s) i \<and> \<not> bit (renego_mask s) i \<and> \<not> bit (psk_change_mask s) i) \<and>
          (bit (renego_mask s) i \<longrightarrow> bit (alloc_mask s) i) \<and>
          (bit (psk_change_mask s) i \<longrightarrow> bit (alloc_mask s) i))"

lemma session_wfD:
  assumes "session_wf s"
  shows "session_shape s" "bit (pending_mask s) i \<Longrightarrow> bit (alloc_mask s) i"
    "bit (pending_mask s) i \<Longrightarrow> \<not> bit (renego_mask s) i"
    "bit (pending_mask s) i \<Longrightarrow> \<not> bit (psk_change_mask s) i"
    "bit (renego_mask s) i \<Longrightarrow> bit (alloc_mask s) i" "bit (psk_change_mask s) i \<Longrightarrow> bit (alloc_mask s) i"
  using assms by (auto simp: session_wf_def)

lemma bit_u8: "bit (m :: u8) i \<Longrightarrow> i < 8"
  using bit_imp_le_length [of m i] by simp

lemma view_free: "session_view s i = SFree \<longleftrightarrow> \<not> bit (alloc_mask s) i"
  by (simp add: session_view_def)

lemma active_slot_eq:
  "active_slot s sid = (if session_view s (unat sid) = SFree then Err SessionNotFound else Ok (unat sid))"
  using bit_u8 [of "alloc_mask s" "unat sid"] by (auto simp: active_slot_def MAX_SESSIONS_def Let_def view_free)

lemma find_free_trailing:
  "List.find (\<lambda>i. \<not> bit (alloc_mask s) i) [0..<MAX_SESSIONS] =
    (if trailing_ones (alloc_mask s) < MAX_SESSIONS then Some (trailing_ones (alloc_mask s)) else None)"
  using find_not_takeWhile [of "bit (alloc_mask s)" 8] by (simp add: trailing_ones_def MAX_SESSIONS_def)

lemma trailing_ones_free:
  assumes "trailing_ones m < 8"
  shows "\<not> bit m (trailing_ones m)"
proof -
  have "List.find (\<lambda>i. \<not> bit m i) [0..<8] = Some (trailing_ones m)"
    using assms find_not_takeWhile [of "bit m" 8] by (simp add: trailing_ones_def)
  then show ?thesis using find_SomeD by fast
qed

text \<open>
  A change of one slot: the masks and key id of every other slot stay, so its view stays, and the
  invariant has to be checked for the changed slot only.
\<close>

lemma session_upd:
  assumes wf: "session_wf s" and sh: "session_shape s'"
    and oth: "\<And>i. i \<noteq> slot \<Longrightarrow> bit (alloc_mask s') i = bit (alloc_mask s) i"
      "\<And>i. i \<noteq> slot \<Longrightarrow> bit (renego_mask s') i = bit (renego_mask s) i"
      "\<And>i. i \<noteq> slot \<Longrightarrow> bit (pending_mask s') i = bit (pending_mask s) i"
      "\<And>i. i \<noteq> slot \<Longrightarrow> bit (psk_change_mask s') i = bit (psk_change_mask s) i"
      "\<And>i. i \<noteq> slot \<Longrightarrow> i < 8 \<Longrightarrow> phys_id s' i = phys_id s i"
    and own: "bit (pending_mask s') slot \<Longrightarrow>
        bit (alloc_mask s') slot \<and> \<not> bit (renego_mask s') slot \<and> \<not> bit (psk_change_mask s') slot"
      "bit (renego_mask s') slot \<Longrightarrow> bit (alloc_mask s') slot"
      "bit (psk_change_mask s') slot \<Longrightarrow> bit (alloc_mask s') slot"
  shows "session_wf s'" "session_view s' = (session_view s)(slot := session_view s' slot)"
proof -
  show "session_wf s'"
    unfolding session_wf_def
  proof (intro conjI allI impI)
    fix i
    show "bit (pending_mask s') i \<Longrightarrow> bit (alloc_mask s') i"
      "bit (pending_mask s') i \<Longrightarrow> \<not> bit (renego_mask s') i"
      "bit (pending_mask s') i \<Longrightarrow> \<not> bit (psk_change_mask s') i"
      "bit (renego_mask s') i \<Longrightarrow> bit (alloc_mask s') i"
      "bit (psk_change_mask s') i \<Longrightarrow> bit (alloc_mask s') i"
      using session_wfD(2-) [OF wf, of i] oth own by (cases "i = slot"; simp)+
  qed (rule sh)
  show "session_view s' = (session_view s)(slot := session_view s' slot)"
  proof
    fix i
    show "session_view s' i = ((session_view s)(slot := session_view s' slot)) i"
      using oth(1-4) [of i] oth(5) [of i] bit_u8 [of "alloc_mask s" i]
      by (cases "i = slot") (auto simp: session_view_def)
  qed
qed

lemmas mask_bits = bit_bit_on bit_bit_off

section \<open>Refinement of the abstract table\<close>

lemma uno_create_refines: "refines session_wf session_view (session_create p) (spec_create p)"
  unfolding refines_def
proof (intro allI impI)
  fix s assume wf: "session_wf s"
  note sh = session_wfD(1) [OF wf]
  let ?i = "trailing_ones (alloc_mask s)"
  show "session_wf (snd (session_create p s)) \<and>
      (fst (session_create p s), session_view (snd (session_create p s))) = spec_create p (session_view s)"
  proof (cases "?i < MAX_SESSIONS")
    case False
    then show ?thesis using wf by (simp add: session_create_def spec_create_def view_free find_free_trailing)
  next
    case True
    then have i: "?i < 8" "\<not> bit (alloc_mask s) ?i"
      using trailing_ones_free by (auto simp: MAX_SESSIONS_def)
    define s' where "s' = set_phys_id ?i p (set_alloc_mask (bit_on ?i (alloc_mask s)) s)"
    have nb: "\<not> bit (pending_mask s) ?i" "\<not> bit (renego_mask s) ?i" "\<not> bit (psk_change_mask s) ?i"
      using i session_wfD(2-) [OF wf, of ?i] by auto
    have u: "session_wf s'" "session_view s' = (session_view s)(?i := session_view s' ?i)"
      by (rule session_upd [OF wf, of _ ?i]; use sh i nb in \<open>auto simp: s'_def mask_bits\<close>)+
    have "session_view s' ?i = SActive p False"
      using sh i nb by (simp add: session_view_def s'_def mask_bits)
    then show ?thesis
      using True u by (simp add: session_create_def spec_create_def view_free find_free_trailing s'_def Let_def)
  qed
qed

text \<open>The operations on a given id look the slot up first.\<close>

lemma refines_at:
  assumes free: "\<And>v. v (unat sid) = SFree \<Longrightarrow> sp v = (Err SessionNotFound, v)"
    and body: "\<And>s. session_wf s \<Longrightarrow> bit (alloc_mask s) (unat sid) \<Longrightarrow> unat sid < 8 \<Longrightarrow>
      session_wf (snd (body (unat sid) s)) \<and>
      (fst (body (unat sid) s), session_view (snd (body (unat sid) s))) = sp (session_view s)"
  shows "refines session_wf session_view (bindS (reads (\<lambda>s. active_slot s sid)) body) sp"
  unfolding refines_def
proof (intro allI impI)
  fix s assume wf: "session_wf s"
  show "session_wf (snd (bindS (reads (\<lambda>s. active_slot s sid)) body s)) \<and>
      (fst (bindS (reads (\<lambda>s. active_slot s sid)) body s),
       session_view (snd (bindS (reads (\<lambda>s. active_slot s sid)) body s))) = sp (session_view s)"
  proof (cases "bit (alloc_mask s) (unat sid)")
    case False
    then show ?thesis using free [of "session_view s"] wf by (simp add: bindS_def active_slot_eq view_free)
  next
    case True
    then show ?thesis using body [OF wf True bit_u8 [OF True]] by (simp add: bindS_def active_slot_eq view_free)
  qed
qed

lemma void_bind: "void (bindS m f) = bindS m (\<lambda>x. void (f x))"
  by (auto simp: fun_eq_iff void_def bindS_def split: prod.splits run.splits)

lemma uno_delete_refines: "refines session_wf session_view (void (session_delete sid)) (spec_delete sid)"
  unfolding session_delete_def void_bind
proof (rule refines_at, simp add: spec_delete_def, goal_cases)
  case (1 s)
  note sh = session_wfD(1) [OF 1(1)]
  let ?i = "unat sid"
  define s' where "s' = set_phys_id ?i 0 (set_psk_change_mask (bit_off ?i (psk_change_mask s))
    (set_pending_mask (bit_off ?i (pending_mask s)) (set_renego_mask (bit_off ?i (renego_mask s))
      (set_alloc_mask (bit_off ?i (alloc_mask s)) s))))"
  have u: "session_wf s'" "session_view s' = (session_view s)(?i := session_view s' ?i)"
    by (rule session_upd [OF 1(1), of _ ?i]; use sh 1(3) in \<open>auto simp: s'_def mask_bits\<close>)+
  have "session_view s' ?i = SFree"
    using sh 1(3) by (simp add: s'_def mask_bits view_free)
  then show ?case
    using u 1(2) sh by (simp add: void_eq spec_delete_def Let_def view_free [of s] flip: s'_def)
qed

lemma uno_promote_refines: "refines session_wf session_view (void (session_promote sid p)) (spec_promote sid p)"
  unfolding session_promote_def void_bind
proof (rule refines_at, simp add: spec_promote_def, goal_cases)
  case (1 s)
  note sh = session_wfD(1) [OF 1(1)]
  let ?i = "unat sid"
  show ?case
  proof (cases "bit (pending_mask s) ?i")
    case False
    then show ?thesis using 1 by (auto simp: void_eq spec_promote_def session_view_def)
  next
    case True
    define s' where "s' = set_phys_id ?i p (set_psk_change_mask (bit_off ?i (psk_change_mask s))
      (set_pending_mask (bit_off ?i (pending_mask s)) s))"
    have nb: "\<not> bit (renego_mask s) ?i" using session_wfD(3) [OF 1(1) True] .
    have u: "session_wf s'" "session_view s' = (session_view s)(?i := session_view s' ?i)"
      by (rule session_upd [OF 1(1), of _ ?i]; use sh 1 nb in \<open>auto simp: s'_def mask_bits\<close>)+
    have "session_view s' ?i = SActive p False"
      using sh 1 nb by (simp add: s'_def mask_bits session_view_def)
    moreover have "session_view s ?i = SPending (phys_id s ?i)"
      using True 1 by (simp add: session_view_def)
    ultimately show ?thesis
      using u True sh by (simp add: void_eq spec_promote_def Let_def s'_def)
  qed
qed

lemma uno_consume_refines: "refines session_wf session_view (try_consume_psk_change sid) (spec_consume sid)"
  unfolding try_consume_psk_change_def
proof (rule refines_at, simp add: spec_consume_def, goal_cases)
  case (1 s)
  note sh = session_wfD(1) [OF 1(1)]
  let ?i = "unat sid"
  show ?case
  proof (cases "bit (pending_mask s) ?i \<or> bit (psk_change_mask s) ?i")
    case True
    then show ?thesis
      using 1 by (auto simp: spec_consume_def session_view_def)
  next
    case False
    define s' where "s' = set_psk_change_mask (bit_on ?i (psk_change_mask s)) s"
    have u: "session_wf s'" "session_view s' = (session_view s)(?i := session_view s' ?i)"
      by (rule session_upd [OF 1(1), of _ ?i]; use sh 1 False session_wfD [OF 1(1)] in \<open>auto simp: s'_def mask_bits\<close>)+
    have "session_view s' ?i = (if bit (renego_mask s) ?i then SRenego (phys_id s ?i) True
        else SActive (phys_id s ?i) True)"
      using sh 1 False by (simp add: s'_def mask_bits session_view_def)
    moreover have "session_view s ?i = (if bit (renego_mask s) ?i then SRenego (phys_id s ?i) False
        else SActive (phys_id s ?i) False)"
      using False 1 by (simp add: session_view_def)
    ultimately show ?thesis
      using u False by (simp add: spec_consume_def s'_def)
  qed
qed

lemma uno_recreate_refines: "refines session_wf session_view (session_recreate sid p) (spec_recreate True sid p)"
  unfolding session_recreate_def
proof (rule refines_at, simp add: spec_recreate_def, goal_cases)
  case (1 s)
  note sh = session_wfD(1) [OF 1(1)]
  let ?i = "unat sid"
  show ?case
  proof (cases "bit (renego_mask s) ?i")
    case False
    then show ?thesis using 1 by (auto simp: spec_recreate_def session_view_def)
  next
    case True
    then have np: "\<not> bit (pending_mask s) ?i" using session_wfD(3) [OF 1(1)] by blast
    define s' where "s' = set_phys_id ?i p (set_renego_mask (bit_off ?i (renego_mask s)) s)"
    have u: "session_wf s'" "session_view s' = (session_view s)(?i := session_view s' ?i)"
      by (rule session_upd [OF 1(1), of _ ?i]; use sh 1 np in \<open>auto simp: s'_def mask_bits\<close>)+
    have "session_view s' ?i = SActive p (bit (psk_change_mask s) ?i)"
      using sh 1 np by (simp add: s'_def mask_bits session_view_def)
    moreover have "session_view s ?i = SRenego (phys_id s ?i) (bit (psk_change_mask s) ?i)"
      using True 1 np by (simp add: session_view_def)
    ultimately show ?thesis
      using u True by (simp add: spec_recreate_def s'_def)
  qed
qed

section \<open>Reset and handshake\<close>

lemma phys_zero:
  assumes "session_shape s" "i < 8"
  shows "phys_id (s\<lparr>region := splice_at PHYS_IDS (replicate (length (region s) - PHYS_IDS) 0) (region s)\<rparr>) i = 0"
proof -
  have "slice (PHYS_IDS + i * 2) 2 (splice_at PHYS_IDS (replicate (length (region s) - PHYS_IDS) 0) (region s)) =
      replicate 2 0"
    by (rule nth_equalityI)
      (use assms in \<open>simp_all add: session_shape_def session_layout nth_slice nth_splice_at\<close>)
  then show ?thesis by (simp add: phys_id_def from_le_def numeral_2_eq_2)
qed

lemma masks_phys_zero:
  assumes "session_shape s"
  shows "alloc_mask (s\<lparr>region := splice_at PHYS_IDS zs (region s)\<rparr>) = alloc_mask s"
    "renego_mask (s\<lparr>region := splice_at PHYS_IDS zs (region s)\<rparr>) = renego_mask s"
    "pending_mask (s\<lparr>region := splice_at PHYS_IDS zs (region s)\<rparr>) = pending_mask s"
    "psk_change_mask (s\<lparr>region := splice_at PHYS_IDS zs (region s)\<rparr>) = psk_change_mask s"
  using assms by (simp_all add: session_field_defs session_shape_def session_layout splice_at_def nth_append)

lemma uno_mark_all_refines: "refines session_wf session_view mark_all_needs_renego spec_renego_all"
  unfolding refines_def
proof (intro allI impI)
  fix s assume wf: "session_wf s"
  note sh = session_wfD(1) [OF wf]
  let ?m = "alloc_mask s AND NOT (pending_mask s)"
  define s1 where "s1 = set_renego_mask ?m (set_alloc_mask ?m s)"
  define s2 where "s2 = s1\<lparr>region := splice_at PHYS_IDS (replicate (length (region s1) - PHYS_IDS) 0) (region s1)\<rparr>"
  define s3 where "s3 = set_psk_change_mask 0 (set_pending_mask 0 s2)"
  have sh1: "session_shape s1" using sh by (simp add: s1_def)
  then have sh2: "session_shape s2"
    by (simp add: s2_def session_shape_def session_layout)
  have m: "alloc_mask s3 = ?m" "renego_mask s3 = ?m" "pending_mask s3 = 0" "psk_change_mask s3 = 0"
    using sh sh2 masks_phys_zero [OF sh1] by (simp_all add: s3_def s2_def s1_def)
  have bm: "bit ?m i \<longleftrightarrow> bit (alloc_mask s) i \<and> \<not> bit (pending_mask s) i" for i
    by (auto simp: bit_simps dest: bit_u8)
  have ph: "i < 8 \<Longrightarrow> phys_id s3 i = 0" for i
    using phys_zero [OF sh1] by (simp add: s3_def s2_def)
  have "session_wf s3" using sh2 bm by (simp add: session_wf_def m) (simp add: s3_def)
  moreover have "session_view s3 = (\<lambda>i. if established (session_view s i) then SRenego 0 False else SFree)"
  proof
    fix i
    show "session_view s3 i = (if established (session_view s i) then SRenego 0 False else SFree)"
      using ph [of i] bit_u8 [of "alloc_mask s" i] by (simp add: session_view_def m bm)
  qed
  ultimately show "session_wf (snd (mark_all_needs_renego s)) \<and>
      (fst (mark_all_needs_renego s), session_view (snd (mark_all_needs_renego s))) = spec_renego_all (session_view s)"
    by (simp add: mark_all_needs_renego_def spec_renego_all_def Let_def flip: s1_def s2_def s3_def)
qed

lemma clear_all_result:
  assumes "session_shape s"
  shows "fst (clear_all s) = Ok ()" "session_wf (snd (clear_all s))" "session_view (snd (clear_all s)) = (\<lambda>_. SFree)"
proof -
  define s1 where "s1 = s\<lparr>region := replicate (length (region s)) 0\<rparr>"
  have sh: "session_shape s1" using assms by (simp add: s1_def session_shape_def)
  have z: "alloc_mask s1 = 0" "renego_mask s1 = 0"
    using assms by (simp_all add: s1_def session_field_defs session_shape_def session_layout)
  show "fst (clear_all s) = Ok ()" by (simp add: clear_all_def)
  show "session_wf (snd (clear_all s))" "session_view (snd (clear_all s)) = (\<lambda>_. SFree)"
    using sh z by (auto simp: clear_all_def session_wf_def session_view_def simp flip: s1_def)
qed

lemma install_pending_result:
  assumes wf: "session_wf s" and i: "slot < 8"
  shows "session_wf (install_pending slot p s)"
    "session_view (install_pending slot p s) = (session_view s)(slot := SPending p)"
proof -
  note sh = session_wfD(1) [OF wf]
  define s' where "s' = install_pending slot p s"
  have u: "session_wf s'" "session_view s' = (session_view s)(slot := session_view s' slot)"
    by (rule session_upd [OF wf, of _ slot]; use sh i in \<open>auto simp: s'_def install_pending_def Let_def mask_bits\<close>)+
  have "session_view s' slot = SPending p"
    using sh i by (simp add: s'_def install_pending_def Let_def session_view_def mask_bits)
  with u show "session_wf (install_pending slot p s)"
    "session_view (install_pending slot p s) = (session_view s)(slot := SPending p)"
    by (simp_all add: s'_def)
qed

text \<open>The reservation without the evicted key id.\<close>

definition reserve_slot :: "SessionRole \<Rightarrow> u16 \<Rightarrow> (SessionTable, u16) op" where
  "reserve_slot role p = bindS (session_create_pending role p) (\<lambda>(sid, _). returns sid)"

lemma role_range_less: "role_slot_range role = (lo, hi) \<Longrightarrow> hi < 8"
  by (auto simp: role_slot_range_def MAX_SESSIONS_def split: SessionRole.splits)

lemma uno_reserve_refines:
  assumes wf: "session_wf s" and r: "reserve_slot role p s = (r, s')"
  shows "session_wf s' \<and> reserve_ok role p (session_view s) r (session_view s')"
proof -
  obtain lo hi where rg: "role_slot_range role = (lo, hi)" by fastforce
  note hi = role_range_less [OF rg]
  let ?xs = "[lo..<hi + 1]"
  have fv: "List.find (\<lambda>i. session_view s i = SFree) ?xs = List.find (\<lambda>i. \<not> bit (alloc_mask s) i) ?xs"
    by (simp add: view_free)
  show ?thesis
  proof (cases "List.find (\<lambda>i. \<not> bit (alloc_mask s) i) ?xs")
    case (Some i)
    then have "i < 8" using find_SomeD [OF Some] hi by auto
    then show ?thesis
      using r rg Some fv install_pending_result [OF wf, of i p]
      by (auto simp: reserve_slot_def session_create_pending_def bindS_def reserve_ok_def)
  next
    case none: None
    then have al: "bit (alloc_mask s) i" if "lo \<le> i" "i \<le> hi" for i
      using that by (auto simp: find_None)
    have est: "established (session_view s i) \<longleftrightarrow> \<not> bit (pending_mask s) i" if "lo \<le> i" "i \<le> hi" for i
      using al [OF that] by (simp add: session_view_def)
    show ?thesis
    proof (cases "List.find (\<lambda>i. bit (pending_mask s) i) ?xs")
      case (Some i)
      then have i: "i < 8" "lo \<le> i" "i \<le> hi" "bit (pending_mask s) i" using find_SomeD [OF Some] hi by auto
      have "s' = install_pending i p s" "r = Ok (of_nat i)"
        using r rg Some none by (simp_all add: reserve_slot_def session_create_pending_def bindS_def)
      then show ?thesis
        using rg none fv install_pending_result [OF wf i(1), of p] est [OF i(2,3)] i
        by (auto simp: reserve_ok_def)
    next
      case None
      then have "\<forall>i. lo \<le> i \<and> i \<le> hi \<longrightarrow> established (session_view s i)"
        using est by (auto simp: find_None)
      then show ?thesis
        using r rg None none fv wf
        by (auto simp: reserve_slot_def session_create_pending_def bindS_def reserve_ok_def)
    qed
  qed
qed

interpretation unos: session_slots session_view session_wf session_create "\<lambda>i. void (session_delete i)"
  reserve_slot "\<lambda>i p. void (session_promote i p)" try_consume_psk_change session_recreate
  mark_all_needs_renego True "\<lambda>_ _. True"
  by unfold_locales
    (simp_all add: uno_create_refines uno_delete_refines uno_promote_refines uno_consume_refines uno_recreate_refines
      uno_mark_all_refines uno_reserve_refines)

end
