(* ===== verification/PartStore.thy ===== *)
theory PartStore
  imports PartProps SessionStore
begin

text \<open>
  The partition persistent store (\<open>fw/plat/uno/fw/drivers/part_store/src/part_store.rs\<close>): the
  3072-byte GSRAM slot of a partition as a record with the fields of \<open>Storage\<close>, and every accessor
  of \<open>Partition\<close>. A getter is a function of the slot, an infallible setter a function on slots, a
  setter that checks the length of its argument an operation; a \<open>_mut\<close> accessor hands out a
  mutable borrow, so the model takes the function that the caller applies through it. The store
  keeps multi-byte integers and key handles as little-endian bytes, as the source does.
\<close>

section \<open>Layout\<close>

definition NUM_PARTITIONS :: nat where "NUM_PARTITIONS = 65"
definition ID_LEN :: nat where "ID_LEN = 16"
definition ID_PRIV_LEN :: nat where "ID_PRIV_LEN = 48"
definition ID_PUB_LEN :: nat where "ID_PUB_LEN = 97"
definition UNWRAPPING_KEY_BK_LEN :: nat where "UNWRAPPING_KEY_BK_LEN = 516"
definition PART_CERT_DATA_LEN :: nat where "PART_CERT_DATA_LEN = 800"
definition MASKED_BK_BOOT_DATA_LEN :: nat where "MASKED_BK_BOOT_DATA_LEN = 300"
definition SEALED_BK3_DATA_LEN :: nat where "SEALED_BK3_DATA_LEN = 512"
definition BK3_KEY_LEN :: nat where "BK3_KEY_LEN = 48"
definition NONCE_LEN :: nat where "NONCE_LEN = 32"
definition GUID_LEN :: nat where "GUID_LEN = 16"
definition SESSION_TABLE_LEN :: nat where "SESSION_TABLE_LEN = 18"
definition POLICY_HASH_LEN :: nat where "POLICY_HASH_LEN = 48"
definition POTA_THUMBPRINT_LEN :: nat where "POTA_THUMBPRINT_LEN = 48"
definition SATA_THUMBPRINT_LEN :: nat where "SATA_THUMBPRINT_LEN = 48"
definition SAPOTA_THUMBPRINT_LEN :: nat where "SAPOTA_THUMBPRINT_LEN = 48"
definition PUB_KEY_LEN :: nat where "PUB_KEY_LEN = 96"
definition PSK_LEN :: nat where "PSK_LEN = 32"
definition CREDENTIAL_LEN :: nat where "CREDENTIAL_LEN = 32"
definition RES_MASK_LEN :: nat where "RES_MASK_LEN = 16"
definition STORE_VERSION :: u8 where "STORE_VERSION = 1"
definition RESERVED3_LEN :: nat where
  "RESERVED3_LEN = 626 - POLICY_HASH_LEN - POTA_THUMBPRINT_LEN - SATA_THUMBPRINT_LEN - SAPOTA_THUMBPRINT_LEN
     - 4 - 4 - RES_MASK_LEN - 10 * 2 - PUB_KEY_LEN - PUB_KEY_LEN - PSK_LEN - PSK_LEN - CREDENTIAL_LEN - 1
     - PUB_KEY_LEN - 2"

definition FLAG_CREDENTIAL_VALID :: u8 where "FLAG_CREDENTIAL_VALID = push_bit 0 1"
definition FLAG_POTA_THUMBPRINT_VALID :: u8 where "FLAG_POTA_THUMBPRINT_VALID = push_bit 1 1"
definition FLAG_SATA_THUMBPRINT_VALID :: u8 where "FLAG_SATA_THUMBPRINT_VALID = push_bit 2 1"
definition FLAG_SAPOTA_THUMBPRINT_VALID :: u8 where "FLAG_SAPOTA_THUMBPRINT_VALID = push_bit 3 1"
definition FLAG_PTA_PUB_KEY_VALID :: u8 where "FLAG_PTA_PUB_KEY_VALID = push_bit 4 1"
definition FLAG_POLICY_HASH_VALID :: u8 where "FLAG_POLICY_HASH_VALID = push_bit 5 1"
definition FLAG_BK3_INITIALIZED :: u8 where "FLAG_BK3_INITIALIZED = push_bit 6 1"
definition FLAG_SD_INITIALIZED :: u8 where "FLAG_SD_INITIALIZED = push_bit 7 1"
definition KEY_ABSENT :: u16 where "KEY_ABSENT = 0xFFFF"

lemmas store_lens = NUM_PARTITIONS_def ID_LEN_def ID_PRIV_LEN_def ID_PUB_LEN_def UNWRAPPING_KEY_BK_LEN_def PART_CERT_DATA_LEN_def MASKED_BK_BOOT_DATA_LEN_def SEALED_BK3_DATA_LEN_def BK3_KEY_LEN_def NONCE_LEN_def GUID_LEN_def SESSION_TABLE_LEN_def POLICY_HASH_LEN_def POTA_THUMBPRINT_LEN_def SATA_THUMBPRINT_LEN_def SAPOTA_THUMBPRINT_LEN_def PUB_KEY_LEN_def PSK_LEN_def CREDENTIAL_LEN_def RES_MASK_LEN_def RESERVED3_LEN_def

definition DEFAULT_PSK_CO :: "u8 list" where
  "DEFAULT_PSK_CO =
    [0x41, 0x5a, 0x49, 0x48, 0x53, 0x4d, 0x2d, 0x44, 0x45, 0x46, 0x41, 0x55, 0x4c, 0x54, 0x2d, 0x43,
     0x4f, 0x2d, 0x50, 0x53, 0x4b, 0x2d, 0x76, 0x31, 0x2d, 0x2d, 0x2d, 0x2d, 0x2d, 0x2d, 0x2d, 0x2d]"

definition DEFAULT_PSK_CU :: "u8 list" where
  "DEFAULT_PSK_CU =
    [0x41, 0x5a, 0x49, 0x48, 0x53, 0x4d, 0x2d, 0x44, 0x45, 0x46, 0x41, 0x55, 0x4c, 0x54, 0x2d, 0x43,
     0x55, 0x2d, 0x50, 0x53, 0x4b, 0x2d, 0x76, 0x31, 0x2d, 0x2d, 0x2d, 0x2d, 0x2d, 0x2d, 0x2d, 0x2d]"

section \<open>Key handles\<close>

definition read_handle :: "u8 list \<Rightarrow> u16 option" where
  "read_handle bytes = (let raw = from_le bytes in if raw \<noteq> KEY_ABSENT then Some raw else None)"

definition write_handle :: "u16 option \<Rightarrow> u8 list" where
  "write_handle k = to_le 2 (case k of Some raw \<Rightarrow> raw | None \<Rightarrow> KEY_ABSENT)"

section \<open>The slot\<close>

datatype PinPolicyState = Ready | Lockout

record PinPolicy =
  pp_state :: PinPolicyState
  pp_delay_factor :: u16
  pp_allowed_attempts :: u16
  pp_lockout_time :: "u8 list"

definition PinPolicy_default :: PinPolicy where
  "PinPolicy_default =
     \<lparr>pp_state = Ready, pp_delay_factor = 0, pp_allowed_attempts = 0, pp_lockout_time = replicate 8 0\<rparr>"

record PartitionIdentifier =
  pi_id :: "u8 list"
  pi_priv_key :: "u8 list"
  pi_pub_key :: "u8 list"

record PartitionCert =
  pc_length :: u32
  pc_data :: "u8 list"

record MaskedBkBoot =
  mbb_len :: u32
  mbb_data :: "u8 list"

record SealedBk3 =
  sb3_len :: u32
  sb3_data :: "u8 list"

record Bk3SessionKey =
  bsk_is_valid :: bool
  bsk_key :: "u8 list"

record Storage =
  st_version :: u8
  st_flags :: "u8 list"
  st_session_table :: "u8 list"
  st_unwrapping_key_required :: bool
  st_unwrapping_key_bk_valid :: u8
  st_unwrapping_key_bk :: "u8 list"
  st_pin_policy :: PinPolicy
  st_vm_launch_guid :: "u8 list"
  st_partition_id_valid :: bool
  st_reserved2 :: u8
  st_partition_identifier :: PartitionIdentifier
  st_partition_cert_valid :: bool
  st_partition_cert :: PartitionCert
  st_masked_bk_boot :: MaskedBkBoot
  st_sealed_bk3 :: SealedBk3
  st_nonce :: "u8 list"
  st_bk3_session_key :: Bk3SessionKey
  st_state :: "u8 list"
  st_generation :: "u8 list"
  st_res_mask :: "u8 list"
  st_ec_pub_key :: "u8 list"
  st_se_pub_key :: "u8 list"
  st_pta_pub_key :: "u8 list"
  st_psk_co :: "u8 list"
  st_psk_cu :: "u8 list"
  st_credential :: "u8 list"
  st_policy_hash :: "u8 list"
  st_pota_thumbprint :: "u8 list"
  st_sata_thumbprint :: "u8 list"
  st_sapota_thumbprint :: "u8 list"
  st_id_key_id :: "u8 list"
  st_ec_key_id :: "u8 list"
  st_se_key_id :: "u8 list"
  st_mk_key_id :: "u8 list"
  st_ups_key_id :: "u8 list"
  st_pta_key_id :: "u8 list"
  st_unwrapping_key_id :: "u8 list"
  st_local_mk_key_id :: "u8 list"
  st_ephemeral_mk_key_id :: "u8 list"
  st_sd_mk_key_id :: "u8 list"
  st_valid_flags :: u8
  st_session_meta :: "u8 list"
  st_reserved3 :: "u8 list"

definition Storage_zeroed :: Storage where
  "Storage_zeroed =
     \<lparr>st_version = 0,
      st_flags = replicate 3 0,
      st_session_table = replicate SESSION_TABLE_LEN 0,
      st_unwrapping_key_required = False,
      st_unwrapping_key_bk_valid = 0,
      st_unwrapping_key_bk = replicate UNWRAPPING_KEY_BK_LEN 0,
      st_pin_policy = PinPolicy_default,
      st_vm_launch_guid = replicate GUID_LEN 0,
      st_partition_id_valid = False,
      st_reserved2 = 0,
      st_partition_identifier = 
       \<lparr>pi_id = replicate ID_LEN 0, pi_priv_key = replicate ID_PRIV_LEN 0, pi_pub_key = replicate ID_PUB_LEN 0\<rparr>,
      st_partition_cert_valid = False,
      st_partition_cert = \<lparr>pc_length = 0, pc_data = replicate PART_CERT_DATA_LEN 0\<rparr>,
      st_masked_bk_boot = \<lparr>mbb_len = 0, mbb_data = replicate MASKED_BK_BOOT_DATA_LEN 0\<rparr>,
      st_sealed_bk3 = \<lparr>sb3_len = 0, sb3_data = replicate SEALED_BK3_DATA_LEN 0\<rparr>,
      st_nonce = replicate NONCE_LEN 0,
      st_bk3_session_key = \<lparr>bsk_is_valid = False, bsk_key = replicate BK3_KEY_LEN 0\<rparr>,
      st_state = replicate 4 0,
      st_generation = replicate 4 0,
      st_res_mask = replicate RES_MASK_LEN 0,
      st_ec_pub_key = replicate PUB_KEY_LEN 0,
      st_se_pub_key = replicate PUB_KEY_LEN 0,
      st_pta_pub_key = replicate PUB_KEY_LEN 0,
      st_psk_co = replicate PSK_LEN 0,
      st_psk_cu = replicate PSK_LEN 0,
      st_credential = replicate CREDENTIAL_LEN 0,
      st_policy_hash = replicate POLICY_HASH_LEN 0,
      st_pota_thumbprint = replicate POTA_THUMBPRINT_LEN 0,
      st_sata_thumbprint = replicate SATA_THUMBPRINT_LEN 0,
      st_sapota_thumbprint = replicate SAPOTA_THUMBPRINT_LEN 0,
      st_id_key_id = replicate 2 0,
      st_ec_key_id = replicate 2 0,
      st_se_key_id = replicate 2 0,
      st_mk_key_id = replicate 2 0,
      st_ups_key_id = replicate 2 0,
      st_pta_key_id = replicate 2 0,
      st_unwrapping_key_id = replicate 2 0,
      st_local_mk_key_id = replicate 2 0,
      st_ephemeral_mk_key_id = replicate 2 0,
      st_sd_mk_key_id = replicate 2 0,
      st_valid_flags = 0,
      st_session_meta = replicate 2 0,
      st_reserved3 = replicate RESERVED3_LEN 0\<rparr>"

text \<open>The length of every byte field of the slot.\<close>

definition storage_wf :: "Storage \<Rightarrow> bool" where
  "storage_wf s \<longleftrightarrow>
     length (st_flags s) = 3 \<and>
     length (st_session_table s) = SESSION_TABLE_LEN \<and>
     length (st_unwrapping_key_bk s) = UNWRAPPING_KEY_BK_LEN \<and>
     length (st_vm_launch_guid s) = GUID_LEN \<and>
     length (st_nonce s) = NONCE_LEN \<and>
     length (st_state s) = 4 \<and>
     length (st_generation s) = 4 \<and>
     length (st_res_mask s) = RES_MASK_LEN \<and>
     length (st_ec_pub_key s) = PUB_KEY_LEN \<and>
     length (st_se_pub_key s) = PUB_KEY_LEN \<and>
     length (st_pta_pub_key s) = PUB_KEY_LEN \<and>
     length (st_psk_co s) = PSK_LEN \<and>
     length (st_psk_cu s) = PSK_LEN \<and>
     length (st_credential s) = CREDENTIAL_LEN \<and>
     length (st_policy_hash s) = POLICY_HASH_LEN \<and>
     length (st_pota_thumbprint s) = POTA_THUMBPRINT_LEN \<and>
     length (st_sata_thumbprint s) = SATA_THUMBPRINT_LEN \<and>
     length (st_sapota_thumbprint s) = SAPOTA_THUMBPRINT_LEN \<and>
     length (st_id_key_id s) = 2 \<and>
     length (st_ec_key_id s) = 2 \<and>
     length (st_se_key_id s) = 2 \<and>
     length (st_mk_key_id s) = 2 \<and>
     length (st_ups_key_id s) = 2 \<and>
     length (st_pta_key_id s) = 2 \<and>
     length (st_unwrapping_key_id s) = 2 \<and>
     length (st_local_mk_key_id s) = 2 \<and>
     length (st_ephemeral_mk_key_id s) = 2 \<and>
     length (st_sd_mk_key_id s) = 2 \<and>
     length (st_session_meta s) = 2 \<and>
     length (st_reserved3 s) = RESERVED3_LEN \<and>
     length (pi_id (st_partition_identifier s)) = ID_LEN \<and>
     length (pi_priv_key (st_partition_identifier s)) = ID_PRIV_LEN \<and>
     length (pi_pub_key (st_partition_identifier s)) = ID_PUB_LEN \<and>
     length (pc_data (st_partition_cert s)) = PART_CERT_DATA_LEN \<and>
     length (mbb_data (st_masked_bk_boot s)) = MASKED_BK_BOOT_DATA_LEN \<and>
     length (sb3_data (st_sealed_bk3 s)) = SEALED_BK3_DATA_LEN \<and>
     length (bsk_key (st_bk3_session_key s)) = BK3_KEY_LEN"

datatype PartResetKind = Migrate | Disable

definition partition :: "u8 \<Rightarrow> nat run" where
  "partition pid = (let idx = unat pid in if idx < NUM_PARTITIONS then Ok idx else Err InvalidArg)"

section \<open>Accessors\<close>

text \<open>Identity.\<close>

definition ps_id :: "Storage \<Rightarrow> u8 list" where "ps_id s = pi_id (st_partition_identifier s)"

definition ps_id_mut :: "(u8 list \<Rightarrow> u8 list) \<Rightarrow> Storage \<Rightarrow> Storage" where
  "ps_id_mut f s =
     s\<lparr>st_partition_identifier := (st_partition_identifier s)\<lparr>pi_id := f (pi_id (st_partition_identifier s))\<rparr>\<rparr>"

definition ps_set_id :: "u8 list \<Rightarrow> (Storage, unit) op" where
  "ps_set_id v s = (if length v \<noteq> ID_LEN then (Err InvalidArg, s) else (Ok (), ps_id_mut (\<lambda>_. v) s))"

definition ps_id_pub_key :: "Storage \<Rightarrow> u8 list" where
  "ps_id_pub_key s = take PUB_KEY_LEN (pi_pub_key (st_partition_identifier s))"

definition ps_id_pub_key_mut :: "(u8 list \<Rightarrow> u8 list) \<Rightarrow> Storage \<Rightarrow> Storage" where
  "ps_id_pub_key_mut f s =
     (let pk = pi_pub_key (st_partition_identifier s) in
      s\<lparr>st_partition_identifier := (st_partition_identifier s)
          \<lparr>pi_pub_key := f (take PUB_KEY_LEN pk) @ drop PUB_KEY_LEN pk\<rparr>\<rparr>)"

definition ps_set_id_pub_key :: "u8 list \<Rightarrow> (Storage, unit) op" where
  "ps_set_id_pub_key v s =
     (if length v \<noteq> PUB_KEY_LEN then (Err InvalidArg, s) else (Ok (), ps_id_pub_key_mut (\<lambda>_. v) s))"

definition ps_id_valid :: "Storage \<Rightarrow> bool" where "ps_id_valid s = st_partition_id_valid s"

definition ps_set_id_valid :: "bool \<Rightarrow> Storage \<Rightarrow> Storage" where
  "ps_set_id_valid valid s = s\<lparr>st_partition_id_valid := valid\<rparr>"

text \<open>Plain byte fields.\<close>

definition ps_nonce :: "Storage \<Rightarrow> u8 list" where "ps_nonce s = st_nonce s"

definition ps_nonce_mut :: "(u8 list \<Rightarrow> u8 list) \<Rightarrow> Storage \<Rightarrow> Storage" where
  "ps_nonce_mut f s = s\<lparr>st_nonce := f (st_nonce s)\<rparr>"

definition ps_set_nonce :: "u8 list \<Rightarrow> (Storage, unit) op" where
  "ps_set_nonce v s = (if length v \<noteq> NONCE_LEN then (Err InvalidArg, s) else (Ok (), s\<lparr>st_nonce := v\<rparr>))"

definition ps_vm_launch_guid :: "Storage \<Rightarrow> u8 list" where "ps_vm_launch_guid s = st_vm_launch_guid s"

definition ps_vm_launch_guid_mut :: "(u8 list \<Rightarrow> u8 list) \<Rightarrow> Storage \<Rightarrow> Storage" where
  "ps_vm_launch_guid_mut f s = s\<lparr>st_vm_launch_guid := f (st_vm_launch_guid s)\<rparr>"

definition ps_set_vm_launch_guid :: "u8 list \<Rightarrow> (Storage, unit) op" where
  "ps_set_vm_launch_guid v s = (if length v \<noteq> GUID_LEN then (Err InvalidArg, s) else (Ok (), s\<lparr>st_vm_launch_guid := v\<rparr>))"

definition ps_ec_pub_key :: "Storage \<Rightarrow> u8 list" where "ps_ec_pub_key s = st_ec_pub_key s"

definition ps_ec_pub_key_mut :: "(u8 list \<Rightarrow> u8 list) \<Rightarrow> Storage \<Rightarrow> Storage" where
  "ps_ec_pub_key_mut f s = s\<lparr>st_ec_pub_key := f (st_ec_pub_key s)\<rparr>"

definition ps_set_ec_pub_key :: "u8 list \<Rightarrow> (Storage, unit) op" where
  "ps_set_ec_pub_key v s = (if length v \<noteq> PUB_KEY_LEN then (Err InvalidArg, s) else (Ok (), s\<lparr>st_ec_pub_key := v\<rparr>))"

definition ps_se_pub_key :: "Storage \<Rightarrow> u8 list" where "ps_se_pub_key s = st_se_pub_key s"

definition ps_se_pub_key_mut :: "(u8 list \<Rightarrow> u8 list) \<Rightarrow> Storage \<Rightarrow> Storage" where
  "ps_se_pub_key_mut f s = s\<lparr>st_se_pub_key := f (st_se_pub_key s)\<rparr>"

definition ps_set_se_pub_key :: "u8 list \<Rightarrow> (Storage, unit) op" where
  "ps_set_se_pub_key v s = (if length v \<noteq> PUB_KEY_LEN then (Err InvalidArg, s) else (Ok (), s\<lparr>st_se_pub_key := v\<rparr>))"

definition ps_psk_co :: "Storage \<Rightarrow> u8 list" where "ps_psk_co s = st_psk_co s"

definition ps_psk_co_mut :: "(u8 list \<Rightarrow> u8 list) \<Rightarrow> Storage \<Rightarrow> Storage" where
  "ps_psk_co_mut f s = s\<lparr>st_psk_co := f (st_psk_co s)\<rparr>"

definition ps_set_psk_co :: "u8 list \<Rightarrow> (Storage, unit) op" where
  "ps_set_psk_co v s = (if length v \<noteq> PSK_LEN then (Err InvalidArg, s) else (Ok (), s\<lparr>st_psk_co := v\<rparr>))"

definition ps_psk_cu :: "Storage \<Rightarrow> u8 list" where "ps_psk_cu s = st_psk_cu s"

definition ps_psk_cu_mut :: "(u8 list \<Rightarrow> u8 list) \<Rightarrow> Storage \<Rightarrow> Storage" where
  "ps_psk_cu_mut f s = s\<lparr>st_psk_cu := f (st_psk_cu s)\<rparr>"

definition ps_set_psk_cu :: "u8 list \<Rightarrow> (Storage, unit) op" where
  "ps_set_psk_cu v s = (if length v \<noteq> PSK_LEN then (Err InvalidArg, s) else (Ok (), s\<lparr>st_psk_cu := v\<rparr>))"

text \<open>Length-prefixed blobs.\<close>

definition ps_masked_bk_boot :: "Storage \<Rightarrow> u8 list" where
  "ps_masked_bk_boot s =
     (let len = min (unat (mbb_len (st_masked_bk_boot s))) MASKED_BK_BOOT_DATA_LEN
      in take len (mbb_data (st_masked_bk_boot s)))"

definition ps_set_masked_bk_boot :: "u8 list \<Rightarrow> (Storage, unit) op" where
  "ps_set_masked_bk_boot v s =
     (if length v > MASKED_BK_BOOT_DATA_LEN then (Err InvalidArg, s)
      else (Ok (), s\<lparr>st_masked_bk_boot :=
        \<lparr>mbb_len = of_nat (length v),
         mbb_data = v @ replicate (length (mbb_data (st_masked_bk_boot s)) - length v) 0\<rparr>\<rparr>))"

definition ps_clear_masked_bk_boot :: "Storage \<Rightarrow> Storage" where
  "ps_clear_masked_bk_boot s =
     s\<lparr>st_masked_bk_boot := \<lparr>mbb_len = 0, mbb_data = replicate MASKED_BK_BOOT_DATA_LEN 0\<rparr>\<rparr>"

definition ps_sealed_bk3 :: "Storage \<Rightarrow> u8 list" where
  "ps_sealed_bk3 s =
     (let len = min (unat (sb3_len (st_sealed_bk3 s))) SEALED_BK3_DATA_LEN in take len (sb3_data (st_sealed_bk3 s)))"

definition ps_set_sealed_bk3 :: "u8 list \<Rightarrow> (Storage, unit) op" where
  "ps_set_sealed_bk3 v s =
     (if length v > SEALED_BK3_DATA_LEN then (Err InvalidArg, s)
      else if sb3_len (st_sealed_bk3 s) \<noteq> 0 then (Err SealedBk3AlreadySet, s)
      else (Ok (), s\<lparr>st_sealed_bk3 :=
        \<lparr>sb3_len = of_nat (length v),
         sb3_data = v @ replicate (length (sb3_data (st_sealed_bk3 s)) - length v) 0\<rparr>\<rparr>))"

definition ps_clear_sealed_bk3 :: "Storage \<Rightarrow> Storage" where
  "ps_clear_sealed_bk3 s = s\<lparr>st_sealed_bk3 := \<lparr>sb3_len = 0, sb3_data = replicate SEALED_BK3_DATA_LEN 0\<rparr>\<rparr>"

definition ps_bk3_session :: "Storage \<Rightarrow> u8 list" where "ps_bk3_session s = bsk_key (st_bk3_session_key s)"

definition ps_set_bk3_session :: "u8 list \<Rightarrow> (Storage, unit) op" where
  "ps_set_bk3_session v s =
     (if length v \<noteq> BK3_KEY_LEN then (Err InvalidArg, s)
      else (Ok (), s\<lparr>st_bk3_session_key := \<lparr>bsk_is_valid = True, bsk_key = v\<rparr>\<rparr>))"

definition ps_bk3_session_valid :: "Storage \<Rightarrow> bool" where
  "ps_bk3_session_valid s = bsk_is_valid (st_bk3_session_key s)"

definition ps_clear_bk3_session :: "Storage \<Rightarrow> Storage" where
  "ps_clear_bk3_session s =
     s\<lparr>st_bk3_session_key := \<lparr>bsk_is_valid = False, bsk_key = replicate BK3_KEY_LEN 0\<rparr>\<rparr>"

text \<open>The packed flags.\<close>

definition flag_set :: "u8 \<Rightarrow> Storage \<Rightarrow> bool" where "flag_set f s \<longleftrightarrow> st_valid_flags s AND f \<noteq> 0"

definition raise_flag :: "u8 \<Rightarrow> Storage \<Rightarrow> Storage" where
  "raise_flag f s = s\<lparr>st_valid_flags := st_valid_flags s OR f\<rparr>"

definition drop_flag :: "u8 \<Rightarrow> Storage \<Rightarrow> Storage" where
  "drop_flag f s = s\<lparr>st_valid_flags := st_valid_flags s AND NOT f\<rparr>"

definition ps_bk3_initialized :: "Storage \<Rightarrow> bool" where
  "ps_bk3_initialized s = flag_set FLAG_BK3_INITIALIZED s"

definition ps_set_bk3_initialized :: "bool \<Rightarrow> Storage \<Rightarrow> Storage" where
  "ps_set_bk3_initialized valid s =
     (if valid then raise_flag FLAG_BK3_INITIALIZED s else drop_flag FLAG_BK3_INITIALIZED s)"

definition ps_sd_initialized :: "Storage \<Rightarrow> bool" where
  "ps_sd_initialized s = flag_set FLAG_SD_INITIALIZED s"

definition ps_set_sd_initialized :: "bool \<Rightarrow> Storage \<Rightarrow> Storage" where
  "ps_set_sd_initialized valid s =
     (if valid then raise_flag FLAG_SD_INITIALIZED s else drop_flag FLAG_SD_INITIALIZED s)"

definition ps_pin_policy :: "Storage \<Rightarrow> PinPolicy" where "ps_pin_policy s = st_pin_policy s"

definition ps_set_pin_policy :: "PinPolicy \<Rightarrow> Storage \<Rightarrow> Storage" where
  "ps_set_pin_policy policy s = s\<lparr>st_pin_policy := policy\<rparr>"

text \<open>Byte fields with a presence flag.\<close>

definition ps_policy_hash :: "Storage \<Rightarrow> u8 list" where "ps_policy_hash s = st_policy_hash s"

definition ps_policy_hash_mut :: "(u8 list \<Rightarrow> u8 list) \<Rightarrow> Storage \<Rightarrow> Storage" where
  "ps_policy_hash_mut f s = s\<lparr>st_policy_hash := f (st_policy_hash s)\<rparr>"

definition ps_set_policy_hash :: "u8 list \<Rightarrow> (Storage, unit) op" where
  "ps_set_policy_hash v s =
     (if length v \<noteq> POLICY_HASH_LEN then (Err InvalidArg, s)
      else (Ok (), raise_flag FLAG_POLICY_HASH_VALID (s\<lparr>st_policy_hash := v\<rparr>)))"

definition ps_policy_hash_valid :: "Storage \<Rightarrow> bool" where "ps_policy_hash_valid s = flag_set FLAG_POLICY_HASH_VALID s"

definition ps_clear_policy_hash :: "Storage \<Rightarrow> Storage" where
  "ps_clear_policy_hash s = drop_flag FLAG_POLICY_HASH_VALID (s\<lparr>st_policy_hash := replicate POLICY_HASH_LEN 0\<rparr>)"

definition ps_pota_thumbprint :: "Storage \<Rightarrow> u8 list" where "ps_pota_thumbprint s = st_pota_thumbprint s"

definition ps_pota_thumbprint_mut :: "(u8 list \<Rightarrow> u8 list) \<Rightarrow> Storage \<Rightarrow> Storage" where
  "ps_pota_thumbprint_mut f s = s\<lparr>st_pota_thumbprint := f (st_pota_thumbprint s)\<rparr>"

definition ps_set_pota_thumbprint :: "u8 list \<Rightarrow> (Storage, unit) op" where
  "ps_set_pota_thumbprint v s =
     (if length v \<noteq> POTA_THUMBPRINT_LEN then (Err InvalidArg, s)
      else (Ok (), raise_flag FLAG_POTA_THUMBPRINT_VALID (s\<lparr>st_pota_thumbprint := v\<rparr>)))"

definition ps_pota_thumbprint_valid :: "Storage \<Rightarrow> bool" where "ps_pota_thumbprint_valid s = flag_set FLAG_POTA_THUMBPRINT_VALID s"

definition ps_clear_pota_thumbprint :: "Storage \<Rightarrow> Storage" where
  "ps_clear_pota_thumbprint s = drop_flag FLAG_POTA_THUMBPRINT_VALID (s\<lparr>st_pota_thumbprint := replicate POTA_THUMBPRINT_LEN 0\<rparr>)"

definition ps_sata_thumbprint :: "Storage \<Rightarrow> u8 list" where "ps_sata_thumbprint s = st_sata_thumbprint s"

definition ps_set_sata_thumbprint :: "u8 list \<Rightarrow> (Storage, unit) op" where
  "ps_set_sata_thumbprint v s =
     (if length v \<noteq> SATA_THUMBPRINT_LEN then (Err InvalidArg, s)
      else (Ok (), raise_flag FLAG_SATA_THUMBPRINT_VALID (s\<lparr>st_sata_thumbprint := v\<rparr>)))"

definition ps_sata_thumbprint_valid :: "Storage \<Rightarrow> bool" where "ps_sata_thumbprint_valid s = flag_set FLAG_SATA_THUMBPRINT_VALID s"

definition ps_clear_sata_thumbprint :: "Storage \<Rightarrow> Storage" where
  "ps_clear_sata_thumbprint s = drop_flag FLAG_SATA_THUMBPRINT_VALID (s\<lparr>st_sata_thumbprint := replicate SATA_THUMBPRINT_LEN 0\<rparr>)"

definition ps_sapota_thumbprint :: "Storage \<Rightarrow> u8 list" where "ps_sapota_thumbprint s = st_sapota_thumbprint s"

definition ps_set_sapota_thumbprint :: "u8 list \<Rightarrow> (Storage, unit) op" where
  "ps_set_sapota_thumbprint v s =
     (if length v \<noteq> SAPOTA_THUMBPRINT_LEN then (Err InvalidArg, s)
      else (Ok (), raise_flag FLAG_SAPOTA_THUMBPRINT_VALID (s\<lparr>st_sapota_thumbprint := v\<rparr>)))"

definition ps_sapota_thumbprint_valid :: "Storage \<Rightarrow> bool" where "ps_sapota_thumbprint_valid s = flag_set FLAG_SAPOTA_THUMBPRINT_VALID s"

definition ps_clear_sapota_thumbprint :: "Storage \<Rightarrow> Storage" where
  "ps_clear_sapota_thumbprint s = drop_flag FLAG_SAPOTA_THUMBPRINT_VALID (s\<lparr>st_sapota_thumbprint := replicate SAPOTA_THUMBPRINT_LEN 0\<rparr>)"

definition ps_pta_pub_key :: "Storage \<Rightarrow> u8 list" where "ps_pta_pub_key s = st_pta_pub_key s"

definition ps_set_pta_pub_key :: "u8 list \<Rightarrow> (Storage, unit) op" where
  "ps_set_pta_pub_key v s =
     (if length v \<noteq> PUB_KEY_LEN then (Err InvalidArg, s)
      else (Ok (), raise_flag FLAG_PTA_PUB_KEY_VALID (s\<lparr>st_pta_pub_key := v\<rparr>)))"

definition ps_pta_pub_key_valid :: "Storage \<Rightarrow> bool" where "ps_pta_pub_key_valid s = flag_set FLAG_PTA_PUB_KEY_VALID s"

definition ps_clear_pta_pub_key :: "Storage \<Rightarrow> Storage" where
  "ps_clear_pta_pub_key s = drop_flag FLAG_PTA_PUB_KEY_VALID (s\<lparr>st_pta_pub_key := replicate PUB_KEY_LEN 0\<rparr>)"

definition ps_credential :: "Storage \<Rightarrow> u8 list" where "ps_credential s = st_credential s"

definition ps_credential_mut :: "(u8 list \<Rightarrow> u8 list) \<Rightarrow> Storage \<Rightarrow> Storage" where
  "ps_credential_mut f s = s\<lparr>st_credential := f (st_credential s)\<rparr>"

definition ps_set_credential :: "u8 list \<Rightarrow> (Storage, unit) op" where
  "ps_set_credential v s =
     (if length v \<noteq> CREDENTIAL_LEN then (Err InvalidArg, s)
      else (Ok (), raise_flag FLAG_CREDENTIAL_VALID (s\<lparr>st_credential := v\<rparr>)))"

definition ps_credential_valid :: "Storage \<Rightarrow> bool" where "ps_credential_valid s = flag_set FLAG_CREDENTIAL_VALID s"

definition ps_clear_credential :: "Storage \<Rightarrow> Storage" where
  "ps_clear_credential s = drop_flag FLAG_CREDENTIAL_VALID (s\<lparr>st_credential := replicate CREDENTIAL_LEN 0\<rparr>)"

text \<open>Lifecycle state, generation and resource mask.\<close>

definition ps_state :: "Storage \<Rightarrow> PartState run" where
  "ps_state s = (case part_state_from_u8 (st_state s ! 0) of Some st \<Rightarrow> Ok st | None \<Rightarrow> Err InvalidArg)"

definition ps_set_state :: "PartState \<Rightarrow> Storage \<Rightarrow> Storage" where
  "ps_set_state st s = s\<lparr>st_state := [part_state_u8 st, 0, 0, 0]\<rparr>"

definition ps_generation :: "Storage \<Rightarrow> u32" where "ps_generation s = from_le (st_generation s)"

definition ps_set_generation :: "u32 \<Rightarrow> Storage \<Rightarrow> Storage" where
  "ps_set_generation g s = s\<lparr>st_generation := to_le 4 g\<rparr>"

definition ps_bump_generation :: "Storage \<Rightarrow> Storage" where
  "ps_bump_generation s = ps_set_generation (ps_generation s + 1) s"

definition ps_res_mask :: "Storage \<Rightarrow> u128" where "ps_res_mask s = from_le (st_res_mask s)"

definition ps_set_res_mask :: "u128 \<Rightarrow> Storage \<Rightarrow> Storage" where
  "ps_set_res_mask m s = s\<lparr>st_res_mask := to_le 16 m\<rparr>"

text \<open>Key handles. The identity handle keeps the identity flag in step.\<close>

definition ps_id_key_id :: "Storage \<Rightarrow> u16 option" where "ps_id_key_id s = read_handle (st_id_key_id s)"

definition ps_set_id_key_id :: "u16 option \<Rightarrow> Storage \<Rightarrow> Storage" where
  "ps_set_id_key_id k s = s\<lparr>st_id_key_id := write_handle k, st_partition_id_valid := (k \<noteq> None)\<rparr>"

definition ps_ec_key_id :: "Storage \<Rightarrow> u16 option" where "ps_ec_key_id s = read_handle (st_ec_key_id s)"

definition ps_set_ec_key_id :: "u16 option \<Rightarrow> Storage \<Rightarrow> Storage" where
  "ps_set_ec_key_id k s = s\<lparr>st_ec_key_id := write_handle k\<rparr>"

definition ps_se_key_id :: "Storage \<Rightarrow> u16 option" where "ps_se_key_id s = read_handle (st_se_key_id s)"

definition ps_set_se_key_id :: "u16 option \<Rightarrow> Storage \<Rightarrow> Storage" where
  "ps_set_se_key_id k s = s\<lparr>st_se_key_id := write_handle k\<rparr>"

definition ps_mk_key_id :: "Storage \<Rightarrow> u16 option" where "ps_mk_key_id s = read_handle (st_mk_key_id s)"

definition ps_set_mk_key_id :: "u16 option \<Rightarrow> Storage \<Rightarrow> Storage" where
  "ps_set_mk_key_id k s = s\<lparr>st_mk_key_id := write_handle k\<rparr>"

definition ps_ups_key_id :: "Storage \<Rightarrow> u16 option" where "ps_ups_key_id s = read_handle (st_ups_key_id s)"

definition ps_set_ups_key_id :: "u16 option \<Rightarrow> Storage \<Rightarrow> Storage" where
  "ps_set_ups_key_id k s = s\<lparr>st_ups_key_id := write_handle k\<rparr>"

definition ps_pta_key_id :: "Storage \<Rightarrow> u16 option" where "ps_pta_key_id s = read_handle (st_pta_key_id s)"

definition ps_set_pta_key_id :: "u16 option \<Rightarrow> Storage \<Rightarrow> Storage" where
  "ps_set_pta_key_id k s = s\<lparr>st_pta_key_id := write_handle k\<rparr>"

definition ps_unwrapping_key_id :: "Storage \<Rightarrow> u16 option" where "ps_unwrapping_key_id s = read_handle (st_unwrapping_key_id s)"

definition ps_set_unwrapping_key_id :: "u16 option \<Rightarrow> Storage \<Rightarrow> Storage" where
  "ps_set_unwrapping_key_id k s = s\<lparr>st_unwrapping_key_id := write_handle k\<rparr>"

definition ps_local_mk_key_id :: "Storage \<Rightarrow> u16 option" where "ps_local_mk_key_id s = read_handle (st_local_mk_key_id s)"

definition ps_set_local_mk_key_id :: "u16 option \<Rightarrow> Storage \<Rightarrow> Storage" where
  "ps_set_local_mk_key_id k s = s\<lparr>st_local_mk_key_id := write_handle k\<rparr>"

definition ps_ephemeral_mk_key_id :: "Storage \<Rightarrow> u16 option" where "ps_ephemeral_mk_key_id s = read_handle (st_ephemeral_mk_key_id s)"

definition ps_set_ephemeral_mk_key_id :: "u16 option \<Rightarrow> Storage \<Rightarrow> Storage" where
  "ps_set_ephemeral_mk_key_id k s = s\<lparr>st_ephemeral_mk_key_id := write_handle k\<rparr>"

definition ps_sd_mk_key_id :: "Storage \<Rightarrow> u16 option" where "ps_sd_mk_key_id s = read_handle (st_sd_mk_key_id s)"

definition ps_set_sd_mk_key_id :: "u16 option \<Rightarrow> Storage \<Rightarrow> Storage" where
  "ps_set_sd_mk_key_id k s = s\<lparr>st_sd_mk_key_id := write_handle k\<rparr>"

text \<open>The unwrapping key mailbox shared with the other processor.\<close>

definition ps_unwrapping_key_required :: "Storage \<Rightarrow> bool" where
  "ps_unwrapping_key_required s = st_unwrapping_key_required s"

definition ps_set_unwrapping_key_required :: "bool \<Rightarrow> Storage \<Rightarrow> Storage" where
  "ps_set_unwrapping_key_required required s = s\<lparr>st_unwrapping_key_required := required\<rparr>"

definition ps_unwrapping_key_bk_valid :: "Storage \<Rightarrow> bool" where
  "ps_unwrapping_key_bk_valid s \<longleftrightarrow> st_unwrapping_key_bk_valid s \<noteq> 0"

definition ps_unwrapping_key_bk :: "Storage \<Rightarrow> u8 list" where
  "ps_unwrapping_key_bk s = st_unwrapping_key_bk s"

definition ps_clear_unwrapping_key :: "Storage \<Rightarrow> Storage" where
  "ps_clear_unwrapping_key s =
     s\<lparr>st_unwrapping_key_required := False,
       st_unwrapping_key_bk := replicate (length (st_unwrapping_key_bk s)) 0,
       st_unwrapping_key_bk_valid := 0\<rparr>"

text \<open>The session regions, and the typed view of the session store on them.\<close>

definition ps_session_table :: "Storage \<Rightarrow> u8 list" where "ps_session_table s = st_session_table s"

definition ps_session_table_mut :: "(u8 list \<Rightarrow> u8 list) \<Rightarrow> Storage \<Rightarrow> Storage" where
  "ps_session_table_mut f s = s\<lparr>st_session_table := f (st_session_table s)\<rparr>"

definition ps_session_meta :: "Storage \<Rightarrow> u8 list" where "ps_session_meta s = st_session_meta s"

definition ps_session_meta_mut :: "(u8 list \<Rightarrow> u8 list) \<Rightarrow> Storage \<Rightarrow> Storage" where
  "ps_session_meta_mut f s = s\<lparr>st_session_meta := f (st_session_meta s)\<rparr>"

definition session_table_of :: "Storage \<Rightarrow> SessionTable" where
  "session_table_of s = \<lparr>region = ps_session_table s, session_meta = ps_session_meta s\<rparr>"

definition put_session_table :: "SessionTable \<Rightarrow> Storage \<Rightarrow> Storage" where
  "put_session_table t s =
     ps_session_meta_mut (\<lambda>_. session_meta t) (ps_session_table_mut (\<lambda>_. region t) s)"

section \<open>Lifecycle helpers\<close>

definition ps_reset :: "Storage \<Rightarrow> Storage" where
  "ps_reset s =
     (let absent = to_le 2 KEY_ABSENT in
      Storage_zeroed
        \<lparr>st_version := STORE_VERSION,
         st_id_key_id := absent, st_ec_key_id := absent, st_se_key_id := absent, st_mk_key_id := absent,
         st_ups_key_id := absent, st_pta_key_id := absent, st_local_mk_key_id := absent,
         st_ephemeral_mk_key_id := absent, st_sd_mk_key_id := absent, st_unwrapping_key_id := absent\<rparr>)"

definition ps_clear_identity :: "Storage \<Rightarrow> Storage" where
  "ps_clear_identity s =
     ps_id_pub_key_mut (\<lambda>b. replicate (length b) 0)
       (ps_set_id_key_id None (ps_id_mut (\<lambda>b. replicate (length b) 0) s))"

definition ps_clear_enabled_keys :: "Storage \<Rightarrow> Storage" where
  "ps_clear_enabled_keys s =
     (let s = ps_set_ec_key_id None s;
          s = ps_ec_pub_key_mut (\<lambda>b. replicate (length b) 0) s;
          s = ps_set_se_key_id None s
      in ps_se_pub_key_mut (\<lambda>b. replicate (length b) 0) s)"

definition ps_bake_default_psks :: "Storage \<Rightarrow> Storage" where
  "ps_bake_default_psks s = s\<lparr>st_psk_co := DEFAULT_PSK_CO, st_psk_cu := DEFAULT_PSK_CU\<rparr>"

definition ps_clear_state :: "PartResetKind \<Rightarrow> Storage \<Rightarrow> Storage" where
  "ps_clear_state kind s =
     (let s = ps_clear_enabled_keys s;
          s = ps_set_mk_key_id None s;
          s = ps_set_ups_key_id None s;
          s = ps_set_pta_key_id None s;
          s = ps_set_local_mk_key_id None s;
          s = ps_set_ephemeral_mk_key_id None s;
          s = ps_set_sd_mk_key_id None s;
          s = ps_set_unwrapping_key_id None s;
          s = ps_set_sd_initialized False s;
          s = ps_clear_credential s;
          s = ps_clear_bk3_session s;
          s = ps_set_pin_policy PinPolicy_default s;
          s = s\<lparr>st_nonce := replicate NONCE_LEN 0, st_session_meta := replicate 2 0\<rparr>
      in case kind of
           Migrate \<Rightarrow> ps_bake_default_psks s
         | Disable \<Rightarrow>
             (let s = ps_clear_pta_pub_key s;
                  s = ps_clear_policy_hash s;
                  s = ps_clear_pota_thumbprint s;
                  s = ps_clear_sata_thumbprint s;
                  s = ps_clear_sapota_thumbprint s;
                  s = ps_clear_sealed_bk3 s;
                  s = ps_set_bk3_initialized False s;
                  s = ps_clear_unwrapping_key s
              in s\<lparr>st_psk_co := replicate PSK_LEN 0, st_psk_cu := replicate PSK_LEN 0,
                   st_vm_launch_guid := replicate GUID_LEN 0\<rparr>))"

definition init_default :: "Storage list \<Rightarrow> Storage list" where
  "init_default stores =
     fold (\<lambda>idx ss. ss[idx := ps_reset (ss ! idx)]) [0..<NUM_PARTITIONS] stores"

definition rearm_unwrapping_key_required :: "Storage list \<Rightarrow> Storage list" where
  "rearm_unwrapping_key_required stores =
     fold (\<lambda>idx ss. if ps_res_mask (ss ! idx) \<noteq> 0
                    then ss[idx := ps_set_unwrapping_key_required True (ss ! idx)] else ss)
       [0..<NUM_PARTITIONS] stores"

lemmas store_ops =
  ps_id_def ps_id_mut_def ps_set_id_def ps_id_pub_key_def
  ps_id_pub_key_mut_def ps_set_id_pub_key_def ps_id_valid_def ps_set_id_valid_def
  ps_nonce_def ps_nonce_mut_def ps_set_nonce_def ps_vm_launch_guid_def
  ps_vm_launch_guid_mut_def ps_set_vm_launch_guid_def ps_ec_pub_key_def ps_ec_pub_key_mut_def
  ps_set_ec_pub_key_def ps_se_pub_key_def ps_se_pub_key_mut_def ps_set_se_pub_key_def
  ps_psk_co_def ps_psk_co_mut_def ps_set_psk_co_def ps_psk_cu_def
  ps_psk_cu_mut_def ps_set_psk_cu_def ps_masked_bk_boot_def ps_set_masked_bk_boot_def
  ps_clear_masked_bk_boot_def ps_sealed_bk3_def ps_set_sealed_bk3_def ps_clear_sealed_bk3_def
  ps_bk3_session_def ps_set_bk3_session_def ps_bk3_session_valid_def ps_clear_bk3_session_def
  ps_bk3_initialized_def ps_set_bk3_initialized_def ps_sd_initialized_def ps_set_sd_initialized_def
  ps_pin_policy_def ps_set_pin_policy_def ps_policy_hash_def ps_policy_hash_mut_def
  ps_set_policy_hash_def ps_policy_hash_valid_def ps_clear_policy_hash_def ps_pota_thumbprint_def
  ps_pota_thumbprint_mut_def ps_set_pota_thumbprint_def ps_pota_thumbprint_valid_def ps_clear_pota_thumbprint_def
  ps_sata_thumbprint_def ps_set_sata_thumbprint_def ps_sata_thumbprint_valid_def ps_clear_sata_thumbprint_def
  ps_sapota_thumbprint_def ps_set_sapota_thumbprint_def ps_sapota_thumbprint_valid_def ps_clear_sapota_thumbprint_def
  ps_pta_pub_key_def ps_set_pta_pub_key_def ps_pta_pub_key_valid_def ps_clear_pta_pub_key_def
  ps_credential_def ps_credential_mut_def ps_set_credential_def ps_credential_valid_def
  ps_clear_credential_def ps_state_def ps_set_state_def ps_generation_def
  ps_set_generation_def ps_bump_generation_def ps_res_mask_def ps_set_res_mask_def
  ps_id_key_id_def ps_set_id_key_id_def ps_ec_key_id_def ps_set_ec_key_id_def
  ps_se_key_id_def ps_set_se_key_id_def ps_mk_key_id_def ps_set_mk_key_id_def
  ps_ups_key_id_def ps_set_ups_key_id_def ps_pta_key_id_def ps_set_pta_key_id_def
  ps_unwrapping_key_id_def ps_set_unwrapping_key_id_def ps_local_mk_key_id_def ps_set_local_mk_key_id_def
  ps_ephemeral_mk_key_id_def ps_set_ephemeral_mk_key_id_def ps_sd_mk_key_id_def ps_set_sd_mk_key_id_def
  ps_unwrapping_key_required_def ps_set_unwrapping_key_required_def ps_unwrapping_key_bk_valid_def ps_unwrapping_key_bk_def
  ps_clear_unwrapping_key_def ps_session_table_def ps_session_table_mut_def ps_session_meta_def
  ps_session_meta_mut_def ps_reset_def ps_clear_identity_def ps_clear_enabled_keys_def
  ps_bake_default_psks_def ps_clear_state_def
  raise_flag_def drop_flag_def Let_def

section \<open>Handles and flags\<close>

lemma length_write_handle [simp]: "length (write_handle k) = 2"
  by (simp add: write_handle_def)

lemma read_write_handle [simp]:
  "read_handle (write_handle None) = None"
  "read_handle (write_handle (Some k)) = (if k = KEY_ABSENT then None else Some k)"
  by (simp_all add: read_handle_def write_handle_def)

lemma write_read_handle: "length b = 2 \<Longrightarrow> write_handle (read_handle b) = b"
  using to_le_from_le [of b, where 'a = 16] by (auto simp: read_handle_def write_handle_def Let_def)

lemma single_flag:
  fixes x m :: u8
  assumes m: "m = push_bit j 1" and j: "j < 8"
  shows "x AND m \<noteq> 0 \<longleftrightarrow> bit x j" "bit (x OR m) i \<longleftrightarrow> bit x i \<or> i = j"
    "bit (x AND NOT m) i \<longleftrightarrow> bit x i \<and> i \<noteq> j" "bit x j \<Longrightarrow> x OR m = x"
    "\<not> bit x j \<Longrightarrow> (x OR m) AND NOT m = x" "\<not> bit x j \<Longrightarrow> x AND NOT m = x"
    "bit x j \<Longrightarrow> (x AND NOT m) OR m = x"
proof -
  have p: "bit m n \<longleftrightarrow> n = j" for n
    using j by (auto simp: m bit_exp_iff)
  have less: "bit x n \<Longrightarrow> n < 8" for n using bit_imp_le_length [of x n] by simp
  have "x AND m \<noteq> 0 \<longleftrightarrow> (\<exists>n. bit (x AND m) n)"
    by (auto intro: bit_word_eqI simp del: bit_and_iff)
  then show "x AND m \<noteq> 0 \<longleftrightarrow> bit x j" by (simp add: bit_and_iff p)
  show "bit (x OR m) i \<longleftrightarrow> bit x i \<or> i = j" by (simp add: bit_or_iff p)
  show "bit (x AND NOT m) i \<longleftrightarrow> bit x i \<and> i \<noteq> j"
    using less by (auto simp: bit_and_iff bit_not_iff p)
  show "bit x j \<Longrightarrow> x OR m = x" "\<not> bit x j \<Longrightarrow> (x OR m) AND NOT m = x"
    "\<not> bit x j \<Longrightarrow> x AND NOT m = x" "bit x j \<Longrightarrow> (x AND NOT m) OR m = x"
    using less by (auto intro!: bit_word_eqI simp: bit_or_iff bit_and_iff bit_not_iff p)
qed

lemma flag_indices: "0 < (8 :: nat)" "1 < (8 :: nat)" "2 < (8 :: nat)" "3 < (8 :: nat)" "4 < (8 :: nat)"
  "5 < (8 :: nat)" "6 < (8 :: nat)" "7 < (8 :: nat)"
  by simp_all

lemmas flag_simps =
  single_flag [OF FLAG_CREDENTIAL_VALID_def flag_indices(1)]
  single_flag [OF FLAG_POTA_THUMBPRINT_VALID_def flag_indices(2)]
  single_flag [OF FLAG_SATA_THUMBPRINT_VALID_def flag_indices(3)]
  single_flag [OF FLAG_SAPOTA_THUMBPRINT_VALID_def flag_indices(4)]
  single_flag [OF FLAG_PTA_PUB_KEY_VALID_def flag_indices(5)]
  single_flag [OF FLAG_POLICY_HASH_VALID_def flag_indices(6)]
  single_flag [OF FLAG_BK3_INITIALIZED_def flag_indices(7)]
  single_flag [OF FLAG_SD_INITIALIZED_def flag_indices(8)]

lemmas flag_bits =
  single_flag(2,3) [OF FLAG_CREDENTIAL_VALID_def flag_indices(1)]
  single_flag(2,3) [OF FLAG_POTA_THUMBPRINT_VALID_def flag_indices(2)]
  single_flag(2,3) [OF FLAG_SATA_THUMBPRINT_VALID_def flag_indices(3)]
  single_flag(2,3) [OF FLAG_SAPOTA_THUMBPRINT_VALID_def flag_indices(4)]
  single_flag(2,3) [OF FLAG_PTA_PUB_KEY_VALID_def flag_indices(5)]
  single_flag(2,3) [OF FLAG_POLICY_HASH_VALID_def flag_indices(6)]
  single_flag(2,3) [OF FLAG_BK3_INITIALIZED_def flag_indices(7)]
  single_flag(2,3) [OF FLAG_SD_INITIALIZED_def flag_indices(8)]

lemma flag_set_bits:
  "flag_set FLAG_CREDENTIAL_VALID s \<longleftrightarrow> bit (st_valid_flags s) 0"
  "flag_set FLAG_POTA_THUMBPRINT_VALID s \<longleftrightarrow> bit (st_valid_flags s) 1"
  "flag_set FLAG_SATA_THUMBPRINT_VALID s \<longleftrightarrow> bit (st_valid_flags s) 2"
  "flag_set FLAG_SAPOTA_THUMBPRINT_VALID s \<longleftrightarrow> bit (st_valid_flags s) 3"
  "flag_set FLAG_PTA_PUB_KEY_VALID s \<longleftrightarrow> bit (st_valid_flags s) 4"
  "flag_set FLAG_POLICY_HASH_VALID s \<longleftrightarrow> bit (st_valid_flags s) 5"
  "flag_set FLAG_BK3_INITIALIZED s \<longleftrightarrow> bit (st_valid_flags s) 6"
  "flag_set FLAG_SD_INITIALIZED s \<longleftrightarrow> bit (st_valid_flags s) 7"
  by (simp_all add: flag_set_def flag_simps)

end
