(* ===== verification/PartManager.thy ===== *)
theory PartManager
  imports PartStore
begin

text \<open>
  The property interface of a partition: the trait \<open>HsmPartitionManager\<close> as the Uno PAL implements
  it over the partition store (\<open>fw/plat/uno/fw/pal/src/part.rs\<close>). The operations act on the slot of
  the calling partition; the lookup of the slot, and the import of the unwrapping key that a read
  of its id may trigger, are added in the model of the PAL.
\<close>

section \<open>The operations\<close>

definition popcount :: "'a::len word \<Rightarrow> nat" where
  "popcount w = length (filter (bit w) [0..<LENGTH('a)])"

definition prop_get_u8 :: "PartPropId \<Rightarrow> Storage \<Rightarrow> u8 run" where
  "prop_get_u8 p s =
     (if p = P_STATE then bindr (ps_state s) (\<lambda>st. Ok (part_state_u8 st))
      else if p = P_RES_COUNT then Ok (of_nat (popcount (ps_res_mask s)))
      else Err UnsupportedCmd)"

definition prop_set_u8 :: "PartPropId \<Rightarrow> u8 \<Rightarrow> (Storage, unit) op" where
  "prop_set_u8 p v s =
     (if p = P_STATE then
        (case part_state_from_u8 v of None \<Rightarrow> (Err InvalidArg, s) | Some target \<Rightarrow> (Ok (), ps_set_state target s))
      else (Err UnsupportedCmd, s))"

definition prop_key :: "PartPropId \<Rightarrow> Storage \<Rightarrow> u16 option run" where
  "prop_key p s =
     (if p = P_ID_KEY_ID then Ok (ps_id_key_id s)
      else if p = P_MK_KEY_ID then Ok (ps_mk_key_id s)
      else if p = P_UPS_KEY_ID then Ok (ps_ups_key_id s)
      else if p = P_PTA_KEY_ID then Ok (ps_pta_key_id s)
      else if p = P_RSA_UNWRAPPING_KEY_ID then Ok (ps_unwrapping_key_id s)
      else if p = P_ESTABLISH_CRED_KEY_ID then Ok (ps_ec_key_id s)
      else if p = P_SESSION_ENC_KEY_ID then Ok (ps_se_key_id s)
      else if p = P_LOCAL_MK_KEY_ID then Ok (ps_local_mk_key_id s)
      else if p = P_EPHEMERAL_MK_KEY_ID then Ok (ps_ephemeral_mk_key_id s)
      else if p = P_SD_MK_KEY_ID then Ok (ps_sd_mk_key_id s)
      else Err UnsupportedCmd)"

definition prop_get_u16 :: "PartPropId \<Rightarrow> Storage \<Rightarrow> u16 run" where
  "prop_get_u16 p s =
     bindr (prop_key p s) (\<lambda>k. case k of Some v \<Rightarrow> Ok v | None \<Rightarrow> Err PartPropNotFound)"

definition prop_set_u16 :: "PartPropId \<Rightarrow> u16 \<Rightarrow> (Storage, unit) op" where
  "prop_set_u16 p v s =
     (let key = Some v in
      if p = P_MK_KEY_ID then (Ok (), ps_set_mk_key_id key s)
      else if p = P_SESSION_ENC_KEY_ID then (Ok (), ps_set_se_key_id key s)
      else if p = P_ESTABLISH_CRED_KEY_ID then (Ok (), ps_set_ec_key_id key s)
      else if p = P_LOCAL_MK_KEY_ID then (Ok (), ps_set_local_mk_key_id key s)
      else if p = P_EPHEMERAL_MK_KEY_ID then (Ok (), ps_set_ephemeral_mk_key_id key s)
      else if p = P_SD_MK_KEY_ID then (Ok (), ps_set_sd_mk_key_id key s)
      else if p = P_UPS_KEY_ID then (Ok (), ps_set_ups_key_id key s)
      else if p = P_PTA_KEY_ID then (Ok (), ps_set_pta_key_id key s)
      else if p = P_RSA_UNWRAPPING_KEY_ID then (Ok (), ps_set_unwrapping_key_id key s)
      else (Err UnsupportedCmd, s))"

definition prop_get_u32 :: "PartPropId \<Rightarrow> Storage \<Rightarrow> u32 run" where
  "prop_get_u32 p s = (if p = P_GEN then Ok (ps_generation s) else Err UnsupportedCmd)"

definition prop_set_u32 :: "PartPropId \<Rightarrow> u32 \<Rightarrow> (Storage, unit) op" where
  "prop_set_u32 p v s = (Err UnsupportedCmd, s)"

definition prop_get_bool :: "PartPropId \<Rightarrow> Storage \<Rightarrow> bool run" where
  "prop_get_bool p s =
     (if p = P_BK3_INITIALIZED then Ok (ps_bk3_initialized s)
      else if p = P_SD_INITIALIZED then Ok (ps_sd_initialized s)
      else Err UnsupportedCmd)"

definition prop_set_bool :: "PartPropId \<Rightarrow> bool \<Rightarrow> (Storage, unit) op" where
  "prop_set_bool p v s =
     (if p = P_BK3_INITIALIZED then
        (if \<not> v then (Err InvalidArg, s)
         else if ps_bk3_initialized s then (Err Bk3AlreadyInitialized, s)
         else (Ok (), ps_set_bk3_initialized True s))
      else if p = P_SD_INITIALIZED then
        (if v \<and> ps_sd_initialized s then (Err SdAlreadyInitialized, s)
         else (Ok (), ps_set_sd_initialized v s))
      else (Err UnsupportedCmd, s))"

definition present_bytes :: "bool \<Rightarrow> u8 list \<Rightarrow> u8 list run" where
  "present_bytes valid b = (if valid then Ok b else Err PartPropNotFound)"

definition prop_get_bytes :: "PartPropId \<Rightarrow> Storage \<Rightarrow> u8 list run" where
  "prop_get_bytes p s =
     (if p = P_ID then present_bytes (ps_id_key_id s \<noteq> None) (ps_id s)
      else if p = P_ID_PUB_KEY then present_bytes (ps_id_key_id s \<noteq> None) (ps_id_pub_key s)
      else if p = P_ESTABLISH_CRED_PUB_KEY then present_bytes (ps_ec_key_id s \<noteq> None) (ps_ec_pub_key s)
      else if p = P_SESSION_ENC_PUB_KEY then present_bytes (ps_se_key_id s \<noteq> None) (ps_se_pub_key s)
      else if p = P_NONCE then Ok (ps_nonce s)
      else if p = P_VM_LAUNCH_GUID then Ok (ps_vm_launch_guid s)
      else if p = P_PSK_CO then Ok (ps_psk_co s)
      else if p = P_PSK_CU then Ok (ps_psk_cu s)
      else if p = P_CREDENTIAL then present_bytes (ps_credential_valid s) (ps_credential s)
      else if p = P_POTA_THUMBPRINT then present_bytes (ps_pota_thumbprint_valid s) (ps_pota_thumbprint s)
      else if p = P_SATA_THUMBPRINT then present_bytes (ps_sata_thumbprint_valid s) (ps_sata_thumbprint s)
      else if p = P_SAPOTA_THUMBPRINT then present_bytes (ps_sapota_thumbprint_valid s) (ps_sapota_thumbprint s)
      else if p = P_BK3_SESSION then present_bytes (ps_bk3_session_valid s) (ps_bk3_session s)
      else if p = P_PTA_PUB_KEY then present_bytes (ps_pta_pub_key_valid s) (ps_pta_pub_key s)
      else if p = P_POLICY_HASH then present_bytes (ps_policy_hash_valid s) (ps_policy_hash s)
      else if p = P_SEALED_BK3 then (let b = ps_sealed_bk3 s in present_bytes (b \<noteq> []) b)
      else if p = P_MASKED_BK_BOOT then (let b = ps_masked_bk_boot s in present_bytes (b \<noteq> []) b)
      else Err UnsupportedCmd)"

definition prop_set_bytes :: "PartPropId \<Rightarrow> u8 list \<Rightarrow> (Storage, unit) op" where
  "prop_set_bytes p v s =
     (if p = P_NONCE then ps_set_nonce v s
      else if p = P_PSK_CO then ps_set_psk_co v s
      else if p = P_PSK_CU then ps_set_psk_cu v s
      else if p = P_CREDENTIAL then ps_set_credential v s
      else if p = P_SEALED_BK3 then ps_set_sealed_bk3 v s
      else if p = P_MASKED_BK_BOOT then ps_set_masked_bk_boot v s
      else if p = P_BK3_SESSION then ps_set_bk3_session v s
      else if p = P_POTA_THUMBPRINT then ps_set_pota_thumbprint v s
      else if p = P_SATA_THUMBPRINT then ps_set_sata_thumbprint v s
      else if p = P_SAPOTA_THUMBPRINT then ps_set_sapota_thumbprint v s
      else if p = P_PTA_PUB_KEY then ps_set_pta_pub_key v s
      else if p = P_POLICY_HASH then ps_set_policy_hash v s
      else (Err UnsupportedCmd, s))"

definition prop_clear :: "PartPropId \<Rightarrow> (Storage, unit) op" where
  "prop_clear p s =
     (if p = P_MK_KEY_ID then (Ok (), ps_set_mk_key_id None s)
      else if p = P_UPS_KEY_ID then (Ok (), ps_set_ups_key_id None s)
      else if p = P_PTA_KEY_ID then (Ok (), ps_set_pta_key_id None s)
      else if p = P_SESSION_ENC_KEY_ID then (Ok (), ps_set_se_key_id None s)
      else if p = P_ESTABLISH_CRED_KEY_ID then (Ok (), ps_set_ec_key_id None s)
      else if p = P_LOCAL_MK_KEY_ID then (Ok (), ps_set_local_mk_key_id None s)
      else if p = P_EPHEMERAL_MK_KEY_ID then (Ok (), ps_set_ephemeral_mk_key_id None s)
      else if p = P_SD_MK_KEY_ID then (Ok (), ps_set_sd_mk_key_id None s)
      else if p = P_CREDENTIAL then (Ok (), ps_clear_credential s)
      else if p = P_POTA_THUMBPRINT then (Ok (), ps_clear_pota_thumbprint s)
      else if p = P_SATA_THUMBPRINT then (Ok (), ps_clear_sata_thumbprint s)
      else if p = P_SAPOTA_THUMBPRINT then (Ok (), ps_clear_sapota_thumbprint s)
      else if p = P_BK3_SESSION then (Ok (), ps_clear_bk3_session s)
      else if p = P_SEALED_BK3 then (Ok (), ps_clear_sealed_bk3 s)
      else if p = P_MASKED_BK_BOOT then (Ok (), ps_clear_masked_bk_boot s)
      else if p = P_PTA_PUB_KEY then (Ok (), ps_clear_pta_pub_key s)
      else if p = P_POLICY_HASH then (Ok (), ps_clear_policy_hash s)
      else (Err UnsupportedCmd, s))"

end
