(* ===== verification/UnoPal.thy ===== *)
theory UnoPal
  imports IoAlloc KeyVaultOps PartManager
begin

text \<open>
  The state of the Uno platform layer (\<open>UnoHsmPal\<close>) and the hardware it drives. The partition slots
  and the vault tables live in the GSRAM, the fast-path slot bitmap is the static \<open>FP_SLOTS\<close> of
  \<open>fw/plat/uno/fw/pal/src/vault.rs\<close>, the scratch slots belong to the IOs. The hardware is a
  parameter: the DMA engine, the mailbox of the fast-path core, the random generator, the ECC key
  generator and the masking of a boot key, each a function of a device state of any type. The
  firmware runs on one core with cooperative tasks; an operation is the run of one task, whose locks
  (\<open>fp_bulk_lock\<close>) are therefore free when it asks for them.
\<close>

section \<open>State\<close>

record 'e UnoHsmPal =
  pal_parts :: "Storage list"
  pal_tables :: "vtable list"
  pal_fp_slots :: "u8 list"
  pal_io_slots :: "IoSlot list"
  pal_dev :: 'e

text \<open>
  An IO: its slot, the partition it comes from and the session id of its submission entry when
  that is marked valid.
\<close>

record HsmIo =
  io_index :: nat
  io_pid :: u8
  io_session :: "u16 option"

record 'e Hw =
  hw_engine :: engine
  hw_ipc :: "u8 list \<Rightarrow> 'e \<Rightarrow> u8 list \<times> 'e"
  hw_rng :: "'e \<Rightarrow> u32 \<times> 'e"
  hw_ecc_gen :: "'e \<Rightarrow> (u8 list \<times> u8 list \<times> nat) run \<times> 'e"
  hw_mask_bk_boot :: "u8 \<Rightarrow> 'e \<Rightarrow> u8 list run \<times> 'e"

definition hw_gdma :: "'e Hw \<Rightarrow> gdma" where
  "hw_gdma hw = uno_gdma (hw_engine hw)"

section \<open>Operations on a part of the state\<close>

text \<open>
  A call on the slot of a partition, on its session table, on the vault with the tables the
  partition owns (an unknown partition owns none), on the scratch slot of an IO.
\<close>

definition part_op :: "u8 \<Rightarrow> (Storage, 'a) op \<Rightarrow> ('e UnoHsmPal, 'a) op" where
  "part_op pid m p =
     bindS (reads (\<lambda>_. partition pid)) (\<lambda>i p.
       let (r, s) = m (pal_parts p ! i) in (r, p\<lparr>pal_parts := (pal_parts p)[i := s]\<rparr>)) p"

definition part_upd :: "u8 \<Rightarrow> (Storage \<Rightarrow> Storage) \<Rightarrow> ('e UnoHsmPal, unit) op" where
  "part_upd pid f = part_op pid (\<lambda>s. (Ok (), f s))"

definition part_get :: "u8 \<Rightarrow> (Storage \<Rightarrow> 'a) \<Rightarrow> ('e UnoHsmPal, 'a) op" where
  "part_get pid f = part_op pid (\<lambda>s. (Ok (f s), s))"

definition session_op :: "u8 \<Rightarrow> (SessionTable, 'a) op \<Rightarrow> ('e UnoHsmPal, 'a) op" where
  "session_op pid m =
     part_op pid (\<lambda>s. let (r, t) = m (session_table_of s) in (r, put_session_table t s))"

definition res_mask_of :: "u8 \<Rightarrow> 'e UnoHsmPal \<Rightarrow> u128" where
  "res_mask_of pid p = (case partition pid of Ok i \<Rightarrow> ps_res_mask (pal_parts p ! i) | _ \<Rightarrow> 0)"

definition vault_of :: "HsmIo \<Rightarrow> 'e UnoHsmPal \<Rightarrow> VaultStorage" where
  "vault_of io p = \<lparr>res_mask = res_mask_of (io_pid io) p, tables = pal_tables p\<rparr>"

definition vault_op :: "HsmIo \<Rightarrow> (VaultStorage, 'a) op \<Rightarrow> ('e UnoHsmPal, 'a) op" where
  "vault_op io m p = (let (r, v) = m (vault_of io p) in (r, p\<lparr>pal_tables := tables v\<rparr>))"

definition scratch_op :: "HsmIo \<Rightarrow> (IoSlot, 'a) op \<Rightarrow> ('e UnoHsmPal, 'a) op" where
  "scratch_op io m p =
     (if io_index io < length (pal_io_slots p) then
        let (r, s) = m (pal_io_slots p ! io_index io) in (r, p\<lparr>pal_io_slots := (pal_io_slots p)[io_index io := s]\<rparr>)
      else (Panic, p))"

definition dev_op :: "('e \<Rightarrow> 'a run \<times> 'e) \<Rightarrow> ('e UnoHsmPal, 'a) op" where
  "dev_op m p = (let (r, d) = m (pal_dev p) in (r, p\<lparr>pal_dev := d\<rparr>))"

text \<open>A fresh buffer in the DMA scratch of an IO with the bytes its owner puts there, and its wipe.\<close>

definition dma_ptr :: "HsmIo \<Rightarrow> nat \<Rightarrow> u32" where
  "dma_ptr io start = of_nat (fst (heap_base_cap (io_index io) DMA) + start)"

definition dma_put :: "HsmIo \<Rightarrow> u8 list \<Rightarrow> ('e UnoHsmPal, DmaBuf \<times> nat) op" where
  "dma_put io bs =
     scratch_op io (bindS (dma_alloc (io_index io) (length bs)) (\<lambda>start s.
       (Ok (\<lparr>buf_ptr = dma_ptr io start, buf_bytes = bs\<rparr>, start), put_bytes DMA start bs s)))"

definition dma_wipe_buf :: "HsmIo \<Rightarrow> nat \<Rightarrow> nat \<Rightarrow> ('e UnoHsmPal, unit) op" where
  "dma_wipe_buf io start n = scratch_op io (\<lambda>s. (Ok (), put_bytes DMA start (replicate n 0) s))"

text \<open>Calls whose failure the caller looks at or drops.\<close>

definition try_op :: "('s, 'a) op \<Rightarrow> ('s, 'a run) op" where
  "try_op m s = (case m s of (Panic, s') \<Rightarrow> (Panic, s') | (r, s') \<Rightarrow> (Ok r, s'))"

definition best_effort :: "('s, 'a) op \<Rightarrow> ('s, unit) op" where
  "best_effort m = bindS (try_op m) (\<lambda>_. returns ())"

section \<open>The fast-path mailbox\<close>

definition FP_BULK_KEY_LEN :: nat where "FP_BULK_KEY_LEN = 32"
definition FP_APP_ID :: u8 where "FP_APP_ID = 0"
definition FP_MAX_SLOTS_PER_PART :: nat where "FP_MAX_SLOTS_PER_PART = 7"
definition NUM_FP_TABLES :: nat where "NUM_FP_TABLES = 65"
definition KEY_UPDATE_OP :: u32 where "KEY_UPDATE_OP = 0x7"
definition KEY_UPDATE_LEN :: u32 where "KEY_UPDATE_LEN = 40"
definition IPC_MESSAGE_BYTES :: nat where "IPC_MESSAGE_BYTES = 16 * 4"

datatype AesBulkKeyType = Xts | Gcm | GcmUnapproved
datatype KeyUpdateAction = ActDelete | ActDeleteSessionOnly | ActDeleteAll | ActCreate

fun key_type_bits :: "AesBulkKeyType \<Rightarrow> u8" where
  "key_type_bits Xts = 0" | "key_type_bits Gcm = 1" | "key_type_bits GcmUnapproved = 2"

fun action_bits :: "KeyUpdateAction \<Rightarrow> u8" where
  "action_bits ActDelete = 0" | "action_bits ActDeleteSessionOnly = 1"
| "action_bits ActDeleteAll = 2" | "action_bits ActCreate = 3"

definition AesKeyFlag :: "bool \<Rightarrow> AesBulkKeyType \<Rightarrow> u8" where
  "AesKeyFlag session_only ty = of_bool session_only OR push_bit 1 (key_type_bits ty AND 3)"

record KeyUpdateInfo =
  ku_key_index :: u8
  ku_resource_id :: u8
  ku_pfn :: u8
  ku_action :: u8
  ku_session_id :: u16
  ku_app_id :: u8
  ku_flag :: u8
  ku_key_data :: "u8 list"

definition ku_as_bytes :: "KeyUpdateInfo \<Rightarrow> u8 list" where
  "ku_as_bytes i =
     [ku_key_index i, ku_resource_id i, ku_pfn i, ku_action i] @ to_le 2 (ku_session_id i) @
     [ku_app_id i, ku_flag i] @ ku_key_data i"

text \<open>The header word: opcode (7 bits), response (1), tag (8), status (4), maps (4), length (8).\<close>

definition ipc_request_header :: "u32 \<Rightarrow> u32 \<Rightarrow> u32" where
  "ipc_request_header op len = (op AND 0x7F) OR push_bit 24 (len AND 0xFF)"

definition hdr_msg_op :: "u32 \<Rightarrow> u32" where "hdr_msg_op h = h AND 0x7F"
definition hdr_response :: "u32 \<Rightarrow> bool" where "hdr_response h \<longleftrightarrow> bit h 7"
definition hdr_status :: "u32 \<Rightarrow> u32" where "hdr_status h = drop_bit 16 h AND 0xF"

definition key_update_request :: "KeyUpdateInfo \<Rightarrow> u8 list" where
  "key_update_request info =
     splice_at 0 (to_le 4 (ipc_request_header KEY_UPDATE_OP KEY_UPDATE_LEN) @ ku_as_bytes info)
       (replicate IPC_MESSAGE_BYTES 0)"

definition fp_send_key_update :: "'e Hw \<Rightarrow> KeyUpdateInfo \<Rightarrow> ('e UnoHsmPal, unit) op" where
  "fp_send_key_update hw info =
     dev_op (\<lambda>d. let (resp, d') = hw_ipc hw (key_update_request info) d;
                     header = from_le (slice 0 4 resp) :: u32
                 in (if \<not> hdr_response header then Err InternalError
                     else if hdr_msg_op header \<noteq> KEY_UPDATE_OP then Err InternalError
                     else if hdr_status header \<noteq> 0 then Err InternalError
                     else Ok (), d'))"

text \<open>The handle of a bulk key: three bits of slot index and seven bits of table.\<close>

definition AesBulk256KeyId :: "u8 \<Rightarrow> u8 \<Rightarrow> u16" where
  "AesBulk256KeyId key_index vault_id = (ucast key_index AND 7) OR push_bit 3 (ucast vault_id AND 0x7F)"

definition bulk_key_index :: "u16 \<Rightarrow> u8" where
  "bulk_key_index bits = ucast (bits AND 7)"

definition bulk_vault_id :: "u16 \<Rightarrow> u8" where
  "bulk_vault_id bits = ucast (drop_bit 3 bits AND 0x7F)"

section \<open>The fast-path slot bitmap\<close>

definition fp_slot_alloc :: "u128 \<Rightarrow> (u8 list, u8 \<times> u8) op" where
  "fp_slot_alloc m slots =
     (case List.find (\<lambda>(table, b). test_bit m table \<and> \<not> test_bit (slots ! table) b)
             (List.product [0..<NUM_FP_TABLES] [0..<FP_MAX_SLOTS_PER_PART]) of
        Some (table, b) \<Rightarrow> (Ok (of_nat table, of_nat b), slots[table := bit_on b (slots ! table)])
      | None \<Rightarrow> (Err NotEnoughSpace, slots))"

definition fp_slot_free :: "u8 \<Rightarrow> u8 \<Rightarrow> u8 list \<Rightarrow> u8 list" where
  "fp_slot_free vault_id key_index slots =
     (let idx = unat vault_id in
      if idx < length slots \<and> unat key_index < FP_MAX_SLOTS_PER_PART
      then slots[idx := bit_off (unat key_index) (slots ! idx)] else slots)"

definition fp_slots_free_bits :: "u8 list \<Rightarrow> u8 list \<Rightarrow> u8 list" where
  "fp_slots_free_bits bits slots = map2 (\<lambda>used clear. used AND NOT clear) slots bits"

definition fp_slots_free_mask :: "u128 \<Rightarrow> u8 list \<Rightarrow> u8 list" where
  "fp_slots_free_mask m slots =
     map (\<lambda>table. if test_bit m table then 0 else slots ! table) [0..<length slots]"

definition fp_upd :: "(u8 list \<Rightarrow> u8 list) \<Rightarrow> ('e UnoHsmPal, unit) op" where
  "fp_upd f p = (Ok (), p\<lparr>pal_fp_slots := f (pal_fp_slots p)\<rparr>)"

definition fp_op :: "(u8 list, 'a) op \<Rightarrow> ('e UnoHsmPal, 'a) op" where
  "fp_op m p = (let (r, s) = m (pal_fp_slots p) in (r, p\<lparr>pal_fp_slots := s\<rparr>))"

end
