(* ===== verification/UnoVault.thy ===== *)
theory UnoVault
  imports UnoPal
begin

text \<open>
  The vault interface of the Uno platform layer (\<open>fw/plat/uno/fw/pal/src/vault.rs\<close>): ordinary keys go
  to the key vault, bulk keys are registered with the fast-path core and only their two-byte handle
  is kept in the vault. The bitmap \<open>FP_SLOTS\<close> must cover the handles in the vault, and no two of them
  may name the same slot of the fast-path core.
\<close>

section \<open>The operations\<close>

definition is_bulk_kind :: "HsmVaultKeyKind \<Rightarrow> bool" where
  "is_bulk_kind k \<longleftrightarrow> k = AesGcmBulk256 \<or> k = AesGcmBulk256Unapproved \<or> k = AesXtsBulk256"

definition enforce_session_key_isolation :: "HsmIo \<Rightarrow> HsmKeyId \<Rightarrow> ('e UnoHsmPal, unit) op" where
  "enforce_session_key_isolation io k =
     reads (\<lambda>p. bindr (key_session (vault_of io p) k) (\<lambda>b. case b of
       None \<Rightarrow> Ok ()
     | Some bound \<Rightarrow> if io_session io = Some bound then Ok () else Err KeyNotFound))"

definition pal_vault_key :: "HsmIo \<Rightarrow> HsmKeyId \<Rightarrow> ('e UnoHsmPal, u8 list) op" where
  "pal_vault_key io k =
     bindS (enforce_session_key_isolation io k) (\<lambda>_. reads (\<lambda>p.
       bindr (key_location (vault_of io p) k) (\<lambda>(table, off, len).
         Ok (slice off len (vt_blob (pal_tables p ! table))))))"

definition pal_vault_key_len :: "HsmVaultKeyKind \<Rightarrow> u16 run" where
  "pal_vault_key_len k = vault_key_len k"

definition pal_vault_key_kind :: "HsmIo \<Rightarrow> HsmKeyId \<Rightarrow> ('e UnoHsmPal, HsmVaultKeyKind) op" where
  "pal_vault_key_kind io k =
     bindS (enforce_session_key_isolation io k) (\<lambda>_. reads (\<lambda>p. key_kind (vault_of io p) k))"

definition pal_vault_key_attrs :: "HsmIo \<Rightarrow> HsmKeyId \<Rightarrow> ('e UnoHsmPal, u64) op" where
  "pal_vault_key_attrs io k =
     bindS (enforce_session_key_isolation io k) (\<lambda>_. reads (\<lambda>p. key_attrs (vault_of io p) k))"

definition bulk_key_id :: "HsmIo \<Rightarrow> HsmKeyId \<Rightarrow> ('e UnoHsmPal, u16 option) op" where
  "bulk_key_id io k =
     bindS (pal_vault_key_kind io k) (\<lambda>kd.
       if \<not> is_bulk_kind kd then returns None
       else bindS (pal_vault_key io k) (\<lambda>bytes.
         if length bytes \<noteq> 2 then fails InternalError else returns (Some (from_le bytes))))"

definition part_id_to_pcie_fn :: "u8 \<Rightarrow> u8 run" where
  "part_id_to_pcie_fn part_id = (case pfn_to_axi_id part_id of Some _ \<Rightarrow> Ok part_id | None \<Rightarrow> Err InvalidArg)"

definition fp_bulk_delete :: "'e Hw \<Rightarrow> HsmIo \<Rightarrow> u16 \<Rightarrow> u16 \<Rightarrow> bool \<Rightarrow> ('e UnoHsmPal, unit) op" where
  "fp_bulk_delete hw io bulk_id fp_session_id session_only =
     bindS (reads (\<lambda>_. part_id_to_pcie_fn (io_pid io))) (\<lambda>pcie_fn.
       fp_send_key_update hw
         \<lparr>ku_key_index = bulk_key_index bulk_id, ku_resource_id = bulk_vault_id bulk_id, ku_pfn = pcie_fn,
          ku_action = action_bits ActDelete, ku_session_id = fp_session_id, ku_app_id = FP_APP_ID,
          ku_flag = AesKeyFlag session_only Xts, ku_key_data = replicate FP_BULK_KEY_LEN 0\<rparr>)"

definition fp_delete_session_only :: "'e Hw \<Rightarrow> HsmIo \<Rightarrow> u16 \<Rightarrow> ('e UnoHsmPal, unit) op" where
  "fp_delete_session_only hw io sess =
     bindS (reads (\<lambda>_. part_id_to_pcie_fn (io_pid io))) (\<lambda>pcie_fn.
       fp_send_key_update hw
         \<lparr>ku_key_index = 0, ku_resource_id = 0, ku_pfn = pcie_fn,
          ku_action = action_bits ActDeleteSessionOnly, ku_session_id = sess, ku_app_id = FP_APP_ID,
          ku_flag = AesKeyFlag True Xts, ku_key_data = replicate FP_BULK_KEY_LEN 0\<rparr>)"

definition bulk_key_type :: "HsmVaultKeyKind \<Rightarrow> AesBulkKeyType run" where
  "bulk_key_type kd =
     (if kd = AesGcmBulk256 then Ok Gcm
      else if kd = AesGcmBulk256Unapproved then Ok GcmUnapproved
      else if kd = AesXtsBulk256 then Ok Xts
      else Err InvalidKeyType)"

definition pal_session_state :: "HsmIo \<Rightarrow> u16 \<Rightarrow> 'e UnoHsmPal \<Rightarrow> HsmSessionState" where
  "pal_session_state io sid p =
     (case partition (io_pid io) of Ok i \<Rightarrow> session_state (session_table_of (pal_parts p ! i)) sid | _ \<Rightarrow> StInvalid)"

definition store_handle ::
  "'e Hw \<Rightarrow> HsmIo \<Rightarrow> u16 \<Rightarrow> HsmVaultKeyKind \<Rightarrow> u16 option \<Rightarrow> u64 \<Rightarrow> ('e UnoHsmPal, HsmKeyId) op" where
  "store_handle hw io bulk_id kd sess at =
     bindS (dma_put io (to_le 2 bulk_id)) (\<lambda>(id_bytes, _).
       vault_op io (vault_create (hw_gdma hw) (io_pid io) id_bytes kd sess at))"

definition fp_bulk_create ::
  "'e Hw \<Rightarrow> HsmIo \<Rightarrow> DmaBuf \<Rightarrow> HsmVaultKeyKind \<Rightarrow> u16 option \<Rightarrow> u64 \<Rightarrow> ('e UnoHsmPal, HsmKeyId) op" where
  "fp_bulk_create hw io k kd sess at =
     (if buf_len k \<noteq> FP_BULK_KEY_LEN then fails InvalidArg
      else bindS (reads (\<lambda>_. bulk_key_type kd)) (\<lambda>key_type p.
        if (case sess of None \<Rightarrow> False | Some sid \<Rightarrow> pal_session_state io sid p \<in> {StPending, StInvalid})
        then (Err SessionNotFound, p)
        else bindS (reads (\<lambda>_. part_id_to_pcie_fn (io_pid io))) (\<lambda>pcie_fn p.
          bindS (fp_op (fp_slot_alloc (res_mask_of (io_pid io) p))) (\<lambda>(vault_id, key_index).
            let session_only = sess \<noteq> None; fp_session_id = (case sess of None \<Rightarrow> 0 | Some sid \<Rightarrow> sid);
                bulk_id = AesBulk256KeyId key_index vault_id
            in bindS (fp_send_key_update hw
                 \<lparr>ku_key_index = key_index, ku_resource_id = vault_id, ku_pfn = pcie_fn,
                  ku_action = action_bits ActCreate, ku_session_id = fp_session_id, ku_app_id = FP_APP_ID,
                  ku_flag = AesKeyFlag session_only key_type, ku_key_data = buf_bytes k\<rparr>) (\<lambda>_.
               bindS (try_op (store_handle hw io bulk_id kd sess at)) (\<lambda>r.
                 case r of
                   Ok handle \<Rightarrow> returns handle
                 | Err e \<Rightarrow>
                     bindS (try_op (fp_bulk_delete hw io bulk_id fp_session_id session_only)) (\<lambda>d.
                       bindS (if d = Ok () then fp_upd (fp_slot_free vault_id key_index) else returns ()) (\<lambda>_. fails e))
                 | Panic \<Rightarrow> (\<lambda>p. (Panic, p))))) p) p))"

definition vault_key_create ::
  "'e Hw \<Rightarrow> HsmIo \<Rightarrow> DmaBuf \<Rightarrow> HsmVaultKeyKind \<Rightarrow> u16 option \<Rightarrow> u64 \<Rightarrow> ('e UnoHsmPal, HsmKeyId) op" where
  "vault_key_create hw io k kd sess at =
     (if is_bulk_kind kd then fp_bulk_create hw io k kd sess at
      else vault_op io (vault_create (hw_gdma hw) (io_pid io) k kd sess at))"

definition vault_key_delete :: "'e Hw \<Rightarrow> HsmIo \<Rightarrow> HsmKeyId \<Rightarrow> ('e UnoHsmPal, unit) op" where
  "vault_key_delete hw io k =
     bindS (reads (\<lambda>p. key_entry (vault_of io p) k)) (\<lambda>entry.
       if \<not> is_bulk_kind (entry_kind entry) then vault_op io (vault_delete (hw_gdma hw) k)
       else
         let sess = session_binding entry in
         bindS (reads (\<lambda>p. bindr (key_location_present (vault_of io p) k) (\<lambda>(table, off, len).
                  Ok (slice off len (vt_blob (pal_tables p ! table)))))) (\<lambda>bytes.
           if length bytes \<noteq> 2 then fails InternalError
           else
             let bulk_id = from_le bytes in
             bindS (try_op (vault_op io (vault_disable k))) (\<lambda>dis.
             bindS (try_op (fp_bulk_delete hw io bulk_id (case sess of None \<Rightarrow> 0 | Some s \<Rightarrow> s) (sess \<noteq> None))) (\<lambda>d.
               case d of
                 Err e \<Rightarrow>
                   bindS (if dis = Ok () then best_effort (vault_op io (vault_enable k)) else returns ()) (\<lambda>_. fails e)
               | Panic \<Rightarrow> (\<lambda>p. (Panic, p))
               | Ok _ \<Rightarrow>
                   bindS (vault_op io (vault_delete (hw_gdma hw) k)) (\<lambda>_.
                     fp_upd (fp_slot_free (bulk_vault_id bulk_id) (bulk_key_index bulk_id)))))))"

definition vault_key_disable :: "HsmIo \<Rightarrow> HsmKeyId \<Rightarrow> ('e UnoHsmPal, unit) op" where
  "vault_key_disable io k = vault_op io (vault_disable k)"

definition vault_key_enable :: "HsmIo \<Rightarrow> HsmKeyId \<Rightarrow> ('e UnoHsmPal, unit) op" where
  "vault_key_enable io k = vault_op io (vault_enable k)"

definition note_bulk_slot :: "HsmKeyId \<Rightarrow> HsmVaultKeyKind \<Rightarrow> u8 list \<Rightarrow> (u8 list, unit) op" where
  "note_bulk_slot k kd blob slots =
     (if is_bulk_kind kd then
        (if length blob \<noteq> 2 then (Err InternalError, slots)
         else let bits = from_le blob; vid = unat (bulk_vault_id bits); kidx = unat (bulk_key_index bits) in
           if vid \<ge> length slots \<or> kidx \<ge> FP_MAX_SLOTS_PER_PART then (Err InternalError, slots)
           else (Ok (), slots[vid := bit_on kidx (slots ! vid)]))
      else (Ok (), slots))"

definition session_bulk_slots :: "HsmIo \<Rightarrow> u16 \<Rightarrow> 'e UnoHsmPal \<Rightarrow> u8 list run" where
  "session_bulk_slots io sess p =
     (case for_each_session_key (vault_of io p) sess note_bulk_slot (replicate NUM_FP_TABLES 0) of
        (Ok _, slots) \<Rightarrow> Ok slots
      | (Err e, _) \<Rightarrow> Err e
      | (Panic, _) \<Rightarrow> Panic)"

definition delete_session_keys :: "'e Hw \<Rightarrow> HsmIo \<Rightarrow> u16 \<Rightarrow> ('e UnoHsmPal, unit) op" where
  "delete_session_keys hw io sess =
     bindS (reads (session_bulk_slots io sess)) (\<lambda>to_free.
     bindS (fp_delete_session_only hw io sess) (\<lambda>_.
     bindS (try_op (vault_op io (vault_delete_by_session (hw_gdma hw) sess))) (\<lambda>r p.
       case r of
         Err e \<Rightarrow>
           (let remaining = (case session_bulk_slots io sess p of Ok m \<Rightarrow> m | _ \<Rightarrow> to_free);
                gone = map2 (\<lambda>g r. g AND NOT r) to_free remaining
            in bindS (fp_upd (fp_slots_free_bits gone)) (\<lambda>_. fails e) p)
       | Panic \<Rightarrow> (Panic, p)
       | Ok _ \<Rightarrow> fp_upd (fp_slots_free_bits to_free) p)))"

definition vault_key_delete_by_session :: "'e Hw \<Rightarrow> HsmIo \<Rightarrow> u16 \<Rightarrow> ('e UnoHsmPal, unit) op" where
  "vault_key_delete_by_session hw io sess = delete_session_keys hw io sess"

definition pal_vault_clear :: "'e Hw \<Rightarrow> HsmIo \<Rightarrow> ('e UnoHsmPal, unit) op" where
  "pal_vault_clear hw io p =
     (let m = res_mask_of (io_pid io) p in
      bindS (vault_op io (vault_clear (hw_gdma hw))) (\<lambda>_. fp_upd (fp_slots_free_mask m)) p)"

end
