(* ===== verification/UnoVaultLaws.thy ===== *)
theory UnoVaultLaws
  imports UnoVault
begin

text \<open>
  The vault interface of the Uno platform layer seen on the map of keys: what each call does to the
  map, and that the fast-path bitmap covers the handles in the map without aliasing, whatever the
  fast-path core answers.
\<close>

section \<open>The map of keys\<close>

definition pal_keys :: "'e UnoHsmPal \<Rightarrow> HsmKeyId \<Rightarrow> vkey option" where
  "pal_keys p = vault_abs \<lparr>res_mask = 0, tables = pal_tables p\<rparr>"

definition vault_ok :: "'e UnoHsmPal \<Rightarrow> bool" where
  "vault_ok p \<longleftrightarrow> vault_wf \<lparr>res_mask = 0, tables = pal_tables p\<rparr> \<and> vault_clean \<lparr>res_mask = 0, tables = pal_tables p\<rparr>"

text \<open>The key lies in a table of the partition of the IO.\<close>

definition owns :: "HsmIo \<Rightarrow> 'e UnoHsmPal \<Rightarrow> HsmKeyId \<Rightarrow> bool" where
  "owns io p k \<longleftrightarrow> owned (vault_of io p) k"

lemma vault_abs_mask: "vault_abs s = vault_abs (s\<lparr>res_mask := m\<rparr>)" "vault_wf s = vault_wf (s\<lparr>res_mask := m\<rparr>)"
  "vault_clean s = vault_clean (s\<lparr>res_mask := m\<rparr>)"
  by (auto simp: fun_eq_iff vault_abs_def vault_wf_def vault_clean_def tables_shape_def split: prod.splits)

lemma vault_of_views:
  "vault_abs (vault_of io p) = pal_keys p" "vault_wf (vault_of io p) \<and> vault_clean (vault_of io p) \<longleftrightarrow> vault_ok p"
  using vault_abs_mask [where m = 0 and s = "vault_of io p"] by (simp_all add: pal_keys_def vault_ok_def vault_of_def)

lemma vault_of_wf: "vault_ok p \<Longrightarrow> vault_wf (vault_of io p)"
  using vault_of_views(2) by blast

lemma res_mask_of_upd [simp]:
  "res_mask_of i (p\<lparr>pal_tables := T\<rparr>) = res_mask_of i p" "res_mask_of i (p\<lparr>pal_fp_slots := F\<rparr>) = res_mask_of i p"
  "res_mask_of i (p\<lparr>pal_dev := d\<rparr>) = res_mask_of i p" "res_mask_of i (p\<lparr>pal_io_slots := S\<rparr>) = res_mask_of i p"
  by (simp_all add: res_mask_of_def split: run.split)

lemma key_out_of_tables: "fst (split_key_id k) \<ge> TABLE_COUNT \<Longrightarrow> pal_keys p k = None"
  by (auto simp: pal_keys_def vault_abs_def split: prod.splits)

text \<open>Only the vault has changed, and it now holds the keys \<open>K\<close>.\<close>

definition vault_moves :: "'e UnoHsmPal \<Rightarrow> (HsmKeyId \<Rightarrow> vkey option) \<Rightarrow> 'e UnoHsmPal \<Rightarrow> bool" where
  "vault_moves p K p' \<longleftrightarrow> (\<exists>T. p' = p\<lparr>pal_tables := T\<rparr>) \<and> vault_ok p' \<and> pal_keys p' = K"

lemma vault_movesD:
  assumes "vault_moves p K p'"
  shows "vault_ok p'" "pal_keys p' = K" "pal_parts p' = pal_parts p" "pal_fp_slots p' = pal_fp_slots p"
    "pal_io_slots p' = pal_io_slots p" "pal_dev p' = pal_dev p" "owns io p' = owns io p" "res_mask_of i p' = res_mask_of i p"
  using assms by (auto simp: vault_moves_def owns_def owned_def is_valid_table_def vault_of_def fun_eq_iff)

lemma vault_moves_refl: "vault_ok p \<Longrightarrow> vault_moves p (pal_keys p) p"
  by (auto simp: vault_moves_def intro: exI [of _ "pal_tables p"])

lemma vault_moves_trans: "vault_moves p K p' \<Longrightarrow> vault_moves p' K' p'' \<Longrightarrow> vault_moves p K' p''"
  by (auto simp: vault_moves_def)

lemma vault_movesI:
  assumes "vault_op io m p = (r, p')" "m (vault_of io p) = (r', v)" "vault_wf v" "vault_clean v"
  shows "vault_moves p (vault_abs v) p'" "r' = r"
proof -
  have p': "p' = p\<lparr>pal_tables := tables v\<rparr>" "r' = r" using assms(1,2) by (auto simp: vault_op_def)
  have v: "vault_abs v = vault_abs \<lparr>res_mask = 0, tables = tables v\<rparr>"
    "vault_wf \<lparr>res_mask = 0, tables = tables v\<rparr>" "vault_clean \<lparr>res_mask = 0, tables = tables v\<rparr>"
    using vault_abs_mask [where m = 0 and s = v] assms(3,4) by (cases v; simp)+
  then show "vault_moves p (vault_abs v) p'" "r' = r"
    using p' by (auto simp: vault_moves_def vault_ok_def pal_keys_def)
qed

text \<open>An operation of the vault, lifted: enough to know it on the storage.\<close>

lemma vault_op_achieves:
  assumes "vault_ok p"
    and "\<And>r v. m (vault_of io p) = (r, v) \<Longrightarrow> r \<noteq> Panic \<and> vault_wf v \<and> vault_clean v \<and>
      (case r of Ok x \<Rightarrow> Q x (vault_abs v) | Err e \<Rightarrow> E e (vault_abs v) | Panic \<Rightarrow> False)"
  shows "achieves (vault_op io m) p (\<lambda>x p'. Q x (pal_keys p') \<and> vault_moves p (pal_keys p') p')
    (\<lambda>e p'. E e (pal_keys p') \<and> vault_moves p (pal_keys p') p')"
proof -
  obtain r v where m: "m (vault_of io p) = (r, v)" by fastforce
  have run: "vault_op io m p = (r, p\<lparr>pal_tables := tables v\<rparr>)" using m by (simp add: vault_op_def)
  note a = assms(2) [OF m]
  have "vault_moves p (vault_abs v) (p\<lparr>pal_tables := tables v\<rparr>)"
    using vault_movesI [OF run m] a by blast
  then have "vault_moves p (pal_keys (p\<lparr>pal_tables := tables v\<rparr>)) (p\<lparr>pal_tables := tables v\<rparr>)"
    "pal_keys (p\<lparr>pal_tables := tables v\<rparr>) = vault_abs v" using vault_movesD(2) by (metis, metis)
  with a run show ?thesis by (cases r) (simp_all add: achieves_def)
qed

section \<open>Single calls\<close>

lemma hw_scrubbing: "engine_ok (hw_engine hw) \<Longrightarrow> gdma_scrubbing (hw_gdma hw)"
  by (simp add: hw_gdma_def uno_gdma_scrubbing)

lemma create_achieves:
  assumes hw: "engine_ok (hw_engine hw)" and ok: "vault_ok p"
  shows "achieves (vault_op io (vault_create (hw_gdma hw) app k kd sess at)) p
    (\<lambda>i p'. pal_keys p i = None \<and> owns io p i \<and>
      vault_moves p ((pal_keys p)(i \<mapsto> new_key app kd sess at (buf_bytes k))) p')
    (\<lambda>e p'. vault_moves p (pal_keys p) p')"
proof (rule achieves_mono [OF vault_op_achieves [OF ok, where
      Q = "\<lambda>i K. pal_keys p i = None \<and> owns io p i \<and> K = (pal_keys p)(i \<mapsto> new_key app kd sess at (buf_bytes k))"
      and E = "\<lambda>e K. K = pal_keys p"]])
  fix r v assume c: "vault_create (hw_gdma hw) app k kd sess at (vault_of io p) = (r, v)"
  note scrubbing = hw_scrubbing [OF hw]
  have g: "gdma_controller (hw_gdma hw)" using scrubbing by (simp add: gdma_scrubbing_def)
  note wf = vault_of_wf [OF ok, of io]
  have cl: "vault_clean (vault_of io p)" using ok vault_of_views(2) by blast
  show "r \<noteq> Panic \<and> vault_wf v \<and> vault_clean v \<and> (case r of
      Ok i \<Rightarrow> pal_keys p i = None \<and> owns io p i \<and> vault_abs v = (pal_keys p)(i \<mapsto> new_key app kd sess at (buf_bytes k))
    | Err e \<Rightarrow> vault_abs v = pal_keys p | Panic \<Rightarrow> False)"
  proof (cases r)
    case (Ok i)
    show ?thesis using create_Ok [OF g wf c [unfolded Ok]] cl Ok by (simp add: vault_of_views(1) owns_def)
  next
    case (Err e)
    then show ?thesis using create_no_panic_err(2) [OF scrubbing wf c, of e] cl by (simp add: vault_of_views(1))
  qed (use create_no_panic_err(1) [OF scrubbing wf c] in simp)
qed auto

lemma delete_achieves:
  assumes hw: "engine_ok (hw_engine hw)" and ok: "vault_ok p"
  shows "achieves (vault_op io (vault_delete (hw_gdma hw) k)) p
    (\<lambda>_ p'. pal_keys p k \<noteq> None \<and> vault_moves p ((pal_keys p)(k := None)) p')
    (\<lambda>e p'. pal_keys p k = None \<and> vault_moves p (pal_keys p) p')"
proof (rule achieves_mono [OF vault_op_achieves [OF ok, where
      Q = "\<lambda>_ K. pal_keys p k \<noteq> None \<and> K = (pal_keys p)(k := None)" and E = "\<lambda>e K. pal_keys p k = None \<and> K = pal_keys p"]])
  fix r v assume d: "vault_delete (hw_gdma hw) k (vault_of io p) = (r, v)"
  have cl: "vault_clean (vault_of io p)" using ok vault_of_views(2) by blast
  show "r \<noteq> Panic \<and> vault_wf v \<and> vault_clean v \<and> (case r of
      Ok _ \<Rightarrow> pal_keys p k \<noteq> None \<and> vault_abs v = (pal_keys p)(k := None)
    | Err e \<Rightarrow> pal_keys p k = None \<and> vault_abs v = pal_keys p | Panic \<Rightarrow> False)"
    using delete_result [OF hw_scrubbing [OF hw] vault_of_wf [OF ok, of io], of k] d cl key_out_of_tables [of k p]
    by (auto simp: vault_of_views(1) split: if_splits)
qed auto

lemma disable_achieves:
  assumes "vault_ok p"
  shows "achieves (vault_op io (vault_disable k)) p
    (\<lambda>_ p'. \<exists>v. pal_keys p k = Some v \<and> \<not> vk_disabled v \<and> vault_moves p ((pal_keys p)(k \<mapsto> v\<lparr>vk_disabled := True\<rparr>)) p')
    (\<lambda>e p'. vault_moves p (pal_keys p) p')"
proof (rule achieves_mono [OF vault_op_achieves [OF assms, where
      Q = "\<lambda>_ K. \<exists>v. pal_keys p k = Some v \<and> \<not> vk_disabled v \<and> K = (pal_keys p)(k \<mapsto> v\<lparr>vk_disabled := True\<rparr>)"
      and E = "\<lambda>e K. K = pal_keys p"]])
  fix r v assume d: "vault_disable k (vault_of io p) = (r, v)"
  have cl: "vault_clean (vault_of io p)" using assms vault_of_views(2) by blast
  have "live_key (vault_of io p) k = Some x \<Longrightarrow> pal_keys p k = Some x \<and> \<not> vk_disabled x" for x
    by (auto simp: live_key_def owned_key_def vault_of_views(1) split: option.splits if_splits)
  then show "r \<noteq> Panic \<and> vault_wf v \<and> vault_clean v \<and> (case r of
      Ok _ \<Rightarrow> \<exists>x. pal_keys p k = Some x \<and> \<not> vk_disabled x \<and> vault_abs v = (pal_keys p)(k \<mapsto> x\<lparr>vk_disabled := True\<rparr>)
    | Err e \<Rightarrow> vault_abs v = pal_keys p | Panic \<Rightarrow> False)"
    using disable_result [OF vault_of_wf [OF assms, of io], of k] d cl
    by (auto simp: vault_of_views(1) split: option.splits)
qed auto

lemma enable_achieves:
  assumes "vault_ok p"
  shows "achieves (vault_op io (vault_enable k)) p
    (\<lambda>_ p'. \<exists>v. pal_keys p k = Some v \<and> vault_moves p ((pal_keys p)(k \<mapsto> v\<lparr>vk_disabled := False\<rparr>)) p')
    (\<lambda>e p'. pal_keys p k = None \<and> vault_moves p (pal_keys p) p')"
proof (rule achieves_mono [OF vault_op_achieves [OF assms, where
      Q = "\<lambda>_ K. \<exists>v. pal_keys p k = Some v \<and> K = (pal_keys p)(k \<mapsto> v\<lparr>vk_disabled := False\<rparr>)"
      and E = "\<lambda>e K. pal_keys p k = None \<and> K = pal_keys p"]])
  fix r v assume d: "vault_enable k (vault_of io p) = (r, v)"
  have cl: "vault_clean (vault_of io p)" using assms vault_of_views(2) by blast
  show "r \<noteq> Panic \<and> vault_wf v \<and> vault_clean v \<and> (case r of
      Ok _ \<Rightarrow> \<exists>x. pal_keys p k = Some x \<and> vault_abs v = (pal_keys p)(k \<mapsto> x\<lparr>vk_disabled := False\<rparr>)
    | Err e \<Rightarrow> pal_keys p k = None \<and> vault_abs v = pal_keys p | Panic \<Rightarrow> False)"
    using enable_result [OF vault_of_wf [OF assms, of io], of k] d cl key_out_of_tables [of k p]
    by (auto simp: vault_of_views(1) split: if_splits option.splits)
qed auto

lemma delete_by_session_achieves:
  assumes hw: "engine_ok (hw_engine hw)" and ok: "vault_ok p"
  shows "achieves (vault_op io (vault_delete_by_session (hw_gdma hw) sess)) p
    (\<lambda>_ p'. vault_moves p (without_keys (vault_of io p) (\<lambda>v. vk_session v = Some sess)) p') (\<lambda>e p'. False)"
proof (rule achieves_mono [OF vault_op_achieves [OF ok, where
      Q = "\<lambda>_ K. K = without_keys (vault_of io p) (\<lambda>v. vk_session v = Some sess)" and E = "\<lambda>e K. False"]])
  fix r v assume d: "vault_delete_by_session (hw_gdma hw) sess (vault_of io p) = (r, v)"
  have cl: "vault_clean (vault_of io p)" using ok vault_of_views(2) by blast
  show "r \<noteq> Panic \<and> vault_wf v \<and> vault_clean v \<and> (case r of
      Ok _ \<Rightarrow> vault_abs v = without_keys (vault_of io p) (\<lambda>v. vk_session v = Some sess) | Err e \<Rightarrow> False | Panic \<Rightarrow> False)"
    using delete_by_session_result [OF hw_scrubbing [OF hw] vault_of_wf [OF ok, of io], of sess] d cl by auto
qed auto

lemma clear_achieves:
  assumes hw: "engine_ok (hw_engine hw)" and ok: "vault_ok p"
  shows "achieves (vault_op io (vault_clear (hw_gdma hw))) p
    (\<lambda>_ p'. vault_moves p (without_keys (vault_of io p) (\<lambda>_. True)) p') (\<lambda>e p'. False)"
proof (rule achieves_mono [OF vault_op_achieves [OF ok, where
      Q = "\<lambda>_ K. K = without_keys (vault_of io p) (\<lambda>_. True)" and E = "\<lambda>e K. False"]])
  fix r v assume d: "vault_clear (hw_gdma hw) (vault_of io p) = (r, v)"
  have cl: "vault_clean (vault_of io p)" using ok vault_of_views(2) by blast
  show "r \<noteq> Panic \<and> vault_wf v \<and> vault_clean v \<and> (case r of
      Ok _ \<Rightarrow> vault_abs v = without_keys (vault_of io p) (\<lambda>_. True) | Err e \<Rightarrow> False | Panic \<Rightarrow> False)"
    using clear_result [OF hw_scrubbing [OF hw] vault_of_wf [OF ok, of io]] d cl by auto
qed auto

text \<open>Calls whose failure the caller looks at or drops.\<close>

lemma try_achieves:
  assumes "achieves m s Q E"
  shows "achieves (try_op m) s (\<lambda>r s'. case r of Ok x \<Rightarrow> Q x s' | Err e \<Rightarrow> E e s' | Panic \<Rightarrow> False) E'"
  by (rule achieves_cases [OF assms]) (simp_all add: achieves_def try_op_def)

lemma best_effort_achieves:
  assumes "achieves m s (\<lambda>_. R) (\<lambda>_. R)"
  shows "achieves (best_effort m) s (\<lambda>_. R) E"
  unfolding best_effort_def
  by (rule achieves_bind [OF try_achieves [OF assms]]) (auto split: run.splits)

lemma fp_send_achieves:
  "achieves (fp_send_key_update hw info) p (\<lambda>_ p'. \<exists>d. p' = p\<lparr>pal_dev := d\<rparr>) (\<lambda>_ p'. \<exists>d. p' = p\<lparr>pal_dev := d\<rparr>)"
  by (auto simp: achieves_def fp_send_key_update_def dev_op_def Let_def split: prod.split)

lemma dma_put_achieves:
  assumes "io_index io < length (pal_io_slots p)"
  shows "achieves (dma_put io bs) p
    (\<lambda>dn p'. buf_bytes (fst dn) = bs \<and> (\<exists>S. p' = p\<lparr>pal_io_slots := S\<rparr> \<and> length S = length (pal_io_slots p)))
    (\<lambda>_ p'. p' = p)"
proof -
  obtain r s where b: "dma_alloc (io_index io) (length bs) (pal_io_slots p ! io_index io) = (r, s)" by fastforce
  have "r \<noteq> Panic" "r = Err e \<Longrightarrow> s = pal_io_slots p ! io_index io" for e
    using bump_fails b unfolding dma_alloc_def by (metis, metis)
  with b assms show ?thesis by (cases r) (auto simp: achieves_def dma_put_def scratch_op_def)
qed

lemma part_id_to_pcie_fn_achieves:
  "achieves (reads (\<lambda>_. part_id_to_pcie_fn pid)) p (\<lambda>_ p'. p' = p) (\<lambda>_ p'. p' = p)"
  by (simp add: part_id_to_pcie_fn_def split: option.split)

section \<open>The fast-path slots\<close>

definition bulk_slot :: "vkey \<Rightarrow> nat \<times> nat" where
  "bulk_slot v = (let bits = from_le (vk_bytes v) in (unat (bulk_vault_id bits), unat (bulk_key_index bits)))"

text \<open>
  Every bulk key holds a well-formed handle whose slot is marked in use; two bulk keys hold handles of
  different slots; the table of the vault and the fast-path table of a bulk key belong to the same
  partition; no table belongs to two partitions.
\<close>

definition fp_inv :: "'e UnoHsmPal \<Rightarrow> bool" where
  "fp_inv p \<longleftrightarrow> length (pal_fp_slots p) = NUM_FP_TABLES \<and>
     (\<forall>k v. pal_keys p k = Some v \<longrightarrow> is_bulk_kind (vk_kind v) \<longrightarrow>
        length (vk_bytes v) = 2 \<and> fst (bulk_slot v) < NUM_FP_TABLES \<and> snd (bulk_slot v) < FP_MAX_SLOTS_PER_PART \<and>
        bit (pal_fp_slots p ! fst (bulk_slot v)) (snd (bulk_slot v)) \<and>
        (\<forall>i < NUM_PARTITIONS. bit (ps_res_mask (pal_parts p ! i)) (fst (split_key_id k)) \<longleftrightarrow>
           bit (ps_res_mask (pal_parts p ! i)) (fst (bulk_slot v)))) \<and>
     (\<forall>k k' v v'. pal_keys p k = Some v \<longrightarrow> pal_keys p k' = Some v' \<longrightarrow> is_bulk_kind (vk_kind v) \<longrightarrow>
        is_bulk_kind (vk_kind v') \<longrightarrow> bulk_slot v = bulk_slot v' \<longrightarrow> k = k') \<and>
     (\<forall>i j t. i < NUM_PARTITIONS \<longrightarrow> j < NUM_PARTITIONS \<longrightarrow> bit (ps_res_mask (pal_parts p ! i)) t \<longrightarrow>
        bit (ps_res_mask (pal_parts p ! j)) t \<longrightarrow> i = j)"

text \<open>The slot is free of every key.\<close>

definition unreferenced :: "'e UnoHsmPal \<Rightarrow> nat \<Rightarrow> nat \<Rightarrow> bool" where
  "unreferenced p t b \<longleftrightarrow> (\<forall>k v. pal_keys p k = Some v \<longrightarrow> is_bulk_kind (vk_kind v) \<longrightarrow> bulk_slot v \<noteq> (t, b))"

lemma bulk_handle:
  assumes "b < 7" "t < 65"
  shows "bulk_vault_id (AesBulk256KeyId (of_nat b) (of_nat t)) = of_nat t"
    "bulk_key_index (AesBulk256KeyId (of_nat b) (of_nat t)) = of_nat b"
proof -
  have "take_bit 3 b = b" "take_bit 7 t = t" using assms by (simp_all add: take_bit_eq_mod)
  then have b: "bit b i \<Longrightarrow> i < 3" "bit t i \<Longrightarrow> i < 7" for i by (metis bit_take_bit_iff)+
  have m: "(7 :: u16) = mask 3" "(0x7F :: u16) = mask 7" by (simp_all add: mask_eq_exp_minus_1)
  show "bulk_vault_id (AesBulk256KeyId (of_nat b) (of_nat t)) = of_nat t"
    unfolding bulk_vault_id_def AesBulk256KeyId_def m
    by (rule bit_word_eqI) (auto simp: bit_simps dest: b)
  show "bulk_key_index (AesBulk256KeyId (of_nat b) (of_nat t)) = of_nat b"
    unfolding bulk_key_index_def AesBulk256KeyId_def m
    by (rule bit_word_eqI) (auto simp: bit_simps dest: b)
qed

lemma bulk_slot_new:
  assumes "b < FP_MAX_SLOTS_PER_PART" "t < NUM_FP_TABLES"
  shows "bulk_slot (new_key app kd sess at (to_le 2 (AesBulk256KeyId (of_nat b) (of_nat t)))) = (t, b)"
  using assms
  by (simp add: bulk_slot_def new_key_def bulk_handle FP_MAX_SLOTS_PER_PART_def NUM_FP_TABLES_def)

lemma fp_inv_keep:
  assumes "fp_inv p" "pal_parts p' = pal_parts p" "length (pal_fp_slots p') = NUM_FP_TABLES"
    and "\<And>k v. pal_keys p' k = Some v \<Longrightarrow> is_bulk_kind (vk_kind v) \<Longrightarrow>
      (\<exists>u. pal_keys p k = Some u \<and> vk_kind u = vk_kind v \<and> vk_bytes u = vk_bytes v) \<and>
      (bit (pal_fp_slots p ! fst (bulk_slot v)) (snd (bulk_slot v)) \<longrightarrow> bit (pal_fp_slots p' ! fst (bulk_slot v)) (snd (bulk_slot v)))"
  shows "fp_inv p'"
proof -
  have pre: "\<exists>u. pal_keys p k = Some u \<and> is_bulk_kind (vk_kind u) \<and> bulk_slot u = bulk_slot v \<and> vk_bytes u = vk_bytes v"
    if "pal_keys p' k = Some v" "is_bulk_kind (vk_kind v)" for k v
    using assms(4) [OF that] that(2) by (auto simp: bulk_slot_def)
  show ?thesis
    unfolding fp_inv_def
  proof (intro conjI allI impI)
    fix k v assume k: "pal_keys p' k = Some v" "is_bulk_kind (vk_kind v)"
    then obtain u where u: "pal_keys p k = Some u" "is_bulk_kind (vk_kind u)" "bulk_slot u = bulk_slot v" "vk_bytes u = vk_bytes v"
      using pre by blast
    note f = assms(1) [unfolded fp_inv_def, THEN conjunct2, THEN conjunct1, rule_format, OF u(1,2)]
    show "length (vk_bytes v) = 2" "fst (bulk_slot v) < NUM_FP_TABLES" "snd (bulk_slot v) < FP_MAX_SLOTS_PER_PART"
      "bit (pal_fp_slots p' ! fst (bulk_slot v)) (snd (bulk_slot v))"
      using f u assms(4) [OF k] by auto
    show "bit (ps_res_mask (pal_parts p' ! i)) (fst (split_key_id k)) = bit (ps_res_mask (pal_parts p' ! i)) (fst (bulk_slot v))"
      if "i < NUM_PARTITIONS" for i using f u that assms(2) by auto
  next
    fix k k' v v' assume "pal_keys p' k = Some v" "pal_keys p' k' = Some v'" "is_bulk_kind (vk_kind v)"
      "is_bulk_kind (vk_kind v')" "bulk_slot v = bulk_slot v'"
    then show "k = k'" using pre assms(1) unfolding fp_inv_def by metis
  next
    fix i j t assume "i < NUM_PARTITIONS" "j < NUM_PARTITIONS" "bit (ps_res_mask (pal_parts p' ! i)) t"
      "bit (ps_res_mask (pal_parts p' ! j)) t"
    then show "i = j" using assms(1,2) unfolding fp_inv_def by metis
  qed (rule assms(3))
qed

lemma fp_inv_add:
  assumes "fp_inv p" "pal_parts p' = pal_parts p" "pal_fp_slots p' = pal_fp_slots p" "pal_keys p' = (pal_keys p)(k \<mapsto> v)"
    and "is_bulk_kind (vk_kind v)" "length (vk_bytes v) = 2" "bulk_slot v = (t, b)" "t < NUM_FP_TABLES" "b < FP_MAX_SLOTS_PER_PART"
    and "bit (pal_fp_slots p ! t) b" "unreferenced p t b"
    and "pid < NUM_PARTITIONS" "bit (ps_res_mask (pal_parts p ! pid)) (fst (split_key_id k))" "bit (ps_res_mask (pal_parts p ! pid)) t"
  shows "fp_inv p'"
proof -
  have own: "bit (ps_res_mask (pal_parts p ! i)) (fst (split_key_id k)) = bit (ps_res_mask (pal_parts p ! i)) t"
    if "i < NUM_PARTITIONS" for i
    using assms(1,12-14) that unfolding fp_inv_def by metis
  show ?thesis
    unfolding fp_inv_def
  proof (intro conjI allI impI)
    show "length (pal_fp_slots p') = NUM_FP_TABLES" using assms(1,3) by (simp add: fp_inv_def)
  next
    fix k' v' assume k': "pal_keys p' k' = Some v'" "is_bulk_kind (vk_kind v')"
    have "k' \<noteq> k \<Longrightarrow> pal_keys p k' = Some v'" using k'(1) assms(4) by simp
    note f = assms(1) [unfolded fp_inv_def, THEN conjunct2, THEN conjunct1, rule_format, OF this k'(2)]
    show "length (vk_bytes v') = 2" "fst (bulk_slot v') < NUM_FP_TABLES" "snd (bulk_slot v') < FP_MAX_SLOTS_PER_PART"
      "bit (pal_fp_slots p' ! fst (bulk_slot v')) (snd (bulk_slot v'))"
      using f assms(3,4,6-10) k'(1) by (cases "k' = k"; auto)+
    show "bit (ps_res_mask (pal_parts p' ! i)) (fst (split_key_id k')) = bit (ps_res_mask (pal_parts p' ! i)) (fst (bulk_slot v'))"
      if "i < NUM_PARTITIONS" for i using f own that assms(2,4,7) k'(1) by (cases "k' = k") auto
  next
    fix a a' u u' assume "pal_keys p' a = Some u" "pal_keys p' a' = Some u'" "is_bulk_kind (vk_kind u)"
      "is_bulk_kind (vk_kind u')" "bulk_slot u = bulk_slot u'"
    moreover have "k = a'" if "a' \<noteq> k" "pal_keys p a' = Some u'" "is_bulk_kind (vk_kind u')" "bulk_slot u' = (t, b)" for a' u'
      using assms(11) that unfolding unreferenced_def by blast
    moreover have "a = a'" if "pal_keys p a = Some u" "pal_keys p a' = Some u'" "is_bulk_kind (vk_kind u)"
      "is_bulk_kind (vk_kind u')" "bulk_slot u = bulk_slot u'" using assms(1) that unfolding fp_inv_def by blast
    ultimately show "a = a'" using assms(4,7) by (cases "a = k"; cases "a' = k") auto
  next
    fix i j t assume "i < NUM_PARTITIONS" "j < NUM_PARTITIONS" "bit (ps_res_mask (pal_parts p' ! i)) t"
      "bit (ps_res_mask (pal_parts p' ! j)) t"
    then show "i = j" using assms(1,2) unfolding fp_inv_def by metis
  qed
qed

section \<open>The calls keep the fast-path invariant\<close>

definition steady :: "HsmIo \<Rightarrow> 'e UnoHsmPal \<Rightarrow> bool" where
  "steady io p \<longleftrightarrow> vault_ok p \<and> fp_inv p \<and> io_index io < length (pal_io_slots p)"

lemma bit_valid_table: "is_valid_table s t \<longleftrightarrow> t < TABLE_COUNT \<and> bit (res_mask s) t"
  by (simp add: is_valid_table_def bit_iff_odd_drop_bit even_iff_mod_2_eq_zero and_one_eq)

lemma owns_mask:
  assumes "owns io p k"
  obtains i where "partition (io_pid io) = Ok i" "i < NUM_PARTITIONS" "bit (ps_res_mask (pal_parts p ! i)) (fst (split_key_id k))"
proof -
  have b: "bit (res_mask_of (io_pid io) p) (fst (split_key_id k))"
    using assms by (simp add: owns_def owned_def bit_valid_table vault_of_def)
  then obtain i where i: "partition (io_pid io) = Ok i" by (cases "partition (io_pid io)") (auto simp: res_mask_of_def)
  then have "i < NUM_PARTITIONS" by (auto simp: partition_def Let_def split: if_splits)
  with i b show ?thesis by (intro that) (auto simp: res_mask_of_def)
qed

lemma steady_frame:
  assumes "steady io p" "pal_tables p' = pal_tables p" "pal_parts p' = pal_parts p" "pal_fp_slots p' = pal_fp_slots p"
    "length (pal_io_slots p') = length (pal_io_slots p)"
  shows "steady io p'" "unreferenced p' t b = unreferenced p t b" "pal_keys p' = pal_keys p" "res_mask_of i p' = res_mask_of i p"
proof -
  show k: "pal_keys p' = pal_keys p" using assms(2) by (simp add: pal_keys_def)
  show "steady io p'" "unreferenced p' t b = unreferenced p t b" "res_mask_of i p' = res_mask_of i p"
    using assms k by (auto simp: steady_def vault_ok_def fp_inv_def unreferenced_def res_mask_of_def split: run.split)
qed

lemma steady_moves:
  assumes "steady io p" "vault_moves p K p'"
    and "\<And>k v. K k = Some v \<Longrightarrow> is_bulk_kind (vk_kind v) \<Longrightarrow>
      (\<exists>u. pal_keys p k = Some u \<and> vk_kind u = vk_kind v \<and> vk_bytes u = vk_bytes v)"
  shows "steady io p'"
proof -
  note m = vault_movesD [OF assms(2)]
  have "fp_inv p'"
    by (rule fp_inv_keep [of p]) (use assms m in \<open>auto simp: steady_def fp_inv_def\<close>)
  with m assms(1) show ?thesis by (simp add: steady_def)
qed

lemma slot_alloc_achieves:
  assumes "steady io p"
  shows "achieves (fp_op (fp_slot_alloc (res_mask_of pid p))) p
    (\<lambda>vx p'. \<exists>t b F. vx = (of_nat t, of_nat b) \<and> t < NUM_FP_TABLES \<and> b < FP_MAX_SLOTS_PER_PART \<and> bit (res_mask_of pid p) t \<and>
       p' = p\<lparr>pal_fp_slots := F\<rparr> \<and> steady io p' \<and> bit (F ! t) b \<and> unreferenced p' t b)
    (\<lambda>_ p'. p' = p)"
proof -
  let ?S = "pal_fp_slots p" and ?m = "res_mask_of pid p"
  let ?P = "\<lambda>(table, b). test_bit ?m table \<and> \<not> test_bit (?S ! table) b"
  let ?xs = "List.product [0..<NUM_FP_TABLES] [0..<FP_MAX_SLOTS_PER_PART]"
  have len: "length ?S = NUM_FP_TABLES" using assms by (simp add: steady_def fp_inv_def)
  show ?thesis
  proof (cases "List.find ?P ?xs")
    case None
    then show ?thesis by (simp add: achieves_def fp_op_def fp_slot_alloc_def)
  next
    case (Some tb)
    obtain t b where tb: "tb = (t, b)" by fastforce
    have f: "t < NUM_FP_TABLES" "b < FP_MAX_SLOTS_PER_PART" "bit ?m t" "\<not> bit (?S ! t) b"
      using find_SomeD [OF Some] tb by auto
    let ?F = "?S[t := bit_on b (?S ! t)]" and ?p = "p\<lparr>pal_fp_slots := ?S[t := bit_on b (?S ! t)]\<rparr>"
    have b8: "b < 8" using f(2) by (simp add: FP_MAX_SLOTS_PER_PART_def)
    have more: "bit (?F ! i) j" if "i < NUM_FP_TABLES" "bit (?S ! i) j" for i j
      using that len by (cases "i = t") (auto simp: bit_bit_on)
    have keys: "pal_keys ?p = pal_keys p" by (simp add: pal_keys_def)
    have inv: "fp_inv p" using assms by (simp add: steady_def)
    have "fp_inv ?p"
      by (rule fp_inv_keep [OF inv])
        (use inv len more keys in \<open>auto simp: fp_inv_def\<close>)
    then have st: "steady io ?p" using assms by (simp add: steady_def vault_ok_def)
    have "unreferenced ?p t b"
      using inv f(4) unfolding unreferenced_def keys fp_inv_def by (metis fst_conv snd_conv)
    moreover have "bit (?F ! t) b" using len f(1) b8 by (simp add: bit_bit_on)
    moreover have "fp_op (fp_slot_alloc ?m) p = (Ok (of_nat t, of_nat b), ?p)"
      using Some tb by (simp add: fp_op_def fp_slot_alloc_def)
    ultimately show ?thesis using st f by (simp add: achieves_def) blast
  qed
qed

lemma fp_free_steady:
  assumes "steady io p" "length F = NUM_FP_TABLES"
    and "\<And>k v t b. pal_keys p k = Some v \<Longrightarrow> is_bulk_kind (vk_kind v) \<Longrightarrow> bulk_slot v = (t, b) \<Longrightarrow> t < NUM_FP_TABLES \<Longrightarrow>
      bit (pal_fp_slots p ! t) b \<Longrightarrow> bit (F ! t) b"
  shows "steady io (p\<lparr>pal_fp_slots := F\<rparr>)" (is "steady io ?p")
proof -
  have inv: "fp_inv p" using assms by (simp add: steady_def)
  have keys: "pal_keys ?p = pal_keys p" by (simp add: pal_keys_def)
  have "fp_inv ?p"
  proof (rule fp_inv_keep [OF inv])
    fix k v assume k: "pal_keys ?p k = Some v" "is_bulk_kind (vk_kind v)"
    obtain t b where tb: "bulk_slot v = (t, b)" by fastforce
    have "t < NUM_FP_TABLES" using inv k tb unfolding fp_inv_def keys by (metis fst_conv)
    with k tb show "(\<exists>u. pal_keys p k = Some u \<and> vk_kind u = vk_kind v \<and> vk_bytes u = vk_bytes v) \<and>
        (bit (pal_fp_slots p ! fst (bulk_slot v)) (snd (bulk_slot v)) \<longrightarrow>
         bit (pal_fp_slots ?p ! fst (bulk_slot v)) (snd (bulk_slot v)))"
      using assms(3) by (simp add: keys)
  qed (use assms(2) in simp_all)
  then show ?thesis using assms(1) by (simp add: steady_def vault_ok_def)
qed

lemma slot_free_steady:
  assumes "steady io p" "unreferenced p (unat v) (unat x)"
  shows "steady io (p\<lparr>pal_fp_slots := fp_slot_free v x (pal_fp_slots p)\<rparr>)"
proof (rule fp_free_steady [OF assms(1)])
  have len: "length (pal_fp_slots p) = NUM_FP_TABLES" using assms by (simp add: steady_def fp_inv_def)
  then show "length (fp_slot_free v x (pal_fp_slots p)) = NUM_FP_TABLES" by (simp add: fp_slot_free_def Let_def)
  fix k u t b assume k: "pal_keys p k = Some u" "is_bulk_kind (vk_kind u)" "bulk_slot u = (t, b)" "t < NUM_FP_TABLES"
    "bit (pal_fp_slots p ! t) b"
  then have "(t, b) \<noteq> (unat v, unat x)" using assms(2) unfolding unreferenced_def by metis
  then show "bit (fp_slot_free v x (pal_fp_slots p) ! t) b"
    using k(4,5) len by (cases "t = unat v") (auto simp: fp_slot_free_def Let_def bit_bit_off)
qed

lemma store_handle_achieves:
  assumes hw: "engine_ok (hw_engine hw)" and st: "steady io p" "unreferenced p t b"
    and tb: "t < NUM_FP_TABLES" "b < FP_MAX_SLOTS_PER_PART" "bit (pal_fp_slots p ! t) b" "bit (res_mask_of (io_pid io) p) t"
    and kd: "is_bulk_kind kd"
  shows "achieves (store_handle hw io (AesBulk256KeyId (of_nat b) (of_nat t)) kd sess at) p
    (\<lambda>_. steady io) (\<lambda>_ p'. steady io p' \<and> unreferenced p' t b)"
  unfolding store_handle_def
proof (rule achieves_bind)
  let ?h = "to_le 2 (AesBulk256KeyId (of_nat b) (of_nat t))"
  show "achieves (dma_put io ?h) p
      (\<lambda>dn p'. buf_bytes (fst dn) = ?h \<and> (\<exists>S. p' = p\<lparr>pal_io_slots := S\<rparr> \<and> length S = length (pal_io_slots p)))
      (\<lambda>_ p'. steady io p' \<and> unreferenced p' t b)"
    by (rule achieves_mono [OF dma_put_achieves]) (use st in \<open>auto simp: steady_def\<close>)
  fix dn :: "DmaBuf \<times> nat" and p1 assume "buf_bytes (fst dn) = ?h \<and> (\<exists>S. p1 = p\<lparr>pal_io_slots := S\<rparr> \<and> length S = length (pal_io_slots p))"
  then obtain d n S where d: "dn = (d, n)" "buf_bytes d = ?h" "p1 = p\<lparr>pal_io_slots := S\<rparr>" "length S = length (pal_io_slots p)"
    by (cases dn) auto
  have st1: "steady io p1" "unreferenced p1 t b" using steady_frame [OF st(1), of p1] d st(2) by auto
  have ok1: "vault_ok p1" using st1 by (simp add: steady_def)
  let ?v = "new_key (io_pid io) kd sess at ?h"
  have "achieves (vault_op io (vault_create (hw_gdma hw) (io_pid io) d kd sess at)) p1
      (\<lambda>_. steady io) (\<lambda>_ p'. steady io p' \<and> unreferenced p' t b)"
  proof (rule achieves_mono [OF create_achieves [OF hw ok1]])
    fix k p' assume "pal_keys p1 k = None \<and> owns io p1 k \<and>
      vault_moves p1 ((pal_keys p1)(k \<mapsto> new_key (io_pid io) kd sess at (buf_bytes d))) p'"
    then have k: "owns io p1 k" "vault_moves p1 ((pal_keys p1)(k \<mapsto> ?v)) p'" using d(2) by auto
    note m = vault_movesD [OF k(2)]
    obtain i where i: "partition (io_pid io) = Ok i" "i < NUM_PARTITIONS" "bit (ps_res_mask (pal_parts p1 ! i)) (fst (split_key_id k))"
      by (rule owns_mask [OF k(1)])
    have "bit (ps_res_mask (pal_parts p1 ! i)) t" using tb(4) i(1) d(3) by (simp add: res_mask_of_def)
    then have "fp_inv p'"
      using st1 i tb kd d(3) m bulk_slot_new [OF tb(2,1)]
      by (intro fp_inv_add [of p1 p' k ?v t b i]) (auto simp: steady_def new_key_def)
    then show "steady io p'" using m st1 by (simp add: steady_def)
  next
    fix e p' assume m: "vault_moves p1 (pal_keys p1) p'"
    have "steady io p'" by (rule steady_moves [OF st1(1) m]) auto
    then show "steady io p' \<and> unreferenced p' t b"
      using st1(2) vault_movesD(2) [OF m] by (simp add: unreferenced_def)
  qed
  then show "achieves ((\<lambda>(id_bytes, _). vault_op io (vault_create (hw_gdma hw) (io_pid io) id_bytes kd sess at)) dn) p1
      (\<lambda>_. steady io) (\<lambda>_ p'. steady io p' \<and> unreferenced p' t b)" using d(1) by simp
qed

lemma fp_bulk_delete_achieves:
  assumes "steady io p"
  shows "achieves (fp_bulk_delete hw io i x so) p (\<lambda>_ p'. \<exists>d. p' = p\<lparr>pal_dev := d\<rparr>) (\<lambda>_ p'. \<exists>d. p' = p\<lparr>pal_dev := d\<rparr>)"
  unfolding fp_bulk_delete_def
  by (rule achieves_bind [OF achieves_mono [OF part_id_to_pcie_fn_achieves, where Q' = "\<lambda>_ p'. p' = p"]])
    (auto intro: fp_send_achieves exI [of _ "pal_dev p"])

lemma steady_dev:
  assumes "steady io p" "\<exists>d. p' = p\<lparr>pal_dev := d\<rparr>"
  shows "steady io p'" "unreferenced p' t b = unreferenced p t b" "pal_keys p' = pal_keys p" "pal_fp_slots p' = pal_fp_slots p"
    "res_mask_of i p' = res_mask_of i p"
  using steady_frame [OF assms(1), of p'] assms(2) by auto

text \<open>After the fast-path core has taken the key: the handle is stored, or the key and its slot are given back.\<close>

lemma store_or_release:
  fixes p :: "'e UnoHsmPal"
  assumes hw: "engine_ok (hw_engine hw)" and st: "steady io p" "unreferenced p t b"
    and tb: "t < NUM_FP_TABLES" "b < FP_MAX_SLOTS_PER_PART" "bit (pal_fp_slots p ! t) b" "bit (res_mask_of (io_pid io) p) t"
    and kd: "is_bulk_kind kd" and i: "i = AesBulk256KeyId (of_nat b) (of_nat t)"
  shows "achieves (bindS (try_op (store_handle hw io i kd sess at)) (\<lambda>r. case r of
        Ok handle \<Rightarrow> returns handle
      | Err e \<Rightarrow> bindS (try_op (fp_bulk_delete hw io i x so)) (\<lambda>d.
          bindS (if d = Ok () then fp_upd (fp_slot_free (of_nat t) (of_nat b)) else returns ()) (\<lambda>_. fails e))
      | Panic \<Rightarrow> (\<lambda>p. (Panic, p)))) p (\<lambda>_. steady io) (\<lambda>_. steady io)"
proof (rule achieves_bind [OF try_achieves [OF store_handle_achieves [OF hw st tb kd, folded i]]])
  fix r and p1 :: "'e UnoHsmPal" assume r: "case r of Ok x \<Rightarrow> steady io p1 | Err e \<Rightarrow> steady io p1 \<and> unreferenced p1 t b | Panic \<Rightarrow> False"
  have un: "unat (of_nat t :: u8) = t" "unat (of_nat b :: u8) = b"
    using tb(1,2) by (simp_all add: NUM_FP_TABLES_def FP_MAX_SLOTS_PER_PART_def)
  show "achieves (case r of
        Ok handle \<Rightarrow> returns handle
      | Err e \<Rightarrow> bindS (try_op (fp_bulk_delete hw io i x so)) (\<lambda>d.
          bindS (if d = Ok () then fp_upd (fp_slot_free (of_nat t) (of_nat b)) else returns ()) (\<lambda>_. fails e))
      | Panic \<Rightarrow> (\<lambda>p. (Panic, p))) p1 (\<lambda>_. steady io) (\<lambda>_. steady io)"
  proof (cases r)
    case (Err e)
    have s1: "steady io p1" "unreferenced p1 t b" using r Err by auto
    have "achieves (bindS (try_op (fp_bulk_delete hw io i x so)) (\<lambda>d.
          bindS (if d = Ok () then fp_upd (fp_slot_free (of_nat t) (of_nat b)) else returns ()) (\<lambda>_. fails e))) p1
        (\<lambda>_. steady io) (\<lambda>_. steady io)"
    proof (rule achieves_bind [OF try_achieves [OF fp_bulk_delete_achieves [OF s1(1)]]])
      fix d :: "unit run" and p2 :: "'e UnoHsmPal" assume "case d of Ok x \<Rightarrow> \<exists>d. p2 = p1\<lparr>pal_dev := d\<rparr> | Err e \<Rightarrow> \<exists>d. p2 = p1\<lparr>pal_dev := d\<rparr> | Panic \<Rightarrow> False"
      then have dev: "\<exists>d. p2 = p1\<lparr>pal_dev := d\<rparr>" by (cases d) auto
      have s2: "steady io p2" "unreferenced p2 t b" using steady_dev [OF s1(1) dev] s1(2) by auto
      show "achieves (bindS (if d = Ok () then fp_upd (fp_slot_free (of_nat t) (of_nat b)) else returns ()) (\<lambda>_. fails e)) p2
          (\<lambda>_. steady io) (\<lambda>_. steady io)"
        using s2 slot_free_steady [OF s2(1), of "of_nat t" "of_nat b"] un
        by (simp add: achieves_def bindS_def fp_upd_def)
    qed
    with Err show ?thesis by simp
  qed (use r in simp_all)
qed

lemma fp_bulk_create_steady:
  fixes p :: "'e UnoHsmPal"
  assumes hw: "engine_ok (hw_engine hw)" and st: "steady io p" and kd: "is_bulk_kind kd"
  shows "achieves (fp_bulk_create hw io k kd sess at) p (\<lambda>_. steady io) (\<lambda>_. steady io)"
proof (cases "buf_len k = FP_BULK_KEY_LEN")
  case False
  then show ?thesis using st by (simp add: fp_bulk_create_def)
next
  case True
  obtain ty where ty: "bulk_key_type kd = Ok ty" using kd by (auto simp: is_bulk_kind_def bulk_key_type_def)
  show ?thesis
  proof (cases "case sess of None \<Rightarrow> False | Some sid \<Rightarrow> pal_session_state io sid p \<in> {StPending, StInvalid}")
    case True
    then show ?thesis using st \<open>buf_len k = _\<close> ty by (simp add: fp_bulk_create_def achieves_def bindS_def)
  next
    case False
    define tail where "tail pf = (\<lambda>(vault_id, key_index).
            let session_only = sess \<noteq> None; fp_session_id = (case sess of None \<Rightarrow> 0 | Some sid \<Rightarrow> sid);
                bulk_id = AesBulk256KeyId key_index vault_id
            in bindS (fp_send_key_update hw
                 \<lparr>ku_key_index = key_index, ku_resource_id = vault_id, ku_pfn = pf,
                  ku_action = action_bits ActCreate, ku_session_id = fp_session_id, ku_app_id = FP_APP_ID,
                  ku_flag = AesKeyFlag session_only ty, ku_key_data = buf_bytes k\<rparr>) (\<lambda>_.
               bindS (try_op (store_handle hw io bulk_id kd sess at)) (\<lambda>r.
                 case r of
                   Ok handle \<Rightarrow> returns handle
                 | Err e \<Rightarrow>
                     bindS (try_op (fp_bulk_delete hw io bulk_id fp_session_id session_only)) (\<lambda>d.
                       bindS (if d = Ok () then fp_upd (fp_slot_free vault_id key_index) else returns ()) (\<lambda>_. fails e))
                 | Panic \<Rightarrow> (\<lambda>p. (Panic, p)))))" for pf
    have run: "fp_bulk_create hw io k kd sess at p = bindS (reads (\<lambda>_. part_id_to_pcie_fn (io_pid io))) (\<lambda>pf.
        bindS (fp_op (fp_slot_alloc (res_mask_of (io_pid io) p))) (tail pf)) p"
      using True ty False
      by (simp add: fp_bulk_create_def tail_def [abs_def] part_id_to_pcie_fn_def bindS_def split: option.split)
    have "achieves (bindS (reads (\<lambda>_. part_id_to_pcie_fn (io_pid io))) (\<lambda>pf.
        bindS (fp_op (fp_slot_alloc (res_mask_of (io_pid io) p))) (tail pf))) p (\<lambda>_. steady io) (\<lambda>_. steady io)"
    proof (rule achieves_bind [OF achieves_mono [OF part_id_to_pcie_fn_achieves]])
      fix pf and p0 :: "'e UnoHsmPal" assume p0: "p0 = p"
      show "achieves (bindS (fp_op (fp_slot_alloc (res_mask_of (io_pid io) p))) (tail pf)) p0 (\<lambda>_. steady io) (\<lambda>_. steady io)"
        unfolding p0
      proof (rule achieves_bind [OF achieves_mono [OF slot_alloc_achieves [OF st]]])
        fix vx :: "u8 \<times> u8" and p1 :: "'e UnoHsmPal" assume "\<exists>t b F. vx = (of_nat t, of_nat b) \<and> t < NUM_FP_TABLES \<and> b < FP_MAX_SLOTS_PER_PART \<and>
          bit (res_mask_of (io_pid io) p) t \<and> p1 = p\<lparr>pal_fp_slots := F\<rparr> \<and> steady io p1 \<and> bit (F ! t) b \<and> unreferenced p1 t b"
        then obtain t b F where tb: "vx = (of_nat t, of_nat b)" "t < NUM_FP_TABLES" "b < FP_MAX_SLOTS_PER_PART"
          "bit (res_mask_of (io_pid io) p) t" "p1 = p\<lparr>pal_fp_slots := F\<rparr>" "steady io p1" "bit (F ! t) b" "unreferenced p1 t b"
          by blast
        show "achieves (tail pf vx) p1 (\<lambda>_. steady io) (\<lambda>_. steady io)"
          unfolding tail_def tb(1) prod.case Let_def
        proof (rule achieves_bind [OF achieves_mono [OF fp_send_achieves]])
          fix x and p2 :: "'e UnoHsmPal" assume dev: "\<exists>d. p2 = p1\<lparr>pal_dev := d\<rparr>"
          note s2 = steady_dev [OF tb(6) dev]
          show "achieves (bindS (try_op (store_handle hw io (AesBulk256KeyId (of_nat b) (of_nat t)) kd sess at)) (\<lambda>r.
              case r of Ok handle \<Rightarrow> returns handle
              | Err e \<Rightarrow> bindS (try_op (fp_bulk_delete hw io (AesBulk256KeyId (of_nat b) (of_nat t))
                    (case sess of None \<Rightarrow> 0 | Some sid \<Rightarrow> sid) (sess \<noteq> None))) (\<lambda>d.
                  bindS (if d = Ok () then fp_upd (fp_slot_free (of_nat t) (of_nat b)) else returns ()) (\<lambda>_. fails e))
              | Panic \<Rightarrow> (\<lambda>p. (Panic, p)))) p2 (\<lambda>_. steady io) (\<lambda>_. steady io)"
            by (rule store_or_release [OF hw _ _ tb(2,3) _ _ kd refl]) (use s2 tb in auto)
        qed (use steady_dev(1) [OF tb(6)] in blast)+
      qed (use st in simp)
    qed (use st in simp)
    with run show ?thesis by (simp add: achieves_def)
  qed
qed

lemma vault_key_create_steady:
  assumes hw: "engine_ok (hw_engine hw)" and st: "steady io p"
  shows "achieves (vault_key_create hw io k kd sess at) p (\<lambda>_. steady io) (\<lambda>_. steady io)"
proof (cases "is_bulk_kind kd")
  case True
  then show ?thesis using fp_bulk_create_steady [OF hw st] by (simp add: vault_key_create_def)
next
  case False
  have "vault_ok p" using st by (simp add: steady_def)
  show ?thesis
    using False unfolding vault_key_create_def if_not_P [OF False]
    by (intro achieves_mono [OF create_achieves [OF hw \<open>vault_ok p\<close>]])
      (auto intro!: steady_moves [OF st] simp: new_key_def split: if_splits)
qed

text \<open>The bytes of a key at its location, for live keys and for all keys.\<close>

lemma location_bytes:
  assumes "vault_ok p"
  shows "bindr (key_location_present (vault_of io p) k) (\<lambda>(table, off, len). Ok (slice off len (vt_blob (pal_tables p ! table)))) =
      (case owned_key (vault_of io p) k of None \<Rightarrow> Err KeyNotFound | Some v \<Rightarrow> Ok (vk_bytes v))"
    "bindr (key_location (vault_of io p) k) (\<lambda>(table, off, len). Ok (slice off len (vt_blob (pal_tables p ! table)))) =
      (case live_key (vault_of io p) k of None \<Rightarrow> Err KeyNotFound | Some v \<Rightarrow> Ok (vk_bytes v))"
proof -
  let ?s = "vault_of io p"
  obtain t i where k: "split_key_id k = (t, i)" by fastforce
  note wf = vault_of_wf [OF assms, of io]
  have T: "tables ?s = pal_tables p" by (simp add: vault_of_def)
  have loc: "bindr (location_of ?s t (vt_entries (tables ?s ! t) ! i)) (\<lambda>(table, off, len). Ok (slice off len (vt_blob (pal_tables p ! table)))) =
      Ok (vk_bytes v)" if v: "owned_key ?s k = Some v" for v
  proof -
    let ?e = "vt_entries (tables ?s ! t) ! i"
    note o = owned_keyD [OF v k] and ew = owned_entry_wf [OF wf v k]
    obtain n where n: "tb_len (tables ?s ! t) ?e = Ok n" using ew by (auto elim: entry_wfE)
    show ?thesis using location_of_result(1) [OF wf o(2) ew n] n o(4) by (simp add: entry_view_def T)
  qed
  have lo: "live_key ?s k = Some v \<Longrightarrow> owned_key ?s k = Some v" for v
    by (auto simp: live_key_def split: option.splits if_splits)
  show "bindr (key_location_present ?s k) (\<lambda>(table, off, len). Ok (slice off len (vt_blob (pal_tables p ! table)))) =
      (case owned_key ?s k of None \<Rightarrow> Err KeyNotFound | Some v \<Rightarrow> Ok (vk_bytes v))"
    using loc by (simp add: key_location_present_def k entry_present_result [OF k] split: option.split)
  show "bindr (key_location ?s k) (\<lambda>(table, off, len). Ok (slice off len (vt_blob (pal_tables p ! table)))) =
      (case live_key ?s k of None \<Rightarrow> Err KeyNotFound | Some v \<Rightarrow> Ok (vk_bytes v))"
    using loc lo by (simp add: key_location_def k vault_entry_result [OF k] split: option.split)
qed

lemma key_entry_result:
  assumes "key_entry (vault_of io p) k = Ok e"
  obtains v where "owned_key (vault_of io p) k = Some v" "pal_keys p k = Some v" "vk_kind v = entry_kind e" "vk_session v = session_binding e"
proof -
  obtain t i where k: "split_key_id k = (t, i)" by fastforce
  then obtain v where v: "owned_key (vault_of io p) k = Some v" "e = vt_entries (tables (vault_of io p) ! t) ! i"
    using assms entry_present_result [OF k] by (auto simp: key_entry_def split: option.splits)
  moreover have "pal_keys p k = Some v"
    using v(1) by (auto simp: owned_key_def vault_of_views(1) split: if_splits)
  ultimately show ?thesis using owned_keyD(4) [OF v(1) k] by (intro that [of v]) (simp_all add: entry_view_def)
qed

lemma key_entry_no_panic: "key_entry (vault_of io p) k \<noteq> Panic"
  using entry_present_result [of k "fst (split_key_id k)" "snd (split_key_id k)" "vault_of io p"]
  by (auto simp: key_entry_def split: prod.split option.splits)

lemma steady_without:
  assumes "steady io p" "vault_moves p ((pal_keys p)(k := None)) p'"
  shows "steady io p'"
  by (rule steady_moves [OF assms]) (auto split: if_splits)

text \<open>The deletion of a bulk key once its entry has been classified.\<close>

lemma bulk_delete_steady:
  fixes p :: "'e UnoHsmPal"
  assumes hw: "engine_ok (hw_engine hw)" and st: "steady io p" and v: "pal_keys p k = Some v" "is_bulk_kind (vk_kind v)"
    and bits: "bits = from_le (vk_bytes v)"
  shows "achieves (bindS (try_op (vault_op io (vault_disable k))) (\<lambda>dis.
      bindS (try_op (fp_bulk_delete hw io bits x so)) (\<lambda>d. case d of
          Err e \<Rightarrow> bindS (if dis = Ok () then best_effort (vault_op io (vault_enable k)) else returns ()) (\<lambda>_. fails e)
        | Panic \<Rightarrow> (\<lambda>p. (Panic, p))
        | Ok _ \<Rightarrow> bindS (vault_op io (vault_delete (hw_gdma hw) k)) (\<lambda>_.
            fp_upd (fp_slot_free (bulk_vault_id bits) (bulk_key_index bits)))))) p (\<lambda>_. steady io) (\<lambda>_. steady io)"
proof -
  define same where "same p' \<longleftrightarrow> steady io p' \<and> (\<exists>u. pal_keys p' k = Some u \<and> is_bulk_kind (vk_kind u) \<and> bulk_slot u = bulk_slot v)"
    for p' :: "'e UnoHsmPal"
  have ok: "vault_ok p" using st by (simp add: steady_def)
  have dis: "achieves (vault_op io (vault_disable k)) p (\<lambda>_. same) (\<lambda>_. same)"
    by (rule achieves_mono [OF disable_achieves [OF ok]])
      (use v in \<open>auto simp: same_def bulk_slot_def dest: vault_movesD(2) intro!: steady_moves [OF st] split: if_splits\<close>)
  show ?thesis
  proof (rule achieves_bind [OF try_achieves [OF dis]])
    fix r :: "unit run" and p1 :: "'e UnoHsmPal" assume "case r of Ok x \<Rightarrow> same p1 | Err e \<Rightarrow> same p1 | Panic \<Rightarrow> False"
    then have s1: "same p1" by (cases r) auto
    then have st1: "steady io p1" by (simp add: same_def)
    show "achieves (bindS (try_op (fp_bulk_delete hw io bits x so)) (\<lambda>d. case d of
          Err e \<Rightarrow> bindS (if r = Ok () then best_effort (vault_op io (vault_enable k)) else returns ()) (\<lambda>_. fails e)
        | Panic \<Rightarrow> (\<lambda>p. (Panic, p))
        | Ok _ \<Rightarrow> bindS (vault_op io (vault_delete (hw_gdma hw) k)) (\<lambda>_.
            fp_upd (fp_slot_free (bulk_vault_id bits) (bulk_key_index bits))))) p1 (\<lambda>_. steady io) (\<lambda>_. steady io)"
    proof (rule achieves_bind [OF try_achieves [OF fp_bulk_delete_achieves [OF st1]]])
      fix d :: "unit run" and p2 :: "'e UnoHsmPal"
      assume d: "case d of Ok x \<Rightarrow> \<exists>d. p2 = p1\<lparr>pal_dev := d\<rparr> | Err e \<Rightarrow> \<exists>d. p2 = p1\<lparr>pal_dev := d\<rparr> | Panic \<Rightarrow> False"
      then have dev: "\<exists>d. p2 = p1\<lparr>pal_dev := d\<rparr>" by (cases d) auto
      have s2: "same p2" using s1 steady_dev [OF st1 dev] by (simp add: same_def)
      then have st2: "steady io p2" and ok2: "vault_ok p2" by (simp_all add: same_def steady_def)
      obtain u where u: "pal_keys p2 k = Some u" "is_bulk_kind (vk_kind u)" "bulk_slot u = bulk_slot v" using s2 by (auto simp: same_def)
      have en: "achieves (best_effort (vault_op io (vault_enable k))) p2 (\<lambda>_. steady io) (\<lambda>_. steady io)"
        by (rule best_effort_achieves, rule achieves_mono [OF enable_achieves [OF ok2]])
          (auto intro!: steady_moves [OF st2] split: if_splits)
      have del: "achieves (bindS (vault_op io (vault_delete (hw_gdma hw) k)) (\<lambda>_.
          fp_upd (fp_slot_free (bulk_vault_id bits) (bulk_key_index bits)))) p2 (\<lambda>_. steady io) (\<lambda>_. steady io)"
      proof (rule achieves_bind [OF achieves_mono [OF delete_achieves [OF hw ok2]]])
        fix y and p3 :: "'e UnoHsmPal" assume m: "pal_keys p2 k \<noteq> None \<and> vault_moves p2 ((pal_keys p2)(k := None)) p3"
        then have st3: "steady io p3" using steady_without [OF st2] by blast
        have "unreferenced p3 (unat (bulk_vault_id bits)) (unat (bulk_key_index bits))"
          unfolding unreferenced_def
        proof (intro allI impI notI)
          fix k' v' assume a: "pal_keys p3 k' = Some v'" "is_bulk_kind (vk_kind v')"
            "bulk_slot v' = (unat (bulk_vault_id bits), unat (bulk_key_index bits))"
          then have k': "pal_keys p2 k' = Some v'" "k' \<noteq> k"
            using vault_movesD(2) [of p2 _ p3] m by (auto split: if_splits)
          have "bulk_slot v' = bulk_slot u" using a(3) u(3) bits by (simp add: bulk_slot_def Let_def)
          then have "k' = k" using st2 k'(1) u a(2) unfolding steady_def fp_inv_def by blast
          with k'(2) show False by simp
        qed
        from slot_free_steady [OF st3 this]
        show "achieves (fp_upd (fp_slot_free (bulk_vault_id bits) (bulk_key_index bits))) p3 (\<lambda>_. steady io) (\<lambda>_. steady io)"
          by (simp add: achieves_def fp_upd_def)
      qed (use steady_moves [OF st2] in fastforce)
      show "achieves (case d of
          Err e \<Rightarrow> bindS (if r = Ok () then best_effort (vault_op io (vault_enable k)) else returns ()) (\<lambda>_. fails e)
        | Panic \<Rightarrow> (\<lambda>p. (Panic, p))
        | Ok _ \<Rightarrow> bindS (vault_op io (vault_delete (hw_gdma hw) k)) (\<lambda>_.
            fp_upd (fp_slot_free (bulk_vault_id bits) (bulk_key_index bits)))) p2 (\<lambda>_. steady io) (\<lambda>_. steady io)"
        using d del st2 achieves_bind [OF en, of "\<lambda>_. fails _" "\<lambda>_. steady io"] by (cases d) (auto simp: achieves_def [of "bindS (returns ()) _"])
    qed
  qed
qed

lemma vault_key_delete_steady:
  fixes p :: "'e UnoHsmPal"
  assumes hw: "engine_ok (hw_engine hw)" and st: "steady io p"
  shows "achieves (vault_key_delete hw io k) p (\<lambda>_. steady io) (\<lambda>_. steady io)"
proof (cases "key_entry (vault_of io p) k")
  case (Ok e)
  have ok: "vault_ok p" using st by (simp add: steady_def)
  obtain v where v: "owned_key (vault_of io p) k = Some v" "pal_keys p k = Some v" "vk_kind v = entry_kind e" "vk_session v = session_binding e"
    by (rule key_entry_result [OF Ok])
  show ?thesis
  proof (cases "is_bulk_kind (entry_kind e)")
    case False
    have "achieves (vault_op io (vault_delete (hw_gdma hw) k)) p (\<lambda>_. steady io) (\<lambda>_. steady io)"
      by (rule achieves_mono [OF delete_achieves [OF hw ok]]) (auto intro: steady_without [OF st] steady_moves [OF st])
    then show ?thesis using Ok False by (simp add: vault_key_delete_def achieves_def)
  next
    case True
    have two: "length (vk_bytes v) = 2" using st v True unfolding steady_def fp_inv_def by metis
    show ?thesis
      using bulk_delete_steady [OF hw st v(2) _ refl, of "case session_binding e of None \<Rightarrow> 0 | Some s \<Rightarrow> s" "session_binding e \<noteq> None"]
        Ok True v two location_bytes(1) [OF ok, of io k]
      by (simp add: vault_key_delete_def achieves_def Let_def)
  qed
qed (use st key_entry_no_panic in \<open>auto simp: vault_key_delete_def achieves_def bindS_def\<close>)

end
