(* ===== verification/UnoVaultSweep.thy ===== *)
theory UnoVaultSweep
  imports UnoVaultLaws
begin

text \<open>
  Sweeping the keys of a session or of a partition out of the vault, together with their slots in
  the fast-path core.
\<close>

lemma note_bulk_slots:
  assumes "length slots = NUM_FP_TABLES"
    and "\<And>k kd bs. (k, kd, bs) \<in> set xs \<Longrightarrow> is_bulk_kind kd \<Longrightarrow> length bs = 2 \<and>
      unat (bulk_vault_id (from_le bs)) < NUM_FP_TABLES \<and> unat (bulk_key_index (from_le bs)) < FP_MAX_SLOTS_PER_PART"
  shows "\<exists>slots'. visit_all note_bulk_slot xs slots = (Ok (), slots') \<and> length slots' = NUM_FP_TABLES \<and>
    (\<forall>t b. t < NUM_FP_TABLES \<longrightarrow> bit (slots' ! t) b \<longrightarrow> bit (slots ! t) b \<or>
      (\<exists>(k, kd, bs) \<in> set xs. is_bulk_kind kd \<and> (t, b) = (unat (bulk_vault_id (from_le bs)), unat (bulk_key_index (from_le bs)))))"
  using assms
proof (induction xs arbitrary: slots)
  case (Cons x xs)
  obtain k kd bs where x: "x = (k, kd, bs)" by (cases x)
  let ?v = "unat (bulk_vault_id (from_le bs))" and ?i = "unat (bulk_key_index (from_le bs))"
  define s1 where "s1 = (if is_bulk_kind kd then slots[?v := bit_on ?i (slots ! ?v)] else slots)"
  have "note_bulk_slot k kd bs slots = (Ok (), s1)"
    using Cons.prems(1) Cons.prems(2) [of k kd bs] x by (auto simp: note_bulk_slot_def s1_def Let_def)
  moreover have "length s1 = NUM_FP_TABLES" using Cons.prems(1) by (simp add: s1_def)
  moreover have "bit (s1 ! t) b \<longrightarrow> bit (slots ! t) b \<or> (is_bulk_kind kd \<and> (t, b) = (?v, ?i))" if "t < NUM_FP_TABLES" for t b
    using that Cons.prems(1) by (cases "t = ?v") (auto simp: s1_def bit_bit_on)
  ultimately show ?case using Cons.IH [of s1] Cons.prems(2) by (fastforce simp: x)
qed auto

lemma session_bulk_slots_result:
  assumes st: "steady io p"
  obtains m where "session_bulk_slots io sess p = Ok m" "length m = NUM_FP_TABLES"
    "\<And>t b. t < NUM_FP_TABLES \<Longrightarrow> bit (m ! t) b \<Longrightarrow> \<exists>k v. owned_key (vault_of io p) k = Some v \<and> vk_session v = Some sess \<and>
      is_bulk_kind (vk_kind v) \<and> bulk_slot v = (t, b)"
proof -
  let ?s = "vault_of io p" and ?xs = "session_keys (vault_of io p) sess (all_slots (vault_of io p))"
  have ok: "vault_ok p" and inv: "fp_inv p" using st by (simp_all add: steady_def)
  have mem: "(k, kd, bs) \<in> set ?xs \<Longrightarrow> \<exists>v. owned_key ?s k = Some v \<and> vk_session v = Some sess \<and> kd = vk_kind v \<and> bs = vk_bytes v"
    for k kd bs unfolding set_session_keys by auto
  have own: "owned_key ?s k = Some v \<Longrightarrow> pal_keys p k = Some v" for k v
    by (auto simp: owned_key_def vault_of_views(1) split: if_splits)
  have "visit_session_keys ?s sess note_bulk_slot (all_slots ?s) c = visit_all note_bulk_slot ?xs c" for c
    by (rule visit_session_keys_eq [OF vault_of_wf [OF ok]]) (auto simp: set_all_slots)
  moreover have "length bs = 2 \<and> unat (bulk_vault_id (from_le bs)) < NUM_FP_TABLES \<and>
      unat (bulk_key_index (from_le bs)) < FP_MAX_SLOTS_PER_PART" if "(k, kd, bs) \<in> set ?xs" "is_bulk_kind kd" for k kd bs
    using mem [OF that(1)] that(2) own inv unfolding fp_inv_def by (fastforce simp: bulk_slot_def Let_def)
  ultimately obtain m where m: "for_each_session_key ?s sess note_bulk_slot (replicate NUM_FP_TABLES 0) = (Ok (), m)"
    "length m = NUM_FP_TABLES" "\<forall>t b. t < NUM_FP_TABLES \<longrightarrow> bit (m ! t) b \<longrightarrow> bit (replicate NUM_FP_TABLES (0 :: u8) ! t) b \<or>
      (\<exists>(k, kd, bs) \<in> set ?xs. is_bulk_kind kd \<and> (t, b) = (unat (bulk_vault_id (from_le bs)), unat (bulk_key_index (from_le bs))))"
    using note_bulk_slots [of "replicate NUM_FP_TABLES 0" ?xs] by (auto simp: for_each_session_key_def)
  show ?thesis
  proof (rule that [of m])
    show "session_bulk_slots io sess p = Ok m" using m(1) by (simp add: session_bulk_slots_def)
    fix t b assume tb: "t < NUM_FP_TABLES" "bit (m ! t) b"
    then obtain k kd bs where x: "(k, kd, bs) \<in> set ?xs" "is_bulk_kind kd" "(t, b) = (unat (bulk_vault_id (from_le bs)), unat (bulk_key_index (from_le bs)))"
      using m(3) by fastforce
    with mem [OF x(1)] show "\<exists>k v. owned_key ?s k = Some v \<and> vk_session v = Some sess \<and> is_bulk_kind (vk_kind v) \<and> bulk_slot v = (t, b)"
      by (auto simp: bulk_slot_def Let_def)
  qed (rule m(2))
qed

lemma free_bits_nth:
  assumes "length slots = n" "length m = n" "t < n"
  shows "length (fp_slots_free_bits m slots) = n" "fp_slots_free_bits m slots ! t = slots ! t AND NOT (m ! t)"
  using assms by (simp_all add: fp_slots_free_bits_def)

text \<open>The session's keys leave the vault, their slots become free, nothing else changes.\<close>

lemma delete_session_keys_achieves:
  fixes p :: "'e UnoHsmPal"
  assumes hw: "engine_ok (hw_engine hw)" and st: "steady io p"
  shows "achieves (delete_session_keys hw io sess) p
    (\<lambda>_ p'. steady io p' \<and> pal_parts p' = pal_parts p \<and> pal_io_slots p' = pal_io_slots p \<and> pal_keys p' = without_keys (vault_of io p) (\<lambda>v. vk_session v = Some sess))
    (\<lambda>_ p'. \<exists>d. p' = p\<lparr>pal_dev := d\<rparr>)"
proof -
  obtain m where m: "session_bulk_slots io sess p = Ok m" "length m = NUM_FP_TABLES"
    "\<And>t b. t < NUM_FP_TABLES \<Longrightarrow> bit (m ! t) b \<Longrightarrow> \<exists>k v. owned_key (vault_of io p) k = Some v \<and> vk_session v = Some sess \<and>
      is_bulk_kind (vk_kind v) \<and> bulk_slot v = (t, b)"
    using session_bulk_slots_result [OF st] by metis
  let ?K = "without_keys (vault_of io p) (\<lambda>v. vk_session v = Some sess)"
  have send: "achieves (fp_delete_session_only hw io sess) p (\<lambda>_ p'. \<exists>d. p' = p\<lparr>pal_dev := d\<rparr>) (\<lambda>_ p'. \<exists>d. p' = p\<lparr>pal_dev := d\<rparr>)"
    unfolding fp_delete_session_only_def
    by (rule achieves_bind [OF achieves_mono [OF part_id_to_pcie_fn_achieves, where Q' = "\<lambda>_ p'. p' = p"]])
      (auto intro: fp_send_achieves exI [of _ "pal_dev p"])
  have "achieves (bindS (try_op (vault_op io (vault_delete_by_session (hw_gdma hw) sess))) (\<lambda>r p. case r of
         Err e \<Rightarrow> (let remaining = (case session_bulk_slots io sess p of Ok m \<Rightarrow> m | _ \<Rightarrow> m); gone = map2 (\<lambda>g r. g AND NOT r) m remaining
            in bindS (fp_upd (fp_slots_free_bits gone)) (\<lambda>_. fails e) p)
       | Panic \<Rightarrow> (Panic, p) | Ok _ \<Rightarrow> fp_upd (fp_slots_free_bits m) p)) p1
      (\<lambda>_ p'. steady io p' \<and> pal_parts p' = pal_parts p \<and> pal_io_slots p' = pal_io_slots p \<and> pal_keys p' = ?K) (\<lambda>_ p'. \<exists>d. p' = p\<lparr>pal_dev := d\<rparr>)"
    if dev: "\<exists>d. p1 = p\<lparr>pal_dev := d\<rparr>" for p1
  proof (rule achieves_bind [OF try_achieves])
    note s1 = steady_dev [OF st dev]
    have ok1: "vault_ok p1" using s1(1) by (simp add: steady_def)
    have v1: "vault_of io p1 = vault_of io p" using dev s1(5) by (auto simp: vault_of_def)
    show "achieves (vault_op io (vault_delete_by_session (hw_gdma hw) sess)) p1
        (\<lambda>_ p'. vault_moves p1 ?K p') (\<lambda>e p'. False)"
      using delete_by_session_achieves [OF hw ok1, of io sess] by (simp add: v1)
    fix r :: "unit run" and p2 :: "'e UnoHsmPal" assume r: "case r of Ok x \<Rightarrow> vault_moves p1 ?K p2 | Err e \<Rightarrow> False | Panic \<Rightarrow> False"
    then have mv: "vault_moves p1 ?K p2" "r = Ok ()" by (cases r; simp)+
    have st2: "steady io p2"
      by (rule steady_moves [OF s1(1) mv(1)])
        (auto simp: without_keys_def vault_of_views(1) s1(3) split: option.splits if_splits)
    note m2 = vault_movesD [OF mv(1)]
    have len: "length (pal_fp_slots p2) = NUM_FP_TABLES" using st2 by (simp add: steady_def fp_inv_def)
    have "steady io (p2\<lparr>pal_fp_slots := fp_slots_free_bits m (pal_fp_slots p2)\<rparr>)"
    proof (rule fp_free_steady [OF st2])
      show "length (fp_slots_free_bits m (pal_fp_slots p2)) = NUM_FP_TABLES"
        using len m(2) by (simp add: fp_slots_free_bits_def)
      fix k v t b assume k: "pal_keys p2 k = Some v" "is_bulk_kind (vk_kind v)" "bulk_slot v = (t, b)" "t < NUM_FP_TABLES" "bit (pal_fp_slots p2 ! t) b"
      have k0: "pal_keys p k = Some v" "\<not> (owned (vault_of io p) k \<and> vk_session v = Some sess)"
        using k(1) m2(2) by (auto simp: without_keys_def vault_of_views(1) split: option.splits if_splits)
      have "\<not> bit (m ! t) b"
      proof
        assume "bit (m ! t) b"
        then obtain k' v' where k': "owned_key (vault_of io p) k' = Some v'" "vk_session v' = Some sess" "is_bulk_kind (vk_kind v')" "bulk_slot v' = (t, b)"
          using m(3) [OF k(4)] by blast
        have p': "pal_keys p k' = Some v'" "owned (vault_of io p) k'" using k'(1) by (auto simp: owned_key_def vault_of_views(1) split: if_splits)
        have "bulk_slot v = bulk_slot v'" using k(3) k'(4) by simp
        then have "k = k'" using st k0(1) k(2) k'(3) p'(1) unfolding steady_def fp_inv_def by blast
        with k0 k' p' show False by simp
      qed
      then show "bit (fp_slots_free_bits m (pal_fp_slots p2) ! t) b"
        using k(4,5) free_bits_nth(2) [OF len m(2) k(4)] bit_u8 [of "pal_fp_slots p2 ! t" b] by (simp add: bit_simps)
    qed
    moreover have "pal_keys (p2\<lparr>pal_fp_slots := F\<rparr>) = ?K" for F using m2(2) by (simp add: pal_keys_def)
    ultimately show "achieves (\<lambda>p. case r of
         Err e \<Rightarrow> (let remaining = (case session_bulk_slots io sess p of Ok m \<Rightarrow> m | _ \<Rightarrow> m); gone = map2 (\<lambda>g r. g AND NOT r) m remaining
            in bindS (fp_upd (fp_slots_free_bits gone)) (\<lambda>_. fails e) p)
       | Panic \<Rightarrow> (Panic, p) | Ok _ \<Rightarrow> fp_upd (fp_slots_free_bits m) p) p2
       (\<lambda>_ p'. steady io p' \<and> pal_parts p' = pal_parts p \<and> pal_io_slots p' = pal_io_slots p \<and> pal_keys p' = ?K) (\<lambda>_ p'. \<exists>d. p' = p\<lparr>pal_dev := d\<rparr>)"
      using mv(2) m2(3,5) dev by (auto simp: achieves_def fp_upd_def)
  qed
  from achieves_bind [OF send this] show ?thesis
    using m(1) by (simp add: delete_session_keys_def achieves_def)
qed

text \<open>Clearing takes every key of the partition's tables and frees the slots of the same tables.\<close>

lemma pal_vault_clear_achieves:
  fixes p :: "'e UnoHsmPal"
  assumes hw: "engine_ok (hw_engine hw)" and st: "steady io p"
  shows "achieves (pal_vault_clear hw io) p
    (\<lambda>_ p'. steady io p' \<and> pal_parts p' = pal_parts p \<and> pal_io_slots p' = pal_io_slots p \<and> pal_keys p' = without_keys (vault_of io p) (\<lambda>_. True)) (\<lambda>_ _. False)"
proof -
  let ?K = "without_keys (vault_of io p) (\<lambda>_. True)" and ?m = "res_mask_of (io_pid io) p"
  have ok: "vault_ok p" and inv: "fp_inv p" using st by (simp_all add: steady_def)
  have "achieves (bindS (vault_op io (vault_clear (hw_gdma hw))) (\<lambda>_. fp_upd (fp_slots_free_mask ?m))) p
    (\<lambda>_ p'. steady io p' \<and> pal_parts p' = pal_parts p \<and> pal_io_slots p' = pal_io_slots p \<and> pal_keys p' = ?K) (\<lambda>_ _. False)"
  proof (rule achieves_bind [OF clear_achieves [OF hw ok]])
    fix x and p1 :: "'e UnoHsmPal" assume mv: "vault_moves p ?K p1"
    note m1 = vault_movesD [OF mv]
    have st1: "steady io p1"
      by (rule steady_moves [OF st mv]) (auto simp: without_keys_def vault_of_views(1) split: option.splits if_splits)
    have len: "length (pal_fp_slots p1) = NUM_FP_TABLES" using st1 by (simp add: steady_def fp_inv_def)
    have "steady io (p1\<lparr>pal_fp_slots := fp_slots_free_mask ?m (pal_fp_slots p1)\<rparr>)"
    proof (rule fp_free_steady [OF st1])
      show "length (fp_slots_free_mask ?m (pal_fp_slots p1)) = NUM_FP_TABLES" using len by (simp add: fp_slots_free_mask_def)
      fix k v t b assume k: "pal_keys p1 k = Some v" "is_bulk_kind (vk_kind v)" "bulk_slot v = (t, b)" "t < NUM_FP_TABLES" "bit (pal_fp_slots p1 ! t) b"
      have k0: "pal_keys p k = Some v" "\<not> owned (vault_of io p) k"
        using k(1) m1(2) by (auto simp: without_keys_def vault_of_views(1) split: option.splits if_splits)
      have tc: "fst (split_key_id k) < TABLE_COUNT" using key_out_of_tables [of k p] k0(1) by (cases "TABLE_COUNT \<le> fst (split_key_id k)") auto
      have "\<not> bit ?m (fst (split_key_id k))" using k0(2) tc by (simp add: owned_def bit_valid_table vault_of_def)
      moreover have "bit ?m (fst (split_key_id k)) \<longleftrightarrow> bit ?m t"
      proof (cases "partition (io_pid io)")
        case (Ok i)
        then have "i < NUM_PARTITIONS" by (auto simp: partition_def Let_def split: if_splits)
        then have "bit (ps_res_mask (pal_parts p ! i)) (fst (split_key_id k)) \<longleftrightarrow> bit (ps_res_mask (pal_parts p ! i)) (fst (bulk_slot v))"
          using inv k0(1) k(2) unfolding fp_inv_def by blast
        then show ?thesis using k(3) Ok by (simp add: res_mask_of_def)
      qed (simp_all add: res_mask_of_def)
      ultimately show "bit (fp_slots_free_mask ?m (pal_fp_slots p1) ! t) b" using k(4,5) len by (simp add: fp_slots_free_mask_def)
    qed
    moreover have "pal_keys (p1\<lparr>pal_fp_slots := F\<rparr>) = ?K" for F using m1(2) by (simp add: pal_keys_def)
    ultimately show "achieves (fp_upd (fp_slots_free_mask ?m)) p1
        (\<lambda>_ p'. steady io p' \<and> pal_parts p' = pal_parts p \<and> pal_io_slots p' = pal_io_slots p \<and> pal_keys p' = ?K) (\<lambda>_ _. False)"
      using m1(3,5) by (simp add: achieves_def fp_upd_def)
  qed
  then show ?thesis by (simp add: pal_vault_clear_def achieves_def Let_def)
qed

end
