(* ===== verification/UnoSession.thy ===== *)
theory UnoSession
  imports UnoVaultSweep
begin

text \<open>
  The session interface of the Uno platform layer (\<open>fw/plat/uno/fw/pal/src/session.rs\<close>): a session is
  a slot of the partition's session table that maps to a key of the vault, whose bytes are the
  session blob.
\<close>

definition SESSION_API_REV_SIZE :: nat where "SESSION_API_REV_SIZE = 8"
definition SESSION_MASKING_KEY_SIZE :: nat where "SESSION_MASKING_KEY_SIZE = 80"
definition SESSION_BLOB_SIZE :: nat where "SESSION_BLOB_SIZE = SESSION_API_REV_SIZE + SESSION_MASKING_KEY_SIZE"
definition SESSION_PARAM_KEY_LEN :: nat where "SESSION_PARAM_KEY_LEN = 32"
definition SESSION_MASKING_KEY_LEN :: nat where "SESSION_MASKING_KEY_LEN = 32"
definition SESSION_MAC_DIR_KEY_LEN :: nat where "SESSION_MAC_DIR_KEY_LEN = 48"
definition PENDING_BLOB_MAX :: nat where "PENDING_BLOB_MAX = 256"
definition SESSION_CU_BLOB_SIZE :: nat where
  "SESSION_CU_BLOB_SIZE = SESSION_API_REV_SIZE + SESSION_PARAM_KEY_LEN + SESSION_MASKING_KEY_LEN"
definition SESSION_CU_AUTH_BLOB_SIZE :: nat where
  "SESSION_CU_AUTH_BLOB_SIZE = SESSION_CU_BLOB_SIZE + 2 * SESSION_MAC_DIR_KEY_LEN"

lemmas session_sizes = SESSION_API_REV_SIZE_def SESSION_MASKING_KEY_SIZE_def SESSION_BLOB_SIZE_def
  SESSION_PARAM_KEY_LEN_def SESSION_MASKING_KEY_LEN_def SESSION_MAC_DIR_KEY_LEN_def PENDING_BLOB_MAX_def
  SESSION_CU_BLOB_SIZE_def SESSION_CU_AUTH_BLOB_SIZE_def

text \<open>\<open>HsmVaultKeyAttrs\<close> with the bits the platform layer sets.\<close>

definition ATTR_INTERNAL :: u64 where "ATTR_INTERNAL = push_bit 0 1"
definition ATTR_LOCAL :: u64 where "ATTR_LOCAL = push_bit 5 1"
definition ATTR_SIGN :: u64 where "ATTR_SIGN = push_bit 12 1"
definition ATTR_UNWRAP :: u64 where "ATTR_UNWRAP = push_bit 15 1"
definition ATTR_DERIVE :: u64 where "ATTR_DERIVE = push_bit 16 1"

section \<open>The operations\<close>

definition session_reads :: "HsmIo \<Rightarrow> (SessionTable \<Rightarrow> 'a run) \<Rightarrow> ('e UnoHsmPal, 'a) op" where
  "session_reads io f = session_op (io_pid io) (\<lambda>t. (f t, t))"

definition session_limit_reached :: "HsmIo \<Rightarrow> 'e UnoHsmPal \<Rightarrow> bool" where
  "session_limit_reached io p =
     (case partition (io_pid io) of Ok i \<Rightarrow> limit_reached (session_table_of (pal_parts p ! i)) | _ \<Rightarrow> True)"

definition store_session_key :: "'e Hw \<Rightarrow> HsmIo \<Rightarrow> DmaBuf \<Rightarrow> HsmVaultKeyKind \<Rightarrow> ('e UnoHsmPal, HsmKeyId) op" where
  "store_session_key hw io blob kd =
     vault_op io (vault_create (hw_gdma hw) (io_pid io) blob kd None ATTR_INTERNAL)"

definition drop_session_key :: "'e Hw \<Rightarrow> HsmIo \<Rightarrow> HsmKeyId \<Rightarrow> ('e UnoHsmPal, unit) op" where
  "drop_session_key hw io k = vault_op io (vault_delete (hw_gdma hw) k)"

definition teardown_stale :: "'e Hw \<Rightarrow> HsmIo \<Rightarrow> u16 option \<Rightarrow> ('e UnoHsmPal, unit) op" where
  "teardown_stale hw io sid p =
     (case sid of
        Some reopen_id \<Rightarrow>
          if pal_session_state io reopen_id p = StNeedsRenegotiation then (Ok (), p)
          else bindS (session_reads io (\<lambda>t. physical_id t reopen_id)) (\<lambda>old_phys.
            bindS (delete_session_keys hw io reopen_id) (\<lambda>_. drop_session_key hw io old_phys)) p
      | None \<Rightarrow> (Ok (), p))"

definition uno_session_create ::
  "'e Hw \<Rightarrow> HsmIo \<Rightarrow> u8 list \<Rightarrow> u8 list \<Rightarrow> u16 option \<Rightarrow> ('e UnoHsmPal, u16) op" where
  "uno_session_create hw io api_rev masking_key sid =
     (if length api_rev \<noteq> SESSION_API_REV_SIZE \<or> length masking_key \<noteq> SESSION_MASKING_KEY_SIZE then fails InvalidArg
      else
        bindS (reads (\<lambda>_. partition (io_pid io))) (\<lambda>_.
        bindS (teardown_stale hw io sid) (\<lambda>_.
        bindS (dma_put io (api_rev @ masking_key)) (\<lambda>(blob, start).
        bindS (try_op (store_session_key hw io blob Session)) (\<lambda>created.
        bindS (dma_wipe_buf io start SESSION_BLOB_SIZE) (\<lambda>_.
        bindS (reads (\<lambda>_. created)) (\<lambda>phys.
        bindS (try_op (session_op (io_pid io)
          (case sid of None \<Rightarrow> session_create phys | Some reopen_id \<Rightarrow> session_recreate reopen_id phys))) (\<lambda>r.
          case r of
            Ok sess_id \<Rightarrow> returns sess_id
          | Err e \<Rightarrow> bindS (best_effort (drop_session_key hw io phys)) (\<lambda>_. fails e)
          | Panic \<Rightarrow> (\<lambda>p. (Panic, p))))))))))"

definition uno_session_destroy :: "'e Hw \<Rightarrow> HsmIo \<Rightarrow> u16 \<Rightarrow> ('e UnoHsmPal, unit) op" where
  "uno_session_destroy hw io sid p =
     bindS (reads (\<lambda>_. partition (io_pid io))) (\<lambda>_.
       if pal_session_state io sid p = StNeedsRenegotiation then
         bindS (session_op (io_pid io) (session_delete sid)) (\<lambda>_. returns ())
       else
         bindS (session_reads io (\<lambda>t. physical_id t sid)) (\<lambda>phys.
         bindS (delete_session_keys hw io sid) (\<lambda>_.
         bindS (drop_session_key hw io phys) (\<lambda>_.
         bindS (session_op (io_pid io) (session_delete sid)) (\<lambda>_. returns ()))))) p"

definition uno_session_create_pending :: "'e Hw \<Rightarrow> HsmIo \<Rightarrow> SessionRole \<Rightarrow> DmaBuf \<Rightarrow> ('e UnoHsmPal, u16) op" where
  "uno_session_create_pending hw io role handshake_state =
     (if buf_len handshake_state = 0 \<or> buf_len handshake_state > PENDING_BLOB_MAX then fails InvalidArg
      else
        bindS (store_session_key hw io handshake_state SessionExPending) (\<lambda>phys.
        bindS (reads (\<lambda>_. partition (io_pid io))) (\<lambda>_.
        bindS (try_op (session_op (io_pid io) (session_create_pending role phys))) (\<lambda>r.
          case r of
            Ok (sess_id, evicted) \<Rightarrow>
              bindS (case evicted of None \<Rightarrow> returns () | Some old \<Rightarrow> best_effort (drop_session_key hw io old)) (\<lambda>_. returns sess_id)
          | Err e \<Rightarrow> bindS (best_effort (drop_session_key hw io phys)) (\<lambda>_. fails e)
          | Panic \<Rightarrow> (\<lambda>p. (Panic, p))))))"

text \<open>The caller passes the capacity of its buffer, or none to ask for the length; the bytes go into the buffer.\<close>

definition uno_session_pending_state :: "HsmIo \<Rightarrow> u16 \<Rightarrow> nat option \<Rightarrow> ('e UnoHsmPal, nat \<times> u8 list) op" where
  "uno_session_pending_state io sid out =
     bindS (session_reads io (\<lambda>t. pending_phys t sid)) (\<lambda>phys.
     bindS (pal_vault_key io phys) (\<lambda>blob.
       case out of
         None \<Rightarrow> returns (length blob, [])
       | Some cap \<Rightarrow> if cap < length blob then fails InvalidArg else returns (length blob, blob)))"

definition mac_pair :: "u8 list option \<Rightarrow> u8 list option \<Rightarrow> (u8 list \<times> u8 list) option run" where
  "mac_pair mac_tx mac_rx =
     (case (mac_tx, mac_rx) of
        (None, None) \<Rightarrow> Ok None
      | (Some tx, Some rx) \<Rightarrow>
          if length tx \<noteq> SESSION_MAC_DIR_KEY_LEN \<or> length rx \<noteq> SESSION_MAC_DIR_KEY_LEN then Err InvalidArg else Ok (Some (tx, rx))
      | _ \<Rightarrow> Err InvalidArg)"

definition uno_session_promote ::
  "'e Hw \<Rightarrow> HsmIo \<Rightarrow> u16 \<Rightarrow> u8 list \<Rightarrow> u8 list \<Rightarrow> u8 list \<Rightarrow> u8 list option \<Rightarrow> u8 list option \<Rightarrow> ('e UnoHsmPal, unit) op" where
  "uno_session_promote hw io sid api_rev param_key masking_key mac_tx mac_rx =
     (if length api_rev \<noteq> SESSION_API_REV_SIZE \<or> length param_key \<noteq> SESSION_PARAM_KEY_LEN \<or>
         length masking_key \<noteq> SESSION_MASKING_KEY_LEN then fails InvalidArg
      else
        bindS (reads (\<lambda>_. mac_pair mac_tx mac_rx)) (\<lambda>macs.
        bindS (reads (\<lambda>_. partition (io_pid io))) (\<lambda>_.
        bindS (reads (\<lambda>p. if pal_session_state io sid p \<noteq> StPending then Err SessionNotPending else Ok ())) (\<lambda>_.
        bindS (dma_put io (api_rev @ param_key @ masking_key @ (case macs of None \<Rightarrow> [] | Some (tx, rx) \<Rightarrow> tx @ rx))) (\<lambda>(blob, _).
        bindS (store_session_key hw io blob SessionEx) (\<lambda>phys.
        bindS (session_op (io_pid io) (session_promote sid phys)) (\<lambda>old_pending.
          drop_session_key hw io old_pending)))))))"

definition uno_session_param_key :: "HsmIo \<Rightarrow> u16 \<Rightarrow> ('e UnoHsmPal, u8 list) op" where
  "uno_session_param_key io sid =
     bindS (session_reads io (\<lambda>t. physical_id t sid)) (\<lambda>phys.
     bindS (pal_vault_key io phys) (\<lambda>blob.
       if length blob < SESSION_API_REV_SIZE + SESSION_PARAM_KEY_LEN then fails InternalError
       else returns (slice SESSION_API_REV_SIZE SESSION_PARAM_KEY_LEN blob)))"

definition uno_session_masking_key :: "HsmIo \<Rightarrow> u16 \<Rightarrow> ('e UnoHsmPal, u8 list) op" where
  "uno_session_masking_key io sid =
     bindS (session_reads io (\<lambda>t. physical_id t sid)) (\<lambda>phys.
     bindS (pal_vault_key io phys) (\<lambda>blob.
     bindS (if length blob = SESSION_BLOB_SIZE then returns SESSION_API_REV_SIZE
            else if length blob = SESSION_CU_BLOB_SIZE \<or> length blob = SESSION_CU_AUTH_BLOB_SIZE
            then returns (SESSION_API_REV_SIZE + SESSION_PARAM_KEY_LEN)
            else fails InternalError) (\<lambda>offset.
       if offset + SESSION_MASKING_KEY_SIZE > length blob then (\<lambda>p. (Panic, p))
       else returns (slice offset SESSION_MASKING_KEY_SIZE blob))))"

definition uno_session_try_consume_psk_change :: "HsmIo \<Rightarrow> u16 \<Rightarrow> ('e UnoHsmPal, unit) op" where
  "uno_session_try_consume_psk_change io sid = session_op (io_pid io) (try_consume_psk_change sid)"

end
