(* ===== verification/UnoPart.thy ===== *)
theory UnoPart
  imports UnoSession
begin

text \<open>
  The life of a partition on the Uno platform (\<open>fw/plat/uno/fw/pal/src/part.rs\<close>): allocation with its
  identity key, enabling with the two enable-time keys, disabling, migration and freeing. Each works on the
  partition slot, the session table and the vault, through sessions on the reserved admin scratch slot
  (\<open>with_admin_io\<close> of \<open>io.rs\<close>) that end with its wipe.
\<close>

abbreviation (input) Rsa2kPrivate :: HsmVaultKeyKind where "Rsa2kPrivate \<equiv> 4"
abbreviation (input) Ecc384Private :: HsmVaultKeyKind where "Ecc384Private \<equiv> 14"
abbreviation (input) EstablishCred :: HsmVaultKeyKind where "EstablishCred \<equiv> 25"
abbreviation (input) SessionEncryption :: HsmVaultKeyKind where "SessionEncryption \<equiv> 26"

definition ID_PUB_KEY_LEN :: nat where "ID_PUB_KEY_LEN = 96"
definition P384_PRIV_LEN :: nat where "P384_PRIV_LEN = 48"

section \<open>Random bytes\<close>

text \<open>The generator gives a word at a time (\<open>fw/plat/uno/fw/drivers/rng/src/api.rs\<close>).\<close>

fun fill_bytes :: "'e Hw \<Rightarrow> nat \<Rightarrow> 'e \<Rightarrow> u8 list \<times> 'e" where
  "fill_bytes hw n d =
     (if n = 0 then ([], d)
      else let (word, d1) = hw_rng hw d; (rest, d2) = fill_bytes hw (n - 4) d1
           in (take (min n 4) (to_le 4 word) @ rest, d2))"

declare fill_bytes.simps [simp del]

lemma length_fill_bytes: "length (fst (fill_bytes hw n d)) = n"
  by (induction hw n d rule: fill_bytes.induct) (subst fill_bytes.simps, auto split: prod.splits)

definition rng_fill :: "'e Hw \<Rightarrow> nat \<Rightarrow> ('e UnoHsmPal, u8 list) op" where
  "rng_fill hw n = dev_op (\<lambda>d. let (bs, d') = fill_bytes hw n d in (Ok bs, d'))"

section \<open>Admin sessions\<close>

definition PF_AXI_ID :: u8 where "PF_AXI_ID = 0x10"
definition VF_AXI_ID_START :: u8 where "VF_AXI_ID_START = 0x20"
definition VF_AXI_ID_END :: u8 where "VF_AXI_ID_END = VF_AXI_ID_START + 64 - 1"
definition PF_PCIE_FN :: u8 where "PF_PCIE_FN = 64"
definition NO_PARTITION :: u8 where "NO_PARTITION = 0xFF"

definition axi_id_to_pfn :: "u8 \<Rightarrow> u8 option" where
  "axi_id_to_pfn axi_id =
     (if axi_id = PF_AXI_ID then Some PF_PCIE_FN
      else if VF_AXI_ID_START \<le> axi_id \<and> axi_id \<le> VF_AXI_ID_END then Some (axi_id - VF_AXI_ID_START)
      else None)"

text \<open>
  The admin handle records the routing id of the partition in the slot and reads the partition back
  from it. No admin path looks at the session of its IO.
\<close>

definition admin_no_scrub :: "u8 \<Rightarrow> HsmIo" where
  "admin_no_scrub pid =
     (let axi_id = (case pfn_to_axi_id pid of Some a \<Rightarrow> a | None \<Rightarrow> NO_PARTITION)
      in \<lparr>io_index = ADMIN_IO_INDEX,
          io_pid = (case axi_id_to_pfn axi_id of Some p \<Rightarrow> p | None \<Rightarrow> NO_PARTITION),
          io_session = None\<rparr>)"

definition scratch_upd :: "HsmIo \<Rightarrow> (IoSlot \<Rightarrow> IoSlot) \<Rightarrow> ('e UnoHsmPal, unit) op" where
  "scratch_upd io f = scratch_op io (\<lambda>s. (Ok (), f s))"

definition with_admin_io :: "'e Hw \<Rightarrow> u8 \<Rightarrow> (HsmIo \<Rightarrow> ('e UnoHsmPal, 'a) op) \<Rightarrow> ('e UnoHsmPal, 'a) op" where
  "with_admin_io hw pid f =
     (let io = admin_no_scrub pid in
      bindS (scratch_upd io reset_io_alloc) (\<lambda>_.
      bindS (try_op (f io)) (\<lambda>result.
      bindS (scratch_upd io (scope_drop (0, 0))) (\<lambda>_.
      bindS (scratch_upd io (scrub_io_slot (hw_engine hw) ADMIN_IO_INDEX)) (\<lambda>_.
        reads (\<lambda>_. result))))))"

section \<open>Provisioning\<close>

definition dma_take :: "HsmIo \<Rightarrow> nat \<Rightarrow> ('e UnoHsmPal, nat) op" where
  "dma_take io n = scratch_op io (dma_alloc (io_index io) n)"

definition dma_write :: "HsmIo \<Rightarrow> nat \<Rightarrow> u8 list \<Rightarrow> ('e UnoHsmPal, DmaBuf) op" where
  "dma_write io start bs =
     bindS (scratch_upd io (put_bytes DMA start bs)) (\<lambda>_. returns \<lparr>buf_ptr = dma_ptr io start, buf_bytes = bs\<rparr>)"

definition build_enable_key_blob :: "HsmIo \<Rightarrow> u8 list \<Rightarrow> u8 list \<Rightarrow> ('e UnoHsmPal, DmaBuf) op" where
  "build_enable_key_blob io pub_key priv_buf =
     bindS (dma_put io (pub_key @ take P384_PRIV_LEN priv_buf)) (\<lambda>(buf, _). returns buf)"

definition swap_halves :: "u8 list \<Rightarrow> u8 list" where
  "swap_halves pub_buf =
     rev (take (ID_PUB_KEY_LEN div 2) pub_buf) @ rev (drop (ID_PUB_KEY_LEN div 2) pub_buf)"

text \<open>The public key goes to its field of the slot; the private blob is what the vault keeps.\<close>

definition keep_key_pair ::
  "u8 \<Rightarrow> HsmIo \<Rightarrow> HsmVaultKeyKind \<Rightarrow> nat \<Rightarrow> u8 list \<Rightarrow> nat \<Rightarrow> u8 list \<Rightarrow> ('e UnoHsmPal, DmaBuf) op" where
  "keep_key_pair pid io kd priv_at priv pub_at pub =
     (if kd = Ecc384Private then
        bindS (dma_write io pub_at (swap_halves pub)) (\<lambda>pub_buf.
        bindS (part_op pid (ps_set_id_pub_key (buf_bytes pub_buf))) (\<lambda>_.
          returns \<lparr>buf_ptr = dma_ptr io priv_at, buf_bytes = priv\<rparr>))
      else if kd = EstablishCred then
        bindS (part_op pid (ps_set_ec_pub_key pub)) (\<lambda>_. build_enable_key_blob io pub priv)
      else if kd = SessionEncryption then
        bindS (part_op pid (ps_set_se_pub_key pub)) (\<lambda>_. build_enable_key_blob io pub priv)
      else fails InternalError)"

definition create_internal_ecc384 :: "'e Hw \<Rightarrow> u8 \<Rightarrow> HsmVaultKeyKind \<Rightarrow> u64 \<Rightarrow> ('e UnoHsmPal, HsmKeyId) op" where
  "create_internal_ecc384 hw pid kd at =
     bindS (reads (\<lambda>_. partition pid)) (\<lambda>_. with_admin_io hw pid (\<lambda>admin_io.
       bindS (dma_take admin_io P384_PRIV_LEN) (\<lambda>priv_at.
       bindS (dma_take admin_io ID_PUB_KEY_LEN) (\<lambda>pub_at.
       bindS (dev_op (hw_ecc_gen hw)) (\<lambda>(priv, pub, pub_len).
       bindS (dma_write admin_io priv_at priv) (\<lambda>_.
       bindS (dma_write admin_io pub_at pub) (\<lambda>_.
         if pub_len \<noteq> ID_PUB_KEY_LEN then fails InternalError
         else bindS (keep_key_pair pid admin_io kd priv_at priv pub_at pub) (\<lambda>key_buf.
           vault_op admin_io (vault_create (hw_gdma hw) pid key_buf kd None at)))))))))"

definition delete_key :: "'e Hw \<Rightarrow> HsmIo \<Rightarrow> HsmKeyId \<Rightarrow> ('e UnoHsmPal, unit) op" where
  "delete_key hw io k = best_effort (vault_op io (vault_delete (hw_gdma hw) k))"

fun delete_keys :: "'e Hw \<Rightarrow> HsmIo \<Rightarrow> u16 option list \<Rightarrow> ('e UnoHsmPal, unit) op" where
  "delete_keys hw io [] = returns ()"
| "delete_keys hw io (None # ks) = delete_keys hw io ks"
| "delete_keys hw io (Some k # ks) = bindS (delete_key hw io k) (\<lambda>_. delete_keys hw io ks)"

definition provision_identity :: "'e Hw \<Rightarrow> u8 \<Rightarrow> ('e UnoHsmPal, unit) op" where
  "provision_identity hw pid =
     bindS (reads (\<lambda>_. partition pid)) (\<lambda>_.
     bindS (create_internal_ecc384 hw pid Ecc384Private (ATTR_INTERNAL OR ATTR_LOCAL OR ATTR_SIGN)) (\<lambda>key_id.
     bindS (part_upd pid (ps_set_id_key_id (Some key_id))) (\<lambda>_.
     bindS (rng_fill hw ID_LEN) (\<lambda>bs. part_upd pid (ps_id_mut (\<lambda>_. bs))))))"

definition provision_enabled_keys :: "'e Hw \<Rightarrow> u8 \<Rightarrow> ('e UnoHsmPal, unit) op" where
  "provision_enabled_keys hw pid =
     (let at = ATTR_INTERNAL OR ATTR_LOCAL OR ATTR_DERIVE in
      bindS (reads (\<lambda>_. partition pid)) (\<lambda>_.
      bindS (rng_fill hw NONCE_LEN) (\<lambda>bs.
      bindS (part_upd pid (ps_nonce_mut (\<lambda>_. bs))) (\<lambda>_.
      bindS (create_internal_ecc384 hw pid EstablishCred at) (\<lambda>ec_id.
      bindS (part_upd pid (ps_set_ec_key_id (Some ec_id))) (\<lambda>_.
      bindS (try_op (create_internal_ecc384 hw pid SessionEncryption at)) (\<lambda>r.
        case r of
          Ok se_id \<Rightarrow> part_upd pid (ps_set_se_key_id (Some se_id))
        | Err e \<Rightarrow>
            bindS (with_admin_io hw pid (\<lambda>admin_io. delete_key hw admin_io ec_id)) (\<lambda>_.
            bindS (part_upd pid ps_clear_enabled_keys) (\<lambda>_. fails e))
        | Panic \<Rightarrow> (\<lambda>p. (Panic, p)))))))))"

definition provision_masked_bk_boot :: "'e Hw \<Rightarrow> u8 \<Rightarrow> ('e UnoHsmPal, unit) op" where
  "provision_masked_bk_boot hw pid =
     bindS (reads (\<lambda>_. partition pid)) (\<lambda>_. with_admin_io hw pid (\<lambda>admin_io.
       bindS (dev_op (hw_mask_bk_boot hw (io_pid admin_io))) (\<lambda>masked. part_op pid (ps_set_masked_bk_boot masked))))"

definition provision_allocation :: "'e Hw \<Rightarrow> u8 \<Rightarrow> ('e UnoHsmPal, unit) op" where
  "provision_allocation hw pid =
     bindS (provision_identity hw pid) (\<lambda>_. provision_masked_bk_boot hw pid)"

section \<open>Teardown\<close>

definition rollback_alloc :: "'e Hw \<Rightarrow> u8 \<Rightarrow> ('e UnoHsmPal, unit) op" where
  "rollback_alloc hw pid =
     (case partition pid of
        Ok _ \<Rightarrow>
          bindS (part_get pid ps_id_key_id) (\<lambda>k.
          bindS (case k of Some key_id \<Rightarrow> with_admin_io hw pid (\<lambda>admin_io. delete_key hw admin_io key_id) | None \<Rightarrow> returns ()) (\<lambda>_.
          bindS (part_upd pid ps_clear_identity) (\<lambda>_.
          bindS (part_upd pid ps_clear_masked_bk_boot) (\<lambda>_.
          bindS (part_upd pid ps_clear_unwrapping_key) (\<lambda>_.
          bindS (part_upd pid (ps_set_res_mask 0)) (\<lambda>_.
            part_upd pid (ps_set_state Unallocated)))))))
      | _ \<Rightarrow> returns ())"

definition enabled_handles :: "Storage \<Rightarrow> u16 option list" where
  "enabled_handles s =
     [ps_ec_key_id s, ps_se_key_id s, ps_mk_key_id s, ps_ups_key_id s, ps_pta_key_id s,
      ps_unwrapping_key_id s, ps_local_mk_key_id s, ps_ephemeral_mk_key_id s]"

definition clear_enabled_state :: "'e Hw \<Rightarrow> HsmIo \<Rightarrow> u8 \<Rightarrow> ('e UnoHsmPal, unit) op" where
  "clear_enabled_state hw admin_io pid =
     (case partition pid of
        Ok _ \<Rightarrow>
          bindS (part_get pid enabled_handles) (\<lambda>ks.
          bindS (delete_keys hw admin_io ks) (\<lambda>_.
          bindS (part_get pid (\<lambda>s. occupied_physical_ids (session_table_of s))) (\<lambda>occ.
          bindS (delete_keys hw admin_io occ) (\<lambda>_.
          bindS (session_op pid mark_all_needs_renego) (\<lambda>_.
            part_upd pid (ps_clear_state Disable))))))
      | _ \<Rightarrow> returns ())"

definition part_free :: "'e Hw \<Rightarrow> u8 \<Rightarrow> ('e UnoHsmPal, unit) op" where
  "part_free hw pid =
     bindS (part_op pid (\<lambda>s. (ps_state s, s))) (\<lambda>state.
       if state = Unallocated then returns ()
       else
         bindS (with_admin_io hw pid (\<lambda>admin_io.
           bindS (clear_enabled_state hw admin_io pid) (\<lambda>_.
           bindS (part_get pid ps_id_key_id) (\<lambda>k.
           bindS (case k of Some key_id \<Rightarrow> delete_key hw admin_io key_id | None \<Rightarrow> returns ()) (\<lambda>_.
             pal_vault_clear hw admin_io))))) (\<lambda>_.
         bindS (part_upd pid ps_clear_identity) (\<lambda>_.
         bindS (session_op pid clear_all) (\<lambda>_.
         bindS (part_upd pid ps_clear_masked_bk_boot) (\<lambda>_.
         bindS (part_upd pid (ps_set_res_mask 0)) (\<lambda>_.
         bindS (part_upd pid ps_bump_generation) (\<lambda>_.
           part_upd pid (ps_set_state Unallocated))))))))"

section \<open>The transitions\<close>

definition part_alloc :: "'e Hw \<Rightarrow> u8 \<Rightarrow> u128 \<Rightarrow> bool \<Rightarrow> ('e UnoHsmPal, unit) op" where
  "part_alloc hw pid m is_pf =
     bindS (part_get pid (\<lambda>s. m = ps_res_mask s \<and> ps_id_key_id s \<noteq> None)) (\<lambda>replay.
       if replay then returns ()
       else
         bindS (if is_pf then part_op pid (\<lambda>s. (bindr (ps_state s) (\<lambda>st. Ok (st = Enabled \<and> ps_res_mask s = 0)), s))
                else returns False) (\<lambda>pre_enabled.
         bindS (if \<not> pre_enabled then part_free hw pid else returns ()) (\<lambda>_.
         bindS (part_upd pid (ps_set_res_mask m)) (\<lambda>_.
         bindS (if m \<noteq> 0 then part_upd pid (ps_set_unwrapping_key_required True) else returns ()) (\<lambda>_.
         bindS (part_upd pid ps_bake_default_psks) (\<lambda>_.
         bindS (try_op (provision_allocation hw pid)) (\<lambda>r.
           case r of
             Err e \<Rightarrow> bindS (rollback_alloc hw pid) (\<lambda>_. fails e)
           | Panic \<Rightarrow> (\<lambda>p. (Panic, p))
           | Ok _ \<Rightarrow>
               if pre_enabled then
                 bindS (try_op (provision_enabled_keys hw pid)) (\<lambda>r.
                   case r of
                     Err e \<Rightarrow> bindS (rollback_alloc hw pid) (\<lambda>_. fails e)
                   | Panic \<Rightarrow> (\<lambda>p. (Panic, p))
                   | Ok _ \<Rightarrow> part_upd pid (ps_set_state Enabled))
               else part_upd pid (ps_set_state Allocated))))))))"

definition part_enable :: "'e Hw \<Rightarrow> u8 \<Rightarrow> bool \<Rightarrow> ('e UnoHsmPal, unit) op" where
  "part_enable hw pid is_pf =
     bindS (part_op pid (\<lambda>s. (ps_state s, s))) (\<lambda>state.
       if state = Allocated \<or> state = Disabled then
         bindS (provision_enabled_keys hw pid) (\<lambda>_. part_upd pid (ps_set_state Enabled))
       else if state = Unallocated \<and> is_pf then part_upd pid (ps_set_state Enabled)
       else if state = Enabled then returns ()
       else fails InvalidArg)"

fun delete_occupied :: "'e Hw \<Rightarrow> HsmIo \<Rightarrow> nat \<Rightarrow> u16 option list \<Rightarrow> ('e UnoHsmPal, unit) op" where
  "delete_occupied hw io slot [] = returns ()"
| "delete_occupied hw io slot (None # ks) = delete_occupied hw io (slot + 1) ks"
| "delete_occupied hw io slot (Some _ # ks) =
     bindS (vault_key_delete_by_session hw io (of_nat slot)) (\<lambda>_. delete_occupied hw io (slot + 1) ks)"

definition part_disable :: "'e Hw \<Rightarrow> u8 \<Rightarrow> ('e UnoHsmPal, unit) op" where
  "part_disable hw pid =
     bindS (part_op pid (\<lambda>s. (ps_state s, s))) (\<lambda>state.
       if state = Enabled then
         bindS (with_admin_io hw pid (\<lambda>admin_io.
           bindS (part_get pid (\<lambda>s. occupied_physical_ids (session_table_of s))) (\<lambda>occ.
           bindS (delete_occupied hw admin_io 0 occ) (\<lambda>_. clear_enabled_state hw admin_io pid)))) (\<lambda>_.
           part_upd pid (ps_set_state Disabled))
       else fails InvalidArg)"

definition part_migrate :: "'e Hw \<Rightarrow> u8 \<Rightarrow> ('e UnoHsmPal, unit) op" where
  "part_migrate hw pid =
     bindS (part_op pid (\<lambda>s. (ps_state s, s))) (\<lambda>state.
       if state = Unallocated then returns ()
       else bindS (part_get pid ps_res_mask) (\<lambda>m.
         if m = 0 then
           bindS (part_upd pid (ps_clear_state Migrate)) (\<lambda>_.
           bindS (session_op pid clear_all) (\<lambda>_. part_upd pid ps_clear_identity))
         else
           bindS (with_admin_io hw pid (\<lambda>admin_io. pal_vault_clear hw admin_io)) (\<lambda>_.
           bindS (part_upd pid (ps_clear_state Migrate)) (\<lambda>_.
           bindS (session_op pid clear_all) (\<lambda>_.
           bindS (part_upd pid ps_clear_identity) (\<lambda>_.
           bindS (provision_identity hw pid) (\<lambda>_.
           bindS (provision_enabled_keys hw pid) (\<lambda>_.
             part_upd pid (ps_set_state Enabled)))))))))"

section \<open>The unwrapping key\<close>

definition ensure_unwrapping_key_imported :: "HsmIo \<Rightarrow> ('e UnoHsmPal, unit) op" where
  "ensure_unwrapping_key_imported io =
     bindS (part_get (io_pid io) (\<lambda>s. if ps_unwrapping_key_id s \<noteq> None then None
                                     else if \<not> ps_unwrapping_key_bk_valid s then None
                                     else Some (ps_unwrapping_key_bk s))) (\<lambda>bk.
       case bk of
         None \<Rightarrow> returns ()
       | Some bk \<Rightarrow>
           bindS (vault_op io (vault_create_sync (io_pid io) \<lparr>buf_ptr = 0, buf_bytes = bk\<rparr> Rsa2kPrivate None
                    (ATTR_INTERNAL OR ATTR_LOCAL OR ATTR_UNWRAP))) (\<lambda>kid.
             part_upd (io_pid io) (ps_set_unwrapping_key_id (Some kid))))"

definition part_prop_get_u16 :: "HsmIo \<Rightarrow> PartPropId \<Rightarrow> ('e UnoHsmPal, u16) op" where
  "part_prop_get_u16 io i =
     bindS (if i = P_RSA_UNWRAPPING_KEY_ID then ensure_unwrapping_key_imported io else returns ()) (\<lambda>_.
       part_op (io_pid io) (\<lambda>s. (prop_get_u16 i s, s)))"

end
