(* ===== verification/UnoIpc.thy ===== *)
theory UnoIpc
  imports UnoPart
begin

text \<open>
  The messages the admin core sends to the HSM core (\<open>fw/plat/uno/fw/pal/src/ipc.rs\<close>) and their
  handling (\<open>fw/plat/uno/fw/pal/src/pal.rs\<close>): the boot handshake, then the assignment of key-vault
  tables to partitions (\<open>SetResource\<close>) and the enabling, disabling and migration of a partition
  (\<open>PfnEnableDisable\<close>). A message is a slot of 16 words, its header the first word.
\<close>

section \<open>Messages\<close>

definition IPC_MESSAGE_LENGTH :: nat where "IPC_MESSAGE_LENGTH = 16"
definition OP_STATE_CHANGE :: u32 where "OP_STATE_CHANGE = 0x0"
definition OP_PFN_ENABLE_DISABLE :: u32 where "OP_PFN_ENABLE_DISABLE = 0x5"
definition OP_SET_RESOURCE :: u32 where "OP_SET_RESOURCE = 0x7F"

datatype IpcMessageStatusCode =
  Success | MessageNotSupported | InvalidField | FunctionNotEnabled | OperationTimeout | OperationFailed | StatusPending | UnknownStatus

fun status_code :: "IpcMessageStatusCode \<Rightarrow> u32" where
  "status_code Success = 0" | "status_code MessageNotSupported = 1" | "status_code InvalidField = 2"
| "status_code FunctionNotEnabled = 3" | "status_code OperationTimeout = 4" | "status_code OperationFailed = 5"
| "status_code StatusPending = 6" | "status_code UnknownStatus = 0xF"

definition with_response :: "u32 \<Rightarrow> u32" where
  "with_response h = h OR push_bit 7 1"

definition with_status :: "IpcMessageStatusCode \<Rightarrow> u32 \<Rightarrow> u32" where
  "with_status st h = (h AND NOT (push_bit 16 0xF)) OR push_bit 16 (status_code st)"

definition as_bytes :: "u32 list \<Rightarrow> u8 list" where
  "as_bytes buf = concat (map (to_le 4) buf)"

record SetResInfo =
  sr_mask :: "u8 list"
  sr_pfn :: u8
  sr_guid :: "u8 list"

record PfnEnableDisableInfo =
  pe_pfn :: u8
  pe_action :: u8

definition mask_u128 :: "SetResInfo \<Rightarrow> u128" where "mask_u128 i = from_le (sr_mask i)"

definition valid_pfn :: "u8 \<Rightarrow> bool" where "valid_pfn pfn \<longleftrightarrow> unat pfn < NUM_PARTITIONS"

text \<open>The decoder checks the opcode, reads the body and validates it.\<close>

definition decode_set_resource :: "u32 list \<Rightarrow> SetResInfo option" where
  "decode_set_resource buf =
     (if hdr_msg_op (buf ! 0) \<noteq> OP_SET_RESOURCE then None
      else let bs = as_bytes buf; info = \<lparr>sr_mask = slice 4 16 bs, sr_pfn = bs ! 20, sr_guid = slice 21 16 bs\<rparr>
           in if \<not> valid_pfn (sr_pfn info) then None else Some info)"

definition decode_pfn_enable_disable :: "u32 list \<Rightarrow> PfnEnableDisableInfo option" where
  "decode_pfn_enable_disable buf =
     (if hdr_msg_op (buf ! 0) \<noteq> OP_PFN_ENABLE_DISABLE then None
      else let bs = as_bytes buf; info = \<lparr>pe_pfn = bs ! 4, pe_action = bs ! 5\<rparr>
           in if \<not> valid_pfn (pe_pfn info) then None else Some info)"

datatype IoProcessorState = NormalBoot | Start | PrepareRelease | Release

fun io_state_u8 :: "IoProcessorState \<Rightarrow> u8" where
  "io_state_u8 NormalBoot = 3" | "io_state_u8 Start = 6" | "io_state_u8 PrepareRelease = 10" | "io_state_u8 Release = 11"

definition decode_state_change :: "u32 list \<Rightarrow> IoProcessorState option" where
  "decode_state_change buf =
     (if hdr_msg_op (buf ! 0) \<noteq> OP_STATE_CHANGE then None
      else let state = as_bytes buf ! 4
           in if state = io_state_u8 NormalBoot then Some NormalBoot
              else if state = io_state_u8 Start then Some Start else None)"

definition encode_state_change_ack :: "u32 list \<Rightarrow> IoProcessorState \<Rightarrow> u32 list" where
  "encode_state_change_ack buf state =
     (replicate IPC_MESSAGE_LENGTH 0)[0 := with_status Success (with_response (buf ! 0)), 1 := ucast (io_state_u8 state)]"

definition encode_set_resource_ack :: "u32 list \<Rightarrow> IpcMessageStatusCode \<Rightarrow> u8 \<Rightarrow> u32 list" where
  "encode_set_resource_ack buf st res_count = buf[0 := with_status st (with_response (buf ! 0)), 1 := ucast res_count]"

definition encode_pfn_enable_disable_ack :: "u32 list \<Rightarrow> IpcMessageStatusCode \<Rightarrow> u32 list" where
  "encode_pfn_enable_disable_ack buf st = buf[0 := with_status st (with_response (buf ! 0))]"

section \<open>Handlers\<close>

text \<open>A handler gives the reply it sent, or none when the message is not its own.\<close>

definition try_handle_pfn_enable :: "'e Hw \<Rightarrow> u32 list \<Rightarrow> ('e UnoHsmPal, u32 list option) op" where
  "try_handle_pfn_enable hw buf =
     (case decode_pfn_enable_disable buf of
        None \<Rightarrow> returns None
      | Some info \<Rightarrow>
          if unat (pe_pfn info) \<ge> NUM_PARTITIONS then returns (Some (encode_pfn_enable_disable_ack buf InvalidField))
          else
            let pid = pe_pfn info; is_pf = (pe_pfn info = PF_PCIE_FN) in
            bindS (try_op
              (if pe_action info = 1 then part_enable hw pid is_pf
               else if pe_action info = 0 then part_disable hw pid
               else if pe_action info = 2 then part_migrate hw pid
               else fails UnsupportedCmd)) (\<lambda>r.
              returns (Some (encode_pfn_enable_disable_ack buf (if r = Ok () then Success else InvalidField)))))"

definition valid_tables :: u128 where
  "valid_tables = push_bit NUM_PARTITIONS 1 - 1"

definition try_handle_set_resource :: "'e Hw \<Rightarrow> u32 list \<Rightarrow> ('e UnoHsmPal, u32 list option) op" where
  "try_handle_set_resource hw buf =
     (case decode_set_resource buf of
        None \<Rightarrow> returns None
      | Some info \<Rightarrow>
          if unat (sr_pfn info) \<ge> NUM_PARTITIONS then returns (Some (encode_set_resource_ack buf InvalidField 0))
          else
            let pid = sr_pfn info; is_pf = (sr_pfn info = PF_PCIE_FN); m = mask_u128 info in
            if m AND NOT valid_tables \<noteq> 0 then returns (Some (encode_set_resource_ack buf InvalidField 0))
            else
              bindS (try_op (if m = 0 then part_free hw pid else part_alloc hw pid m is_pf)) (\<lambda>r.
                let (st, count) = (if r = Ok () then (Success, of_nat (popcount m)) else (InvalidField, 0))
                in returns (Some (encode_set_resource_ack buf st count))))"

datatype BootPhase = WaitNormalBoot | WaitStart | Running

record 'e HsmCore =
  boot_phase :: BootPhase
  hsm_pal :: "'e UnoHsmPal"

definition on_pal :: "('e UnoHsmPal, 'a) op \<Rightarrow> ('e HsmCore, 'a) op" where
  "on_pal m c = (let (r, p) = m (hsm_pal c) in (r, c\<lparr>hsm_pal := p\<rparr>))"

definition try_ack_state_change :: "u32 list \<Rightarrow> IoProcessorState \<Rightarrow> u32 list option" where
  "try_ack_state_change buf expected =
     (case decode_state_change buf of
        None \<Rightarrow> None
      | Some state \<Rightarrow> if state \<noteq> expected then None else Some (encode_state_change_ack buf state))"

text \<open>The whole handler: the reply on the admin channel, none when the message is dropped.\<close>

definition handle_ipc_message :: "'e Hw \<Rightarrow> u32 list \<Rightarrow> ('e HsmCore, u32 list option) op" where
  "handle_ipc_message hw buf c =
     (case boot_phase c of
        WaitNormalBoot \<Rightarrow>
          (case try_ack_state_change buf NormalBoot of
             None \<Rightarrow> (Ok None, c)
           | Some reply \<Rightarrow> (Ok (Some reply), c\<lparr>boot_phase := WaitStart\<rparr>))
      | WaitStart \<Rightarrow>
          (case try_ack_state_change buf Start of
             None \<Rightarrow> (Ok None, c)
           | Some reply \<Rightarrow> (Ok (Some reply), c\<lparr>boot_phase := Running\<rparr>))
      | Running \<Rightarrow>
          bindS (on_pal (try_handle_set_resource hw buf)) (\<lambda>r.
            case r of
              Some reply \<Rightarrow> returns (Some reply)
            | None \<Rightarrow>
                bindS (on_pal (try_handle_pfn_enable hw buf)) (\<lambda>r.
                  case r of
                    Some reply \<Rightarrow> returns (Some reply)
                  | None \<Rightarrow> returns (Some (buf[0 := buf ! 0 OR 0x80])))) c)"

end
