(* ===== verification/UnoPartLaws.thy ===== *)
theory UnoPartLaws
  imports UnoIpc
begin

text \<open>
  A calculus for the lifecycle operations. What an admin operation on a partition sees of the platform
  is the slot of the partition and the keys of the vault: \<open>held\<close> says that these are \<open>S\<close> and \<open>K\<close>, that
  the other partitions are those of \<open>P\<close>, that the platform is steady and that the admin scratch slot is as
  the first argument says, wiped between admin sessions and within its invariant inside one.
\<close>

section \<open>The view of an admin operation\<close>

definition in_mask :: "u128 \<Rightarrow> HsmKeyId \<Rightarrow> bool" where
  "in_mask m k \<longleftrightarrow> fst (split_key_id k) < TABLE_COUNT \<and> bit m (fst (split_key_id k))"

definition clean_slot :: "IoSlot \<Rightarrow> bool" where
  "clean_slot s \<longleftrightarrow> slot_inv s \<and> hp_pk (heap_of DMA s) = 0 \<and> hp_pk (heap_of NONDMA s) = 0"

definition held ::
  "(IoSlot \<Rightarrow> bool) \<Rightarrow> u8 \<Rightarrow> Storage list \<Rightarrow> Storage \<Rightarrow> (HsmKeyId \<Rightarrow> vkey option) \<Rightarrow> 'e UnoHsmPal \<Rightarrow> bool" where
  "held c pid P S K p \<longleftrightarrow>
     unat pid < NUM_PARTITIONS \<and> length P = NUM_PARTITIONS \<and> pal_parts p = P[unat pid := S] \<and> pal_keys p = K \<and>
     steady (admin_no_scrub pid) p \<and> c (pal_io_slots p ! ADMIN_IO_INDEX)"

lemma clean_slot_zero:
  assumes "clean_slot s"
  shows "hp_mem (heap_of NONDMA s) = replicate (heap_cap NONDMA) 0" "hp_mem (heap_of DMA s) = replicate (heap_cap DMA) 0"
  using assms by (auto simp: clean_slot_def slot_inv_def heap_inv_def intro!: nth_equalityI)

lemma admin_io_views:
  assumes "unat pid < NUM_PARTITIONS"
  shows "io_pid (admin_no_scrub pid) = pid" "io_index (admin_no_scrub pid) = ADMIN_IO_INDEX"
proof -
  have pf: "unat pid \<noteq> 64 \<Longrightarrow> pid < 64"
    using assms by (simp add: word_less_nat_alt NUM_PARTITIONS_def)
  show "io_pid (admin_no_scrub pid) = pid"
  proof (cases "pid = 64")
    case True
    then show ?thesis by (simp add: admin_no_scrub_def pfn_to_axi_id_def axi_id_to_pfn_def PF_AXI_ID_def PF_PCIE_FN_def)
  next
    case False
    then have "unat pid \<noteq> 64" using unat_eq_nat_uint word_unat_eq_iff [of pid 64] by simp
    then have lt: "pid < 64" by (rule pf)
    then have u: "unat (0x20 + pid) = 32 + unat pid" by (simp add: unat_word_ariths word_less_nat_alt)
    have "unat (0x20 + pid) \<noteq> unat (0x10 :: u8)" using u by simp
    then have "0x20 + pid \<noteq> 0x10" by metis
    moreover have "0x20 \<le> 0x20 + pid" "0x20 + pid \<le> 0x5F"
      using u lt by (simp_all add: word_le_nat_alt word_less_nat_alt)
    ultimately show ?thesis using lt False
      by (simp add: admin_no_scrub_def pfn_to_axi_id_def axi_id_to_pfn_def PF_AXI_ID_def VF_AXI_ID_START_def VF_AXI_ID_END_def
        NO_PARTITION_def)
  qed
  show "io_index (admin_no_scrub pid) = ADMIN_IO_INDEX" by (simp add: admin_no_scrub_def Let_def)
qed

lemma heldD:
  assumes "held c pid P S K p"
  shows "partition pid = Ok (unat pid)" "pal_parts p ! unat pid = S" "pal_keys p = K" "vault_ok p" "steady (admin_no_scrub pid) p"
    "res_mask_of pid p = ps_res_mask S" "io_pid (admin_no_scrub pid) = pid" "ADMIN_IO_INDEX < length (pal_io_slots p)"
    "io_index (admin_no_scrub pid) = ADMIN_IO_INDEX" "c (pal_io_slots p ! ADMIN_IO_INDEX)"
proof -
  note h = assms [unfolded held_def]
  show p: "partition pid = Ok (unat pid)" using h by (simp add: partition_def Let_def)
  show s: "pal_parts p ! unat pid = S" using h by simp
  show "pal_keys p = K" "vault_ok p" "steady (admin_no_scrub pid) p" "c (pal_io_slots p ! ADMIN_IO_INDEX)"
    using h by (simp_all add: steady_def)
  show "res_mask_of pid p = ps_res_mask S" using p s by (simp add: res_mask_of_def)
  show a: "io_pid (admin_no_scrub pid) = pid" "io_index (admin_no_scrub pid) = ADMIN_IO_INDEX"
    using admin_io_views h by blast+
  show "ADMIN_IO_INDEX < length (pal_io_slots p)" using h a(2) by (simp add: steady_def)
qed

lemma held_owned:
  assumes "held c pid P S K p"
  shows "owned (vault_of (admin_no_scrub pid) p) k \<longleftrightarrow> in_mask (ps_res_mask S) k"
  using heldD [OF assms] by (simp add: owned_def bit_valid_table vault_of_def in_mask_def)

section \<open>Reading and writing the slot\<close>

lemma fp_inv_masks:
  assumes "fp_inv p" "pal_tables p' = pal_tables p" "pal_fp_slots p' = pal_fp_slots p"
    and "\<And>i. i < NUM_PARTITIONS \<Longrightarrow> ps_res_mask (pal_parts p' ! i) = ps_res_mask (pal_parts p ! i)"
  shows "fp_inv p'"
proof -
  have k: "pal_keys p' = pal_keys p" using assms(2) by (simp add: pal_keys_def)
  show ?thesis using assms(1,3,4) unfolding fp_inv_def k by simp
qed

lemma held_set:
  assumes h: "held c pid P S K p" and m: "ps_res_mask S' = ps_res_mask S"
  shows "held c pid P S' K (p\<lparr>pal_parts := (pal_parts p)[unat pid := S']\<rparr>)" (is "held c pid P S' K ?p")
proof -
  have st: "steady (admin_no_scrub pid) p" and parts: "pal_parts p = P[unat pid := S]" "length P = NUM_PARTITIONS" "unat pid < NUM_PARTITIONS"
    using h by (simp_all add: held_def)
  have "ps_res_mask (pal_parts ?p ! i) = ps_res_mask (pal_parts p ! i)" if "i < NUM_PARTITIONS" for i
    using parts m that by (simp add: nth_list_update)
  then have "fp_inv ?p" using st fp_inv_masks [of p ?p] by (simp add: steady_def)
  then show ?thesis using h by (simp add: held_def steady_def vault_ok_def pal_keys_def)
qed

lemma part_op_held:
  assumes h: "held c pid P S K p" and r: "m S = (r, S')" and mask: "ps_res_mask S' = ps_res_mask S"
  shows "part_op pid m p = (r, p\<lparr>pal_parts := (pal_parts p)[unat pid := S']\<rparr>)"
    "held c pid P S' K (p\<lparr>pal_parts := (pal_parts p)[unat pid := S']\<rparr>)"
  using heldD [OF h] r held_set [OF h mask] by (simp_all add: part_op_def bindS_def)

lemma part_upd_achieves:
  assumes "held c pid P S K p" "ps_res_mask (f S) = ps_res_mask S"
  shows "achieves (part_upd pid f) p (\<lambda>_. held c pid P (f S) K) E"
  using part_op_held [OF assms(1), of "\<lambda>s. (Ok (), f s)", OF refl assms(2)] by (simp add: achieves_def part_upd_def)

lemma part_op_achieves:
  assumes "held c pid P S K p" "m S = (r, S')" "r \<noteq> Panic" "ps_res_mask S' = ps_res_mask S"
  shows "achieves (part_op pid m) p (\<lambda>x p'. r = Ok x \<and> held c pid P S' K p') (\<lambda>e p'. r = Err e \<and> held c pid P S' K p')"
  using part_op_held [of c pid P S K p m, OF assms(1,2,4)] assms(3) by (cases r) (simp_all add: achieves_def)

lemma part_op_Ok:
  assumes "held c pid P S K p" "m S = (Ok x, S')" "ps_res_mask S' = ps_res_mask S"
  shows "achieves (part_op pid m) p (\<lambda>y p'. y = x \<and> held c pid P S' K p') E"
  using part_op_held [of c pid P S K p m, OF assms] by (simp add: achieves_def)

lemma part_get_achieves:
  assumes "held c pid P S K p"
  shows "achieves (part_get pid f) p (\<lambda>x p'. x = f S \<and> held c pid P S K p') E"
  using part_op_held [OF assms, of "\<lambda>s. (Ok (f s), s)", OF refl refl] by (simp add: achieves_def part_get_def)

lemma state_achieves:
  assumes "held c pid P S K p"
  shows "achieves (part_op pid (\<lambda>s. (ps_state s, s))) p (\<lambda>x p'. ps_state S = Ok x \<and> held c pid P S K p')
    (\<lambda>e p'. ps_state S = Err e \<and> held c pid P S K p')"
  by (rule part_op_achieves [OF assms, OF refl]) (simp_all add: ps_state_def split: option.split)

lemma mask_kept [simp]:
  "ps_res_mask (put_session_table t s) = ps_res_mask s" "ps_res_mask (ps_set_state st s) = ps_res_mask s"
  "ps_res_mask (ps_clear_identity s) = ps_res_mask s" "ps_res_mask (ps_clear_masked_bk_boot s) = ps_res_mask s"
  "ps_res_mask (ps_clear_unwrapping_key s) = ps_res_mask s" "ps_res_mask (ps_bump_generation s) = ps_res_mask s"
  "ps_res_mask (ps_set_id_key_id k s) = ps_res_mask s" "ps_res_mask (ps_set_ec_key_id k s) = ps_res_mask s"
  "ps_res_mask (ps_set_se_key_id k s) = ps_res_mask s" "ps_res_mask (ps_id_mut f s) = ps_res_mask s"
  "ps_res_mask (ps_nonce_mut f s) = ps_res_mask s" "ps_res_mask (ps_clear_enabled_keys s) = ps_res_mask s"
  "ps_res_mask (ps_clear_state rk s) = ps_res_mask s" "ps_res_mask (ps_bake_default_psks s) = ps_res_mask s"
  "ps_res_mask (ps_set_unwrapping_key_required b s) = ps_res_mask s" "ps_res_mask (ps_id_pub_key_mut f s) = ps_res_mask s"
  by (simp_all add: store_ops put_session_table_def split: PartResetKind.split)

lemma session_op_achieves:
  assumes "held c pid P S K p" "m (session_table_of S) = (Ok x, t)"
  shows "achieves (session_op pid m) p (\<lambda>y p'. y = x \<and> held c pid P (put_session_table t S) K p') E"
  using part_op_held [OF assms(1), of "\<lambda>s. let (r, t) = m (session_table_of s) in (r, put_session_table t s)" "Ok x" "put_session_table t S"]
    assms(2) by (simp add: achieves_def session_op_def)

section \<open>The vault\<close>

lemma held_moves:
  assumes h: "held c pid P S K p" and mv: "vault_moves p K' p'"
    and sub: "\<And>k v. K' k = Some v \<Longrightarrow> is_bulk_kind (vk_kind v) \<Longrightarrow> (\<exists>u. K k = Some u \<and> vk_kind u = vk_kind v \<and> vk_bytes u = vk_bytes v)"
  shows "held c pid P S K' p'"
proof -
  have K: "pal_keys p = K" using h by (simp add: held_def)
  have "steady (admin_no_scrub pid) p'"
    by (rule steady_moves [OF heldD(5) [OF h] mv]) (use sub K in auto)
  then show ?thesis using h vault_movesD [OF mv] by (simp add: held_def)
qed

lemma delete_key_achieves:
  assumes hw: "engine_ok (hw_engine hw)" and h: "held c pid P S K p"
  shows "achieves (delete_key hw (admin_no_scrub pid) k) p (\<lambda>_. held c pid P S (K(k := None))) E"
  unfolding delete_key_def
proof (rule best_effort_achieves [OF achieves_mono [OF delete_achieves [OF hw heldD(4) [OF h]]]])
  fix x :: unit and p' assume "pal_keys p k \<noteq> None \<and> vault_moves p ((pal_keys p)(k := None)) p'"
  then show "held c pid P S (K(k := None)) p'"
    using heldD(3) [OF h] by (intro held_moves [OF h]) (auto split: if_splits)
next
  fix e p' assume "pal_keys p k = None \<and> vault_moves p (pal_keys p) p'"
  moreover from this have "K(k := None) = K" using heldD(3) [OF h] by auto
  ultimately show "held c pid P S (K(k := None)) p'"
    using heldD(3) [OF h] by (intro held_moves [OF h]) auto
qed

definition drop_keys :: "u16 option list \<Rightarrow> (HsmKeyId \<Rightarrow> vkey option) \<Rightarrow> HsmKeyId \<Rightarrow> vkey option" where
  "drop_keys ks K k = (if Some k \<in> set ks then None else K k)"

lemma delete_keys_achieves:
  assumes hw: "engine_ok (hw_engine hw)"
  shows "held c pid P S K p \<Longrightarrow>
    achieves (delete_keys hw (admin_no_scrub pid) ks) p (\<lambda>_. held c pid P S (drop_keys ks K)) E"
proof (induction ks arbitrary: K p)
  case (Cons x ks)
  show ?case
  proof (cases x)
    case None
    then show ?thesis using Cons.IH [OF Cons.prems] by (simp add: drop_keys_def [abs_def])
  next
    case (Some k)
    have "drop_keys ks (K(k := None)) = drop_keys (x # ks) K" by (auto simp: drop_keys_def fun_eq_iff Some)
    then have "achieves (delete_keys hw (admin_no_scrub pid) ks) p1 (\<lambda>_. held c pid P S (drop_keys (x # ks) K)) E"
      if "held c pid P S (K(k := None)) p1" for p1 using Cons.IH [OF that] by (simp only:)
    from achieves_bind [OF delete_key_achieves [OF hw Cons.prems, of k] this] show ?thesis by (simp add: Some)
  qed
qed (simp add: drop_keys_def [abs_def])

definition drop_tables :: "u128 \<Rightarrow> (HsmKeyId \<Rightarrow> vkey option) \<Rightarrow> HsmKeyId \<Rightarrow> vkey option" where
  "drop_tables m K k = (if in_mask m k then None else K k)"

lemma held_without:
  assumes h: "held c pid P S K p"
  shows "without_keys (vault_of (admin_no_scrub pid) p) Q =
    (\<lambda>k. case K k of None \<Rightarrow> None | Some v \<Rightarrow> if in_mask (ps_res_mask S) k \<and> Q v then None else Some v)"
  using heldD(3) [OF h] by (intro ext) (simp add: without_keys_def vault_of_views(1) held_owned [OF h] split: option.split)

lemma vault_clear_achieves:
  assumes hw: "engine_ok (hw_engine hw)" and h: "held c pid P S K p"
  shows "achieves (pal_vault_clear hw (admin_no_scrub pid)) p (\<lambda>_. held c pid P S (drop_tables (ps_res_mask S) K)) E"
proof (rule achieves_mono [OF pal_vault_clear_achieves [OF hw heldD(5) [OF h]]])
  fix x :: unit and p' assume a: "steady (admin_no_scrub pid) p' \<and> pal_parts p' = pal_parts p \<and> pal_io_slots p' = pal_io_slots p \<and>
    pal_keys p' = without_keys (vault_of (admin_no_scrub pid) p) (\<lambda>_. True)"
  moreover have "without_keys (vault_of (admin_no_scrub pid) p) (\<lambda>_. True) = drop_tables (ps_res_mask S) K"
    unfolding held_without [OF h] by (auto simp: drop_tables_def fun_eq_iff split: option.split)
  ultimately show "held c pid P S (drop_tables (ps_res_mask S) K) p'"
    using h by (simp add: held_def)
qed simp

definition drop_session :: "u128 \<Rightarrow> u16 \<Rightarrow> (HsmKeyId \<Rightarrow> vkey option) \<Rightarrow> HsmKeyId \<Rightarrow> vkey option" where
  "drop_session m sess K k =
     (case K k of None \<Rightarrow> None | Some v \<Rightarrow> if in_mask m k \<and> vk_session v = Some sess then None else Some v)"

lemma by_session_achieves:
  assumes hw: "engine_ok (hw_engine hw)" and h: "held c pid P S K p"
  shows "achieves (vault_key_delete_by_session hw (admin_no_scrub pid) sess) p
    (\<lambda>_. held c pid P S (drop_session (ps_res_mask S) sess K)) (\<lambda>_. held c pid P S K)"
  unfolding vault_key_delete_by_session_def
proof (rule achieves_mono [OF delete_session_keys_achieves [OF hw heldD(5) [OF h]]])
  fix x :: unit and p' assume a: "steady (admin_no_scrub pid) p' \<and> pal_parts p' = pal_parts p \<and> pal_io_slots p' = pal_io_slots p \<and>
    pal_keys p' = without_keys (vault_of (admin_no_scrub pid) p) (\<lambda>v. vk_session v = Some sess)"
  moreover have "without_keys (vault_of (admin_no_scrub pid) p) (\<lambda>v. vk_session v = Some sess) = drop_session (ps_res_mask S) sess K"
    unfolding held_without [OF h] by (simp add: fun_eq_iff drop_session_def)
  ultimately show "held c pid P S (drop_session (ps_res_mask S) sess K) p'"
    using h by (simp add: held_def)
next
  fix e p' assume "\<exists>d. p' = p\<lparr>pal_dev := d\<rparr>"
  then obtain d where d: "p' = p\<lparr>pal_dev := d\<rparr>" by blast
  then show "held c pid P S K p'"
    using h steady_frame(1,3) [OF heldD(5) [OF h], of p'] unfolding held_def by simp
qed

end
