(* ===== verification/UnoProvision.thy ===== *)
theory UnoProvision
  imports UnoPartLaws
begin

text \<open>
  Admin sessions and the keys made in them: whatever happens inside a session, the admin scratch slot is
  all zero after it; a generated key pair is in the vault with its public half in the slot, or the vault
  is as before.
\<close>

section \<open>Admin sessions\<close>

text \<open>Buffers taken so far from the DMA scratch, each below the peak.\<close>

definition room :: "(nat \<times> nat) list \<Rightarrow> IoSlot \<Rightarrow> bool" where
  "room xs s \<longleftrightarrow> slot_inv s \<and> (\<forall>(start, n) \<in> set xs. start + n \<le> hp_pk (heap_of DMA s))"

lemma room_Nil [simp]: "room [] = slot_inv"
  by (simp add: room_def fun_eq_iff)

lemma held_slot:
  assumes "held c pid P S K p" "length X = length (pal_io_slots p)" "c' (X ! ADMIN_IO_INDEX)"
  shows "held c' pid P S K (p\<lparr>pal_io_slots := X\<rparr>)"
  using assms steady_frame(1,3) [OF heldD(5) [OF assms(1)], of "p\<lparr>pal_io_slots := X\<rparr>"] unfolding held_def by simp

lemma scratch_op_held:
  assumes h: "held c pid P S K p" and m: "m (pal_io_slots p ! ADMIN_IO_INDEX) = (r, s)"
  shows "scratch_op (admin_no_scrub pid) m p = (r, p\<lparr>pal_io_slots := (pal_io_slots p)[ADMIN_IO_INDEX := s]\<rparr>)"
    "c' s \<Longrightarrow> held c' pid P S K (p\<lparr>pal_io_slots := (pal_io_slots p)[ADMIN_IO_INDEX := s]\<rparr>)"
  using heldD(8,9) [OF h] m by (auto simp: scratch_op_def intro: held_slot [OF h])

lemma scratch_upd_achieves:
  assumes "held c pid P S K p" "\<And>s. c s \<Longrightarrow> c' (f s)"
  shows "achieves (scratch_upd (admin_no_scrub pid) f) p (\<lambda>_. held c' pid P S K) E"
  using scratch_op_held(1) [OF assms(1), of "\<lambda>s. (Ok (), f s)", OF refl]
    scratch_op_held(2) [OF assms(1), of "\<lambda>s. (Ok (), f s)", OF refl, of c'] assms(2) [OF heldD(10) [OF assms(1)]]
  by (simp add: achieves_def scratch_upd_def)

lemma slot_inv_rewinds:
  "slot_inv s \<Longrightarrow> slot_inv (reset_io_alloc s)" "slot_inv s \<Longrightarrow> slot_inv (scope_drop marks s)"
  by (auto simp: scope_drop_def reset_io_alloc_def intro: slot_inv_set_wm)

lemma scrub_clean:
  assumes "engine_ok eng" "slot_inv s"
  shows "clean_slot (scrub_io_slot eng i s)"
  using scrub_inv [OF assms] unfolding clean_slot_def scrub_result [OF assms] by (simp add: wiped_def)

lemma with_admin_io_achieves:
  fixes p :: "'e UnoHsmPal"
  assumes hw: "engine_ok (hw_engine hw)" and h: "held clean_slot pid P S K p"
    and f: "\<And>p1. held slot_inv pid P S K p1 \<Longrightarrow> achieves (f (admin_no_scrub pid)) p1
      (\<lambda>x p'. \<exists>S' K'. held slot_inv pid P S' K' p' \<and> Q x S' K') (\<lambda>e p'. \<exists>S' K'. held slot_inv pid P S' K' p' \<and> E e S' K')"
  shows "achieves (with_admin_io hw pid f) p (\<lambda>x p'. \<exists>S' K'. held clean_slot pid P S' K' p' \<and> Q x S' K')
    (\<lambda>e p'. \<exists>S' K'. held clean_slot pid P S' K' p' \<and> E e S' K')"
  unfolding with_admin_io_def Let_def
proof (rule achieves_bind [OF scratch_upd_achieves [OF h, where c' = slot_inv]])
  show "clean_slot s \<Longrightarrow> slot_inv (reset_io_alloc s)" for s by (auto simp: clean_slot_def intro: slot_inv_rewinds)
  fix x :: unit and p1 :: "'e UnoHsmPal" assume "held slot_inv pid P S K p1"
  note tr = try_achieves [OF f [OF this]]
  show "achieves (bindS (try_op (f (admin_no_scrub pid))) (\<lambda>result.
      bindS (scratch_upd (admin_no_scrub pid) (scope_drop (0, 0))) (\<lambda>_.
      bindS (scratch_upd (admin_no_scrub pid) (scrub_io_slot (hw_engine hw) ADMIN_IO_INDEX)) (\<lambda>_. reads (\<lambda>_. result))))) p1
      (\<lambda>x p'. \<exists>S' K'. held clean_slot pid P S' K' p' \<and> Q x S' K') (\<lambda>e p'. \<exists>S' K'. held clean_slot pid P S' K' p' \<and> E e S' K')"
  proof (rule achieves_bind [OF tr])
    fix r and p2 :: "'e UnoHsmPal" assume r: "case r of Ok x \<Rightarrow> \<exists>S' K'. held slot_inv pid P S' K' p2 \<and> Q x S' K'
      | Err e \<Rightarrow> \<exists>S' K'. held slot_inv pid P S' K' p2 \<and> E e S' K' | Panic \<Rightarrow> False"
    then obtain S' K' where h2: "held slot_inv pid P S' K' p2" and q: "case r of Ok x \<Rightarrow> Q x S' K' | Err e \<Rightarrow> E e S' K' | Panic \<Rightarrow> False"
      by (cases r) auto
    show "achieves (bindS (scratch_upd (admin_no_scrub pid) (scope_drop (0, 0))) (\<lambda>_.
        bindS (scratch_upd (admin_no_scrub pid) (scrub_io_slot (hw_engine hw) ADMIN_IO_INDEX)) (\<lambda>_. reads (\<lambda>_. r)))) p2
        (\<lambda>x p'. \<exists>S' K'. held clean_slot pid P S' K' p' \<and> Q x S' K') (\<lambda>e p'. \<exists>S' K'. held clean_slot pid P S' K' p' \<and> E e S' K')"
      by (rule achieves_bind [OF scratch_upd_achieves [OF h2, where c' = slot_inv]],
          simp add: slot_inv_rewinds,
          rule achieves_bind [OF scratch_upd_achieves [where c = slot_inv and c' = clean_slot]], assumption,
          simp add: scrub_clean [OF hw])
        (use q in \<open>cases r; auto\<close>)
  qed
qed

section \<open>Buffers\<close>

lemma dma_take_achieves:
  assumes "held (room xs) pid P S K p"
  shows "achieves (dma_take (admin_no_scrub pid) n) p (\<lambda>start. held (room ((start, n) # xs)) pid P S K)
    (\<lambda>_. held (room xs) pid P S K)"
proof -
  let ?s = "pal_io_slots p ! ADMIN_IO_INDEX"
  obtain r s where b: "dma_alloc ADMIN_IO_INDEX n ?s = (r, s)" by fastforce
  have b': "dma_alloc (io_index (admin_no_scrub pid)) n ?s = (r, s)" using b heldD(9) [OF assms] by simp
  note run = scratch_op_held [OF assms, of "dma_alloc (io_index (admin_no_scrub pid)) n", OF b']
  have c: "room xs ?s" using heldD(10) [OF assms] .
  have D: "DMA \<in> {NONDMA, DMA}" by simp
  have k: "4 = (2 :: nat) ^ 2" by simp
  have bump: "bump ADMIN_IO_INDEX DMA n 4 ?s = (r, s)" using b by (simp add: dma_alloc_def)
  show ?thesis
  proof (cases r)
    case (Ok start)
    note B = bump_Ok [OF bump [unfolded Ok] D k]
    have "slot_inv s" using bump_inv [OF _ D k bump] c by (simp add: room_def)
    moreover have "hp_pk (heap_of DMA ?s) \<le> hp_pk (heap_of DMA s)" using B(6) by simp
    ultimately have "room ((start, n) # xs) s" using c B(5) order_trans unfolding room_def by fastforce
    then show ?thesis using run Ok by (simp add: achieves_def dma_take_def)
  next
    case (Err e)
    then have "s = ?s" using bump bump_fails by metis
    then show ?thesis using run(1) run(2) [of "room xs"] c Err by (simp add: achieves_def dma_take_def)
  qed (use bump bump_fails in metis)
qed

lemma room_put:
  assumes "room xs s" "(start, length bs) \<in> set xs"
  shows "room xs (put_bytes DMA start bs s)"
proof -
  have "slot_inv (put_bytes DMA start bs s)"
    using assms by (intro put_bytes_inv) (auto simp: room_def)
  moreover have "hp_pk (heap_of DMA (put_bytes DMA start bs s)) = hp_pk (heap_of DMA s)" by (simp add: put_bytes_def)
  ultimately show ?thesis using assms(1) by (simp add: room_def)
qed

lemma dma_write_achieves:
  assumes "held (room xs) pid P S K p" "(start, length bs) \<in> set xs"
  shows "achieves (dma_write (admin_no_scrub pid) start bs) p (\<lambda>b p'. buf_bytes b = bs \<and> held (room xs) pid P S K p') E"
  unfolding dma_write_def
  by (rule achieves_bind [OF scratch_upd_achieves [OF assms(1), where c' = "room xs"]])
    (use assms(2) in \<open>auto intro: room_put\<close>)

lemma dma_put_steps:
  assumes "io_index io < length (pal_io_slots p)"
  shows "dma_put io bs p = bindS (dma_take io (length bs)) (\<lambda>start. bindS (dma_write io start bs) (\<lambda>b. returns (b, start))) p"
  using assms
  by (simp add: dma_put_def dma_take_def dma_write_def scratch_upd_def scratch_op_def bindS_def split: prod.split run.split)

lemma dma_put_held:
  assumes "held (room xs) pid P S K p"
  shows "achieves (dma_put (admin_no_scrub pid) bs) p (\<lambda>dn p'. buf_bytes (fst dn) = bs \<and> held slot_inv pid P S K p') (\<lambda>_. held slot_inv pid P S K)"
proof -
  have weaken: "held (room ys) pid P S K q \<Longrightarrow> held slot_inv pid P S K q" for ys and q :: "'a UnoHsmPal"
    by (auto simp: held_def room_def)
  have "achieves (bindS (dma_take (admin_no_scrub pid) (length bs)) (\<lambda>start. bindS (dma_write (admin_no_scrub pid) start bs) (\<lambda>b. returns (b, start)))) p
      (\<lambda>dn p'. buf_bytes (fst dn) = bs \<and> held slot_inv pid P S K p') (\<lambda>_. held slot_inv pid P S K)"
    by (rule achieves_bind [OF achieves_mono [OF dma_take_achieves [OF assms, of "length bs"]]], assumption, erule weaken,
        rule achieves_bind [OF dma_write_achieves]) (auto intro: weaken)
  then show ?thesis using dma_put_steps [of "admin_no_scrub pid" p bs] heldD(8,9) [OF assms] by (simp add: achieves_def)
qed

section \<open>Key pairs\<close>

text \<open>
  What the platform relies on of the key generator and of the masking of a boot key: they do not panic, and
  a generated pair fills the two buffers it was given.
\<close>

definition hw_ok :: "'e Hw \<Rightarrow> bool" where
  "hw_ok hw \<longleftrightarrow> engine_ok (hw_engine hw) \<and>
     (\<forall>d. fst (hw_ecc_gen hw d) \<noteq> Panic) \<and>
     (\<forall>d d' priv pub n. hw_ecc_gen hw d = (Ok (priv, pub, n), d') \<longrightarrow> length priv = P384_PRIV_LEN \<and> length pub = ID_PUB_KEY_LEN) \<and>
     (\<forall>pid d. fst (hw_mask_bk_boot hw pid d) \<noteq> Panic)"

definition set_pub :: "HsmVaultKeyKind \<Rightarrow> u8 list \<Rightarrow> Storage \<Rightarrow> Storage" where
  "set_pub kd pub S =
     (if kd = Ecc384Private then ps_id_pub_key_mut (\<lambda>_. swap_halves pub) S
      else if kd = EstablishCred then S\<lparr>st_ec_pub_key := pub\<rparr> else S\<lparr>st_se_pub_key := pub\<rparr>)"

definition pair_blob :: "HsmVaultKeyKind \<Rightarrow> u8 list \<Rightarrow> u8 list \<Rightarrow> u8 list" where
  "pair_blob kd priv pub = (if kd = Ecc384Private then priv else pub @ priv)"

lemma set_pub_mask [simp]: "ps_res_mask (set_pub kd pub S) = ps_res_mask S"
  by (simp add: set_pub_def) (simp add: ps_res_mask_def)

lemma dev_op_held:
  assumes "held c pid P S K p" "\<And>d. fst (m d) \<noteq> Panic"
  shows "achieves (dev_op m) p (\<lambda>x p'. held c pid P S K p' \<and> (\<exists>d d'. m d = (Ok x, d'))) (\<lambda>_. held c pid P S K)"
proof -
  obtain r d where m: "m (pal_dev p) = (r, d)" by fastforce
  have "held c pid P S K (p\<lparr>pal_dev := d\<rparr>)"
    using assms(1) steady_frame(1,3) [OF heldD(5) [OF assms(1)], of "p\<lparr>pal_dev := d\<rparr>"] unfolding held_def by simp
  then show ?thesis using m assms(2) [of "pal_dev p"] by (cases r) (auto simp: achieves_def dev_op_def)
qed

lemma length_swap_halves: "length (swap_halves b) = length b"
  by (simp add: swap_halves_def)

lemma keep_key_pair_achieves:
  assumes h: "held (room xs) pid P S K p" and kd: "kd \<in> {Ecc384Private, EstablishCred, SessionEncryption}"
    and len: "length priv = P384_PRIV_LEN" "length pub = ID_PUB_KEY_LEN" "(pub_at, ID_PUB_KEY_LEN) \<in> set xs"
  shows "achieves (keep_key_pair pid (admin_no_scrub pid) kd priv_at priv pub_at pub) p
    (\<lambda>b p'. buf_bytes b = pair_blob kd priv pub \<and> held slot_inv pid P (set_pub kd pub S) K p')
    (\<lambda>_. held slot_inv pid P (set_pub kd pub S) K)"
proof -
  have weaken: "held (room ys) pid P S' K q \<Longrightarrow> held slot_inv pid P S' K q" for ys S' and q :: "'a UnoHsmPal"
    by (auto simp: held_def room_def)
  have n: "ID_PUB_KEY_LEN = PUB_KEY_LEN" by (simp add: ID_PUB_KEY_LEN_def PUB_KEY_LEN_def)
  consider (id) "kd = Ecc384Private" | (ec) "kd = EstablishCred" | (se) "kd = SessionEncryption" using kd by blast
  then show ?thesis
  proof cases
    case id
    have sw: "length (swap_halves pub) = PUB_KEY_LEN" using len n by (simp add: length_swap_halves)
    have pub: "ps_set_id_pub_key (swap_halves pub) S = (Ok (), set_pub kd pub S)"
      using sw id by (simp add: ps_set_id_pub_key_def set_pub_def)
    show ?thesis
      unfolding keep_key_pair_def if_P [OF id]
      apply (rule achieves_bind [OF dma_write_achieves [OF h, of pub_at "swap_halves pub"]])
       apply (use len in \<open>simp add: length_swap_halves\<close>)
      apply (elim conjE)
      apply (simp only:)
      apply (rule achieves_bind [OF part_op_Ok], assumption, rule pub)
      using id by (auto simp: pair_blob_def intro: weaken)
  next
    case ec
    have pub: "ps_set_ec_pub_key pub S = (Ok (), set_pub kd pub S)"
      using len n ec by (simp add: ps_set_ec_pub_key_def set_pub_def)
    have nid: "kd \<noteq> Ecc384Private" using ec by simp
    show ?thesis
      unfolding keep_key_pair_def if_not_P [OF nid] if_P [OF ec] build_enable_key_blob_def
      apply (rule achieves_bind [OF part_op_Ok [OF h]], rule pub, simp)
      apply (elim conjE, rule achieves_bind [OF dma_put_held], assumption)
      using nid len by (auto simp: pair_blob_def)
  next
    case se
    have pub: "ps_set_se_pub_key pub S = (Ok (), set_pub kd pub S)"
      using len n se by (simp add: ps_set_se_pub_key_def set_pub_def)
    have nid: "kd \<noteq> Ecc384Private" "kd \<noteq> EstablishCred" using se by simp_all
    show ?thesis
      unfolding keep_key_pair_def if_not_P [OF nid(1)] if_not_P [OF nid(2)] if_P [OF se] build_enable_key_blob_def
      apply (rule achieves_bind [OF part_op_Ok [OF h]], rule pub, simp)
      apply (elim conjE, rule achieves_bind [OF dma_put_held], assumption)
      using nid len by (auto simp: pair_blob_def)
  qed
qed

text \<open>The outcome of making a key pair, on the slot and the keys.\<close>

definition pair_made ::
  "u8 \<Rightarrow> HsmVaultKeyKind \<Rightarrow> u64 \<Rightarrow> Storage \<Rightarrow> (HsmKeyId \<Rightarrow> vkey option) \<Rightarrow> HsmKeyId \<Rightarrow> Storage \<Rightarrow> (HsmKeyId \<Rightarrow> vkey option) \<Rightarrow> bool" where
  "pair_made pid kd at S K i S' K' \<longleftrightarrow> K i = None \<and> in_mask (ps_res_mask S) i \<and>
     (\<exists>priv pub. length priv = P384_PRIV_LEN \<and> length pub = ID_PUB_KEY_LEN \<and> S' = set_pub kd pub S \<and>
        K' = K(i \<mapsto> new_key pid kd None at (pair_blob kd priv pub)))"

definition pair_failed :: "HsmVaultKeyKind \<Rightarrow> Storage \<Rightarrow> Storage \<Rightarrow> bool" where
  "pair_failed kd S S' \<longleftrightarrow> S' = S \<or> (\<exists>pub. length pub = ID_PUB_KEY_LEN \<and> S' = set_pub kd pub S)"

lemma create_held:
  assumes hw: "engine_ok (hw_engine hw)" and h: "held c pid P S K p" and kd: "\<not> is_bulk_kind kd"
  shows "achieves (vault_op (admin_no_scrub pid) (vault_create (hw_gdma hw) pid b kd None at)) p
    (\<lambda>i p'. K i = None \<and> in_mask (ps_res_mask S) i \<and> held c pid P S (K(i \<mapsto> new_key pid kd None at (buf_bytes b))) p')
    (\<lambda>_. held c pid P S K)"
proof (rule achieves_mono [OF create_achieves [OF hw heldD(4) [OF h]]])
  fix i p' assume a: "pal_keys p i = None \<and> owns (admin_no_scrub pid) p i \<and>
    vault_moves p ((pal_keys p)(i \<mapsto> new_key pid kd None at (buf_bytes b))) p'"
  have "held c pid P S (K(i \<mapsto> new_key pid kd None at (buf_bytes b))) p'"
    by (rule held_moves [OF h]) (use a heldD(3) [OF h] kd in \<open>auto simp: new_key_def split: if_splits\<close>)
  then show "K i = None \<and> in_mask (ps_res_mask S) i \<and> held c pid P S (K(i \<mapsto> new_key pid kd None at (buf_bytes b))) p'"
    using a heldD(3) [OF h] held_owned [OF h] by (simp add: owns_def)
next
  fix e p' assume "vault_moves p (pal_keys p) p'"
  then show "held c pid P S K p'" using heldD(3) [OF h] by (intro held_moves [OF h]) auto
qed

lemma held_weaken: "held c pid P S K p \<Longrightarrow> (\<And>s. c s \<Longrightarrow> c' s) \<Longrightarrow> held c' pid P S K p"
  by (auto simp: held_def)

text \<open>The part after the buffers are taken.\<close>

lemma make_pair_achieves:
  fixes p :: "'e UnoHsmPal"
  assumes hw: "hw_ok hw" and kd: "kd \<in> {Ecc384Private, EstablishCred, SessionEncryption}"
    and h: "held (room xs) pid P S K p" and xs: "(a, P384_PRIV_LEN) \<in> set xs" "(b, ID_PUB_KEY_LEN) \<in> set xs"
  shows "achieves (bindS (dev_op (hw_ecc_gen hw)) (\<lambda>(priv, pub, pub_len).
     bindS (dma_write (admin_no_scrub pid) a priv) (\<lambda>_.
     bindS (dma_write (admin_no_scrub pid) b pub) (\<lambda>_.
       if pub_len \<noteq> ID_PUB_KEY_LEN then fails InternalError
       else bindS (keep_key_pair pid (admin_no_scrub pid) kd a priv b pub) (\<lambda>key_buf.
         vault_op (admin_no_scrub pid) (vault_create (hw_gdma hw) pid key_buf kd None at)))))) p
     (\<lambda>i p'. \<exists>S' K'. held slot_inv pid P S' K' p' \<and> pair_made pid kd at S K i S' K')
     (\<lambda>e p'. \<exists>S' K'. held slot_inv pid P S' K' p' \<and> pair_failed kd S S' \<and> K' = K)"
    (is "achieves _ _ ?Q ?E")
proof -
  have eng: "engine_ok (hw_engine hw)" and np: "\<And>d. fst (hw_ecc_gen hw d) \<noteq> Panic" using hw by (simp_all add: hw_ok_def)
  have nb: "\<not> is_bulk_kind kd" using kd by (auto simp: is_bulk_kind_def)
  have weak: "held (room xs) pid P S K q \<Longrightarrow> ?E e q" for xs e and q :: "'e UnoHsmPal"
    by (intro exI [of _ S] exI [of _ K]) (auto simp: pair_failed_def room_def intro: held_weaken)
  show ?thesis
  proof (rule achieves_bind [OF achieves_mono [OF dev_op_held [OF h np]]], assumption, erule weak)
    fix x and p1 :: "'e UnoHsmPal" assume x: "held (room xs) pid P S K p1 \<and> (\<exists>d d'. hw_ecc_gen hw d = (Ok x, d'))"
    obtain priv pub n where px: "x = (priv, pub, n)" by (cases x)
    have len: "length priv = P384_PRIV_LEN" "length pub = ID_PUB_KEY_LEN" using x px hw unfolding hw_ok_def by blast+
    have w: "(a, length priv) \<in> set xs" "(b, length pub) \<in> set xs" using xs len by simp_all
    have keep: "achieves (bindS (keep_key_pair pid (admin_no_scrub pid) kd a priv b pub) (\<lambda>key_buf.
         vault_op (admin_no_scrub pid) (vault_create (hw_gdma hw) pid key_buf kd None at))) p2 ?Q ?E"
      if h2: "held (room xs) pid P S K p2" for p2 :: "'e UnoHsmPal"
    proof (rule achieves_bind [OF achieves_mono [OF keep_key_pair_achieves [OF h2 kd len xs(2)]]], assumption)
      show "held slot_inv pid P (set_pub kd pub S) K q \<Longrightarrow> ?E e q" for e and q :: "'e UnoHsmPal"
        using len by (auto simp: pair_failed_def)
      fix bf :: DmaBuf and p3 :: "'e UnoHsmPal" assume b3: "buf_bytes bf = pair_blob kd priv pub \<and> held slot_inv pid P (set_pub kd pub S) K p3"
      then have h3: "held slot_inv pid P (set_pub kd pub S) K p3" and bf: "buf_bytes bf = pair_blob kd priv pub" by simp_all
      show "achieves (vault_op (admin_no_scrub pid) (vault_create (hw_gdma hw) pid bf kd None at)) p3 ?Q ?E"
        by (rule achieves_mono [OF create_held [OF eng h3 nb]]) (use len bf in \<open>auto simp: pair_made_def pair_failed_def\<close>)
    qed
    show "achieves (case x of (priv, pub, pub_len) \<Rightarrow>
       bindS (dma_write (admin_no_scrub pid) a priv) (\<lambda>_.
       bindS (dma_write (admin_no_scrub pid) b pub) (\<lambda>_.
         if pub_len \<noteq> ID_PUB_KEY_LEN then fails InternalError
         else bindS (keep_key_pair pid (admin_no_scrub pid) kd a priv b pub) (\<lambda>key_buf.
           vault_op (admin_no_scrub pid) (vault_create (hw_gdma hw) pid key_buf kd None at))))) p1 ?Q ?E"
      unfolding px prod.case
      by (rule achieves_bind [OF dma_write_achieves [OF conjunct1 [OF x] w(1)]],
          rule achieves_bind [OF dma_write_achieves [OF _ w(2)]], erule conjunct2)
        (use keep weak in auto)
  qed
qed

lemma create_ecc_achieves:
  fixes p :: "'e UnoHsmPal"
  assumes hw: "hw_ok hw" and h: "held clean_slot pid P S K p" and kd: "kd \<in> {Ecc384Private, EstablishCred, SessionEncryption}"
  shows "achieves (create_internal_ecc384 hw pid kd at) p
    (\<lambda>i p'. \<exists>S' K'. held clean_slot pid P S' K' p' \<and> pair_made pid kd at S K i S' K')
    (\<lambda>e p'. \<exists>S' K'. held clean_slot pid P S' K' p' \<and> pair_failed kd S S' \<and> K' = K)"
proof -
  have eng: "engine_ok (hw_engine hw)" using hw by (simp add: hw_ok_def)
  let ?E = "\<lambda>(e :: HsmError) (p' :: 'e UnoHsmPal). \<exists>S' K'. held slot_inv pid P S' K' p' \<and> pair_failed kd S S' \<and> K' = K"
  have weak: "held (room xs) pid P S K q \<Longrightarrow> ?E e q" for xs e q
    by (intro exI [of _ S] exI [of _ K]) (auto simp: pair_failed_def room_def intro: held_weaken)
  show ?thesis
    unfolding create_internal_ecc384_def
  proof (rule achieves_bind [where R = "\<lambda>_ q. q = p"])
    show "achieves (reads (\<lambda>_. partition pid)) p (\<lambda>_ q. q = p) (\<lambda>e p'. \<exists>S' K'. held clean_slot pid P S' K' p' \<and> pair_failed kd S S' \<and> K' = K)"
      using heldD(1) [OF h] by simp
    fix x :: nat and q :: "'e UnoHsmPal" assume "q = p"
    then have hq: "held clean_slot pid P S K q" using h by simp
    show "achieves (with_admin_io hw pid (\<lambda>admin_io.
       bindS (dma_take admin_io P384_PRIV_LEN) (\<lambda>priv_at.
       bindS (dma_take admin_io ID_PUB_KEY_LEN) (\<lambda>pub_at.
       bindS (dev_op (hw_ecc_gen hw)) (\<lambda>(priv, pub, pub_len).
       bindS (dma_write admin_io priv_at priv) (\<lambda>_.
       bindS (dma_write admin_io pub_at pub) (\<lambda>_.
         if pub_len \<noteq> ID_PUB_KEY_LEN then fails InternalError
         else bindS (keep_key_pair pid admin_io kd priv_at priv pub_at pub) (\<lambda>key_buf.
           vault_op admin_io (vault_create (hw_gdma hw) pid key_buf kd None at))))))))) q
      (\<lambda>i p'. \<exists>S' K'. held clean_slot pid P S' K' p' \<and> pair_made pid kd at S K i S' K')
      (\<lambda>e p'. \<exists>S' K'. held clean_slot pid P S' K' p' \<and> pair_failed kd S S' \<and> K' = K)"
    proof (rule with_admin_io_achieves [OF eng hq], goal_cases)
      case (1 p1)
      then have h1: "held (room []) pid P S K p1" by simp
      show ?case
      proof (rule achieves_bind [OF achieves_mono [OF dma_take_achieves [OF h1]]], assumption, erule weak)
        fix a and p2 :: "'e UnoHsmPal" assume h2: "held (room [(a, P384_PRIV_LEN)]) pid P S K p2"
        show "achieves (bindS (dma_take (admin_no_scrub pid) ID_PUB_KEY_LEN) (\<lambda>pub_at.
           bindS (dev_op (hw_ecc_gen hw)) (\<lambda>(priv, pub, pub_len).
           bindS (dma_write (admin_no_scrub pid) a priv) (\<lambda>_.
           bindS (dma_write (admin_no_scrub pid) pub_at pub) (\<lambda>_.
             if pub_len \<noteq> ID_PUB_KEY_LEN then fails InternalError
             else bindS (keep_key_pair pid (admin_no_scrub pid) kd a priv pub_at pub) (\<lambda>key_buf.
               vault_op (admin_no_scrub pid) (vault_create (hw_gdma hw) pid key_buf kd None at))))))) p2
           (\<lambda>i p'. \<exists>S' K'. held slot_inv pid P S' K' p' \<and> pair_made pid kd at S K i S' K') ?E"
        proof (rule achieves_bind [OF achieves_mono [OF dma_take_achieves [OF h2]]], assumption, erule weak)
          fix b and p3 :: "'e UnoHsmPal" assume h3: "held (room [(b, ID_PUB_KEY_LEN), (a, P384_PRIV_LEN)]) pid P S K p3"
          show "achieves (bindS (dev_op (hw_ecc_gen hw)) (\<lambda>(priv, pub, pub_len).
             bindS (dma_write (admin_no_scrub pid) a priv) (\<lambda>_.
             bindS (dma_write (admin_no_scrub pid) b pub) (\<lambda>_.
               if pub_len \<noteq> ID_PUB_KEY_LEN then fails InternalError
               else bindS (keep_key_pair pid (admin_no_scrub pid) kd a priv b pub) (\<lambda>key_buf.
                 vault_op (admin_no_scrub pid) (vault_create (hw_gdma hw) pid key_buf kd None at)))))) p3
             (\<lambda>i p'. \<exists>S' K'. held slot_inv pid P S' K' p' \<and> pair_made pid kd at S K i S' K') ?E"
            by (rule make_pair_achieves [OF hw kd h3]) simp_all
        qed
      qed
    qed
  qed
qed

end
