(* ===== verification/UnoLifecycle.thy ===== *)
theory UnoLifecycle
  imports UnoProvision
begin

text \<open>
  The lifecycle operations on the slot of a partition and the keys of the vault: the exact effect of
  freeing, disabling and provisioning, and the invariant that every operation keeps. A slot is in order
  when its session table is, its state decodes, an unallocated slot owns no table, and every key handle it
  records lies in a table it owns.
\<close>

section \<open>Slots in order\<close>

definition all_handles :: "Storage \<Rightarrow> u16 option list" where
  "all_handles S = ps_id_key_id S # ps_sd_mk_key_id S # enabled_handles S @ occupied_physical_ids (session_table_of S)"

definition slot_ok :: "Storage \<Rightarrow> bool" where
  "slot_ok S \<longleftrightarrow> session_wf (session_table_of S) \<and> (\<exists>st. ps_state S = Ok st) \<and>
     (ps_state S = Ok Unallocated \<longrightarrow> ps_res_mask S = 0) \<and>
     (\<forall>k. Some k \<in> set (all_handles S) \<longrightarrow> in_mask (ps_res_mask S) k)"

text \<open>The part of this that holds also in the middle of an allocation.\<close>

definition slot_safe :: "Storage \<Rightarrow> bool" where
  "slot_safe S \<longleftrightarrow> session_wf (session_table_of S) \<and> (\<forall>k. Some k \<in> set (all_handles S) \<longrightarrow> in_mask (ps_res_mask S) k)"

lemma slot_ok_safe:
  "slot_ok S \<longleftrightarrow> slot_safe S \<and> (\<exists>st. ps_state S = Ok st) \<and> (ps_state S = Ok Unallocated \<longrightarrow> ps_res_mask S = 0)"
  by (auto simp: slot_ok_def slot_safe_def)

text \<open>A key in a table of another partition.\<close>

definition foreign :: "Storage list \<Rightarrow> u8 \<Rightarrow> HsmKeyId \<Rightarrow> bool" where
  "foreign P pid k \<longleftrightarrow> (\<exists>j < NUM_PARTITIONS. j \<noteq> unat pid \<and> in_mask (ps_res_mask (P ! j)) k)"

text \<open>Every key lies in a table of some partition.\<close>

definition safe :: "Storage list \<Rightarrow> u8 \<Rightarrow> Storage \<Rightarrow> (HsmKeyId \<Rightarrow> vkey option) \<Rightarrow> bool" where
  "safe P pid S K \<longleftrightarrow> slot_safe S \<and> (\<forall>k. K k \<noteq> None \<longrightarrow> in_mask (ps_res_mask S) k \<or> foreign P pid k)"

text \<open>What an operation on a partition may do: the slot stays safe, the keys of the others are untouched.\<close>

definition confined ::
  "Storage list \<Rightarrow> u8 \<Rightarrow> (HsmKeyId \<Rightarrow> vkey option) \<Rightarrow> Storage \<Rightarrow> (HsmKeyId \<Rightarrow> vkey option) \<Rightarrow> bool" where
  "confined P pid K S' K' \<longleftrightarrow> safe P pid S' K' \<and> (\<forall>k. foreign P pid k \<longrightarrow> K' k = K k)"

lemma foreign_disjoint:
  assumes h: "held c pid P S K p" and f: "foreign P pid k"
  shows "\<not> in_mask (ps_res_mask S) k"
proof
  assume m: "in_mask (ps_res_mask S) k"
  obtain j where j: "j < NUM_PARTITIONS" "j \<noteq> unat pid" "in_mask (ps_res_mask (P ! j)) k" using f by (auto simp: foreign_def)
  have parts: "pal_parts p ! j = P ! j" "pal_parts p ! unat pid = S" "unat pid < NUM_PARTITIONS"
    using h j by (auto simp: held_def nth_list_update)
  have "fp_inv p" using h by (simp add: held_def steady_def)
  then have "i < NUM_PARTITIONS \<Longrightarrow> j < NUM_PARTITIONS \<Longrightarrow> bit (ps_res_mask (pal_parts p ! i)) t \<Longrightarrow>
      bit (ps_res_mask (pal_parts p ! j)) t \<Longrightarrow> i = j" for i j t
    unfolding fp_inv_def by blast
  from this [of j "unat pid" "fst (split_key_id k)"] have "j = unat pid" using j m parts by (simp add: in_mask_def)
  with j show False by simp
qed

lemma occupied_view:
  assumes "session_wf t"
  shows "Some k \<in> set (occupied_physical_ids t) \<longleftrightarrow>
    (\<exists>i. session_view t i = SPending k \<or> (\<exists>b. session_view t i = SActive k b))"
proof -
  have b: "test_bit (alloc_mask t AND NOT (renego_mask t)) i \<longleftrightarrow> bit (alloc_mask t) i \<and> \<not> bit (renego_mask t) i" if "i < 8" for i
    using that by (simp add: test_bit_iff bit_simps)
  show ?thesis
    unfolding occupied_physical_ids_def Let_def
    using bit_u8 [of "alloc_mask t"] b session_wfD(3) [OF assms]
    by (auto simp: session_view_def MAX_SESSIONS_def image_iff split: if_splits)
qed

section \<open>Handles of updated slots\<close>

lemma session_table_kept [simp]:
  "session_table_of (ps_set_state st s) = session_table_of s" "session_table_of (ps_clear_identity s) = session_table_of s"
  "session_table_of (ps_clear_masked_bk_boot s) = session_table_of s" "session_table_of (ps_set_res_mask m s) = session_table_of s"
  "session_table_of (ps_bump_generation s) = session_table_of s" "session_table_of (ps_clear_unwrapping_key s) = session_table_of s"
  "session_table_of (ps_set_id_key_id k s) = session_table_of s" "session_table_of (ps_set_ec_key_id k s) = session_table_of s"
  "session_table_of (ps_set_se_key_id k s) = session_table_of s" "session_table_of (ps_id_mut f s) = session_table_of s"
  "session_table_of (ps_nonce_mut f s) = session_table_of s" "session_table_of (ps_clear_enabled_keys s) = session_table_of s"
  "session_table_of (ps_bake_default_psks s) = session_table_of s" "session_table_of (ps_id_pub_key_mut f s) = session_table_of s"
  "session_table_of (ps_set_unwrapping_key_required b s) = session_table_of s" "session_table_of (set_pub kd pub s) = session_table_of s"
  "session_table_of (put_session_table t s) = t"
  by (simp_all add: store_ops put_session_table_def session_table_of_def set_pub_def)

lemma ps_state_kept [simp]:
  "ps_state (put_session_table t s) = ps_state s" "ps_state (ps_clear_identity s) = ps_state s"
  "ps_state (ps_clear_masked_bk_boot s) = ps_state s" "ps_state (ps_set_res_mask m s) = ps_state s"
  "ps_state (ps_bump_generation s) = ps_state s" "ps_state (ps_clear_unwrapping_key s) = ps_state s"
  "ps_state (ps_set_id_key_id k s) = ps_state s" "ps_state (ps_set_ec_key_id k s) = ps_state s"
  "ps_state (ps_set_se_key_id k s) = ps_state s" "ps_state (ps_id_mut f s) = ps_state s"
  "ps_state (ps_nonce_mut f s) = ps_state s" "ps_state (ps_clear_enabled_keys s) = ps_state s"
  "ps_state (ps_bake_default_psks s) = ps_state s" "ps_state (ps_id_pub_key_mut f s) = ps_state s"
  "ps_state (ps_set_unwrapping_key_required b s) = ps_state s" "ps_state (set_pub kd pub s) = ps_state s"
  "ps_state (ps_clear_state rk s) = ps_state s"
  by (simp_all add: store_ops put_session_table_def set_pub_def split: PartResetKind.split)

lemma ps_state_set [simp]: "ps_state (ps_set_state st s) = Ok st"
  by (simp add: ps_state_def ps_set_state_def)

lemma ps_res_mask_set [simp]: "ps_res_mask (ps_set_res_mask m s) = m"
  by (simp add: ps_res_mask_def ps_set_res_mask_def from_le_to_le)

text \<open>The handles recorded in the fields, apart from those of the session table.\<close>

definition field_handles :: "Storage \<Rightarrow> u16 option list" where
  "field_handles S = ps_id_key_id S # ps_sd_mk_key_id S # enabled_handles S"

lemma all_handles_split: "all_handles S = field_handles S @ occupied_physical_ids (session_table_of S)"
  by (simp add: all_handles_def field_handles_def)

lemma field_handles_kept [simp]:
  "field_handles (ps_set_state st s) = field_handles s" "field_handles (ps_clear_masked_bk_boot s) = field_handles s"
  "field_handles (ps_set_res_mask m s) = field_handles s" "field_handles (ps_bump_generation s) = field_handles s"
  "field_handles (ps_clear_unwrapping_key s) = field_handles s" "field_handles (ps_id_mut f s) = field_handles s"
  "field_handles (ps_nonce_mut f s) = field_handles s" "field_handles (ps_bake_default_psks s) = field_handles s"
  "field_handles (ps_id_pub_key_mut f s) = field_handles s" "field_handles (ps_set_unwrapping_key_required b s) = field_handles s"
  "field_handles (set_pub kd pub s) = field_handles s" "field_handles (put_session_table t s) = field_handles s"
  by (simp_all add: field_handles_def enabled_handles_def store_ops put_session_table_def set_pub_def)

lemma key_absent_handle: "in_mask m k \<Longrightarrow> k \<noteq> KEY_ABSENT"
  by (auto simp: in_mask_def KEY_ABSENT_def split_key_id_eq TABLE_COUNT_def MAX_TABLE_COUNT_def)

lemma field_handles_set:
  "Some k \<in> set (field_handles (ps_clear_identity s)) \<Longrightarrow> Some k \<in> set (field_handles s)"
  "Some k \<in> set (field_handles (ps_clear_enabled_keys s)) \<Longrightarrow> Some k \<in> set (field_handles s)"
  "Some k \<in> set (field_handles (ps_clear_state rk s)) \<Longrightarrow> ps_id_key_id s = Some k"
  "Some k \<in> set (field_handles (ps_set_id_key_id (Some i) s)) \<Longrightarrow> k = i \<or> Some k \<in> set (field_handles s)"
  "Some k \<in> set (field_handles (ps_set_ec_key_id (Some i) s)) \<Longrightarrow> k = i \<or> Some k \<in> set (field_handles s)"
  "Some k \<in> set (field_handles (ps_set_se_key_id (Some i) s)) \<Longrightarrow> k = i \<or> Some k \<in> set (field_handles s)"
  by (auto simp: field_handles_def enabled_handles_def store_ops split: PartResetKind.splits if_splits)

section \<open>Changing the resource mask\<close>

text \<open>A partition may give up its tables, and may get tables that belong to nobody.\<close>

definition unclaimed :: "Storage list \<Rightarrow> u8 \<Rightarrow> u128 \<Rightarrow> bool" where
  "unclaimed P pid m \<longleftrightarrow> (\<forall>j < NUM_PARTITIONS. \<forall>t. j \<noteq> unat pid \<longrightarrow> bit m t \<longrightarrow> \<not> bit (ps_res_mask (P ! j)) t)"

lemma set_mask_achieves:
  assumes h: "held c pid P S K p" and un: "unclaimed P pid m" and K: "\<forall>k. K k \<noteq> None \<longrightarrow> m = 0 \<or> foreign P pid k"
  shows "achieves (part_upd pid (ps_set_res_mask m)) p (\<lambda>_. held c pid P (ps_set_res_mask m S) K) E"
proof -
  let ?q = "p\<lparr>pal_parts := (pal_parts p)[unat pid := ps_set_res_mask m S]\<rparr>"
  note h' = h [unfolded held_def]
  have inv: "fp_inv p" and keys: "pal_keys ?q = pal_keys p" "pal_keys p = K" using h' by (simp_all add: steady_def pal_keys_def)
  have parts: "pal_parts ?q ! i = (if i = unat pid then ps_set_res_mask m S else pal_parts p ! i)"
    "pal_parts p ! i = (if i = unat pid then S else P ! i)" if "i < NUM_PARTITIONS" for i
    using h' that by (auto simp: nth_list_update)
  have "fp_inv ?q"
    unfolding fp_inv_def
  proof (intro conjI allI impI)
    show "length (pal_fp_slots ?q) = NUM_FP_TABLES" using inv by (simp add: fp_inv_def)
  next
    fix k v assume k: "pal_keys ?q k = Some v" "is_bulk_kind (vk_kind v)"
    note f = inv [unfolded fp_inv_def, THEN conjunct2, THEN conjunct1, rule_format, OF k(1) [unfolded keys(1)] k(2)]
    show "length (vk_bytes v) = 2" "fst (bulk_slot v) < NUM_FP_TABLES" "snd (bulk_slot v) < FP_MAX_SLOTS_PER_PART"
      "bit (pal_fp_slots ?q ! fst (bulk_slot v)) (snd (bulk_slot v))" using f by simp_all
    fix i assume i: "i < NUM_PARTITIONS"
    have "\<not> bit m (fst (split_key_id k))" "\<not> bit m (fst (bulk_slot v))"
    proof -
      have "m = 0 \<or> foreign P pid k" using K k keys by auto
      moreover have "\<not> bit m (fst (split_key_id k)) \<and> \<not> bit m (fst (bulk_slot v))" if fk: "foreign P pid k"
      proof -
        obtain j where j: "j < NUM_PARTITIONS" "j \<noteq> unat pid" "bit (ps_res_mask (P ! j)) (fst (split_key_id k))"
          using fk by (auto simp: foreign_def in_mask_def)
        moreover have "bit (ps_res_mask (pal_parts p ! j)) (fst (split_key_id k)) = bit (ps_res_mask (pal_parts p ! j)) (fst (bulk_slot v))"
          using f j(1) by blast
        then have "bit (ps_res_mask (P ! j)) (fst (bulk_slot v))" using j parts(2) [OF j(1)] by simp
        ultimately show ?thesis using un unfolding unclaimed_def by blast
      qed
      ultimately show "\<not> bit m (fst (split_key_id k))" "\<not> bit m (fst (bulk_slot v))" by auto
    qed
    then show "bit (ps_res_mask (pal_parts ?q ! i)) (fst (split_key_id k)) = bit (ps_res_mask (pal_parts ?q ! i)) (fst (bulk_slot v))"
      using f i unfolding parts(1) [OF i] by simp
  next
    fix k k' v v' assume "pal_keys ?q k = Some v" "pal_keys ?q k' = Some v'" "is_bulk_kind (vk_kind v)"
      "is_bulk_kind (vk_kind v')" "bulk_slot v = bulk_slot v'"
    then show "k = k'" using inv unfolding fp_inv_def keys(1) by blast
  next
    fix i j t assume ij: "i < NUM_PARTITIONS" "j < NUM_PARTITIONS" and b: "bit (ps_res_mask (pal_parts ?q ! i)) t" "bit (ps_res_mask (pal_parts ?q ! j)) t"
    have "bit (ps_res_mask (pal_parts p ! i)) t \<Longrightarrow> bit (ps_res_mask (pal_parts p ! j)) t \<Longrightarrow> i = j"
      using inv ij unfolding fp_inv_def by blast
    then show "i = j" using b un ij unfolding parts(1) [OF ij(1)] parts(1) [OF ij(2)] unclaimed_def
      by (auto simp: parts(2) split: if_splits)
  qed
  then have "held c pid P (ps_set_res_mask m S) K ?q" using h' by (simp add: held_def steady_def vault_ok_def pal_keys_def)
  then show ?thesis using heldD [OF h] by (simp add: achieves_def part_upd_def part_op_def bindS_def)
qed

lemma unclaimed_zero [simp]: "unclaimed P pid 0"
  by (simp add: unclaimed_def)

section \<open>Clearing the enabled state\<close>

lemma session_runs:
  "mark_all_needs_renego t = (Ok (), snd (mark_all_needs_renego t))" "clear_all t = (Ok (), snd (clear_all t))"
  by (simp_all add: mark_all_needs_renego_def clear_all_def Let_def)

definition cleared :: "Storage \<Rightarrow> Storage" where
  "cleared S = ps_clear_state Disable (put_session_table (snd (mark_all_needs_renego (session_table_of S))) S)"

lemma clear_enabled_state_achieves:
  assumes hw: "engine_ok (hw_engine hw)" and h: "held c pid P S K p"
  shows "achieves (clear_enabled_state hw (admin_no_scrub pid) pid) p
    (\<lambda>_. held c pid P (cleared S) (drop_keys (enabled_handles S @ occupied_physical_ids (session_table_of S)) K)) E"
proof -
  have dk: "drop_keys occ (drop_keys ks K) = drop_keys (ks @ occ) K" for occ ks
    by (auto simp: drop_keys_def fun_eq_iff)
  show ?thesis
    unfolding clear_enabled_state_def heldD(1) [OF h] run.case
    apply (rule achieves_bind [OF part_get_achieves [OF h]], elim conjE, simp only:)
    apply (rule achieves_bind [OF delete_keys_achieves [OF hw]], assumption)
    apply (rule achieves_bind [OF part_get_achieves], assumption, elim conjE, simp only:)
    apply (rule achieves_bind [OF delete_keys_achieves [OF hw]], assumption)
    apply (rule achieves_bind [OF session_op_achieves [OF _ session_runs(1)]], assumption)
    apply (elim conjE, rule achieves_mono [OF part_upd_achieves], assumption)
    by (simp_all add: cleared_def dk)
qed

section \<open>Freeing\<close>

definition freed :: "Storage \<Rightarrow> Storage" where
  "freed S =
     (let S1 = ps_clear_identity (cleared S); S2 = put_session_table (snd (clear_all (session_table_of S1))) S1
      in ps_set_state Unallocated (ps_bump_generation (ps_set_res_mask 0 (ps_clear_masked_bk_boot S2))))"

lemma drop_inside:
  assumes "\<And>k. Some k \<in> set ks \<Longrightarrow> in_mask m k"
  shows "drop_tables m (drop_keys ks K) = drop_tables m K"
  using assms by (auto simp: drop_tables_def drop_keys_def fun_eq_iff)

lemma cleared_keeps [simp]:
  "ps_res_mask (cleared S) = ps_res_mask S" "ps_id_key_id (cleared S) = ps_id_key_id S" "ps_state (cleared S) = ps_state S"
  by (simp_all add: cleared_def) (simp add: store_ops put_session_table_def)

text \<open>Inside the admin session of a free: every key of the partition's tables goes.\<close>

lemma free_session_achieves:
  assumes hw: "engine_ok (hw_engine hw)" and ok: "slot_ok S" and h: "held c pid P S K p"
  shows "achieves (bindS (clear_enabled_state hw (admin_no_scrub pid) pid) (\<lambda>_.
      bindS (part_get pid ps_id_key_id) (\<lambda>k.
      bindS (case k of Some key_id \<Rightarrow> delete_key hw (admin_no_scrub pid) key_id | None \<Rightarrow> returns ()) (\<lambda>_.
        pal_vault_clear hw (admin_no_scrub pid))))) p
    (\<lambda>_. held c pid P (cleared S) (drop_tables (ps_res_mask S) K)) E"
proof -
  let ?ks = "enabled_handles S @ occupied_physical_ids (session_table_of S)"
  have del: "achieves (case ps_id_key_id S of Some key_id \<Rightarrow> delete_key hw (admin_no_scrub pid) key_id | None \<Rightarrow> returns ()) p1
      (\<lambda>_. held c pid P (cleared S) (drop_keys (ps_id_key_id S # ?ks) K)) E"
    if "held c pid P (cleared S) (drop_keys ?ks K) p1" for p1 :: "'a UnoHsmPal"
  proof (cases "ps_id_key_id S")
    case (Some k)
    have "(drop_keys ?ks K)(k := None) = drop_keys (ps_id_key_id S # ?ks) K" by (auto simp: drop_keys_def fun_eq_iff Some)
    then show ?thesis using delete_key_achieves [OF hw that, of k] by (simp add: Some)
  qed (use that in \<open>simp add: drop_keys_def [abs_def]\<close>)
  have "Some k \<in> set (ps_id_key_id S # ?ks) \<Longrightarrow> in_mask (ps_res_mask S) k" for k
    using ok by (auto simp: slot_ok_def all_handles_def)
  note inside = drop_inside [OF this]
  show ?thesis
    apply (rule achieves_bind [OF clear_enabled_state_achieves [OF hw h]])
    apply (rule achieves_bind [OF part_get_achieves], assumption, elim conjE, simp only: cleared_keeps)
    apply (rule achieves_bind [OF del], assumption)
    apply (rule achieves_mono [OF vault_clear_achieves [OF hw]], assumption)
    by (simp_all only: cleared_keeps inside)
qed

lemma part_free_achieves:
  fixes p :: "'e UnoHsmPal"
  assumes hw: "engine_ok (hw_engine hw)" and ok: "slot_ok S" and h: "held clean_slot pid P S K p"
  shows "achieves (part_free hw pid) p
    (\<lambda>_. if ps_state S = Ok Unallocated then held clean_slot pid P S K
         else held clean_slot pid P (freed S) (drop_tables (ps_res_mask S) K)) E"
proof -
  obtain st where st: "ps_state S = Ok st" using ok by (auto simp: slot_ok_def)
  let ?Q = "\<lambda>(_ :: unit). if ps_state S = Ok Unallocated then held clean_slot pid P S K
         else held clean_slot pid P (freed S) (drop_tables (ps_res_mask S) K) :: 'e UnoHsmPal \<Rightarrow> bool"
  have admin: "achieves (with_admin_io hw pid (\<lambda>admin_io.
           bindS (clear_enabled_state hw admin_io pid) (\<lambda>_.
           bindS (part_get pid ps_id_key_id) (\<lambda>k.
           bindS (case k of Some key_id \<Rightarrow> delete_key hw admin_io key_id | None \<Rightarrow> returns ()) (\<lambda>_.
             pal_vault_clear hw admin_io))))) p1
      (\<lambda>_. held clean_slot pid P (cleared S) (drop_tables (ps_res_mask S) K)) E"
    if "held clean_slot pid P S K p1" for p1 :: "'e UnoHsmPal"
    by (rule achieves_mono [OF with_admin_io_achieves [OF hw that, where
          Q = "\<lambda>_ S' K'. S' = cleared S \<and> K' = drop_tables (ps_res_mask S) K" and E = "\<lambda>_ _ _. False"]],
        rule achieves_mono [OF free_session_achieves [OF hw ok]]) auto
  show ?thesis
    unfolding part_free_def
    apply (rule achieves_bind [OF part_op_Ok [OF h, where x = st and S' = S]], use st in simp, simp)
    apply (elim conjE, simp only:)
    apply (cases "st = Unallocated")
    subgoal using st by simp
    subgoal
      apply (simp only: if_False st run.inject)
      apply (rule achieves_bind [OF admin], assumption)
      apply (rule achieves_bind [OF part_upd_achieves], assumption, simp)
      apply (rule achieves_bind [OF session_op_achieves [OF _ session_runs(2)]], assumption)
      apply (elim conjE, rule achieves_bind [OF part_upd_achieves], assumption, simp)
      apply (rule achieves_bind [OF set_mask_achieves], assumption, simp, simp)
      apply (rule achieves_bind [OF part_upd_achieves], assumption, simp)
      apply (rule achieves_mono [OF part_upd_achieves], assumption, simp)
      by (simp_all only: freed_def Let_def)
    done
qed

section \<open>The slots that the operations leave\<close>

lemma clear_state_handles: "field_handles (ps_clear_state rk s) = ps_id_key_id s # replicate 9 None"
  by (cases rk) (simp_all add: field_handles_def enabled_handles_def store_ops numeral_eq_Suc)

lemma clear_identity_handles: "field_handles (ps_clear_identity s) = None # tl (field_handles s)"
  by (simp add: field_handles_def enabled_handles_def store_ops)

lemma session_clear_state:
  "session_table_of (ps_clear_state rk s) = (session_table_of s)\<lparr>session_meta := replicate 2 0\<rparr>"
  by (cases rk) (simp_all add: session_table_of_def store_ops)

lemma meta_zero:
  assumes "session_wf t"
  shows "session_wf (t\<lparr>session_meta := replicate 2 0\<rparr>)"
    "occupied_physical_ids (t\<lparr>session_meta := replicate 2 0\<rparr>) = occupied_physical_ids t"
proof -
  have z: "pending_mask (t\<lparr>session_meta := replicate 2 0\<rparr>) = 0" "psk_change_mask (t\<lparr>session_meta := replicate 2 0\<rparr>) = 0"
    "alloc_mask (t\<lparr>session_meta := replicate 2 0\<rparr>) = alloc_mask t" "renego_mask (t\<lparr>session_meta := replicate 2 0\<rparr>) = renego_mask t"
    "phys_id (t\<lparr>session_meta := replicate 2 0\<rparr>) i = phys_id t i" for i
    by (simp_all add: session_field_defs phys_id_def)
  show "session_wf (t\<lparr>session_meta := replicate 2 0\<rparr>)"
    using assms by (simp add: session_wf_def z session_shape_def)
  show "occupied_physical_ids (t\<lparr>session_meta := replicate 2 0\<rparr>) = occupied_physical_ids t"
    by (simp add: occupied_physical_ids_def z)
qed

lemma renego_all_empty:
  assumes "session_wf t"
  shows "session_wf (snd (mark_all_needs_renego t))" "Some k \<notin> set (occupied_physical_ids (snd (mark_all_needs_renego t)))"
    "session_view (snd (mark_all_needs_renego t)) = (\<lambda>i. if established (session_view t i) then SRenego 0 False else SFree)"
proof -
  note r = refinesD [OF uno_mark_all_refines assms session_runs(1)]
  show wf: "session_wf (snd (mark_all_needs_renego t))" by (rule r(1))
  show v: "session_view (snd (mark_all_needs_renego t)) = (\<lambda>i. if established (session_view t i) then SRenego 0 False else SFree)"
    using r(2) by (simp add: spec_renego_all_def)
  show "Some k \<notin> set (occupied_physical_ids (snd (mark_all_needs_renego t)))"
    unfolding occupied_view [OF wf] v by simp
qed

lemma clear_all_empty:
  assumes "session_wf t"
  shows "session_wf (snd (clear_all t))" "Some k \<notin> set (occupied_physical_ids (snd (clear_all t)))"
    "session_view (snd (clear_all t)) = (\<lambda>_. SFree)"
proof -
  note c = clear_all_result [OF session_wfD(1) [OF assms]]
  show "session_wf (snd (clear_all t))" "session_view (snd (clear_all t)) = (\<lambda>_. SFree)" by (rule c)+
  then show "Some k \<notin> set (occupied_physical_ids (snd (clear_all t)))" by (simp add: occupied_view)
qed

lemma cleared_session:
  assumes "session_wf (session_table_of S)"
  shows "session_wf (session_table_of (cleared S))" "Some k \<notin> set (occupied_physical_ids (session_table_of (cleared S)))"
  using renego_all_empty [OF assms] meta_zero [OF renego_all_empty(1) [OF assms]]
  by (simp_all add: cleared_def session_clear_state)

lemma cleared_handles: "Some k \<in> set (field_handles (cleared S)) \<Longrightarrow> ps_id_key_id S = Some k"
  unfolding cleared_def by (drule field_handles_set(3)) (simp add: store_ops put_session_table_def)

lemma slot_ok_cleared:
  assumes "slot_ok S"
  shows "slot_ok (cleared S)"
proof -
  have wf: "session_wf (session_table_of S)" and id: "ps_id_key_id S = Some k \<Longrightarrow> in_mask (ps_res_mask S) k" for k
    using assms by (auto simp: slot_ok_def all_handles_def)
  show ?thesis
    using assms cleared_session [OF wf] cleared_handles id by (auto simp: slot_ok_def all_handles_split)
qed

lemma freed_facts:
  assumes "slot_ok S"
  shows "slot_ok (freed S)" "ps_state (freed S) = Ok Unallocated" "ps_res_mask (freed S) = 0"
    "session_view (session_table_of (freed S)) = (\<lambda>_. SFree)" "Some k \<notin> set (all_handles (freed S))"
proof -
  have wf: "session_wf (session_table_of (cleared S))" using slot_ok_cleared [OF assms] by (simp add: slot_ok_def)
  note c = clear_all_empty [OF wf]
  show st: "ps_state (freed S) = Ok Unallocated" and m: "ps_res_mask (freed S) = 0"
    and v: "session_view (session_table_of (freed S)) = (\<lambda>_. SFree)"
    by (simp_all add: freed_def Let_def c)
  have "field_handles (freed S) = replicate 10 None"
    by (simp add: freed_def Let_def clear_identity_handles cleared_def clear_state_handles numeral_eq_Suc)
  then have "Some k \<notin> set (field_handles (freed S))" for k by simp
  then show h: "Some k \<notin> set (all_handles (freed S))" for k
    using c(2) by (simp add: all_handles_split) (simp add: freed_def Let_def)
  show "slot_ok (freed S)" using st m h c(1) by (auto simp: slot_ok_def) (simp add: freed_def Let_def)
qed

end
