(* ===== verification/UnoAdmin.thy ===== *)
theory UnoAdmin
  imports UnoLifecycle
begin

text \<open>
  Allocation, enabling, disabling and migration of a partition: their effect on the slot and the keys, and
  that each keeps every slot in order and touches no key of another partition, whether it succeeds or fails.
\<close>

section \<open>Provisioning\<close>

abbreviation (input) identity_attrs :: u64 where "identity_attrs \<equiv> ATTR_INTERNAL OR ATTR_LOCAL OR ATTR_SIGN"
abbreviation (input) enabled_attrs :: u64 where "enabled_attrs \<equiv> ATTR_INTERNAL OR ATTR_LOCAL OR ATTR_DERIVE"

definition identity_made ::
  "u8 \<Rightarrow> Storage \<Rightarrow> (HsmKeyId \<Rightarrow> vkey option) \<Rightarrow> Storage \<Rightarrow> (HsmKeyId \<Rightarrow> vkey option) \<Rightarrow> bool" where
  "identity_made pid S K S' K' \<longleftrightarrow> (\<exists>i S1 bs. pair_made pid Ecc384Private identity_attrs S K i S1 K' \<and> length bs = ID_LEN \<and>
     S' = ps_id_mut (\<lambda>_. bs) (ps_set_id_key_id (Some i) S1))"

lemma rng_fill_held:
  assumes "held c pid P S K p"
  shows "achieves (rng_fill hw n) p (\<lambda>bs p'. length bs = n \<and> held c pid P S K p') E"
proof -
  have "achieves (rng_fill hw n) p (\<lambda>bs p'. length bs = n \<and> held c pid P S K p') (\<lambda>_ _. False)"
  proof -
    obtain bs d where f: "fill_bytes hw n (pal_dev p) = (bs, d)" by fastforce
    have "held c pid P S K (p\<lparr>pal_dev := d\<rparr>)"
      using assms steady_frame(1,3) [OF heldD(5) [OF assms], of "p\<lparr>pal_dev := d\<rparr>"] unfolding held_def by simp
    then show ?thesis using f length_fill_bytes [of hw n "pal_dev p"] by (simp add: achieves_def rng_fill_def dev_op_def)
  qed
  then show ?thesis by (rule achieves_mono) auto
qed

lemma provision_identity_achieves:
  fixes p :: "'e UnoHsmPal"
  assumes hw: "hw_ok hw" and h: "held clean_slot pid P S K p"
  shows "achieves (provision_identity hw pid) p
    (\<lambda>_ p'. \<exists>S' K'. held clean_slot pid P S' K' p' \<and> identity_made pid S K S' K')
    (\<lambda>_ p'. \<exists>S' K'. held clean_slot pid P S' K' p' \<and> pair_failed Ecc384Private S S' \<and> K' = K)"
  unfolding provision_identity_def
proof (rule achieves_bind [where R = "\<lambda>_ q. q = p"])
  show "achieves (reads (\<lambda>_. partition pid)) p (\<lambda>_ q. q = p)
      (\<lambda>_ p'. \<exists>S' K'. held clean_slot pid P S' K' p' \<and> pair_failed Ecc384Private S S' \<and> K' = K)"
    using heldD(1) [OF h] by simp
  fix x :: nat and q :: "'e UnoHsmPal" assume "q = p"
  then have hq: "held clean_slot pid P S K q" using h by simp
  show "achieves (bindS (create_internal_ecc384 hw pid Ecc384Private identity_attrs) (\<lambda>key_id.
      bindS (part_upd pid (ps_set_id_key_id (Some key_id))) (\<lambda>_.
      bindS (rng_fill hw ID_LEN) (\<lambda>bs. part_upd pid (ps_id_mut (\<lambda>_. bs)))))) q
    (\<lambda>_ p'. \<exists>S' K'. held clean_slot pid P S' K' p' \<and> identity_made pid S K S' K')
    (\<lambda>_ p'. \<exists>S' K'. held clean_slot pid P S' K' p' \<and> pair_failed Ecc384Private S S' \<and> K' = K)"
    apply (rule achieves_bind [OF create_ecc_achieves [OF hw hq]], simp)
    apply (elim exE conjE)
    apply (rule achieves_bind [OF part_upd_achieves], assumption, simp)
    apply (rule achieves_bind [OF rng_fill_held], assumption)
    apply (elim conjE, rule achieves_mono [OF part_upd_achieves], assumption, simp)
     apply (unfold identity_made_def) by blast+
qed

lemma provision_masked_achieves:
  fixes p :: "'e UnoHsmPal"
  assumes hw: "hw_ok hw" and h: "held clean_slot pid P S K p"
  shows "achieves (provision_masked_bk_boot hw pid) p
    (\<lambda>_ p'. \<exists>b. held clean_slot pid P (S\<lparr>st_masked_bk_boot := b\<rparr>) K p') (\<lambda>_. held clean_slot pid P S K)"
  unfolding provision_masked_bk_boot_def
proof (rule achieves_bind [where R = "\<lambda>_ q. q = p"])
  show "achieves (reads (\<lambda>_. partition pid)) p (\<lambda>_ q. q = p) (\<lambda>_. held clean_slot pid P S K)" using heldD(1) [OF h] by simp
  fix x :: nat and q :: "'e UnoHsmPal" assume "q = p"
  then have hq: "held clean_slot pid P S K q" using h by simp
  have eng: "engine_ok (hw_engine hw)" and np: "\<And>i d. fst (hw_mask_bk_boot hw i d) \<noteq> Panic" using hw by (simp_all add: hw_ok_def)
  show "achieves (with_admin_io hw pid (\<lambda>admin_io. bindS (dev_op (hw_mask_bk_boot hw (io_pid admin_io)))
       (\<lambda>masked. part_op pid (ps_set_masked_bk_boot masked)))) q
    (\<lambda>_ p'. \<exists>b. held clean_slot pid P (S\<lparr>st_masked_bk_boot := b\<rparr>) K p') (\<lambda>_. held clean_slot pid P S K)"
  proof (rule achieves_mono [OF with_admin_io_achieves [OF eng hq, where Q = "\<lambda>_ S' K'. (\<exists>b. S' = S\<lparr>st_masked_bk_boot := b\<rparr>) \<and> K' = K"
        and E = "\<lambda>_ S' K'. S' = S \<and> K' = K"]])
    fix p1 :: "'e UnoHsmPal" assume h1: "held slot_inv pid P S K p1"
    show "achieves (bindS (dev_op (hw_mask_bk_boot hw (io_pid (admin_no_scrub pid)))) (\<lambda>masked. part_op pid (ps_set_masked_bk_boot masked))) p1
      (\<lambda>_ p'. \<exists>S' K'. held slot_inv pid P S' K' p' \<and> (\<exists>b. S' = S\<lparr>st_masked_bk_boot := b\<rparr>) \<and> K' = K)
      (\<lambda>_ p'. \<exists>S' K'. held slot_inv pid P S' K' p' \<and> S' = S \<and> K' = K)"
    proof (rule achieves_bind [OF achieves_mono [OF dev_op_held [OF h1 np]]], assumption, blast)
      fix bs and p2 :: "'e UnoHsmPal" assume "held slot_inv pid P S K p2 \<and> (\<exists>d d'. hw_mask_bk_boot hw (io_pid (admin_no_scrub pid)) d = (Ok bs, d'))"
      then have h2: "held slot_inv pid P S K p2" by simp
      obtain r S' where r: "ps_set_masked_bk_boot bs S = (r, S')" by fastforce
      then have c: "r = Ok () \<and> (\<exists>b. S' = S\<lparr>st_masked_bk_boot := b\<rparr>) \<or> (\<exists>e. r = Err e) \<and> S' = S" and m: "ps_res_mask S' = ps_res_mask S"
        by (auto simp: ps_set_masked_bk_boot_def ps_res_mask_def split: if_splits)
      show "achieves (part_op pid (ps_set_masked_bk_boot bs)) p2
        (\<lambda>_ p'. \<exists>S' K'. held slot_inv pid P S' K' p' \<and> (\<exists>b. S' = S\<lparr>st_masked_bk_boot := b\<rparr>) \<and> K' = K)
        (\<lambda>_ p'. \<exists>S' K'. held slot_inv pid P S' K' p' \<and> S' = S \<and> K' = K)"
        by (rule achieves_mono [OF part_op_achieves [OF h2, of "ps_set_masked_bk_boot bs", OF r _ m]]) (use c in auto)
    qed
  qed auto
qed

section \<open>Enable-time keys\<close>

definition enabled_made ::
  "u8 \<Rightarrow> Storage \<Rightarrow> (HsmKeyId \<Rightarrow> vkey option) \<Rightarrow> Storage \<Rightarrow> (HsmKeyId \<Rightarrow> vkey option) \<Rightarrow> bool" where
  "enabled_made pid S K S' K' \<longleftrightarrow> (\<exists>n i1 i2 S1 S2 K1. length n = NONCE_LEN \<and>
     pair_made pid EstablishCred enabled_attrs (ps_nonce_mut (\<lambda>_. n) S) K i1 S1 K1 \<and>
     pair_made pid SessionEncryption enabled_attrs (ps_set_ec_key_id (Some i1) S1) K1 i2 S2 K' \<and>
     S' = ps_set_se_key_id (Some i2) S2)"

definition enabled_failed :: "Storage \<Rightarrow> Storage \<Rightarrow> bool" where
  "enabled_failed S S' \<longleftrightarrow> (\<exists>n. length n = NONCE_LEN \<and>
     (pair_failed EstablishCred (ps_nonce_mut (\<lambda>_. n) S) S' \<or>
      (\<exists>pub i S1. pair_failed SessionEncryption (ps_set_ec_key_id (Some i) (set_pub EstablishCred pub (ps_nonce_mut (\<lambda>_. n) S))) S1 \<and>
         S' = ps_clear_enabled_keys S1)))"

lemma pair_failed_mask: "pair_failed kd S S' \<Longrightarrow> ps_res_mask S' = ps_res_mask S"
  by (auto simp: pair_failed_def)

lemma provision_enabled_achieves:
  fixes p :: "'e UnoHsmPal"
  assumes hw: "hw_ok hw" and h: "held clean_slot pid P S K p"
  shows "achieves (provision_enabled_keys hw pid) p
    (\<lambda>_ p'. \<exists>S' K'. held clean_slot pid P S' K' p' \<and> enabled_made pid S K S' K')
    (\<lambda>_ p'. \<exists>S' K'. held clean_slot pid P S' K' p' \<and> enabled_failed S S' \<and> K' = K)"
    (is "achieves _ _ ?Q ?E")
  unfolding provision_enabled_keys_def Let_def
proof (rule achieves_bind [where R = "\<lambda>_ q. q = p"])
  have eng: "engine_ok (hw_engine hw)" using hw by (simp add: hw_ok_def)
  show "achieves (reads (\<lambda>_. partition pid)) p (\<lambda>_ q. q = p) ?E" using heldD(1) [OF h] by simp
  have second: "achieves (bindS (try_op (create_internal_ecc384 hw pid SessionEncryption enabled_attrs)) (\<lambda>r.
        case r of
          Ok se_id \<Rightarrow> part_upd pid (ps_set_se_key_id (Some se_id))
        | Err e \<Rightarrow>
            bindS (with_admin_io hw pid (\<lambda>admin_io. delete_key hw admin_io i)) (\<lambda>_.
            bindS (part_upd pid ps_clear_enabled_keys) (\<lambda>_. fails e))
        | Panic \<Rightarrow> (\<lambda>p. (Panic, p)))) p2 ?Q ?E"
    if n: "length n = NONCE_LEN" and made: "pair_made pid EstablishCred enabled_attrs (ps_nonce_mut (\<lambda>_. n) S) K i S1 K1"
      and h2: "held clean_slot pid P (ps_set_ec_key_id (Some i) S1) K1 p2" for n i S1 K1 and p2 :: "'e UnoHsmPal"
  proof (rule achieves_bind [OF try_achieves [OF create_ecc_achieves [OF hw h2]]], simp)
    fix r and p3 :: "'e UnoHsmPal"
    assume r: "case r of
        Ok j \<Rightarrow> \<exists>S' K'. held clean_slot pid P S' K' p3 \<and> pair_made pid SessionEncryption enabled_attrs (ps_set_ec_key_id (Some i) S1) K1 j S' K'
      | Err e \<Rightarrow> \<exists>S' K'. held clean_slot pid P S' K' p3 \<and> pair_failed SessionEncryption (ps_set_ec_key_id (Some i) S1) S' \<and> K' = K1
      | Panic \<Rightarrow> False"
    show "achieves (case r of
          Ok se_id \<Rightarrow> part_upd pid (ps_set_se_key_id (Some se_id))
        | Err e \<Rightarrow>
            bindS (with_admin_io hw pid (\<lambda>admin_io. delete_key hw admin_io i)) (\<lambda>_.
            bindS (part_upd pid ps_clear_enabled_keys) (\<lambda>_. fails e))
        | Panic \<Rightarrow> (\<lambda>p. (Panic, p))) p3 ?Q ?E"
    proof (cases r)
      case (Ok j)
      then obtain S2 K2 where s2: "held clean_slot pid P S2 K2 p3"
        "pair_made pid SessionEncryption enabled_attrs (ps_set_ec_key_id (Some i) S1) K1 j S2 K2" using r by auto
      show ?thesis
        unfolding Ok run.case
        by (rule achieves_mono [OF part_upd_achieves [OF s2(1)]], simp)
          (use n made s2(2) in \<open>unfold enabled_made_def, blast\<close>)+
    next
      case (Err e)
      then obtain S2 where s2: "held clean_slot pid P S2 K1 p3" "pair_failed SessionEncryption (ps_set_ec_key_id (Some i) S1) S2"
        using r by auto
      have K: "K1(i := None) = K" using made by (auto simp: pair_made_def)
      obtain pub where S1: "S1 = set_pub EstablishCred pub (ps_nonce_mut (\<lambda>_. n) S)" using made by (auto simp: pair_made_def)
      have f: "enabled_failed S (ps_clear_enabled_keys S2)" using n s2(2) unfolding enabled_failed_def S1 by blast
      show ?thesis
        unfolding Err run.case
        apply (rule achieves_bind [OF achieves_mono [OF with_admin_io_achieves [OF eng s2(1), where Q = "\<lambda>_ S' K'. S' = S2 \<and> K' = K"
              and E = "\<lambda>_ _ _. False"]]])
           apply (rule achieves_mono [OF delete_key_achieves [OF eng]], assumption, use K in simp, assumption)
        apply assumption
         apply simp
        apply (elim exE conjE, simp only:, rule achieves_bind [OF part_upd_achieves], assumption, simp)
        using f by auto
    qed (use r in simp)
  qed
  fix x :: nat and q :: "'e UnoHsmPal" assume "q = p"
  then have hq: "held clean_slot pid P S K q" using h by simp
  show "achieves (bindS (rng_fill hw NONCE_LEN) (\<lambda>bs.
      bindS (part_upd pid (ps_nonce_mut (\<lambda>_. bs))) (\<lambda>_.
      bindS (create_internal_ecc384 hw pid EstablishCred enabled_attrs) (\<lambda>ec_id.
      bindS (part_upd pid (ps_set_ec_key_id (Some ec_id))) (\<lambda>_.
      bindS (try_op (create_internal_ecc384 hw pid SessionEncryption enabled_attrs)) (\<lambda>r.
        case r of
          Ok se_id \<Rightarrow> part_upd pid (ps_set_se_key_id (Some se_id))
        | Err e \<Rightarrow>
            bindS (with_admin_io hw pid (\<lambda>admin_io. delete_key hw admin_io ec_id)) (\<lambda>_.
            bindS (part_upd pid ps_clear_enabled_keys) (\<lambda>_. fails e))
        | Panic \<Rightarrow> (\<lambda>p. (Panic, p)))))))) q ?Q ?E"
    apply (rule achieves_bind [OF rng_fill_held [OF hq]], elim conjE)
    apply (rule achieves_bind [OF part_upd_achieves], assumption, simp)
    apply (rule achieves_bind [OF achieves_errs [OF create_ecc_achieves [OF hw]]], assumption, simp)
     apply (unfold enabled_failed_def, blast) [1]
    apply (elim exE conjE, rule achieves_bind [OF part_upd_achieves], assumption, simp)
    by (rule second)
qed

section \<open>Keys added and handles set\<close>

lemma in_mask_zero [simp]: "\<not> in_mask 0 k"
  by (simp add: in_mask_def)

text \<open>Setting a handle to a fresh key of the partition keeps the slot safe.\<close>

lemma safe_pair:
  assumes dis: "\<And>k. foreign P pid k \<Longrightarrow> \<not> in_mask (ps_res_mask S) k" and g: "safe P pid S K" and m: "pair_made pid kd at S K i S1 K1"
  shows "safe P pid S1 K1" "foreign P pid k \<Longrightarrow> K1 k = K k" "ps_res_mask S1 = ps_res_mask S" "in_mask (ps_res_mask S) i"
    "session_table_of S1 = session_table_of S" "ps_state S1 = ps_state S" "field_handles S1 = field_handles S" "K1 i \<noteq> None"
proof -
  obtain priv pub where p: "K i = None" "in_mask (ps_res_mask S) i" "S1 = set_pub kd pub S"
    "K1 = K(i \<mapsto> new_key pid kd None at (pair_blob kd priv pub))" using m by (auto simp: pair_made_def)
  show "ps_res_mask S1 = ps_res_mask S" "in_mask (ps_res_mask S) i" "session_table_of S1 = session_table_of S"
    "ps_state S1 = ps_state S" "field_handles S1 = field_handles S" "K1 i \<noteq> None" using p by simp_all
  then show "safe P pid S1 K1" using g p by (auto simp: safe_def slot_safe_def all_handles_split)
  show "foreign P pid k \<Longrightarrow> K1 k = K k" using dis p by auto
qed

lemma slot_safe_handle:
  assumes "slot_safe S" "in_mask (ps_res_mask S) i"
  shows "slot_safe (ps_set_id_key_id (Some i) S)" "slot_safe (ps_set_ec_key_id (Some i) S)" "slot_safe (ps_set_se_key_id (Some i) S)"
  using assms field_handles_set(4-6) [of _ i S] by (auto simp: slot_safe_def all_handles_split)

lemma slot_safe_kept:
  assumes "slot_safe S"
  shows "slot_safe (ps_id_mut f S)" "slot_safe (ps_nonce_mut f S)" "slot_safe (set_pub kd pub S)" "slot_safe (ps_clear_enabled_keys S)"
    "slot_safe (ps_clear_identity S)" "slot_safe (S\<lparr>st_masked_bk_boot := b\<rparr>)"
    "slot_safe (ps_set_state st S)"
proof -
  show "slot_safe (S\<lparr>st_masked_bk_boot := b\<rparr>)"
    using assms by (simp add: slot_safe_def all_handles_split session_table_of_def field_handles_def enabled_handles_def store_ops)
qed (use assms field_handles_set(1,2) [of _ S] in \<open>auto simp: slot_safe_def all_handles_split\<close>)

lemma safe_slot:
  assumes "safe P pid S K" "slot_safe S'" "ps_res_mask S' = ps_res_mask S"
  shows "safe P pid S' K"
  using assms by (simp add: safe_def)

lemma confined_refl: "safe P pid S K \<Longrightarrow> confined P pid K S K"
  by (simp add: confined_def)

lemma confined_slot:
  assumes "confined P pid K S1 K1" "slot_safe S2" "ps_res_mask S2 = ps_res_mask S1"
  shows "confined P pid K S2 K1"
  using assms safe_slot by (auto simp: confined_def)

lemma pair_failed_safe:
  assumes "safe P pid S K" "pair_failed kd S S'"
  shows "safe P pid S' K" "ps_res_mask S' = ps_res_mask S" "field_handles S' = field_handles S"
    "session_table_of S' = session_table_of S" "ps_state S' = ps_state S"
  using assms slot_safe_kept(3) by (auto simp: safe_def pair_failed_def)

lemma identity_confined:
  assumes dis: "\<And>k. foreign P pid k \<Longrightarrow> \<not> in_mask (ps_res_mask S) k" and g: "safe P pid S K" and m: "identity_made pid S K S' K'"
  shows "confined P pid K S' K'" "ps_res_mask S' = ps_res_mask S" "session_table_of S' = session_table_of S" "ps_state S' = ps_state S"
    "\<exists>i. ps_id_key_id S' = Some i \<and> K i = None \<and> drop_keys [Some i] K' = K \<and> tl (field_handles S') = tl (field_handles S)"
proof -
  obtain i S1 bs where i: "pair_made pid Ecc384Private identity_attrs S K i S1 K'" "S' = ps_id_mut (\<lambda>_. bs) (ps_set_id_key_id (Some i) S1)"
    using m by (auto simp: identity_made_def)
  note gp = safe_pair [OF dis g i(1)]
  have "slot_safe S'" using gp(1,3,4) i(2) slot_safe_handle(1) [of S1 i] slot_safe_kept(1) by (simp add: safe_def)
  then show "confined P pid K S' K'"
    using confined_slot [of P pid K S1 K' S'] gp(1-3) i(2) by (simp add: confined_def)
  show "ps_res_mask S' = ps_res_mask S" "session_table_of S' = session_table_of S" "ps_state S' = ps_state S" using gp i(2) by simp_all
  have K: "K i = None" "drop_keys [Some i] K' = K" using i(1) by (auto simp: pair_made_def drop_keys_def fun_eq_iff)
  have "ps_id_key_id S' = Some i" using i(2) key_absent_handle [OF gp(4)] by (simp add: store_ops)
  moreover have "tl (field_handles S') = tl (field_handles S1)"
    using i(2) by (simp add: field_handles_def enabled_handles_def store_ops)
  ultimately show "\<exists>i. ps_id_key_id S' = Some i \<and> K i = None \<and> drop_keys [Some i] K' = K \<and> tl (field_handles S') = tl (field_handles S)"
    using gp(7) K by auto
qed

lemma enabled_confined:
  assumes dis: "\<And>k. foreign P pid k \<Longrightarrow> \<not> in_mask (ps_res_mask S) k" and g: "safe P pid S K" and m: "enabled_made pid S K S' K'"
  shows "confined P pid K S' K'" "ps_res_mask S' = ps_res_mask S" "ps_state S' = ps_state S" "session_table_of S' = session_table_of S"
proof -
  obtain n i1 i2 S1 S2 K1 where e: "pair_made pid EstablishCred enabled_attrs (ps_nonce_mut (\<lambda>_. n) S) K i1 S1 K1"
     "pair_made pid SessionEncryption enabled_attrs (ps_set_ec_key_id (Some i1) S1) K1 i2 S2 K'"
     "S' = ps_set_se_key_id (Some i2) S2" using m by (auto simp: enabled_made_def)
  have f: "foreign P pid k \<Longrightarrow> \<not> in_mask (ps_res_mask S) k" for k using dis .
  have a: "S1 = set_pub EstablishCred pub (ps_nonce_mut (\<lambda>_. n) S) \<Longrightarrow> slot_safe S \<Longrightarrow> slot_safe S1" for pub
    by (auto intro: slot_safe_kept)
  obtain pub1 where p1: "S1 = set_pub EstablishCred pub1 (ps_nonce_mut (\<lambda>_. n) S)" "in_mask (ps_res_mask S) i1"
    "\<exists>v. K1 = K(i1 \<mapsto> v)" using e(1) by (auto simp: pair_made_def)
  obtain pub2 where p2: "S2 = set_pub SessionEncryption pub2 (ps_set_ec_key_id (Some i1) S1)" "in_mask (ps_res_mask S) i2"
    "\<exists>v. K' = K1(i2 \<mapsto> v)" using e(2) p1 by (auto simp: pair_made_def)
  show m: "ps_res_mask S' = ps_res_mask S" "ps_state S' = ps_state S" "session_table_of S' = session_table_of S"
    using e(3) p1 p2 by simp_all
  have "slot_safe S1" using a [OF p1(1)] g by (simp add: safe_def)
  then have "slot_safe S2" using p1(1,2) p2(1) by (auto intro!: slot_safe_kept slot_safe_handle)
  then have "slot_safe S'" using e(3) p1(1) p2(1,2) by (auto intro!: slot_safe_handle)
  then show "confined P pid K S' K'" using g p1(2,3) p2(2,3) m f by (auto simp: confined_def safe_def split: if_splits; blast)
qed

lemma enabled_failed_safe:
  assumes "safe P pid S K" "enabled_failed S S'"
  shows "safe P pid S' K" "ps_res_mask S' = ps_res_mask S" "ps_state S' = ps_state S" "session_table_of S' = session_table_of S"
    "Some k \<in> set (field_handles S') \<Longrightarrow> Some k \<in> set (field_handles S)" "ps_id_key_id S' = ps_id_key_id S"
    "Some k \<in> set (tl (field_handles S')) \<Longrightarrow> Some k \<in> set (tl (field_handles S))"
proof -
  obtain n where n: "pair_failed EstablishCred (ps_nonce_mut (\<lambda>_. n) S) S' \<or>
      (\<exists>pub i S1. pair_failed SessionEncryption (ps_set_ec_key_id (Some i) (set_pub EstablishCred pub (ps_nonce_mut (\<lambda>_. n) S))) S1 \<and>
         S' = ps_clear_enabled_keys S1)" using assms(2) by (auto simp: enabled_failed_def)
  have c: "field_handles (ps_clear_enabled_keys s) = (case field_handles s of i # d # e # f # r \<Rightarrow> i # d # None # None # r | r \<Rightarrow> r)"
    "field_handles (ps_set_ec_key_id h s) = (case field_handles s of i # d # e # r \<Rightarrow> i # d # read_handle (write_handle h) # r | r \<Rightarrow> r)" for s h
    by (simp_all add: field_handles_def enabled_handles_def store_ops)
  obtain i d e f r where fs: "field_handles S = i # d # e # f # r" "i = ps_id_key_id S"
    by (auto simp: field_handles_def enabled_handles_def)
  have alt: "field_handles S' = i # d # e # f # r \<or> field_handles S' = i # d # None # None # r"
    using n by (auto simp: pair_failed_def c fs)
  then show fields: "Some k \<in> set (field_handles S') \<Longrightarrow> Some k \<in> set (field_handles S)"
    "Some k \<in> set (tl (field_handles S')) \<Longrightarrow> Some k \<in> set (tl (field_handles S))" for k by (auto simp: fs)
  have "ps_id_key_id S' = hd (field_handles S')" by (simp add: field_handles_def)
  also have "\<dots> = ps_id_key_id S" using alt fs by auto
  finally show "ps_id_key_id S' = ps_id_key_id S" .
  show m: "ps_res_mask S' = ps_res_mask S" "ps_state S' = ps_state S" "session_table_of S' = session_table_of S"
    using n by (auto simp: pair_failed_def)
  show "safe P pid S' K" using assms(1) fields(1) m by (auto simp: safe_def slot_safe_def all_handles_split)
qed

section \<open>Rolling an allocation back\<close>

definition rolled_back :: "Storage \<Rightarrow> Storage" where
  "rolled_back S =
     ps_set_state Unallocated (ps_set_res_mask 0 (ps_clear_unwrapping_key (ps_clear_masked_bk_boot (ps_clear_identity S))))"

lemma rollback_achieves:
  fixes p :: "'e UnoHsmPal"
  assumes hw: "engine_ok (hw_engine hw)" and h: "held clean_slot pid P S K p"
  shows "achieves (rollback_alloc hw pid) p (\<lambda>_. held clean_slot pid P (rolled_back S) (drop_keys [ps_id_key_id S] K)) E"
proof -
  have del: "achieves (case ps_id_key_id S of Some key_id \<Rightarrow> with_admin_io hw pid (\<lambda>admin_io. delete_key hw admin_io key_id) | None \<Rightarrow> returns ()) p1
      (\<lambda>_. held clean_slot pid P S (drop_keys [ps_id_key_id S] K)) E"
    if h1: "held clean_slot pid P S K p1" for p1 :: "'e UnoHsmPal"
  proof (cases "ps_id_key_id S")
    case (Some k)
    have K: "K(k := None) = drop_keys [ps_id_key_id S] K" by (auto simp: drop_keys_def fun_eq_iff Some)
    have "achieves (with_admin_io hw pid (\<lambda>admin_io. delete_key hw admin_io k)) p1
        (\<lambda>_. held clean_slot pid P S (drop_keys [ps_id_key_id S] K)) E"
      by (rule achieves_mono [OF with_admin_io_achieves [OF hw h1, where Q = "\<lambda>_ S' K'. S' = S \<and> K' = K(k := None)" and E = "\<lambda>_ _ _. False"]],
          rule achieves_mono [OF delete_key_achieves [OF hw]]) (auto simp: K)
    then show ?thesis by (simp add: Some)
  qed (use h1 in \<open>simp add: drop_keys_def [abs_def]\<close>)
  show ?thesis
    unfolding rollback_alloc_def heldD(1) [OF h] run.case
    apply (rule achieves_bind [OF part_get_achieves [OF h]], elim conjE, simp only:)
    apply (rule achieves_bind [OF del], assumption)
    apply (rule achieves_bind [OF part_upd_achieves], assumption, simp)
    apply (rule achieves_bind [OF part_upd_achieves], assumption, simp)
    apply (rule achieves_bind [OF part_upd_achieves], assumption, simp)
    apply (rule achieves_bind [OF set_mask_achieves], assumption, simp, simp)
    apply (rule achieves_mono [OF part_upd_achieves], assumption, simp)
    by (simp_all only: rolled_back_def)
qed

text \<open>A slot with no handles but that of its identity is in order once rolled back.\<close>

lemma rolled_back_ok:
  assumes "session_wf (session_table_of S)" "\<And>k. Some k \<notin> set (occupied_physical_ids (session_table_of S))"
    "\<And>k. Some k \<notin> set (tl (field_handles S))"
  shows "slot_ok (rolled_back S)" "ps_res_mask (rolled_back S) = 0" "ps_state (rolled_back S) = Ok Unallocated"
    "Some k \<notin> set (all_handles (rolled_back S))"
proof -
  show m: "ps_res_mask (rolled_back S) = 0" and st: "ps_state (rolled_back S) = Ok Unallocated" by (simp_all add: rolled_back_def)
  have "field_handles (rolled_back S) = None # tl (field_handles S)" by (simp add: rolled_back_def clear_identity_handles)
  then show no: "Some k \<notin> set (all_handles (rolled_back S))" for k
    using assms(2,3) by (simp add: all_handles_split) (simp add: rolled_back_def)
  show "slot_ok (rolled_back S)" using m st no assms(1) by (simp add: slot_ok_def) (simp add: rolled_back_def)
qed

section \<open>Allocation\<close>

text \<open>The slot that the provisioning of an allocation starts from.\<close>

definition armed :: "u128 \<Rightarrow> Storage \<Rightarrow> Storage" where
  "armed m S =
     ps_bake_default_psks ((if m \<noteq> 0 then ps_set_unwrapping_key_required True else (\<lambda>s. s)) (ps_set_res_mask m S))"

definition alloc_made ::
  "u8 \<Rightarrow> u128 \<Rightarrow> Storage \<Rightarrow> (HsmKeyId \<Rightarrow> vkey option) \<Rightarrow> Storage \<Rightarrow> (HsmKeyId \<Rightarrow> vkey option) \<Rightarrow> bool" where
  "alloc_made pid m S K S' K' \<longleftrightarrow> (\<exists>S1 b. identity_made pid (armed m S) K S1 K' \<and> S' = S1\<lparr>st_masked_bk_boot := b\<rparr>)"

lemma armed_facts [simp]:
  "ps_res_mask (armed m S) = m" "session_table_of (armed m S) = session_table_of S" "ps_state (armed m S) = ps_state S"
  "field_handles (armed m S) = field_handles S"
  by (simp_all add: armed_def)

lemma masked_facts [simp]:
  "ps_res_mask (S\<lparr>st_masked_bk_boot := b\<rparr>) = ps_res_mask S" "session_table_of (S\<lparr>st_masked_bk_boot := b\<rparr>) = session_table_of S"
  "ps_state (S\<lparr>st_masked_bk_boot := b\<rparr>) = ps_state S" "field_handles (S\<lparr>st_masked_bk_boot := b\<rparr>) = field_handles S"
  by (simp_all add: session_table_of_def field_handles_def enabled_handles_def store_ops)

text \<open>A slot without tables has no handles at all, and every key then belongs to another partition.\<close>

lemma bare_slot:
  assumes "safe P pid S K" "ps_res_mask S = 0"
  shows "session_wf (session_table_of S)" "Some k \<notin> set (field_handles S)" "Some k \<notin> set (occupied_physical_ids (session_table_of S))"
    "K k \<noteq> None \<Longrightarrow> foreign P pid k"
  using assms by (auto simp: safe_def slot_safe_def all_handles_split)

lemma set_tl: "x \<in> set (tl xs) \<Longrightarrow> x \<in> set xs"
  by (cases xs) auto

lemma provision_allocation_achieves:
  fixes p :: "'e UnoHsmPal"
  assumes hw: "hw_ok hw" and g: "safe P pid S K" and z: "ps_res_mask S = 0" and h: "held clean_slot pid P (armed m S) K p"
  shows "achieves (provision_allocation hw pid) p
    (\<lambda>_ p'. \<exists>S' K'. held clean_slot pid P S' K' p' \<and> alloc_made pid m S K S' K')
    (\<lambda>_ p'. \<exists>S' K'. held clean_slot pid P S' K' p' \<and> session_table_of S' = session_table_of S \<and>
       (\<forall>k. Some k \<notin> set (tl (field_handles S'))) \<and> drop_keys [ps_id_key_id S'] K' = K)" (is "achieves _ _ ?Q ?E")
proof -
  let ?A = "armed m S"
  note bare = bare_slot [OF g z]
  have ga: "safe P pid ?A K" using bare by (auto simp: safe_def slot_safe_def all_handles_split)
  have none: "ps_id_key_id S' = None" if "field_handles S' = field_handles S" for S'
    using bare(2) that by (cases "ps_id_key_id S'") (auto simp: field_handles_def)
  show ?thesis
    unfolding provision_allocation_def
  proof (rule achieves_bind [OF achieves_errs [OF provision_identity_achieves [OF hw h]]])
    fix e :: HsmError and q :: "'e UnoHsmPal"
    assume "\<exists>S' K'. held clean_slot pid P S' K' q \<and> pair_failed Ecc384Private ?A S' \<and> K' = K"
    then obtain S' where s: "held clean_slot pid P S' K q" "pair_failed Ecc384Private ?A S'" by blast
    note f = pair_failed_safe [OF ga s(2)]
    have "drop_keys [ps_id_key_id S'] K = K" using none [of S'] f(3) by (simp add: drop_keys_def [abs_def])
    then show "?E e q" using s(1) f bare(2) set_tl by fastforce
  next
    fix x :: unit and q :: "'e UnoHsmPal"
    assume "\<exists>S' K'. held clean_slot pid P S' K' q \<and> identity_made pid ?A K S' K'"
    then obtain S1 K1 where s: "held clean_slot pid P S1 K1 q" "identity_made pid ?A K S1 K1" by blast
    note f = identity_confined [OF foreign_disjoint [OF h] ga s(2)]
    have e: "?E e r" if "held clean_slot pid P S1 K1 r" for e r
      using that f(3,5) bare(2) set_tl by fastforce
    show "achieves (provision_masked_bk_boot hw pid) q ?Q ?E"
      by (rule achieves_mono [OF provision_masked_achieves [OF hw s(1)]])
        (use s(2) e in \<open>auto simp: alloc_made_def\<close>)
  qed
qed

text \<open>Everything from the assignment of the mask on.\<close>

lemma allocate_achieves:
  fixes p :: "'e UnoHsmPal"
  assumes hw: "hw_ok hw" and g: "safe P pid S K" and z: "ps_res_mask S = 0" and h: "held clean_slot pid P S K p"
    and un: "unclaimed P pid m"
    and rest: "\<And>S' K' p'. held clean_slot pid P S' K' p' \<Longrightarrow> alloc_made pid m S K S' K' \<Longrightarrow> achieves rest p' Q E"
  shows "achieves (bindS (part_upd pid (ps_set_res_mask m)) (\<lambda>_.
         bindS (if m \<noteq> 0 then part_upd pid (ps_set_unwrapping_key_required True) else returns ()) (\<lambda>_.
         bindS (part_upd pid ps_bake_default_psks) (\<lambda>_.
         bindS (try_op (provision_allocation hw pid)) (\<lambda>r.
           case r of
             Err e \<Rightarrow> bindS (rollback_alloc hw pid) (\<lambda>_. fails e)
           | Panic \<Rightarrow> (\<lambda>p. (Panic, p))
           | Ok _ \<Rightarrow> rest))))) p
    Q (\<lambda>e p'. E e p' \<or> (\<exists>S'. held clean_slot pid P S' K p' \<and> slot_ok S' \<and> ps_res_mask S' = 0 \<and> ps_state S' = Ok Unallocated))"
proof -
  note bare = bare_slot [OF g z]
  have eng: "engine_ok (hw_engine hw)" using hw by (simp add: hw_ok_def)
  have req: "achieves (if m \<noteq> 0 then part_upd pid (ps_set_unwrapping_key_required True) else returns ()) q
      (\<lambda>_. held clean_slot pid P ((if m \<noteq> 0 then ps_set_unwrapping_key_required True else (\<lambda>s. s)) S1) K) F"
    if "held clean_slot pid P S1 K q" for S1 F and q :: "'e UnoHsmPal"
    using part_upd_achieves [OF that, of "ps_set_unwrapping_key_required True" F] that by simp
  let ?E = "\<lambda>e p'. E e p' \<or> (\<exists>S'. held clean_slot pid P S' K p' \<and> slot_ok S' \<and> ps_res_mask S' = 0 \<and> ps_state S' = Ok Unallocated)"
  have tail: "achieves (bindS (try_op (provision_allocation hw pid)) (\<lambda>r. case r of
             Err e \<Rightarrow> bindS (rollback_alloc hw pid) (\<lambda>_. fails e)
           | Panic \<Rightarrow> (\<lambda>p. (Panic, p)) | Ok _ \<Rightarrow> rest)) q Q ?E"
    if hq: "held clean_slot pid P (armed m S) K q" for q :: "'e UnoHsmPal"
  proof (rule achieves_bind [OF try_achieves [OF provision_allocation_achieves [OF hw g z hq]]])
    fix r and q1 :: "'e UnoHsmPal"
    assume r: "case r of
        Ok x \<Rightarrow> \<exists>S' K'. held clean_slot pid P S' K' q1 \<and> alloc_made pid m S K S' K'
      | Err e \<Rightarrow> \<exists>S' K'. held clean_slot pid P S' K' q1 \<and> session_table_of S' = session_table_of S \<and>
          (\<forall>k. Some k \<notin> set (tl (field_handles S'))) \<and> drop_keys [ps_id_key_id S'] K' = K
      | Panic \<Rightarrow> False"
    show "achieves (case r of
             Err e \<Rightarrow> bindS (rollback_alloc hw pid) (\<lambda>_. fails e)
           | Panic \<Rightarrow> (\<lambda>p. (Panic, p)) | Ok _ \<Rightarrow> rest) q1 Q ?E"
    proof (cases r)
      case (Ok x)
      then show ?thesis using r rest by (auto intro: achieves_errs)
    next
      case (Err e)
      then obtain S' K' where s: "held clean_slot pid P S' K' q1" "session_table_of S' = session_table_of S"
        "\<And>k. Some k \<notin> set (tl (field_handles S'))" "drop_keys [ps_id_key_id S'] K' = K" using r by auto
      have rb: "slot_ok (rolled_back S')" "ps_res_mask (rolled_back S') = 0" "ps_state (rolled_back S') = Ok Unallocated"
        using rolled_back_ok [of S'] s(2,3) bare(1,3) by simp_all
      show ?thesis
        unfolding Err run.case
        by (rule achieves_bind [OF rollback_achieves [OF eng s(1)]]) (use s(4) rb in auto)
    qed (use r in simp)
  qed
  show ?thesis
    apply (rule achieves_bind [OF set_mask_achieves [OF h un]])
     apply (use bare(4) in blast)
    apply (rule achieves_bind [OF req], assumption)
    apply (rule achieves_bind [OF part_upd_achieves], assumption, simp)
    by (rule tail) (simp add: armed_def)
qed

end
