(* ===== verification/UnoTransitions.thy ===== *)
theory UnoTransitions
  imports UnoAdmin
begin

text \<open>
  The transitions of a partition as the admin core drives them. Each is described by what it does to the
  slot and the keys, and shown to keep every slot in order and to touch no key of another partition.
\<close>

lemma achieves_if:
  "(c \<Longrightarrow> achieves a s Q E) \<Longrightarrow> (\<not> c \<Longrightarrow> achieves b s Q E) \<Longrightarrow> achieves (if c then a else b) s Q E"
  by simp

section \<open>Allocation\<close>

lemma unclaimed_foreign:
  assumes "unclaimed P pid m" "foreign P pid k"
  shows "\<not> in_mask m k"
  using assms unfolding unclaimed_def foreign_def in_mask_def by blast

lemma alloc_confined:
  assumes un: "unclaimed P pid m" and g: "safe P pid S K" and z: "ps_res_mask S = 0" and a: "alloc_made pid m S K S' K'"
  shows "confined P pid K S' K'" "ps_res_mask S' = m" "session_table_of S' = session_table_of S" "ps_state S' = ps_state S"
    "\<And>k. Some k \<notin> set (tl (field_handles S'))" "drop_keys [ps_id_key_id S'] K' = K"
proof -
  obtain S1 b where s: "identity_made pid (armed m S) K S1 K'" "S' = S1\<lparr>st_masked_bk_boot := b\<rparr>" using a by (auto simp: alloc_made_def)
  note bare = bare_slot [OF g z]
  have ga: "safe P pid (armed m S) K" using bare by (auto simp: safe_def slot_safe_def all_handles_split)
  have dis: "foreign P pid k \<Longrightarrow> \<not> in_mask (ps_res_mask (armed m S)) k" for k using unclaimed_foreign [OF un] by simp
  note i = identity_confined [OF dis ga s(1)]
  show "ps_res_mask S' = m" "session_table_of S' = session_table_of S" "ps_state S' = ps_state S" using i(2-4) s(2) by simp_all
  show "Some k \<notin> set (tl (field_handles S'))" for k using i(5) s(2) bare(2) set_tl by fastforce
  have "ps_id_key_id S' = ps_id_key_id S1" using s(2) by (simp add: store_ops)
  then show "drop_keys [ps_id_key_id S'] K' = K" using i(5) by auto
  have "slot_safe S1" using i(1) by (simp add: confined_def safe_def)
  then show "confined P pid K S' K'" using confined_slot [OF i(1), of S'] s(2) slot_safe_kept(6) by simp
qed

text \<open>The slot and the keys an allocation starts from, and what it leaves.\<close>

definition pre_enabled :: "bool \<Rightarrow> Storage \<Rightarrow> bool" where
  "pre_enabled is_pf S \<longleftrightarrow> is_pf \<and> ps_state S = Ok Enabled \<and> ps_res_mask S = 0"

definition released :: "Storage \<Rightarrow> Storage" where
  "released S = (if ps_state S = Ok Unallocated then S else freed S)"

definition allocated ::
  "u8 \<Rightarrow> u128 \<Rightarrow> bool \<Rightarrow> Storage \<Rightarrow> (HsmKeyId \<Rightarrow> vkey option) \<Rightarrow> Storage \<Rightarrow> (HsmKeyId \<Rightarrow> vkey option) \<Rightarrow> bool" where
  "allocated pid m is_pf S K S' K' \<longleftrightarrow>
     (if pre_enabled is_pf S
      then \<exists>S1 K1 S2. alloc_made pid m S K S1 K1 \<and> enabled_made pid S1 K1 S2 K' \<and> S' = ps_set_state Enabled S2
      else \<exists>S1. alloc_made pid m (released S) (drop_tables (ps_res_mask S) K) S1 K' \<and> S' = ps_set_state Allocated S1)"

lemma drop_tables_zero [simp]: "drop_tables 0 K = K"
  by (simp add: drop_tables_def fun_eq_iff)

lemma released_facts:
  assumes "slot_ok S" "safe P pid S K" "\<And>k. foreign P pid k \<Longrightarrow> \<not> in_mask (ps_res_mask S) k"
  shows "slot_ok (released S)" "ps_res_mask (released S) = 0" "ps_state (released S) = Ok Unallocated"
    "safe P pid (released S) (drop_tables (ps_res_mask S) K)" "foreign P pid k \<Longrightarrow> drop_tables (ps_res_mask S) K k = K k"
proof -
  show ok: "slot_ok (released S)" and z: "ps_res_mask (released S) = 0" and st: "ps_state (released S) = Ok Unallocated"
    using assms(1) freed_facts [OF assms(1)] by (auto simp: released_def slot_ok_def)
  show f: "foreign P pid k \<Longrightarrow> drop_tables (ps_res_mask S) K k = K k" for k using assms(3) by (simp add: drop_tables_def)
  show "safe P pid (released S) (drop_tables (ps_res_mask S) K)"
    using ok assms(2) by (auto simp: safe_def slot_ok_safe drop_tables_def z split: if_splits)
qed

lemma release_achieves:
  fixes p :: "'e UnoHsmPal"
  assumes hw: "engine_ok (hw_engine hw)" and ok: "slot_ok S" and h: "held clean_slot pid P S K p"
  shows "achieves (part_free hw pid) p (\<lambda>_. held clean_slot pid P (released S) (drop_tables (ps_res_mask S) K)) E"
proof (rule achieves_mono [OF part_free_achieves [OF hw ok h]])
  have "ps_state S = Ok Unallocated \<Longrightarrow> drop_tables (ps_res_mask S) K = K" using ok by (simp add: slot_ok_def)
  then show "(if ps_state S = Ok Unallocated then held clean_slot pid P S K else held clean_slot pid P (freed S) (drop_tables (ps_res_mask S) K)) p' \<Longrightarrow>
    held clean_slot pid P (released S) (drop_tables (ps_res_mask S) K) p'" for p' :: "'e UnoHsmPal"
    by (auto simp: released_def split: if_splits)
qed

lemma finish_pf_achieves:
  fixes p :: "'e UnoHsmPal"
  assumes hw: "hw_ok hw" and un: "unclaimed P pid m" and g: "safe P pid S K" and z: "ps_res_mask S = 0"
    and a: "alloc_made pid m S K S1 K1" and h: "held clean_slot pid P S1 K1 p"
  shows "achieves (bindS (try_op (provision_enabled_keys hw pid)) (\<lambda>r. case r of
       Err e \<Rightarrow> bindS (rollback_alloc hw pid) (\<lambda>_. fails e)
     | Panic \<Rightarrow> (\<lambda>p. (Panic, p))
     | Ok _ \<Rightarrow> part_upd pid (ps_set_state Enabled))) p
    (\<lambda>_ p'. \<exists>S2 K'. held clean_slot pid P (ps_set_state Enabled S2) K' p' \<and> enabled_made pid S1 K1 S2 K')
    (\<lambda>e p'. \<exists>S'. held clean_slot pid P S' K p' \<and> slot_ok S' \<and> ps_res_mask S' = 0 \<and> ps_state S' = Ok Unallocated)"
    (is "achieves _ _ ?Q ?E")
proof (rule achieves_bind [OF try_achieves [OF provision_enabled_achieves [OF hw h]]])
  note al = alloc_confined [OF un g z a] and bare = bare_slot [OF g z]
  have s1: "safe P pid S1 K1" using al(1) by (simp add: confined_def)
  have eng: "engine_ok (hw_engine hw)" using hw by (simp add: hw_ok_def)
  fix r :: "unit run" and q :: "'e UnoHsmPal"
  assume r: "case r of Ok x \<Rightarrow> \<exists>S' K'. held clean_slot pid P S' K' q \<and> enabled_made pid S1 K1 S' K'
    | Err e \<Rightarrow> \<exists>S' K'. held clean_slot pid P S' K' q \<and> enabled_failed S1 S' \<and> K' = K1 | Panic \<Rightarrow> False"
  show "achieves (case r of
       Err e \<Rightarrow> bindS (rollback_alloc hw pid) (\<lambda>_. fails e)
     | Panic \<Rightarrow> (\<lambda>p. (Panic, p))
     | Ok _ \<Rightarrow> part_upd pid (ps_set_state Enabled)) q ?Q ?E"
  proof (cases r)
    case (Ok x)
    then obtain S2 K2 where s: "held clean_slot pid P S2 K2 q" "enabled_made pid S1 K1 S2 K2" using r by auto
    show ?thesis unfolding Ok run.case
      by (rule achieves_mono [OF part_upd_achieves [OF s(1)]]) (use s(2) in auto)
  next
    case (Err e)
    then obtain S2 where s: "held clean_slot pid P S2 K1 q" "enabled_failed S1 S2" using r by auto
    note f = enabled_failed_safe [OF s1 s(2)]
    have rb: "slot_ok (rolled_back S2)" "ps_res_mask (rolled_back S2) = 0" "ps_state (rolled_back S2) = Ok Unallocated"
      using rolled_back_ok [of S2] f(4,7) al(3,5) bare(1,3) by (metis, metis, metis)
    have K: "drop_keys [ps_id_key_id S2] K1 = K" using al(6) f(6) by simp
    show ?thesis unfolding Err run.case
      by (rule achieves_bind [OF rollback_achieves [OF eng s(1)]]) (use K rb in auto)
  qed (use r in simp)
qed

lemma part_alloc_achieves:
  fixes p :: "'e UnoHsmPal"
  assumes hw: "hw_ok hw" and ok: "slot_ok S" and g: "safe P pid S K" and h: "held clean_slot pid P S K p" and un: "unclaimed P pid m"
  shows "achieves (part_alloc hw pid m is_pf) p
    (\<lambda>_ p'. \<exists>S' K'. held clean_slot pid P S' K' p' \<and>
       (if m = ps_res_mask S \<and> ps_id_key_id S \<noteq> None then S' = S \<and> K' = K else allocated pid m is_pf S K S' K'))
    (\<lambda>_ p'. \<exists>S'. held clean_slot pid P S' (drop_tables (ps_res_mask S) K) p' \<and> slot_ok S' \<and> ps_res_mask S' = 0 \<and> ps_state S' = Ok Unallocated)"
    (is "achieves _ _ ?Q ?E")
proof -
  have eng: "engine_ok (hw_engine hw)" using hw by (simp add: hw_ok_def)
  note dis = foreign_disjoint [OF h]
  note rel = released_facts [OF ok g dis]
  obtain st where st: "ps_state S = Ok st" using ok by (auto simp: slot_ok_def)
  let ?tail = "\<lambda>pre. bindS (part_upd pid (ps_set_res_mask m)) (\<lambda>_.
         bindS (if m \<noteq> 0 then part_upd pid (ps_set_unwrapping_key_required True) else returns ()) (\<lambda>_.
         bindS (part_upd pid ps_bake_default_psks) (\<lambda>_.
         bindS (try_op (provision_allocation hw pid)) (\<lambda>r.
           case r of
             Err e \<Rightarrow> bindS (rollback_alloc hw pid) (\<lambda>_. fails e)
           | Panic \<Rightarrow> (\<lambda>p. (Panic, p))
           | Ok _ \<Rightarrow>
               if pre then
                 bindS (try_op (provision_enabled_keys hw pid)) (\<lambda>r.
                   case r of
                     Err e \<Rightarrow> bindS (rollback_alloc hw pid) (\<lambda>_. fails e)
                   | Panic \<Rightarrow> (\<lambda>p. (Panic, p))
                   | Ok _ \<Rightarrow> part_upd pid (ps_set_state Enabled))
               else part_upd pid (ps_set_state Allocated)))))"
  have fresh: "achieves (?tail False) q ?Q ?E"
    if new: "\<not> (m = ps_res_mask S \<and> ps_id_key_id S \<noteq> None)" and np: "\<not> pre_enabled is_pf S"
      and hq: "held clean_slot pid P (released S) (drop_tables (ps_res_mask S) K) q" for q :: "'e UnoHsmPal"
  proof -
    have "achieves (?tail False) q ?Q (\<lambda>e p'. (\<lambda>_ _. False) e p' \<or> ?E e p')"
    proof (rule allocate_achieves [OF hw rel(4) rel(2) hq un])
      fix S' K' and p' :: "'e UnoHsmPal"
      assume a: "held clean_slot pid P S' K' p'" "alloc_made pid m (released S) (drop_tables (ps_res_mask S) K) S' K'"
      show "achieves (if False then bindS (try_op (provision_enabled_keys hw pid)) (\<lambda>r. case r of
            Err e \<Rightarrow> bindS (rollback_alloc hw pid) (\<lambda>_. fails e) | Panic \<Rightarrow> (\<lambda>p. (Panic, p)) | Ok _ \<Rightarrow> part_upd pid (ps_set_state Enabled))
          else part_upd pid (ps_set_state Allocated)) p' ?Q (\<lambda>_ _. False)"
        unfolding if_False if_not_P [OF new] allocated_def if_not_P [OF np]
        by (rule achieves_mono [OF part_upd_achieves [OF a(1)]]) (use a(2) in auto)
    qed
    then show ?thesis by simp
  qed
  have early: "achieves (?tail True) q ?Q ?E"
    if new: "\<not> (m = ps_res_mask S \<and> ps_id_key_id S \<noteq> None)" and pre: "pre_enabled is_pf S"
      and hq: "held clean_slot pid P S K q" for q :: "'e UnoHsmPal"
  proof -
    have z: "ps_res_mask S = 0" using pre by (simp add: pre_enabled_def)
    have "achieves (?tail True) q ?Q (\<lambda>e p'. ?E e p' \<or> ?E e p')"
    proof -
      have fin: "achieves (if True then bindS (try_op (provision_enabled_keys hw pid)) (\<lambda>r. case r of
            Err e \<Rightarrow> bindS (rollback_alloc hw pid) (\<lambda>_. fails e) | Panic \<Rightarrow> (\<lambda>p. (Panic, p)) | Ok _ \<Rightarrow> part_upd pid (ps_set_state Enabled))
          else part_upd pid (ps_set_state Allocated)) p' ?Q ?E"
        if a: "held clean_slot pid P S' K' p'" "alloc_made pid m S K S' K'" for S' K' and p' :: "'e UnoHsmPal"
        unfolding if_True if_not_P [OF new] allocated_def if_P [OF pre]
        by (rule achieves_mono [OF finish_pf_achieves [OF hw un g z a(2,1)]]) (use a(2) z in \<open>blast, simp\<close>)
      show ?thesis
        using allocate_achieves [OF hw g z hq un fin] by (simp add: z)
    qed
    then show ?thesis by simp
  qed
  have pf: "achieves (if is_pf then part_op pid (\<lambda>s. (bindr (ps_state s) (\<lambda>st. Ok (st = Enabled \<and> ps_res_mask s = 0)), s)) else returns False) q
      (\<lambda>b q'. b = pre_enabled is_pf S \<and> held clean_slot pid P S K q') ?E"
    if hq: "held clean_slot pid P S K q" for q :: "'e UnoHsmPal"
  proof (cases is_pf)
    case True
    then show ?thesis
      using part_op_Ok [OF hq, of "\<lambda>s. (bindr (ps_state s) (\<lambda>st. Ok (st = Enabled \<and> ps_res_mask s = 0)), s)" "st = Enabled \<and> ps_res_mask S = 0" S ?E]
      by (simp add: st pre_enabled_def)
  qed (use hq in \<open>simp add: pre_enabled_def\<close>)
  have go: "achieves (bindS (if \<not> pre then part_free hw pid else returns ()) (\<lambda>_. ?tail pre)) q ?Q ?E"
    if new: "\<not> (m = ps_res_mask S \<and> ps_id_key_id S \<noteq> None)" and pre: "pre = pre_enabled is_pf S"
      and hq: "held clean_slot pid P S K q" for q :: "'e UnoHsmPal" and pre
  proof (cases pre)
    case True
    have "achieves (bindS (if \<not> True then part_free hw pid else returns ()) (\<lambda>_. ?tail True)) q ?Q ?E"
      by (rule achieves_bind [where R = "\<lambda>_. held clean_slot pid P S K"], use hq in simp, rule early [OF new])
        (use True pre in simp_all)
    then show ?thesis using True by (simp only:)
  next
    case False
    have "achieves (bindS (if \<not> False then part_free hw pid else returns ()) (\<lambda>_. ?tail False)) q ?Q ?E"
      unfolding not_False_eq_True if_True
      by (rule achieves_bind [OF release_achieves [OF eng ok hq]], rule fresh [OF new]) (use False pre in simp_all)
    then show ?thesis using False by (simp only:)
  qed
  show ?thesis
    unfolding part_alloc_def
  proof (rule achieves_bind [OF part_get_achieves [OF h]], elim conjE)
    fix replay and q :: "'e UnoHsmPal"
    assume rep: "replay = (m = ps_res_mask S \<and> ps_id_key_id S \<noteq> None)" and hq: "held clean_slot pid P S K q"
    show "achieves (if replay then returns ()
       else bindS (if is_pf then part_op pid (\<lambda>s. (bindr (ps_state s) (\<lambda>st. Ok (st = Enabled \<and> ps_res_mask s = 0)), s)) else returns False)
         (\<lambda>pre. bindS (if \<not> pre then part_free hw pid else returns ()) (\<lambda>_. ?tail pre))) q ?Q ?E"
    proof (cases replay)
      case True
      then show ?thesis using rep hq by auto
    next
      case False
      then have new: "\<not> (m = ps_res_mask S \<and> ps_id_key_id S \<noteq> None)" using rep by simp
      show ?thesis
        unfolding if_not_P [OF False]
        by (rule achieves_bind [OF pf [OF hq]], elim conjE, rule go [OF new])
    qed
  qed
qed

lemma allocated_ok:
  assumes ok: "slot_ok S" and g: "safe P pid S K" and dis: "\<And>k. foreign P pid k \<Longrightarrow> \<not> in_mask (ps_res_mask S) k"
    and un: "unclaimed P pid m" and a: "allocated pid m is_pf S K S' K'"
  shows "confined P pid K S' K'" "slot_ok S'" "ps_res_mask S' = m"
    "ps_state S' = Ok (if pre_enabled is_pf S then Enabled else Allocated)"
proof -
  have "confined P pid K S' K' \<and> slot_ok S' \<and> ps_res_mask S' = m \<and> ps_state S' = Ok (if pre_enabled is_pf S then Enabled else Allocated)"
  proof (cases "pre_enabled is_pf S")
    case True
    then obtain S1 K1 S2 where s: "alloc_made pid m S K S1 K1" "enabled_made pid S1 K1 S2 K'" "S' = ps_set_state Enabled S2"
      using a by (auto simp: allocated_def)
    have z: "ps_res_mask S = 0" using True by (simp add: pre_enabled_def)
    note al = alloc_confined [OF un g z s(1)]
    have d1: "foreign P pid k \<Longrightarrow> \<not> in_mask (ps_res_mask S1) k" for k using unclaimed_foreign [OF un] al(2) by simp
    have "safe P pid S1 K1" using al(1) by (simp add: confined_def)
    note e = enabled_confined [OF d1 this s(2)]
    have "confined P pid K S2 K'" using al(1) e(1) by (auto simp: confined_def)
    moreover have "slot_safe S2" using e(1) by (simp add: confined_def safe_def)
    ultimately show ?thesis
      using s(3) True e(2) al(2) slot_safe_kept(7) confined_slot [of P pid K S2 K' S'] by (simp add: slot_ok_safe)
  next
    case False
    then obtain S1 where s: "alloc_made pid m (released S) (drop_tables (ps_res_mask S) K) S1 K'" "S' = ps_set_state Allocated S1"
      using a by (auto simp: allocated_def)
    note rel = released_facts [OF ok g dis]
    note al = alloc_confined [OF un rel(4,2) s(1)]
    have "confined P pid K S1 K'" using al(1) rel(5) by (auto simp: confined_def)
    moreover have "slot_safe S1" using al(1) by (simp add: confined_def safe_def)
    ultimately show ?thesis
      using s(2) False al(2) slot_safe_kept(7) confined_slot [of P pid K S1 K' S'] by (simp add: slot_ok_safe)
  qed
  then show "confined P pid K S' K'" "slot_ok S'" "ps_res_mask S' = m"
    "ps_state S' = Ok (if pre_enabled is_pf S then Enabled else Allocated)" by simp_all
qed

section \<open>Enabling\<close>

definition enabled :: "u8 \<Rightarrow> bool \<Rightarrow> Storage \<Rightarrow> (HsmKeyId \<Rightarrow> vkey option) \<Rightarrow> Storage \<Rightarrow> (HsmKeyId \<Rightarrow> vkey option) \<Rightarrow> bool" where
  "enabled pid is_pf S K S' K' \<longleftrightarrow>
     (\<exists>S1. enabled_made pid S K S1 K' \<and> S' = ps_set_state Enabled S1 \<and> ps_state S \<in> {Ok Allocated, Ok Disabled}) \<or>
     (is_pf \<and> ps_state S = Ok Unallocated \<and> S' = ps_set_state Enabled S \<and> K' = K) \<or>
     (ps_state S = Ok Enabled \<and> S' = S \<and> K' = K)"

lemma part_enable_achieves:
  fixes p :: "'e UnoHsmPal"
  assumes hw: "hw_ok hw" and st: "ps_state S = Ok st" and h: "held clean_slot pid P S K p"
  shows "achieves (part_enable hw pid is_pf) p
    (\<lambda>_ p'. \<exists>S' K'. held clean_slot pid P S' K' p' \<and> enabled pid is_pf S K S' K')
    (\<lambda>_ p'. \<exists>S'. held clean_slot pid P S' K p' \<and> (S' = S \<or> enabled_failed S S'))" (is "achieves _ _ ?Q ?E")
  unfolding part_enable_def
proof (rule achieves_bind [OF part_op_Ok [OF h, where x = st and S' = S]])
  fix state and q :: "'e UnoHsmPal" assume "state = st \<and> held clean_slot pid P S K q"
  then have state: "state = st" and hq: "held clean_slot pid P S K q" by simp_all
  have keys: "achieves (bindS (provision_enabled_keys hw pid) (\<lambda>_. part_upd pid (ps_set_state Enabled))) q ?Q ?E"
    if "st = Allocated \<or> st = Disabled"
  proof (rule achieves_bind [OF achieves_errs [OF provision_enabled_achieves [OF hw hq]]], blast)
    fix x :: unit and q1 :: "'e UnoHsmPal" assume "\<exists>S' K'. held clean_slot pid P S' K' q1 \<and> enabled_made pid S K S' K'"
    then obtain S1 K1 where s: "held clean_slot pid P S1 K1 q1" "enabled_made pid S K S1 K1" by blast
    show "achieves (part_upd pid (ps_set_state Enabled)) q1 ?Q ?E"
      by (rule achieves_mono [OF part_upd_achieves [OF s(1)]], simp, unfold enabled_def)
        (use s(2) st that in blast)+
  qed
  have pf: "achieves (part_upd pid (ps_set_state Enabled)) q ?Q ?E" if "st = Unallocated" "is_pf"
    by (rule achieves_mono [OF part_upd_achieves [OF hq]], simp, unfold enabled_def) (use st that in blast)+
  show "achieves (if state = Allocated \<or> state = Disabled then
         bindS (provision_enabled_keys hw pid) (\<lambda>_. part_upd pid (ps_set_state Enabled))
       else if state = Unallocated \<and> is_pf then part_upd pid (ps_set_state Enabled)
       else if state = Enabled then returns () else fails InvalidArg) q ?Q ?E"
    unfolding state
    by (rule achieves_if, erule keys, rule achieves_if, rule pf) (use hq st in \<open>auto simp: enabled_def\<close>)
qed (use st in simp_all)

lemma enabled_ok:
  assumes ok: "slot_ok S" and g: "safe P pid S K" and dis: "\<And>k. foreign P pid k \<Longrightarrow> \<not> in_mask (ps_res_mask S) k"
    and e: "enabled pid is_pf S K S' K'"
  shows "confined P pid K S' K'" "slot_ok S'" "ps_res_mask S' = ps_res_mask S" "ps_state S' = Ok Enabled"
proof -
  have "confined P pid K S' K' \<and> slot_ok S' \<and> ps_res_mask S' = ps_res_mask S \<and> ps_state S' = Ok Enabled"
    using e unfolding enabled_def
  proof (elim disjE exE conjE)
    fix S1 assume s: "enabled_made pid S K S1 K'" "S' = ps_set_state Enabled S1"
    note c = enabled_confined [OF dis g s(1)]
    have "slot_safe S1" using c(1) by (simp add: confined_def safe_def)
    then show ?thesis using s(2) c(2) slot_safe_kept(7) confined_slot [OF c(1), of S'] by (simp add: slot_ok_safe)
  next
    assume s: "S' = ps_set_state Enabled S" "K' = K"
    have "slot_safe S" using g by (simp add: safe_def)
    then show ?thesis
      using s slot_safe_kept(7) confined_slot [OF confined_refl [OF g], of S'] by (simp add: slot_ok_safe)
  next
    assume "ps_state S = Ok Enabled" "S' = S" "K' = K"
    then show ?thesis using ok confined_refl [OF g] by simp
  qed
  then show "confined P pid K S' K'" "slot_ok S'" "ps_res_mask S' = ps_res_mask S" "ps_state S' = Ok Enabled" by simp_all
qed

lemma enable_failed_ok:
  assumes ok: "slot_ok S" and g: "safe P pid S K" and e: "S' = S \<or> enabled_failed S S'"
  shows "confined P pid K S' K" "slot_ok S'" "ps_res_mask S' = ps_res_mask S" "ps_state S' = ps_state S"
  using e enabled_failed_safe [OF g, of S'] ok confined_refl g by (auto simp: slot_ok_safe safe_def confined_def)

end
