(* ===== verification/UnoReset.thy ===== *)
theory UnoReset
  imports UnoTransitions
begin

text \<open>
  Disabling and migration of a partition: what they leave of the slot and of the keys, and that they keep
  every slot in order and touch no key of another partition.
\<close>

section \<open>Disabling\<close>

fun drop_occupied :: "u128 \<Rightarrow> nat \<Rightarrow> u16 option list \<Rightarrow> (HsmKeyId \<Rightarrow> vkey option) \<Rightarrow> HsmKeyId \<Rightarrow> vkey option" where
  "drop_occupied m i [] K = K"
| "drop_occupied m i (None # ks) K = drop_occupied m (i + 1) ks K"
| "drop_occupied m i (Some _ # ks) K = drop_occupied m (i + 1) ks (drop_session m (of_nat i) K)"

text \<open>The keys that are left: those outside the tables, and those not bound to one of the sessions.\<close>

lemma drop_session_sub:
  "drop_session m s K k = Some v \<Longrightarrow> K k = Some v" "\<not> in_mask m k \<Longrightarrow> drop_session m s K k = K k"
  "K k = Some v \<Longrightarrow> vk_session v \<noteq> Some s \<Longrightarrow> drop_session m s K k = Some v"
  by (auto simp: drop_session_def split: option.splits if_splits)

lemma drop_occupied_sub:
  "drop_occupied m i ks K k = Some v \<Longrightarrow> K k = Some v"
  "\<not> in_mask m k \<Longrightarrow> drop_occupied m i ks K k = K k"
  "K k = Some v \<Longrightarrow> vk_session v = None \<Longrightarrow> drop_occupied m i ks K k = Some v"
proof -
  show "drop_occupied m i ks K k = Some v \<Longrightarrow> K k = Some v"
    by (induction m i ks K rule: drop_occupied.induct) (auto dest: drop_session_sub(1))
  show "\<not> in_mask m k \<Longrightarrow> drop_occupied m i ks K k = K k"
    by (induction m i ks K rule: drop_occupied.induct) (auto simp: drop_session_sub(2))
  show "K k = Some v \<Longrightarrow> vk_session v = None \<Longrightarrow> drop_occupied m i ks K k = Some v"
  proof (induction m i ks K rule: drop_occupied.induct)
    case (3 m i x ks K)
    then show ?case using drop_session_sub(3) [of K k v "of_nat i" m] by simp
  qed simp_all
qed

lemma delete_occupied_achieves:
  fixes p :: "'e UnoHsmPal"
  assumes hw: "engine_ok (hw_engine hw)" and h: "held c pid P S K p"
  shows "achieves (delete_occupied hw (admin_no_scrub pid) i ks) p
    (\<lambda>_. held c pid P S (drop_occupied (ps_res_mask S) i ks K))
    (\<lambda>_ p'. \<exists>j. held c pid P S (drop_occupied (ps_res_mask S) i (take j ks) K) p')"
  using h
proof (induction ks arbitrary: i K p)
  case (Cons x ks)
  show ?case
  proof (cases x)
    case None
    have "drop_occupied (ps_res_mask S) (i + 1) (take j ks) K = drop_occupied (ps_res_mask S) i (take (Suc j) (None # ks)) K" for j by simp
    then show ?thesis
      unfolding None delete_occupied.simps drop_occupied.simps
      by (intro achieves_errs [OF Cons.IH [OF Cons.prems]]) metis
  next
    case (Some k)
    let ?K = "drop_session (ps_res_mask S) (of_nat i) K"
    have t: "drop_occupied (ps_res_mask S) (i + 1) (take j ks) ?K = drop_occupied (ps_res_mask S) i (take (Suc j) (Some k # ks)) K" for j by simp
    show ?thesis
      unfolding Some delete_occupied.simps drop_occupied.simps
    proof (rule achieves_bind [OF achieves_errs [OF by_session_achieves [OF hw Cons.prems]]])
      fix e :: HsmError and q :: "'e UnoHsmPal" assume "held c pid P S K q"
      then show "\<exists>j. held c pid P S (drop_occupied (ps_res_mask S) i (take j (Some k # ks)) K) q" by (intro exI [of _ 0]) simp
    next
      fix x' :: unit and q :: "'e UnoHsmPal" assume "held c pid P S ?K q"
      from Cons.IH [OF this, of "i + 1"] show "achieves (delete_occupied hw (admin_no_scrub pid) (i + 1) ks) q
          (\<lambda>_. held c pid P S (drop_occupied (ps_res_mask S) (i + 1) ks ?K))
          (\<lambda>_ p'. \<exists>j. held c pid P S (drop_occupied (ps_res_mask S) i (take j (Some k # ks)) K) p')"
        by (rule achieves_errs) (use t in metis)
    qed
  qed
qed (auto intro: exI [of _ 0])

text \<open>The keys that a disable leaves.\<close>

definition disabled_keys :: "Storage \<Rightarrow> (HsmKeyId \<Rightarrow> vkey option) \<Rightarrow> HsmKeyId \<Rightarrow> vkey option" where
  "disabled_keys S K =
     (let occ = occupied_physical_ids (session_table_of S)
      in drop_keys (enabled_handles S @ occ) (drop_occupied (ps_res_mask S) 0 occ K))"

lemma part_disable_achieves:
  fixes p :: "'e UnoHsmPal"
  assumes hw: "engine_ok (hw_engine hw)" and st: "ps_state S = Ok st" and h: "held clean_slot pid P S K p"
  shows "achieves (part_disable hw pid) p
    (\<lambda>_ p'. st = Enabled \<and> held clean_slot pid P (ps_set_state Disabled (cleared S)) (disabled_keys S K) p')
    (\<lambda>e p'. \<exists>j. held clean_slot pid P S (drop_occupied (ps_res_mask S) 0 (take j (occupied_physical_ids (session_table_of S))) K) p' \<and>
       (st \<noteq> Enabled \<longrightarrow> e = InvalidArg \<and> j = 0))" (is "achieves _ _ ?Q ?E")
  unfolding part_disable_def
proof (rule achieves_bind [OF part_op_Ok [OF h, where x = st and S' = S]])
  fix state and q :: "'e UnoHsmPal" assume "state = st \<and> held clean_slot pid P S K q"
  then have state: "state = st" and hq: "held clean_slot pid P S K q" by simp_all
  let ?occ = "occupied_physical_ids (session_table_of S)"
  have admin: "achieves (with_admin_io hw pid (\<lambda>admin_io.
           bindS (part_get pid (\<lambda>s. occupied_physical_ids (session_table_of s))) (\<lambda>occ.
           bindS (delete_occupied hw admin_io 0 occ) (\<lambda>_. clear_enabled_state hw admin_io pid)))) q
      (\<lambda>_ p'. \<exists>S' K'. held clean_slot pid P S' K' p' \<and> S' = cleared S \<and> K' = disabled_keys S K)
      (\<lambda>_ p'. \<exists>S' K'. held clean_slot pid P S' K' p' \<and> S' = S \<and> (\<exists>j. K' = drop_occupied (ps_res_mask S) 0 (take j ?occ) K))"
  proof (rule with_admin_io_achieves [OF hw hq], goal_cases)
    case (1 p1)
    show ?case
      apply (rule achieves_bind [OF part_get_achieves [OF 1]], elim conjE, simp only:)
      apply (rule achieves_bind [OF achieves_errs [OF delete_occupied_achieves [OF hw]]], assumption, blast)
      apply (rule achieves_mono [OF clear_enabled_state_achieves [OF hw]], assumption)
      by (auto simp: disabled_keys_def Let_def)
  qed
  show "achieves (if state = Enabled then
         bindS (with_admin_io hw pid (\<lambda>admin_io.
           bindS (part_get pid (\<lambda>s. occupied_physical_ids (session_table_of s))) (\<lambda>occ.
           bindS (delete_occupied hw admin_io 0 occ) (\<lambda>_. clear_enabled_state hw admin_io pid)))) (\<lambda>_.
           part_upd pid (ps_set_state Disabled))
       else fails InvalidArg) q ?Q ?E"
    unfolding state
    by (rule achieves_if, rule achieves_bind [OF achieves_errs [OF admin]], blast, elim exE conjE,
        rule achieves_mono [OF part_upd_achieves], assumption)
      (use hq in \<open>auto intro: exI [of _ 0]\<close>)
qed (use st in simp_all)

lemma disabled_ok:
  assumes ok: "slot_ok S" and g: "safe P pid S K" and dis: "\<And>k. foreign P pid k \<Longrightarrow> \<not> in_mask (ps_res_mask S) k"
  shows "confined P pid K (ps_set_state Disabled (cleared S)) (disabled_keys S K)" "slot_ok (ps_set_state Disabled (cleared S))"
    "confined P pid K S (drop_occupied (ps_res_mask S) 0 ks K)"
proof -
  have c: "slot_ok (cleared S)" by (rule slot_ok_cleared [OF ok])
  then show "slot_ok (ps_set_state Disabled (cleared S))" using slot_safe_kept(7) by (auto simp: slot_ok_safe)
  then have s: "slot_safe (ps_set_state Disabled (cleared S))" by (simp add: slot_ok_safe)
  have mine: "Some k \<in> set (enabled_handles S @ occupied_physical_ids (session_table_of S)) \<Longrightarrow> in_mask (ps_res_mask S) k" for k
    using ok by (auto simp: slot_ok_def all_handles_def)
  have sub': "drop_occupied m i ks K k \<noteq> None \<Longrightarrow> K k \<noteq> None" for m i ks k
    by (cases "drop_occupied m i ks K k") (auto dest: drop_occupied_sub(1))
  have sub: "disabled_keys S K k \<noteq> None \<Longrightarrow> K k \<noteq> None" for k
    using sub' [of _ _ _ k] by (auto simp: disabled_keys_def drop_keys_def Let_def split: if_splits)
  have "foreign P pid k \<Longrightarrow> disabled_keys S K k = K k" for k
    using dis [of k] mine [of k] drop_occupied_sub(2) by (auto simp: disabled_keys_def drop_keys_def Let_def)
  then show "confined P pid K (ps_set_state Disabled (cleared S)) (disabled_keys S K)"
    using g s sub unfolding confined_def safe_def by simp
  show "confined P pid K S (drop_occupied (ps_res_mask S) 0 ks K)"
    using g dis sub' drop_occupied_sub(2) unfolding confined_def safe_def by blast
qed

section \<open>Migration\<close>

definition migrated :: "Storage \<Rightarrow> Storage" where
  "migrated S =
     (let S1 = ps_clear_state Migrate S
      in ps_clear_identity (put_session_table (snd (clear_all (session_table_of S1))) S1))"

lemma migrated_facts:
  assumes "session_wf (session_table_of S)"
  shows "slot_safe (migrated S)" "ps_state (migrated S) = ps_state S" "ps_res_mask (migrated S) = ps_res_mask S"
    "\<And>k. Some k \<notin> set (all_handles (migrated S))" "session_view (session_table_of (migrated S)) = (\<lambda>_. SFree)"
proof -
  have wf: "session_wf (session_table_of (ps_clear_state Migrate S))"
    using meta_zero(1) [OF assms] by (simp add: session_clear_state)
  note c = clear_all_empty [OF wf]
  show "ps_state (migrated S) = ps_state S" "ps_res_mask (migrated S) = ps_res_mask S"
    "session_view (session_table_of (migrated S)) = (\<lambda>_. SFree)"
    by (simp_all add: migrated_def Let_def c)
  have "field_handles (migrated S) = replicate 10 None"
    by (simp add: migrated_def Let_def clear_identity_handles clear_state_handles numeral_eq_Suc)
  then show no: "Some k \<notin> set (all_handles (migrated S))" for k
    using c(2) by (simp add: all_handles_split) (simp add: migrated_def Let_def)
  then show "slot_safe (migrated S)" using c(1) by (simp add: slot_safe_def) (simp add: migrated_def Let_def)
qed

text \<open>What a migration leaves: the slot as before, reset without tables, or reset with new keys.\<close>

lemma part_migrate_achieves:
  fixes p :: "'e UnoHsmPal"
  assumes hw: "hw_ok hw" and st: "ps_state S = Ok st" and h: "held clean_slot pid P S K p"
  shows "achieves (part_migrate hw pid) p
    (\<lambda>_ p'. \<exists>S' K'. held clean_slot pid P S' K' p' \<and>
       (if st = Unallocated then S' = S \<and> K' = K
        else if ps_res_mask S = 0 then S' = migrated S \<and> K' = K
        else \<exists>S1 K1 S2. identity_made pid (migrated S) (drop_tables (ps_res_mask S) K) S1 K1 \<and> enabled_made pid S1 K1 S2 K' \<and>
          S' = ps_set_state Enabled S2))
    (\<lambda>_ p'. \<exists>S' K'. held clean_slot pid P S' K' p' \<and> st \<noteq> Unallocated \<and> ps_res_mask S \<noteq> 0 \<and>
       (pair_failed Ecc384Private (migrated S) S' \<and> K' = drop_tables (ps_res_mask S) K \<or>
        (\<exists>S1. identity_made pid (migrated S) (drop_tables (ps_res_mask S) K) S1 K' \<and> enabled_failed S1 S')))"
    (is "achieves _ _ ?Q ?E")
  unfolding part_migrate_def
proof (rule achieves_bind [OF part_op_Ok [OF h, where x = st and S' = S]])
  fix state and q :: "'e UnoHsmPal" assume "state = st \<and> held clean_slot pid P S K q"
  then have state: "state = st" and hq: "held clean_slot pid P S K q" by simp_all
  have eng: "engine_ok (hw_engine hw)" using hw by (simp add: hw_ok_def)
  let ?K = "drop_tables (ps_res_mask S) K"
  have wipe: "achieves (with_admin_io hw pid (\<lambda>admin_io. pal_vault_clear hw admin_io)) q1 (\<lambda>_. held clean_slot pid P S ?K) ?E"
    if "held clean_slot pid P S K q1" for q1 :: "'e UnoHsmPal"
    by (rule achieves_mono [OF with_admin_io_achieves [OF eng that, where Q = "\<lambda>_ S' K'. S' = S \<and> K' = ?K" and E = "\<lambda>_ _ _. False"]],
        rule achieves_mono [OF vault_clear_achieves [OF eng]]) auto
  have again: "achieves (bindS (provision_identity hw pid) (\<lambda>_. bindS (provision_enabled_keys hw pid) (\<lambda>_. part_upd pid (ps_set_state Enabled)))) q1 ?Q ?E"
    if h1: "held clean_slot pid P (migrated S) ?K q1" and c: "st \<noteq> Unallocated" "ps_res_mask S \<noteq> 0" for q1 :: "'e UnoHsmPal"
  proof (rule achieves_bind [OF achieves_errs [OF provision_identity_achieves [OF hw h1]]], use c in blast)
    fix x :: unit and q2 :: "'e UnoHsmPal" assume "\<exists>S' K'. held clean_slot pid P S' K' q2 \<and> identity_made pid (migrated S) ?K S' K'"
    then obtain S1 K1 where s1: "held clean_slot pid P S1 K1 q2" "identity_made pid (migrated S) ?K S1 K1" by blast
    show "achieves (bindS (provision_enabled_keys hw pid) (\<lambda>_. part_upd pid (ps_set_state Enabled))) q2 ?Q ?E"
    proof (rule achieves_bind [OF achieves_errs [OF provision_enabled_achieves [OF hw s1(1)]]], use c s1(2) in blast)
      fix y :: unit and q3 :: "'e UnoHsmPal" assume "\<exists>S' K'. held clean_slot pid P S' K' q3 \<and> enabled_made pid S1 K1 S' K'"
      then obtain S2 K2 where s2: "held clean_slot pid P S2 K2 q3" "enabled_made pid S1 K1 S2 K2" by blast
      have "?Q () q4" if "held clean_slot pid P (ps_set_state Enabled S2) K2 q4" for q4 :: "'e UnoHsmPal"
        unfolding if_not_P [OF c(1)] if_not_P [OF c(2)] using that s1(2) s2(2) by blast
      then show "achieves (part_upd pid (ps_set_state Enabled)) q3 ?Q ?E"
        by (intro achieves_mono [OF part_upd_achieves [OF s2(1)]]) simp_all
    qed
  qed
  show "achieves (if state = Unallocated then returns ()
       else bindS (part_get pid ps_res_mask) (\<lambda>m.
         if m = 0 then
           bindS (part_upd pid (ps_clear_state Migrate)) (\<lambda>_.
           bindS (session_op pid clear_all) (\<lambda>_. part_upd pid ps_clear_identity))
         else
           bindS (with_admin_io hw pid (\<lambda>admin_io. pal_vault_clear hw admin_io)) (\<lambda>_.
           bindS (part_upd pid (ps_clear_state Migrate)) (\<lambda>_.
           bindS (session_op pid clear_all) (\<lambda>_.
           bindS (part_upd pid ps_clear_identity) (\<lambda>_.
           bindS (provision_identity hw pid) (\<lambda>_.
           bindS (provision_enabled_keys hw pid) (\<lambda>_.
             part_upd pid (ps_set_state Enabled))))))))) q ?Q ?E"
    unfolding state
    apply (rule achieves_if)
    subgoal using hq by auto
    apply (rule achieves_bind [OF part_get_achieves [OF hq]], elim conjE, hypsubst)
    apply (rule achieves_if)
    subgoal
      apply (rule achieves_bind [OF part_upd_achieves], assumption, simp)
      apply (rule achieves_bind [OF session_op_achieves [OF _ session_runs(2)]], assumption)
      apply (elim conjE, rule achieves_mono [OF part_upd_achieves], assumption)
      by (auto simp: migrated_def Let_def)
    subgoal
      apply (rule achieves_bind [OF wipe], assumption)
      apply (rule achieves_bind [OF part_upd_achieves], assumption, simp)
      apply (rule achieves_bind [OF session_op_achieves [OF _ session_runs(2)]], assumption)
      apply (elim conjE, rule achieves_bind [OF part_upd_achieves], assumption, simp)
      by (rule again) (simp_all add: migrated_def Let_def)
    done
qed (use st in simp_all)

lemma migrate_ok:
  assumes ok: "slot_ok S" and g: "safe P pid S K" and dis: "\<And>k. foreign P pid k \<Longrightarrow> \<not> in_mask (ps_res_mask S) k"
    and st: "ps_state S = Ok st" "st \<noteq> Unallocated"
  shows "confined P pid K (migrated S) (drop_tables (ps_res_mask S) K)" "slot_ok (migrated S)"
    and "pair_failed Ecc384Private (migrated S) S' \<Longrightarrow> confined P pid K S' (drop_tables (ps_res_mask S) K) \<and> slot_ok S' \<and> ps_res_mask S' = ps_res_mask S"
    and "identity_made pid (migrated S) (drop_tables (ps_res_mask S) K) S1 K1 \<Longrightarrow> enabled_failed S1 S' \<Longrightarrow>
      confined P pid K S' K1 \<and> slot_ok S' \<and> ps_res_mask S' = ps_res_mask S"
    and "identity_made pid (migrated S) (drop_tables (ps_res_mask S) K) S1 K1 \<Longrightarrow> enabled_made pid S1 K1 S2 K' \<Longrightarrow>
      confined P pid K (ps_set_state Enabled S2) K' \<and> slot_ok (ps_set_state Enabled S2) \<and> ps_res_mask S2 = ps_res_mask S"
proof -
  let ?K = "drop_tables (ps_res_mask S) K"
  have wf: "session_wf (session_table_of S)" using ok by (simp add: slot_ok_def)
  note m = migrated_facts [OF wf]
  have safe: "safe P pid (migrated S) ?K" and fK: "foreign P pid k \<Longrightarrow> ?K k = K k" for k
    using g m(1,3) dis by (auto simp: safe_def drop_tables_def split: if_splits)
  then show conf: "confined P pid K (migrated S) ?K" by (simp add: confined_def)
  show "slot_ok (migrated S)" using m st by (simp add: slot_ok_safe)
  have dis1: "foreign P pid k \<Longrightarrow> \<not> in_mask (ps_res_mask (migrated S)) k" for k using dis m(3) by simp
  show "confined P pid K S' ?K \<and> slot_ok S' \<and> ps_res_mask S' = ps_res_mask S" if f: "pair_failed Ecc384Private (migrated S) S'"
    using pair_failed_safe [OF safe f] fK m(2,3) st by (auto simp: confined_def slot_ok_safe safe_def)
  assume id: "identity_made pid (migrated S) ?K S1 K1"
  note i = identity_confined [OF dis1 safe id]
  have s1: "safe P pid S1 K1" and f1: "foreign P pid k \<Longrightarrow> K1 k = K k" for k using i(1) fK by (simp_all add: confined_def)
  have dis2: "foreign P pid k \<Longrightarrow> \<not> in_mask (ps_res_mask S1) k" for k using dis1 i(2) by simp
  show "confined P pid K S' K1 \<and> slot_ok S' \<and> ps_res_mask S' = ps_res_mask S" if f: "enabled_failed S1 S'"
    using enabled_failed_safe(1-4) [OF s1 f] f1 i(2,4) m(2,3) st by (auto simp: confined_def slot_ok_safe safe_def)
  assume e: "enabled_made pid S1 K1 S2 K'"
  note en = enabled_confined [OF dis2 s1 e]
  have "slot_safe S2" using en(1) by (simp add: confined_def safe_def)
  moreover have "confined P pid K S2 K'" using en(1) f1 by (simp add: confined_def)
  ultimately show "confined P pid K (ps_set_state Enabled S2) K' \<and> slot_ok (ps_set_state Enabled S2) \<and> ps_res_mask S2 = ps_res_mask S"
    using slot_safe_kept(7) confined_slot [of P pid K S2 K' "ps_set_state Enabled S2"] en(2) i(2) m(3) by (simp add: slot_ok_safe)
qed

end
