(* ===== verification/UnoInvariant.thy ===== *)
theory UnoInvariant
  imports UnoReset UnoIpc
begin

text \<open>
  The invariant of the whole Uno PAL between two admin messages, that every lifecycle operation keeps it
  whatever it returns, and that none reaches beyond its partition. The step relation of the HSM core runs
  the message handler of \<open>pal.rs\<close>; the invariant follows for every history of messages in which the admin
  core assigns no key-vault table to two partitions.
\<close>

section \<open>The invariant\<close>

definition pal_inv :: "'e UnoHsmPal \<Rightarrow> bool" where
  "pal_inv p \<longleftrightarrow> vault_ok p \<and> fp_inv p \<and> ADMIN_IO_INDEX < length (pal_io_slots p) \<and>
     clean_slot (pal_io_slots p ! ADMIN_IO_INDEX) \<and> length (pal_parts p) = NUM_PARTITIONS \<and>
     (\<forall>i < NUM_PARTITIONS. slot_ok (pal_parts p ! i)) \<and>
     (\<forall>k. pal_keys p k \<noteq> None \<longrightarrow> (\<exists>i < NUM_PARTITIONS. in_mask (ps_res_mask (pal_parts p ! i)) k))"

text \<open>Nothing of another partition differs: neither its slot nor a key in its tables.\<close>

definition isolated :: "u8 \<Rightarrow> 'e UnoHsmPal \<Rightarrow> 'e UnoHsmPal \<Rightarrow> bool" where
  "isolated pid p p' \<longleftrightarrow>
     (\<forall>j < NUM_PARTITIONS. j \<noteq> unat pid \<longrightarrow> pal_parts p' ! j = pal_parts p ! j) \<and>
     (\<forall>k. foreign (pal_parts p) pid k \<longrightarrow> pal_keys p' k = pal_keys p k)"

definition admin_step_ok :: "u8 \<Rightarrow> 'e UnoHsmPal \<Rightarrow> 'e UnoHsmPal \<Rightarrow> bool" where
  "admin_step_ok pid p p' \<longleftrightarrow> pal_inv p' \<and> isolated pid p p'"

lemma pal_inv_held:
  fixes p :: "'e UnoHsmPal"
  assumes inv: "pal_inv p" and pid: "unat pid < NUM_PARTITIONS"
  defines "S \<equiv> pal_parts p ! unat pid"
  shows "held clean_slot pid (pal_parts p) S (pal_keys p) p" "slot_ok S" "safe (pal_parts p) pid S (pal_keys p)"
proof -
  note i = inv [unfolded pal_inv_def]
  show "held clean_slot pid (pal_parts p) S (pal_keys p) p"
    using i pid by (simp add: held_def steady_def admin_io_views [OF pid] S_def)
  show ok: "slot_ok S" using i pid by (simp add: S_def)
  show "safe (pal_parts p) pid S (pal_keys p)"
    using ok i unfolding safe_def slot_ok_safe foreign_def S_def by metis
qed

lemma held_step_ok:
  fixes p p' :: "'e UnoHsmPal"
  assumes inv: "pal_inv p" and h: "held clean_slot pid (pal_parts p) S' K' p'" and ok: "slot_ok S'"
    and c: "confined (pal_parts p) pid (pal_keys p) S' K'"
  shows "admin_step_ok pid p p'"
proof -
  note h' = h [unfolded held_def]
  have pid: "unat pid < NUM_PARTITIONS" using h' by blast
  have parts: "pal_parts p' ! j = (if j = unat pid then S' else pal_parts p ! j)" if "j < NUM_PARTITIONS" for j
    using h' that by (auto simp: nth_list_update)
  have "slot_ok (pal_parts p' ! j)" if "j < NUM_PARTITIONS" for j
    using parts [OF that] ok inv that by (simp add: pal_inv_def)
  moreover have "\<exists>j < NUM_PARTITIONS. in_mask (ps_res_mask (pal_parts p' ! j)) k" if "pal_keys p' k \<noteq> None" for k
  proof -
    have "in_mask (ps_res_mask S') k \<or> foreign (pal_parts p) pid k" using that c h' by (simp add: confined_def safe_def)
    then show ?thesis using parts pid unfolding foreign_def by metis
  qed
  ultimately have "pal_inv p'"
    using h' admin_io_views [OF pid] by (auto simp: pal_inv_def steady_def)
  moreover have "isolated pid p p'" using parts c h' by (simp add: isolated_def confined_def)
  ultimately show ?thesis by (simp add: admin_step_ok_def)
qed

section \<open>Lifecycle operations\<close>

text \<open>Each operation ends, does not panic and leaves an allowed state, on success and on every error.\<close>

abbreviation (input) keeps_inv :: "u8 \<Rightarrow> ('e UnoHsmPal, 'a) op \<Rightarrow> 'e UnoHsmPal \<Rightarrow> bool" where
  "keeps_inv pid m p \<equiv> achieves m p (\<lambda>_. admin_step_ok pid p) (\<lambda>_. admin_step_ok pid p)"

lemma free_keeps_inv:
  fixes p :: "'e UnoHsmPal"
  assumes hw: "hw_ok hw" and inv: "pal_inv p" and pid: "unat pid < NUM_PARTITIONS"
  shows "keeps_inv pid (part_free hw pid) p"
proof -
  note start = pal_inv_held [OF inv pid]
  note rel = released_facts [OF start(2,3) foreign_disjoint [OF start(1)]]
  show ?thesis
    by (rule achieves_mono [OF release_achieves [OF _ start(2,1), where E = "\<lambda>_ _. False"]])
      (use hw rel in \<open>auto simp: hw_ok_def confined_def intro!: held_step_ok [OF inv]\<close>)
qed

lemma alloc_keeps_inv:
  fixes p :: "'e UnoHsmPal"
  assumes hw: "hw_ok hw" and inv: "pal_inv p" and pid: "unat pid < NUM_PARTITIONS" and un: "unclaimed (pal_parts p) pid m"
  shows "keeps_inv pid (part_alloc hw pid m is_pf) p"
proof -
  note start = pal_inv_held [OF inv pid]
  note dis = foreign_disjoint [OF start(1)]
  note rel = released_facts [OF start(2,3) dis]
  show ?thesis
  proof (rule achieves_mono [OF part_alloc_achieves [OF hw start(2,3,1) un, of is_pf]]; elim exE conjE)
    fix x :: unit and q :: "'e UnoHsmPal" and S' K'
    assume h: "held clean_slot pid (pal_parts p) S' K' q"
      and r: "if m = ps_res_mask (pal_parts p ! unat pid) \<and> ps_id_key_id (pal_parts p ! unat pid) \<noteq> None
        then S' = pal_parts p ! unat pid \<and> K' = pal_keys p else allocated pid m is_pf (pal_parts p ! unat pid) (pal_keys p) S' K'"
    then show "admin_step_ok pid p q"
      using held_step_ok [OF inv h] allocated_ok [OF start(2,3) dis un] start(2) confined_refl [OF start(3)] by (auto split: if_splits)
  next
    fix e and q :: "'e UnoHsmPal" and S'
    assume h: "held clean_slot pid (pal_parts p) S' (drop_tables (ps_res_mask (pal_parts p ! unat pid)) (pal_keys p)) q"
      and s: "slot_ok S'" "ps_res_mask S' = 0"
    have "safe (pal_parts p) pid S' (drop_tables (ps_res_mask (pal_parts p ! unat pid)) (pal_keys p))"
      using rel(4) s unfolding safe_def slot_ok_safe by (simp add: rel(2))
    then show "admin_step_ok pid p q" using rel(5) by (intro held_step_ok [OF inv h s(1)]) (simp add: confined_def)
  qed
qed

lemma enable_keeps_inv:
  fixes p :: "'e UnoHsmPal"
  assumes hw: "hw_ok hw" and inv: "pal_inv p" and pid: "unat pid < NUM_PARTITIONS"
  shows "keeps_inv pid (part_enable hw pid is_pf) p"
proof -
  note start = pal_inv_held [OF inv pid]
  note dis = foreign_disjoint [OF start(1)]
  obtain st where st: "ps_state (pal_parts p ! unat pid) = Ok st" using start(2) by (auto simp: slot_ok_def)
  show ?thesis
    by (rule achieves_mono [OF part_enable_achieves [OF hw st start(1)]])
      (use held_step_ok [OF inv] enabled_ok [OF start(2,3) dis] enable_failed_ok [OF start(2,3)] in blast)+
qed

lemma disable_keeps_inv:
  fixes p :: "'e UnoHsmPal"
  assumes hw: "hw_ok hw" and inv: "pal_inv p" and pid: "unat pid < NUM_PARTITIONS"
  shows "keeps_inv pid (part_disable hw pid) p"
proof -
  note start = pal_inv_held [OF inv pid]
  note d = disabled_ok [OF start(2,3) foreign_disjoint [OF start(1)]]
  obtain st where st: "ps_state (pal_parts p ! unat pid) = Ok st" using start(2) by (auto simp: slot_ok_def)
  have eng: "engine_ok (hw_engine hw)" using hw by (simp add: hw_ok_def)
  show ?thesis
    by (rule achieves_mono [OF part_disable_achieves [OF eng st start(1)]])
      (use held_step_ok [OF inv] d start(2) in blast)+
qed

lemma migrate_keeps_inv:
  fixes p :: "'e UnoHsmPal"
  assumes hw: "hw_ok hw" and inv: "pal_inv p" and pid: "unat pid < NUM_PARTITIONS"
  shows "keeps_inv pid (part_migrate hw pid) p"
proof -
  note start = pal_inv_held [OF inv pid]
  let ?S = "pal_parts p ! unat pid"
  obtain st where st: "ps_state ?S = Ok st" using start(2) by (auto simp: slot_ok_def)
  note m = migrate_ok [OF start(2,3) foreign_disjoint [OF start(1)] st]
  show ?thesis
  proof (rule achieves_mono [OF part_migrate_achieves [OF hw st start(1)]]; elim exE conjE)
    fix x :: unit and q :: "'e UnoHsmPal" and S' K'
    assume h: "held clean_slot pid (pal_parts p) S' K' q"
      and r: "if st = Unallocated then S' = ?S \<and> K' = pal_keys p
        else if ps_res_mask ?S = 0 then S' = migrated ?S \<and> K' = pal_keys p
        else \<exists>S1 K1 S2. identity_made pid (migrated ?S) (drop_tables (ps_res_mask ?S) (pal_keys p)) S1 K1 \<and>
          enabled_made pid S1 K1 S2 K' \<and> S' = ps_set_state Enabled S2"
    consider "S' = ?S" "K' = pal_keys p" | "st \<noteq> Unallocated" "ps_res_mask ?S = 0" "S' = migrated ?S" "K' = pal_keys p"
      | S1 K1 S2 where "st \<noteq> Unallocated" "identity_made pid (migrated ?S) (drop_tables (ps_res_mask ?S) (pal_keys p)) S1 K1"
          "enabled_made pid S1 K1 S2 K'" "S' = ps_set_state Enabled S2"
      using r by metis
    then have "confined (pal_parts p) pid (pal_keys p) S' K' \<and> slot_ok S'"
    proof cases
      case 1 then show ?thesis using start(2) confined_refl [OF start(3)] by simp
    next
      case 2 then show ?thesis using m(1,2) by simp
    next
      case 3 then show ?thesis using m(5) by blast
    qed
    then show "admin_step_ok pid p q" using held_step_ok [OF inv h] by blast
  next
    fix e and q :: "'e UnoHsmPal" and S' K'
    assume h: "held clean_slot pid (pal_parts p) S' K' q" and u: "st \<noteq> Unallocated"
      and r: "pair_failed Ecc384Private (migrated ?S) S' \<and> K' = drop_tables (ps_res_mask ?S) (pal_keys p) \<or>
        (\<exists>S1. identity_made pid (migrated ?S) (drop_tables (ps_res_mask ?S) (pal_keys p)) S1 K' \<and> enabled_failed S1 S')"
    show "admin_step_ok pid p q" using r u m(3,4) held_step_ok [OF inv h] by blast
  qed
qed

section \<open>Messages\<close>

text \<open>The partition a message is for.\<close>

definition msg_target :: "u32 list \<Rightarrow> u8 option" where
  "msg_target buf =
     (case decode_set_resource buf of
        Some info \<Rightarrow> Some (sr_pfn info)
      | None \<Rightarrow> map_option pe_pfn (decode_pfn_enable_disable buf))"

text \<open>The admin core assigns no table that another partition has.\<close>

definition claims_ok :: "u32 list \<Rightarrow> 'e UnoHsmPal \<Rightarrow> bool" where
  "claims_ok buf p \<longleftrightarrow>
     (case decode_set_resource buf of None \<Rightarrow> True | Some info \<Rightarrow> unclaimed (pal_parts p) (sr_pfn info) (mask_u128 info))"

lemma try_keeps_inv:
  assumes "keeps_inv pid m p"
  shows "achieves (try_op m) p (\<lambda>_. admin_step_ok pid p) E"
  by (rule achieves_mono [OF try_achieves [OF assms, where E' = E]]) (auto split: run.splits)

lemma decoded_pfn:
  "decode_set_resource buf = Some info \<Longrightarrow> unat (sr_pfn info) < NUM_PARTITIONS"
  "decode_pfn_enable_disable buf = Some info' \<Longrightarrow> unat (pe_pfn info') < NUM_PARTITIONS"
  by (auto simp: decode_set_resource_def decode_pfn_enable_disable_def valid_pfn_def Let_def split: if_splits)

lemma admin_step_refl: "pal_inv p \<Longrightarrow> admin_step_ok pid p p"
  by (simp add: admin_step_ok_def isolated_def)

lemma set_resource_keeps_inv:
  fixes p :: "'e UnoHsmPal"
  assumes hw: "hw_ok hw" and inv: "pal_inv p" and cl: "claims_ok buf p"
  shows "achieves (try_handle_set_resource hw buf) p
    (\<lambda>r q. case decode_set_resource buf of None \<Rightarrow> r = None \<and> q = p | Some info \<Rightarrow> r \<noteq> None \<and> admin_step_ok (sr_pfn info) p q) E"
proof (cases "decode_set_resource buf")
  case None
  then show ?thesis by (simp add: try_handle_set_resource_def)
next
  case (Some info)
  note pid = decoded_pfn(1) [OF Some]
  let ?m = "mask_u128 info"
  have un: "unclaimed (pal_parts p) (sr_pfn info) ?m" using cl Some by (simp add: claims_ok_def)
  have op: "keeps_inv (sr_pfn info) (if ?m = 0 then part_free hw (sr_pfn info) else part_alloc hw (sr_pfn info) ?m b) p" for b
    by (rule achieves_if [rule_format]) (simp_all add: free_keeps_inv [OF hw inv pid] alloc_keeps_inv [OF hw inv pid un])
  show ?thesis
    unfolding try_handle_set_resource_def Let_def Some option.case
    by (intro achieves_if achieves_bind [OF try_keeps_inv [OF op]]) (use pid admin_step_refl [OF inv] in auto)
qed

lemma pfn_enable_keeps_inv:
  fixes p :: "'e UnoHsmPal"
  assumes hw: "hw_ok hw" and inv: "pal_inv p"
  shows "achieves (try_handle_pfn_enable hw buf) p
    (\<lambda>r q. case decode_pfn_enable_disable buf of None \<Rightarrow> r = None \<and> q = p | Some info \<Rightarrow> r \<noteq> None \<and> admin_step_ok (pe_pfn info) p q) E"
proof (cases "decode_pfn_enable_disable buf")
  case None
  then show ?thesis by (simp add: try_handle_pfn_enable_def)
next
  case (Some info)
  note pid = decoded_pfn(2) [OF Some]
  have op: "keeps_inv (pe_pfn info) (if pe_action info = 1 then part_enable hw (pe_pfn info) b
      else if pe_action info = 0 then part_disable hw (pe_pfn info)
      else if pe_action info = 2 then part_migrate hw (pe_pfn info) else fails UnsupportedCmd) p" for b
    using enable_keeps_inv [OF hw inv pid] disable_keeps_inv [OF hw inv pid] migrate_keeps_inv [OF hw inv pid]
      admin_step_refl [OF inv] by simp
  show ?thesis
    unfolding try_handle_pfn_enable_def Let_def Some option.case
    by (intro achieves_if achieves_bind [OF try_keeps_inv [OF op]]) (use pid in auto)
qed

text \<open>What one message may do: before the core runs, nothing to the PAL; then a step on its partition.\<close>

definition msg_effect :: "u32 list \<Rightarrow> 'e HsmCore \<Rightarrow> 'e HsmCore \<Rightarrow> bool" where
  "msg_effect buf c c' \<longleftrightarrow>
     (case (boot_phase c, msg_target buf) of
        (Running, Some pid) \<Rightarrow> boot_phase c' = Running \<and> admin_step_ok pid (hsm_pal c) (hsm_pal c')
      | _ \<Rightarrow> hsm_pal c' = hsm_pal c)"

lemma on_pal_achieves:
  assumes "achieves m (hsm_pal c) Q E"
  shows "achieves (on_pal m) c (\<lambda>x c'. c' = c\<lparr>hsm_pal := hsm_pal c'\<rparr> \<and> Q x (hsm_pal c')) (\<lambda>e c'. E e (hsm_pal c'))"
  by (rule achieves_cases [OF assms]) (simp_all add: achieves_def on_pal_def)

lemma handle_ipc_effect:
  fixes c :: "'e HsmCore"
  assumes hw: "hw_ok hw" and inv: "pal_inv (hsm_pal c)" and cl: "claims_ok buf (hsm_pal c)"
  shows "achieves (handle_ipc_message hw buf) c (\<lambda>_. msg_effect buf c) (\<lambda>_ _. False)"
proof (cases "boot_phase c")
  case Running
  have run: "achieves (bindS (on_pal (try_handle_set_resource hw buf)) (\<lambda>r. case r of Some reply \<Rightarrow> returns (Some reply)
      | None \<Rightarrow> bindS (on_pal (try_handle_pfn_enable hw buf)) (\<lambda>r. case r of Some reply \<Rightarrow> returns (Some reply)
                | None \<Rightarrow> returns (Some (buf[0 := buf ! 0 OR 0x80]))))) c (\<lambda>_. msg_effect buf c) (\<lambda>_ _. False)"
  proof (rule achieves_bind [OF on_pal_achieves [OF set_resource_keeps_inv [OF hw inv cl, where E = "\<lambda>_ _. False"]]], elim conjE)
    fix r :: "u32 list option" and c1 :: "'e HsmCore"
    assume c1: "c1 = c\<lparr>hsm_pal := hsm_pal c1\<rparr>"
      and r: "case decode_set_resource buf of None \<Rightarrow> r = None \<and> hsm_pal c1 = hsm_pal c
        | Some info \<Rightarrow> r \<noteq> None \<and> admin_step_ok (sr_pfn info) (hsm_pal c) (hsm_pal c1)"
    have ph: "boot_phase c1 = Running" using Running c1 by (metis HsmCore.select_convs(1) HsmCore.surjective HsmCore.update_convs(2))
    show "achieves (case r of Some reply \<Rightarrow> returns (Some reply)
      | None \<Rightarrow> bindS (on_pal (try_handle_pfn_enable hw buf)) (\<lambda>r. case r of Some reply \<Rightarrow> returns (Some reply)
                | None \<Rightarrow> returns (Some (buf[0 := buf ! 0 OR 0x80])))) c1 (\<lambda>_. msg_effect buf c) (\<lambda>_ _. False)"
    proof (cases "decode_set_resource buf")
      case (Some info)
      then show ?thesis using r ph Running by (auto simp: msg_effect_def msg_target_def)
    next
      case None
      then have same: "r = None" "hsm_pal c1 = hsm_pal c" using r by simp_all
      then have inv1: "pal_inv (hsm_pal c1)" using inv by simp
      show ?thesis
        unfolding same(1) option.case
      proof (rule achieves_bind [OF on_pal_achieves [OF pfn_enable_keeps_inv [OF hw inv1, where E = "\<lambda>_ _. False"]]], elim conjE)
        fix r2 :: "u32 list option" and c2 :: "'e HsmCore"
        assume "c2 = c1\<lparr>hsm_pal := hsm_pal c2\<rparr>" and r2: "case decode_pfn_enable_disable buf of None \<Rightarrow> r2 = None \<and> hsm_pal c2 = hsm_pal c1
          | Some info \<Rightarrow> r2 \<noteq> None \<and> admin_step_ok (pe_pfn info) (hsm_pal c1) (hsm_pal c2)"
        then have ph2: "boot_phase c2 = Running" using ph by (metis HsmCore.select_convs(1) HsmCore.surjective HsmCore.update_convs(2))
        show "achieves (case r2 of Some reply \<Rightarrow> returns (Some reply) | None \<Rightarrow> returns (Some (buf[0 := buf ! 0 OR 0x80]))) c2
            (\<lambda>_. msg_effect buf c) (\<lambda>_ _. False)"
          using r2 ph2 same(2) None Running
          by (cases "decode_pfn_enable_disable buf"; cases r2) (auto simp: msg_effect_def msg_target_def)
      qed
    qed
  qed
  then show ?thesis using Running by (simp add: achieves_def handle_ipc_message_def)
qed (auto simp: achieves_def handle_ipc_message_def msg_effect_def split: option.split)

section \<open>Histories\<close>

inductive ipc_step :: "'e Hw \<Rightarrow> 'e HsmCore \<Rightarrow> 'e HsmCore \<Rightarrow> bool" for hw where
  message: "claims_ok buf (hsm_pal c) \<Longrightarrow> handle_ipc_message hw buf c = (r, c') \<Longrightarrow> ipc_step hw c c'"

inductive_cases ipc_stepE: "ipc_step hw c c'"

lemma msg_effect_inv: "msg_effect buf c c' \<Longrightarrow> pal_inv (hsm_pal c) \<Longrightarrow> pal_inv (hsm_pal c')"
  by (auto simp: msg_effect_def admin_step_ok_def split: BootPhase.splits option.splits)

lemma ipc_step_inv:
  assumes "ipc_step hw c c'" "hw_ok hw" "pal_inv (hsm_pal c)"
  shows "pal_inv (hsm_pal c')"
  using assms(1)
proof (rule ipc_stepE)
  fix buf r assume b: "claims_ok buf (hsm_pal c)" "handle_ipc_message hw buf c = (r, c')"
  then have "msg_effect buf c c'"
    using handle_ipc_effect [OF assms(2,3) b(1)] by (auto simp: achieves_def split: run.splits)
  then show ?thesis using assms(3) by (rule msg_effect_inv)
qed

lemma ipc_history_inv: "(ipc_step hw)\<^sup>*\<^sup>* c c' \<Longrightarrow> hw_ok hw \<Longrightarrow> pal_inv (hsm_pal c) \<Longrightarrow> pal_inv (hsm_pal c')"
  by (induction rule: rtranclp_induct) (auto dest: ipc_step_inv)

end
