(* ===== verification/UndoLog.thy ===== *)
theory UndoLog
  imports PartProps
begin

text \<open>
  The undo log of a command (\<open>fw/core/undo/src/lib.rs\<close>): entries of eight bytes packed from the
  front of one buffer, byte pre-images packed from its back, the undo walk (last in, first out)
  and the commit walk (first in, first out) over a set of verbs that change the state \<open>'p\<close> of the
  PAL. The counters of the log are bounded by the length of its buffer, a slice length, so the
  \<open>checked_add\<close> and \<open>checked_mul\<close> of the source never overflow and are plain sums here.
\<close>

section \<open>Entries\<close>

definition ENTRY_SIZE :: nat where "ENTRY_SIZE = 8"
definition MAX_UNDO_ACTIONS :: nat where "MAX_UNDO_ACTIONS = 16"
definition UNDO_ARENA :: nat where "UNDO_ARENA = 128"
definition UNDO_LOG_SIZE :: nat where "UNDO_LOG_SIZE = MAX_UNDO_ACTIONS * ENTRY_SIZE + UNDO_ARENA"

definition KIND_MASK :: u8 where "KIND_MASK = 7"
definition KIND_VAULT_CREATE :: u8 where "KIND_VAULT_CREATE = 0"
definition KIND_VAULT_DISABLE :: u8 where "KIND_VAULT_DISABLE = 1"
definition KIND_PROP_RESTORE :: u8 where "KIND_PROP_RESTORE = 2"
definition KIND_SESSION_DESTROY :: u8 where "KIND_SESSION_DESTROY = 3"
definition MODE_SHIFT :: nat where "MODE_SHIFT = 3"
definition MODE_MASK :: u8 where "MODE_MASK = 3"
definition MODE_ABSENT :: u8 where "MODE_ABSENT = 0"
definition MODE_SCALAR :: u8 where "MODE_SCALAR = 1"
definition MODE_BYTES :: u8 where "MODE_BYTES = 2"

lemmas undo_consts = KIND_MASK_def KIND_VAULT_CREATE_def KIND_VAULT_DISABLE_def KIND_PROP_RESTORE_def
  KIND_SESSION_DESTROY_def MODE_SHIFT_def MODE_MASK_def MODE_ABSENT_def MODE_SCALAR_def MODE_BYTES_def

record UndoEntry =
  ue_tag :: u8
  ue_aux :: u8
  ue_id :: u16
  ue_data :: u32

definition ue_kind :: "UndoEntry \<Rightarrow> u8" where
  "ue_kind e = ue_tag e AND KIND_MASK"

definition ue_mode :: "UndoEntry \<Rightarrow> u8" where
  "ue_mode e = drop_bit MODE_SHIFT (ue_tag e) AND MODE_MASK"

definition ue_vault_create :: "u16 \<Rightarrow> UndoEntry" where
  "ue_vault_create k = \<lparr>ue_tag = KIND_VAULT_CREATE, ue_aux = 0, ue_id = k, ue_data = 0\<rparr>"

definition ue_vault_disable :: "u16 \<Rightarrow> UndoEntry" where
  "ue_vault_disable k = \<lparr>ue_tag = KIND_VAULT_DISABLE, ue_aux = 0, ue_id = k, ue_data = 0\<rparr>"

definition ue_session_destroy :: "u16 \<Rightarrow> UndoEntry" where
  "ue_session_destroy k = \<lparr>ue_tag = KIND_SESSION_DESTROY, ue_aux = 0, ue_id = k, ue_data = 0\<rparr>"

definition ue_prop_restore_absent :: "PartPropId \<Rightarrow> UndoEntry" where
  "ue_prop_restore_absent p =
     \<lparr>ue_tag = KIND_PROP_RESTORE OR push_bit MODE_SHIFT MODE_ABSENT, ue_aux = 0, ue_id = p, ue_data = 0\<rparr>"

definition ue_prop_restore_scalar :: "PartPropId \<Rightarrow> u32 \<Rightarrow> UndoEntry" where
  "ue_prop_restore_scalar p prior =
     \<lparr>ue_tag = KIND_PROP_RESTORE OR push_bit MODE_SHIFT MODE_SCALAR, ue_aux = 0, ue_id = p, ue_data = prior\<rparr>"

definition ue_prop_restore_bytes :: "PartPropId \<Rightarrow> u32 \<Rightarrow> UndoEntry" where
  "ue_prop_restore_bytes p handle =
     \<lparr>ue_tag = KIND_PROP_RESTORE OR push_bit MODE_SHIFT MODE_BYTES, ue_aux = 0, ue_id = p, ue_data = handle\<rparr>"

definition ue_write :: "UndoEntry \<Rightarrow> u8 list" where
  "ue_write e = [ue_tag e, ue_aux e] @ to_le 2 (ue_id e) @ to_le 4 (ue_data e)"

definition ue_read :: "u8 list \<Rightarrow> UndoEntry" where
  "ue_read slot = \<lparr>ue_tag = slot ! 0, ue_aux = slot ! 1, ue_id = from_le (slice 2 2 slot),
     ue_data = from_le (slice 4 4 slot)\<rparr>"

definition pack_bytes_handle :: "nat \<Rightarrow> nat \<Rightarrow> u32 run" where
  "pack_bytes_handle offset len =
     (if offset > 65535 \<or> len > 65535 then Err UndoLogFull
      else Ok (push_bit 16 (of_nat offset) OR of_nat len))"

definition unpack_bytes_handle :: "u32 \<Rightarrow> nat \<times> nat" where
  "unpack_bytes_handle handle = (unat (drop_bit 16 handle), unat (handle AND 0xFFFF))"

section \<open>The log\<close>

datatype FailurePolicy = BestEffort | Poison

datatype WalkOutcome = WalkOk | Poisoned

record UndoLog =
  log_buf :: "u8 list"
  nentries :: nat
  arena_used :: nat

definition log_new :: "u8 list \<Rightarrow> UndoLog" where
  "log_new buf = \<lparr>log_buf = buf, nentries = 0, arena_used = 0\<rparr>"

definition log_is_empty :: "UndoLog \<Rightarrow> bool" where
  "log_is_empty l \<longleftrightarrow> nentries l = 0"

definition log_len :: "UndoLog \<Rightarrow> nat" where
  "log_len l = nentries l"

definition log_discard :: "UndoLog \<Rightarrow> UndoLog" where
  "log_discard l = l\<lparr>nentries := 0, arena_used := 0\<rparr>"

definition entry_at :: "UndoLog \<Rightarrow> nat \<Rightarrow> UndoEntry run" where
  "entry_at l i =
     (let k = i * ENTRY_SIZE in
      if k + ENTRY_SIZE \<le> length (log_buf l) then Ok (ue_read (slice k ENTRY_SIZE (log_buf l))) else Panic)"

definition push_entry_reserving :: "UndoEntry \<Rightarrow> nat \<Rightarrow> (UndoLog, unit) op" where
  "push_entry_reserving entry extra l =
     (let slots_end = (nentries l + 1) * ENTRY_SIZE; back = arena_used l + extra in
      if slots_end + back > length (log_buf l) then (Err UndoLogFull, l)
      else
        let k = nentries l * ENTRY_SIZE in
        (Ok (), l\<lparr>log_buf := splice_at k (ue_write entry) (log_buf l), nentries := nentries l + 1\<rparr>))"

definition push_entry :: "UndoEntry \<Rightarrow> (UndoLog, unit) op" where
  "push_entry entry = push_entry_reserving entry 0"

definition push_vault_create :: "u16 \<Rightarrow> (UndoLog, unit) op" where
  "push_vault_create k = push_entry (ue_vault_create k)"

definition push_vault_disable :: "u16 \<Rightarrow> (UndoLog, unit) op" where
  "push_vault_disable k = push_entry (ue_vault_disable k)"

definition push_session_destroy :: "u16 \<Rightarrow> (UndoLog, unit) op" where
  "push_session_destroy k = push_entry (ue_session_destroy k)"

definition push_prop_restore_absent :: "PartPropId \<Rightarrow> (UndoLog, unit) op" where
  "push_prop_restore_absent p = push_entry (ue_prop_restore_absent p)"

definition push_prop_restore_scalar :: "PartPropId \<Rightarrow> u32 \<Rightarrow> (UndoLog, unit) op" where
  "push_prop_restore_scalar p prior = push_entry (ue_prop_restore_scalar p prior)"

definition push_prop_restore_bytes :: "PartPropId \<Rightarrow> u8 list \<Rightarrow> (UndoLog, unit) op" where
  "push_prop_restore_bytes p prior l =
     (let len = length prior; new_arena_used = arena_used l + len in
      if new_arena_used > length (log_buf l) then (Err UndoLogFull, l)
      else let off = length (log_buf l) - new_arena_used in
        bindS (reads (\<lambda>_. pack_bytes_handle off len)) (\<lambda>handle.
        bindS (push_entry_reserving (ue_prop_restore_bytes p handle) len) (\<lambda>_ l.
          (Ok (), l\<lparr>log_buf := splice_at off prior (log_buf l), arena_used := new_arena_used\<rparr>))) l)"

definition bytes_from_handle :: "UndoLog \<Rightarrow> u32 \<Rightarrow> u8 list run" where
  "bytes_from_handle l handle =
     (let (off, len) = unpack_bytes_handle handle in
      if off + len > length (log_buf l) then Err InvalidArg else Ok (slice off len (log_buf l)))"

definition log_zeroize :: "UndoLog \<Rightarrow> UndoLog" where
  "log_zeroize l = l\<lparr>log_buf := replicate (length (log_buf l)) 0, nentries := 0, arena_used := 0\<rparr>"

section \<open>The walks\<close>

record 'p UndoVerbs =
  v_vault_delete :: "u16 \<Rightarrow> ('p, unit) op"
  v_vault_enable :: "u16 \<Rightarrow> ('p, unit) op"
  v_prop_clear :: "PartPropId \<Rightarrow> ('p, unit) op"
  v_prop_set_u8 :: "PartPropId \<Rightarrow> u8 \<Rightarrow> ('p, unit) op"
  v_prop_set_u16 :: "PartPropId \<Rightarrow> u16 \<Rightarrow> ('p, unit) op"
  v_prop_set_u32 :: "PartPropId \<Rightarrow> u32 \<Rightarrow> ('p, unit) op"
  v_prop_set_bool :: "PartPropId \<Rightarrow> bool \<Rightarrow> ('p, unit) op"
  v_prop_set_bytes :: "PartPropId \<Rightarrow> u8 list \<Rightarrow> ('p, unit) op"
  v_session_destroy :: "u16 \<Rightarrow> ('p, unit) op"

definition undo_one :: "UndoLog \<Rightarrow> UndoEntry \<Rightarrow> 'p UndoVerbs \<Rightarrow> ('p, unit) op" where
  "undo_one l entry verbs =
     (if ue_kind entry = KIND_VAULT_CREATE then v_vault_delete verbs (ue_id entry)
      else if ue_kind entry = KIND_VAULT_DISABLE then v_vault_enable verbs (ue_id entry)
      else if ue_kind entry = KIND_PROP_RESTORE then
        (let p = ue_id entry in
         if ue_mode entry = MODE_ABSENT then v_prop_clear verbs p
         else if ue_mode entry = MODE_SCALAR then
           (case prop_meta p of
              None \<Rightarrow> fails InvalidArg
            | Some meta \<Rightarrow>
                (case meta_kind meta of
                   KU8 \<Rightarrow> v_prop_set_u8 verbs p (ucast (ue_data entry))
                 | KU16 \<Rightarrow> v_prop_set_u16 verbs p (ucast (ue_data entry))
                 | KU32 \<Rightarrow> v_prop_set_u32 verbs p (ue_data entry)
                 | KBool \<Rightarrow> v_prop_set_bool verbs p (ue_data entry \<noteq> 0)
                 | _ \<Rightarrow> fails InvalidArg))
         else if ue_mode entry = MODE_BYTES then
           bindS (reads (\<lambda>_. bytes_from_handle l (ue_data entry))) (\<lambda>bytes. v_prop_set_bytes verbs p bytes)
         else fails InvalidArg)
      else if ue_kind entry = KIND_SESSION_DESTROY then v_session_destroy verbs (ue_id entry)
      else fails InvalidArg)"

definition commit_one :: "UndoEntry \<Rightarrow> 'p UndoVerbs \<Rightarrow> ('p, unit) op" where
  "commit_one entry verbs =
     (if ue_kind entry = KIND_VAULT_DISABLE then v_vault_delete verbs (ue_id entry) else returns ())"

definition undo_policy :: "u8 \<Rightarrow> FailurePolicy" where
  "undo_policy kind =
     (if kind = KIND_VAULT_CREATE then BestEffort
      else if kind = KIND_SESSION_DESTROY then BestEffort
      else Poison)"

primrec undo_walk :: "UndoLog \<Rightarrow> 'p UndoVerbs \<Rightarrow> nat \<Rightarrow> WalkOutcome \<Rightarrow> ('p, WalkOutcome) op" where
  "undo_walk l verbs 0 outcome = returns outcome"
| "undo_walk l verbs (Suc i) outcome =
     bindS (reads (\<lambda>_. entry_at l i)) (\<lambda>entry s.
       case undo_one l entry verbs s of
         (Ok _, s') \<Rightarrow> undo_walk l verbs i outcome s'
       | (Err _, s') \<Rightarrow> undo_walk l verbs i (if undo_policy (ue_kind entry) = Poison then Poisoned else outcome) s'
       | (Panic, s') \<Rightarrow> (Panic, s'))"

definition apply_undo :: "'p UndoVerbs \<Rightarrow> UndoLog \<Rightarrow> 'p \<Rightarrow> (WalkOutcome run \<times> 'p) \<times> UndoLog" where
  "apply_undo verbs l s = (undo_walk l verbs (nentries l) WalkOk s, log_zeroize l)"

primrec commit_walk :: "UndoLog \<Rightarrow> 'p UndoVerbs \<Rightarrow> nat list \<Rightarrow> ('p, WalkOutcome) op" where
  "commit_walk l verbs [] = returns WalkOk"
| "commit_walk l verbs (i # is) =
     bindS (reads (\<lambda>_. entry_at l i)) (\<lambda>entry s.
       case commit_one entry verbs s of
         (Panic, s') \<Rightarrow> (Panic, s')
       | (_, s') \<Rightarrow> commit_walk l verbs is s')"

definition apply_commit :: "'p UndoVerbs \<Rightarrow> UndoLog \<Rightarrow> 'p \<Rightarrow> (WalkOutcome run \<times> 'p) \<times> UndoLog" where
  "apply_commit verbs l s = (commit_walk l verbs [0..<nentries l] s, log_zeroize l)"

end
