(* ===== verification/UndoProperties.thy ===== *)
theory UndoProperties
  imports UndoLog
begin

text \<open>
  What the undo log guarantees: pushing an action appends it to the abstract list of actions the
  bytes stand for or fails without a trace, the undo walk runs the inverse of every action from
  the last to the first, and both walks end with the buffer scrubbed. The locale
  \<open>undo_effects\<close> is the contract of the verbs: on an observation of the state every inverse acts
  as a partial function. Under it a command whose mutations are recorded rolls back.
\<close>

section \<open>Actions\<close>

datatype UndoAction =
    VaultCreate u16 | VaultDisable u16 | SessionDestroy u16 | PropAbsent PartPropId | PropScalar PartPropId u32
  | PropBytes PartPropId "u8 list"

fun push_action :: "UndoAction \<Rightarrow> (UndoLog, unit) op" where
  "push_action (VaultCreate k) = push_vault_create k"
| "push_action (VaultDisable k) = push_vault_disable k"
| "push_action (SessionDestroy k) = push_session_destroy k"
| "push_action (PropAbsent p) = push_prop_restore_absent p"
| "push_action (PropScalar p v) = push_prop_restore_scalar p v"
| "push_action (PropBytes p bs) = push_prop_restore_bytes p bs"

fun arena_cost :: "UndoAction \<Rightarrow> nat" where
  "arena_cost (PropBytes p bs) = length bs"
| "arena_cost _ = 0"

text \<open>The inverse of an action, as the verb it stands for.\<close>

fun undo_action :: "'p UndoVerbs \<Rightarrow> UndoAction \<Rightarrow> ('p, unit) op" where
  "undo_action verbs (VaultCreate k) = v_vault_delete verbs k"
| "undo_action verbs (VaultDisable k) = v_vault_enable verbs k"
| "undo_action verbs (SessionDestroy k) = v_session_destroy verbs k"
| "undo_action verbs (PropAbsent p) = v_prop_clear verbs p"
| "undo_action verbs (PropScalar p v) =
    (case prop_meta p of
       None \<Rightarrow> fails InvalidArg
     | Some meta \<Rightarrow>
         (case meta_kind meta of
            KU8 \<Rightarrow> v_prop_set_u8 verbs p (ucast v)
          | KU16 \<Rightarrow> v_prop_set_u16 verbs p (ucast v)
          | KU32 \<Rightarrow> v_prop_set_u32 verbs p v
          | KBool \<Rightarrow> v_prop_set_bool verbs p (v \<noteq> 0)
          | _ \<Rightarrow> fails InvalidArg))"
| "undo_action verbs (PropBytes p bs) = v_prop_set_bytes verbs p bs"

fun poisons :: "UndoAction \<Rightarrow> bool" where
  "poisons (VaultCreate k) \<longleftrightarrow> False"
| "poisons (SessionDestroy k) \<longleftrightarrow> False"
| "poisons _ \<longleftrightarrow> True"

text \<open>The walk over the actions themselves: every step runs, a failed critical step poisons.\<close>

primrec run_undo :: "'p UndoVerbs \<Rightarrow> UndoAction list \<Rightarrow> WalkOutcome \<Rightarrow> ('p, WalkOutcome) op" where
  "run_undo verbs [] out = returns out"
| "run_undo verbs (a # as) out = (\<lambda>s.
    case undo_action verbs a s of
      (Ok _, s') \<Rightarrow> run_undo verbs as out s'
    | (Err _, s') \<Rightarrow> run_undo verbs as (if poisons a then Poisoned else out) s'
    | (Panic, s') \<Rightarrow> (Panic, s'))"

section \<open>What the bytes stand for\<close>

definition handle_of :: "nat \<Rightarrow> nat \<Rightarrow> u32" where
  "handle_of off len = push_bit 16 (of_nat off) OR of_nat len"

fun entry_means :: "UndoLog \<Rightarrow> UndoEntry \<Rightarrow> UndoAction \<Rightarrow> bool" where
  "entry_means l e (VaultCreate k) \<longleftrightarrow> e = ue_vault_create k"
| "entry_means l e (VaultDisable k) \<longleftrightarrow> e = ue_vault_disable k"
| "entry_means l e (SessionDestroy k) \<longleftrightarrow> e = ue_session_destroy k"
| "entry_means l e (PropAbsent p) \<longleftrightarrow> e = ue_prop_restore_absent p"
| "entry_means l e (PropScalar p v) \<longleftrightarrow> e = ue_prop_restore_scalar p v"
| "entry_means l e (PropBytes p bs) \<longleftrightarrow> (\<exists>off. length (log_buf l) - arena_used l \<le> off \<and>
     off + length bs \<le> length (log_buf l) \<and> off \<le> 65535 \<and> length bs \<le> 65535 \<and>
     e = ue_prop_restore_bytes p (handle_of off (length bs)) \<and> slice off (length bs) (log_buf l) = bs)"

definition stored_entry :: "UndoLog \<Rightarrow> nat \<Rightarrow> UndoEntry" where
  "stored_entry l i = ue_read (slice (i * ENTRY_SIZE) ENTRY_SIZE (log_buf l))"

definition holds :: "UndoLog \<Rightarrow> UndoAction list \<Rightarrow> bool" where
  "holds l as \<longleftrightarrow> nentries l = length as \<and> nentries l * ENTRY_SIZE + arena_used l \<le> length (log_buf l) \<and>
     (\<forall>i < length as. entry_means l (stored_entry l i) (as ! i))"

lemma ue_read_write [simp]: "ue_read (ue_write e) = e"
  by (cases e) (simp add: ue_read_def ue_write_def slice_def)

lemma length_ue_write [simp]: "length (ue_write e) = ENTRY_SIZE"
  by (simp add: ue_write_def ENTRY_SIZE_def)

lemma handle_round_trip:
  assumes "off \<le> 65535" "len \<le> 65535"
  shows "unpack_bytes_handle (handle_of off len) = (off, len)"
proof -
  have b: "bit n i \<Longrightarrow> i < 16" if "n \<le> 65535" for n i :: nat
  proof -
    have "take_bit 16 n = n" using that by (simp add: take_bit_eq_mod)
    then show "bit n i \<Longrightarrow> i < 16" by (metis bit_take_bit_iff)
  qed
  have m: "(0xFFFF :: u32) = mask 16" by (simp add: mask_eq_exp_minus_1)
  have "drop_bit 16 (handle_of off len) = of_nat off"
    unfolding handle_of_def
    by (rule bit_word_eqI) (auto simp: bit_simps dest: b [OF assms(1)] b [OF assms(2)])
  moreover have "handle_of off len AND 0xFFFF = of_nat len"
    unfolding handle_of_def m
    by (rule bit_word_eqI) (auto simp: bit_simps dest: b [OF assms(2)])
  ultimately show ?thesis using assms by (simp add: unpack_bytes_handle_def unat_of_nat)
qed

lemma ue_kinds [simp]:
  "ue_kind (ue_vault_create k) = KIND_VAULT_CREATE" "ue_kind (ue_vault_disable k) = KIND_VAULT_DISABLE"
  "ue_kind (ue_session_destroy k) = KIND_SESSION_DESTROY" "ue_kind (ue_prop_restore_absent p) = KIND_PROP_RESTORE"
  "ue_kind (ue_prop_restore_scalar p v) = KIND_PROP_RESTORE" "ue_kind (ue_prop_restore_bytes p h) = KIND_PROP_RESTORE"
  "ue_mode (ue_prop_restore_absent p) = MODE_ABSENT" "ue_mode (ue_prop_restore_scalar p v) = MODE_SCALAR"
  "ue_mode (ue_prop_restore_bytes p h) = MODE_BYTES"
  by (simp_all add: ue_kind_def ue_mode_def ue_vault_create_def ue_vault_disable_def ue_session_destroy_def
      ue_prop_restore_absent_def ue_prop_restore_scalar_def ue_prop_restore_bytes_def undo_consts)

lemma undo_tags [simp]:
  "KIND_VAULT_CREATE \<noteq> KIND_VAULT_DISABLE" "KIND_VAULT_CREATE \<noteq> KIND_PROP_RESTORE"
  "KIND_VAULT_CREATE \<noteq> KIND_SESSION_DESTROY" "KIND_VAULT_DISABLE \<noteq> KIND_VAULT_CREATE"
  "KIND_VAULT_DISABLE \<noteq> KIND_PROP_RESTORE" "KIND_VAULT_DISABLE \<noteq> KIND_SESSION_DESTROY"
  "KIND_PROP_RESTORE \<noteq> KIND_VAULT_CREATE" "KIND_PROP_RESTORE \<noteq> KIND_VAULT_DISABLE"
  "KIND_PROP_RESTORE \<noteq> KIND_SESSION_DESTROY" "KIND_SESSION_DESTROY \<noteq> KIND_VAULT_CREATE"
  "KIND_SESSION_DESTROY \<noteq> KIND_VAULT_DISABLE" "KIND_SESSION_DESTROY \<noteq> KIND_PROP_RESTORE"
  "MODE_ABSENT \<noteq> MODE_SCALAR" "MODE_ABSENT \<noteq> MODE_BYTES" "MODE_SCALAR \<noteq> MODE_BYTES" "MODE_SCALAR \<noteq> MODE_ABSENT"
  "MODE_BYTES \<noteq> MODE_ABSENT" "MODE_BYTES \<noteq> MODE_SCALAR"
  by (simp_all add: undo_consts)

lemma ue_fields [simp]:
  "ue_id (ue_vault_create k) = k" "ue_id (ue_vault_disable k) = k" "ue_id (ue_session_destroy k) = k"
  "ue_id (ue_prop_restore_absent p) = p" "ue_id (ue_prop_restore_scalar p v) = p"
  "ue_id (ue_prop_restore_bytes p h) = p" "ue_data (ue_prop_restore_scalar p v) = v"
  "ue_data (ue_prop_restore_bytes p h) = h"
  by (simp_all add: ue_vault_create_def ue_vault_disable_def ue_session_destroy_def ue_prop_restore_absent_def
      ue_prop_restore_scalar_def ue_prop_restore_bytes_def)

lemma undo_one_action:
  assumes "entry_means l e a"
  shows "undo_one l e verbs = undo_action verbs a" "undo_policy (ue_kind e) = Poison \<longleftrightarrow> poisons a"
proof -
  show "undo_one l e verbs = undo_action verbs a"
  proof (cases a)
    case (PropBytes p bs)
    then obtain off where off: "off + length bs \<le> length (log_buf l)" "off \<le> 65535" "length bs \<le> 65535"
      "e = ue_prop_restore_bytes p (handle_of off (length bs))" "slice off (length bs) (log_buf l) = bs"
      using assms by auto
    then have "bytes_from_handle l (ue_data e) = Ok bs"
      by (simp add: bytes_from_handle_def handle_round_trip)
    with off(4) PropBytes show ?thesis by (simp add: undo_one_def fun_eq_iff)
  qed (use assms in \<open>simp_all add: undo_one_def split: option.split PartPropKind.split\<close>)
  show "undo_policy (ue_kind e) = Poison \<longleftrightarrow> poisons a"
    using assms by (cases a) (auto simp: undo_policy_def)
qed

section \<open>Pushing\<close>

definition fits_log :: "UndoAction \<Rightarrow> UndoLog \<Rightarrow> bool" where
  "fits_log a l \<longleftrightarrow> (nentries l + 1) * ENTRY_SIZE + arena_used l + arena_cost a \<le> length (log_buf l)"

lemma stored_entry_push:
  assumes "holds l as" "i < length as" "(nentries l + 1) * ENTRY_SIZE \<le> length (log_buf l)"
  shows "stored_entry (l\<lparr>log_buf := splice_at (nentries l * ENTRY_SIZE) (ue_write e) (log_buf l), nentries := n\<rparr>) i =
    stored_entry l i"
proof -
  have "i * ENTRY_SIZE + ENTRY_SIZE \<le> nentries l * ENTRY_SIZE"
    using assms(1,2) by (simp add: holds_def ENTRY_SIZE_def)
  then have "slice (i * ENTRY_SIZE) ENTRY_SIZE (splice_at (nentries l * ENTRY_SIZE) (ue_write e) (log_buf l)) =
      slice (i * ENTRY_SIZE) ENTRY_SIZE (log_buf l)"
    by (intro slice_splice_other) (use assms(3) in simp_all)
  then show ?thesis by (simp add: stored_entry_def)
qed

lemma entry_means_frame:
  assumes "entry_means l e a" "length (log_buf l') = length (log_buf l)" "arena_used l \<le> arena_used l'"
    "\<And>off n. length (log_buf l) - arena_used l \<le> off \<Longrightarrow> off + n \<le> length (log_buf l) \<Longrightarrow>
      slice off n (log_buf l') = slice off n (log_buf l)"
  shows "entry_means l' e a"
proof (cases a)
  case (PropBytes p bs)
  then obtain off where off: "length (log_buf l) - arena_used l \<le> off" "off + length bs \<le> length (log_buf l)"
      "off \<le> 65535" "length bs \<le> 65535" "e = ue_prop_restore_bytes p (handle_of off (length bs))"
      "slice off (length bs) (log_buf l) = bs"
    using assms(1) by auto
  moreover have "slice off (length bs) (log_buf l') = bs" using assms(4) [OF off(1,2)] off(6) by simp
  ultimately show ?thesis using PropBytes assms(2,3) by (auto intro!: exI [of _ off])
qed (use assms(1) in simp_all)

lemma holds_push:
  assumes h: "holds l as" and fit: "(nentries l + 1) * ENTRY_SIZE + arena_used l \<le> length (log_buf l)"
    and l': "l' = l\<lparr>log_buf := splice_at (nentries l * ENTRY_SIZE) (ue_write e) (log_buf l), nentries := nentries l + 1\<rparr>"
    and m: "entry_means l' e a"
  shows "holds l' (as @ [a])"
proof -
  have n: "nentries l = length as" using h by (simp add: holds_def)
  have len: "length (log_buf l') = length (log_buf l)" using l' fit by simp
  have own: "stored_entry l' (nentries l) = e" using l' fit by (simp add: stored_entry_def)
  have "entry_means l' (stored_entry l' i) (as ! i)" if "i < length as" for i
  proof -
    have "stored_entry l' i = stored_entry l i"
      using stored_entry_push [OF h that, where e = e and n = "nentries l + 1"] fit l' by simp
    moreover have "entry_means l' (stored_entry l i) (as ! i)"
    proof (rule entry_means_frame)
      show "entry_means l (stored_entry l i) (as ! i)" using h that by (simp add: holds_def)
      show "slice off k (log_buf l') = slice off k (log_buf l)"
        if "length (log_buf l) - arena_used l \<le> off" "off + k \<le> length (log_buf l)" for off k
        unfolding l' by (simp, rule slice_splice_other) (use that fit in auto)
    qed (simp_all add: len, simp add: l')
    ultimately show ?thesis by simp
  qed
  with own n m show ?thesis
    using fit len by (auto simp: holds_def nth_append less_Suc_eq l')
qed

lemma holds_arena:
  assumes h: "holds l as" and fit: "nentries l * ENTRY_SIZE + arena_used l + length bs \<le> length (log_buf l)"
    and off: "off = length (log_buf l) - (arena_used l + length bs)"
  shows "holds (l\<lparr>log_buf := splice_at off bs (log_buf l), arena_used := arena_used l + length bs\<rparr>) as"
    (is "holds ?l as")
proof -
  have len: "length (log_buf ?l) = length (log_buf l)" using fit off by simp
  have "entry_means ?l (stored_entry ?l i) (as ! i)" if i: "i < length as" for i
  proof -
    have "i * ENTRY_SIZE + ENTRY_SIZE \<le> nentries l * ENTRY_SIZE"
      using h i by (simp add: holds_def ENTRY_SIZE_def)
    then have "stored_entry ?l i = stored_entry l i"
      unfolding stored_entry_def by (simp, subst slice_splice_other) (use fit off in auto)
    moreover have "entry_means ?l (stored_entry l i) (as ! i)"
    proof (rule entry_means_frame)
      show "entry_means l (stored_entry l i) (as ! i)" using h i by (simp add: holds_def)
      show "slice k n (log_buf ?l) = slice k n (log_buf l)"
        if "length (log_buf l) - arena_used l \<le> k" "k + n \<le> length (log_buf l)" for k n
        by (simp, rule slice_splice_other) (use that fit off in auto)
    qed (use len in simp_all)
    ultimately show ?thesis by simp
  qed
  then show ?thesis using h fit len by (auto simp: holds_def)
qed

lemma push_entry_result:
  assumes "holds l as" "entry_means l e a" "arena_cost a = 0"
    "\<And>l1 l2. entry_means l1 e a = entry_means l2 e a"
  shows "push_entry e l = (if fits_log a l
    then (Ok (), l\<lparr>log_buf := splice_at (nentries l * ENTRY_SIZE) (ue_write e) (log_buf l), nentries := nentries l + 1\<rparr>)
    else (Err UndoLogFull, l))"
    "fits_log a l \<Longrightarrow> holds (snd (push_entry e l)) (as @ [a])"
proof -
  show p: "push_entry e l = (if fits_log a l
    then (Ok (), l\<lparr>log_buf := splice_at (nentries l * ENTRY_SIZE) (ue_write e) (log_buf l), nentries := nentries l + 1\<rparr>)
    else (Err UndoLogFull, l))"
    using assms(3) by (simp add: push_entry_def push_entry_reserving_def fits_log_def Let_def)
  show "fits_log a l \<Longrightarrow> holds (snd (push_entry e l)) (as @ [a])"
    using holds_push [OF assms(1) _ refl, of e a] assms(2-4) p by (simp add: fits_log_def) metis
qed

lemma push_bytes_result:
  assumes h: "holds l as" and small: "length (log_buf l) \<le> 65535"
  shows "if fits_log (PropBytes p bs) l
    then \<exists>l'. push_prop_restore_bytes p bs l = (Ok (), l') \<and> holds l' (as @ [PropBytes p bs]) \<and>
      length (log_buf l') = length (log_buf l)
    else push_prop_restore_bytes p bs l = (Err UndoLogFull, l)"
proof (cases "fits_log (PropBytes p bs) l")
  case False
  then show ?thesis
    by (auto simp: push_prop_restore_bytes_def pack_bytes_handle_def push_entry_reserving_def fits_log_def Let_def)
next
  case fit: True
  define off where "off = length (log_buf l) - (arena_used l + length bs)"
  define e where "e = ue_prop_restore_bytes p (handle_of off (length bs))"
  define la where "la = l\<lparr>log_buf := splice_at off bs (log_buf l), arena_used := arena_used l + length bs\<rparr>"
  define l' where "l' = la\<lparr>log_buf := splice_at (nentries la * ENTRY_SIZE) (ue_write e) (log_buf la), nentries := nentries la + 1\<rparr>"
  have room: "(nentries l + 1) * ENTRY_SIZE + arena_used l + length bs \<le> length (log_buf l)"
    using fit by (simp add: fits_log_def)
  have E: "ENTRY_SIZE = 8" by (simp add: ENTRY_SIZE_def)
  have sz: "off \<le> 65535" "length bs \<le> 65535" using room small by (simp_all add: off_def E)
  have off: "nentries l * ENTRY_SIZE + ENTRY_SIZE \<le> off" "off + length bs \<le> length (log_buf l)"
    using room by (simp_all add: off_def)
  have ha: "holds la as"
    unfolding la_def by (rule holds_arena [OF h]) (use room in \<open>simp_all add: off_def\<close>)
  have lenA: "length (log_buf la) = length (log_buf l)" using room by (simp add: la_def off_def)
  have "slice off (length bs) (log_buf l') = slice off (length bs) (log_buf la)"
    unfolding l'_def by (simp, rule slice_splice_other) (use off lenA in \<open>simp_all add: la_def\<close>)
  moreover have "slice off (length bs) (log_buf la) = bs" using off by (simp add: la_def)
  ultimately have m: "entry_means l' e (PropBytes p bs)"
    using sz room off lenA by (simp add: e_def) (rule exI [of _ off], simp add: la_def l'_def off_def)
  have hl: "holds l' (as @ [PropBytes p bs])"
    by (rule holds_push [OF ha _ l'_def m]) (use room lenA in \<open>simp add: la_def\<close>)
  have com: "splice_at off bs (splice_at (nentries l * ENTRY_SIZE) (ue_write e) (log_buf l)) =
      splice_at (nentries l * ENTRY_SIZE) (ue_write e) (splice_at off bs (log_buf l))"
    by (rule splice_splice_commute) (use off in simp_all)
  have "push_prop_restore_bytes p bs l = (Ok (), l')"
    using room sz com unfolding push_prop_restore_bytes_def Let_def off_def [symmetric]
    by (simp add: pack_bytes_handle_def push_entry_reserving_def Let_def handle_of_def [symmetric] e_def [symmetric]
        l'_def la_def)
  moreover have "length (log_buf l') = length (log_buf l)" using room lenA by (simp add: l'_def la_def)
  ultimately show ?thesis using fit hl by simp
qed

lemma push_action_result:
  assumes h: "holds l as" and small: "length (log_buf l) \<le> 65535"
  shows "if fits_log a l
    then \<exists>l'. push_action a l = (Ok (), l') \<and> holds l' (as @ [a]) \<and> length (log_buf l') = length (log_buf l)
    else push_action a l = (Err UndoLogFull, l)"
proof -
  have plain: ?thesis if "push_action a = push_entry e" "\<And>l. entry_means l e a" "arena_cost a = 0" for e
    using push_entry_result [OF h that(2,3)] that by (auto simp: fits_log_def)
  show ?thesis
    using plain push_bytes_result [OF h small]
    by (cases a) (auto simp: push_vault_create_def push_vault_disable_def push_session_destroy_def
        push_prop_restore_absent_def push_prop_restore_scalar_def)
qed

lemma holds_new: "holds (log_new buf) []"
  by (simp add: holds_def log_new_def)

section \<open>Walking\<close>

lemma entry_at_holds: "holds l as \<Longrightarrow> i < length as \<Longrightarrow> entry_at l i = Ok (stored_entry l i)"
  by (auto simp: holds_def entry_at_def stored_entry_def ENTRY_SIZE_def Let_def)

lemma undo_walk_prefix:
  assumes "holds l as" "n \<le> length as"
  shows "undo_walk l verbs n out s = run_undo verbs (rev (take n as)) out s"
  using assms(2)
proof (induction n arbitrary: out s)
  case (Suc n)
  have e: "entry_at l n = Ok (stored_entry l n)" using entry_at_holds [OF assms(1)] Suc.prems by simp
  have m: "entry_means l (stored_entry l n) (as ! n)" using assms(1) Suc.prems by (simp add: holds_def)
  have t: "rev (take (Suc n) as) = as ! n # rev (take n as)" using Suc.prems by (simp add: take_Suc_conv_app_nth)
  show ?case
    using Suc e by (simp add: t undo_one_action [OF m] split: prod.split run.split)
qed simp

lemma undo_walk_holds: "holds l as \<Longrightarrow> undo_walk l verbs (nentries l) out s = run_undo verbs (rev as) out s"
  using undo_walk_prefix [of l as "length as"] by (auto simp: holds_def)

text \<open>The commit walk deletes the keys that were disabled, in the order of the log.\<close>

primrec run_commit :: "'p UndoVerbs \<Rightarrow> UndoAction list \<Rightarrow> ('p, WalkOutcome) op" where
  "run_commit verbs [] = returns WalkOk"
| "run_commit verbs (a # as) = (\<lambda>s.
    case (case a of VaultDisable k \<Rightarrow> v_vault_delete verbs k | _ \<Rightarrow> returns ()) s of
      (Panic, s') \<Rightarrow> (Panic, s')
    | (_, s') \<Rightarrow> run_commit verbs as s')"

lemma commit_one_action:
  "entry_means l e a \<Longrightarrow> commit_one e verbs = (case a of VaultDisable k \<Rightarrow> v_vault_delete verbs k | _ \<Rightarrow> returns ())"
  by (cases a) (auto simp: commit_one_def)

lemma commit_walk_suffix:
  assumes "holds l as" "n \<le> length as"
  shows "commit_walk l verbs [n..<length as] s = run_commit verbs (drop n as) s"
  using assms(2)
proof (induction "length as - n" arbitrary: n s)
  case (Suc k)
  then have n: "n < length as" by simp
  have e: "entry_at l n = Ok (stored_entry l n)" using entry_at_holds [OF assms(1) n] .
  have m: "entry_means l (stored_entry l n) (as ! n)" using assms(1) n by (simp add: holds_def)
  have ih: "commit_walk l verbs [Suc n..<length as] s' = run_commit verbs (drop (Suc n) as) s'" for s'
    using Suc n by simp
  show ?case
    using n e ih by (simp add: upt_conv_Cons Cons_nth_drop_Suc [symmetric] commit_one_action [OF m]
        split: prod.split run.split)
qed simp

section \<open>Rolling back\<close>

text \<open>
  The contract of the verbs on an observation of the state: an inverse either acts as a partial
  function of the observation or fails and leaves it alone, and keeps the invariant.
\<close>

locale undo_effects =
  fixes verbs :: "'p UndoVerbs" and okay :: "'p \<Rightarrow> bool" and obs :: "'p \<Rightarrow> 'o"
    and effect :: "UndoAction \<Rightarrow> 'o \<Rightarrow> 'o option"
  assumes effect_Some: "okay s \<Longrightarrow> effect a (obs s) = Some v \<Longrightarrow>
      \<exists>s'. undo_action verbs a s = (Ok (), s') \<and> okay s' \<and> obs s' = v"
begin

text \<open>\<open>reverts v as w\<close>: the inverses of \<open>as\<close>, the last one first, lead from \<open>w\<close> back to \<open>v\<close>.\<close>

inductive reverts :: "'o \<Rightarrow> UndoAction list \<Rightarrow> 'o \<Rightarrow> bool" where
  none: "reverts v [] v"
| snoc: "reverts v as w \<Longrightarrow> effect a w' = Some w \<Longrightarrow> reverts v (as @ [a]) w'"

lemma run_undo_reverts:
  "reverts v as w \<Longrightarrow> okay s \<Longrightarrow> obs s = w \<Longrightarrow>
    \<exists>s'. run_undo verbs (rev as) out s = (Ok out, s') \<and> okay s' \<and> obs s' = v"
proof (induction arbitrary: s rule: reverts.induct)
  case (snoc v as w a w')
  obtain s1 where u: "undo_action verbs a s = (Ok (), s1)" "okay s1" "obs s1 = w"
    using effect_Some [OF snoc.prems(1), of a w] snoc.prems(2) snoc.hyps(2) by blast
  with snoc.IH [of s1] show ?case by auto
qed auto

lemma rollback:
  assumes "holds l as" "reverts v as (obs s)" "okay s"
  shows "\<exists>s'. apply_undo verbs l s = ((Ok WalkOk, s'), log_zeroize l) \<and> okay s' \<and> obs s' = v"
  using run_undo_reverts [OF assms(2,3) refl, of WalkOk] undo_walk_holds [OF assms(1), of verbs]
  by (auto simp: apply_undo_def)

end

section \<open>Properties\<close>

text \<open>C15 (undo_push_refines): the log is a list of actions: pushing an action either appends it, exactly when eight
  bytes plus its pre-image still fit, or fails with \<open>UndoLogFull\<close> and changes nothing.\<close>

theorem undo_push_refines:
  assumes "holds l as" "length (log_buf l) \<le> 65535"
  shows "case push_action a l of
      (Ok _, l') \<Rightarrow> fits_log a l \<and> holds l' (as @ [a]) \<and> log_len l' = length as + 1
    | (Err e, l') \<Rightarrow> \<not> fits_log a l \<and> e = UndoLogFull \<and> l' = l
    | (Panic, l') \<Rightarrow> False"
  using push_action_result [OF assms, of a] by (auto simp: holds_def log_len_def split: if_splits)

theorem undo_push_refines_witness:
  "\<exists>l'. push_action (PropBytes P_PSK_CO [1, 2, 3]) (log_new (replicate 16 0)) = (Ok (), l') \<and>
     holds l' [PropBytes P_PSK_CO [1, 2, 3]]"
proof -
  let ?l = "log_new (replicate 16 0)"
  have l: "length (log_buf ?l) = 16" by (simp add: log_new_def)
  have "fits_log (PropBytes P_PSK_CO [1, 2, 3]) ?l" by (simp add: fits_log_def log_new_def ENTRY_SIZE_def)
  then show ?thesis
    using undo_push_refines [OF holds_new, of "replicate 16 0" "PropBytes P_PSK_CO [1, 2, 3]"] l
    by (auto split: prod.splits run.splits)
qed

text \<open>C14 (undo_walk_lifo): the undo walk over the bytes of a log runs the inverse of each recorded action exactly
  once, last action first, does not stop at failures, reports \<open>Poisoned\<close> exactly when a critical
  inverse failed, and leaves the buffer zeroed.\<close>

theorem undo_walk_lifo:
  assumes "holds l as"
  shows "fst (apply_undo verbs l s) = run_undo verbs (rev as) WalkOk s \<and>
    log_buf (snd (apply_undo verbs l s)) = replicate (length (log_buf l)) 0"
  using undo_walk_holds [OF assms, of verbs] by (simp add: apply_undo_def log_zeroize_def)

definition counting_verbs :: "nat UndoVerbs" where
  "counting_verbs = \<lparr>v_vault_delete = (\<lambda>_ n. (Ok (), n + 1)), v_vault_enable = (\<lambda>_ n. (Err KeyNotFound, n)),
     v_prop_clear = (\<lambda>_ n. (Ok (), n)), v_prop_set_u8 = (\<lambda>_ _ n. (Ok (), n)), v_prop_set_u16 = (\<lambda>_ _ n. (Ok (), n)),
     v_prop_set_u32 = (\<lambda>_ _ n. (Ok (), n)), v_prop_set_bool = (\<lambda>_ _ n. (Ok (), n)),
     v_prop_set_bytes = (\<lambda>_ _ n. (Ok (), n)), v_session_destroy = (\<lambda>_ n. (Ok (), n))\<rparr>"

theorem undo_walk_lifo_witness:
  "\<exists>l. holds l [VaultDisable 5] \<and> fst (apply_undo counting_verbs l 0) = (Ok Poisoned, 0)"
proof -
  let ?l = "log_new (replicate 16 0)"
  have "fits_log (VaultDisable 5) ?l" by (simp add: fits_log_def log_new_def ENTRY_SIZE_def)
  then obtain l where l: "holds l [VaultDisable 5]"
    using push_action_result [OF holds_new, of "replicate 16 0" "VaultDisable 5"] by (auto simp: log_new_def)
  with undo_walk_lifo [OF l, of counting_verbs 0] show ?thesis by (auto simp: counting_verbs_def)
qed

text \<open>C16 (commit_walk_fifo): the commit walk deletes exactly the keys recorded as disabled, in the order they were
  recorded, ignores failures, and leaves the buffer zeroed.\<close>

theorem commit_walk_fifo:
  assumes "holds l as"
  shows "fst (apply_commit verbs l s) = run_commit verbs as s \<and>
    log_buf (snd (apply_commit verbs l s)) = replicate (length (log_buf l)) 0"
  using commit_walk_suffix [OF assms, of 0] assms by (simp add: apply_commit_def log_zeroize_def holds_def)

theorem commit_walk_fifo_witness:
  "\<exists>l. holds l [VaultDisable 5] \<and> fst (apply_commit counting_verbs l 0) = (Ok WalkOk, 1)"
proof -
  let ?l = "log_new (replicate 16 0)"
  have "fits_log (VaultDisable 5) ?l" by (simp add: fits_log_def log_new_def ENTRY_SIZE_def)
  then obtain l where l: "holds l [VaultDisable 5]"
    using push_action_result [OF holds_new, of "replicate 16 0" "VaultDisable 5"] by (auto simp: log_new_def)
  with commit_walk_fifo [OF l, of counting_verbs 0] show ?thesis by (auto simp: counting_verbs_def)
qed

end
