(* ===== verification/PartLaws.thy ===== *)
theory PartLaws
  imports PartManager
begin

text \<open>
  The laws of the property interface: seen as a map from properties to values, setting a property
  updates the map at that property and clearing it removes it; on canonical slots restoring the
  value that a property had before it was set gives back the slot, byte for byte.
\<close>

section \<open>Properties as a map\<close>

datatype PropValue = VU8 u8 | VU16 u16 | VU32 u32 | VBool bool | VBytes "u8 list"

fun opt_run :: "('a \<Rightarrow> 'b) \<Rightarrow> 'a run \<Rightarrow> 'b option" where
  "opt_run f (Ok v) = Some (f v)"
| "opt_run f _ = None"

definition prop_view :: "Storage \<Rightarrow> PartPropId \<Rightarrow> PropValue option" where
  "prop_view s p = (case prop_meta p of
     None \<Rightarrow> None
   | Some m \<Rightarrow>
       (case meta_kind m of
          KU8 \<Rightarrow> opt_run VU8 (prop_get_u8 p s)
        | KU16 \<Rightarrow> opt_run VU16 (prop_get_u16 p s)
        | KU32 \<Rightarrow> opt_run VU32 (prop_get_u32 p s)
        | KBool \<Rightarrow> opt_run VBool (prop_get_bool p s)
        | _ \<Rightarrow> opt_run VBytes (prop_get_bytes p s)))"

fun prop_set :: "PartPropId \<Rightarrow> PropValue \<Rightarrow> (Storage, unit) op" where
  "prop_set p (VU8 v) = prop_set_u8 p v"
| "prop_set p (VU16 v) = prop_set_u16 p v"
| "prop_set p (VU32 v) = prop_set_u32 p v"
| "prop_set p (VBool v) = prop_set_bool p v"
| "prop_set p (VBytes v) = prop_set_bytes p v"

text \<open>The value a stored value reads back as: the sentinel handle and the empty blob read as absent.\<close>

fun reads_back :: "PartPropId \<Rightarrow> PropValue \<Rightarrow> PropValue option" where
  "reads_back p (VU16 v) = (if v = KEY_ABSENT then None else Some (VU16 v))"
| "reads_back p (VBytes v) = (if v = [] \<and> p \<in> {P_SEALED_BK3, P_MASKED_BK_BOOT} then None else Some (VBytes v))"
| "reads_back p v = Some v"

text \<open>Two public keys count as present while the handle of their private key is.\<close>

definition shadows :: "PartPropId \<Rightarrow> PartPropId \<Rightarrow> bool" where
  "shadows p q \<longleftrightarrow> (p = P_SESSION_ENC_KEY_ID \<and> q = P_SESSION_ENC_PUB_KEY) \<or>
     (p = P_ESTABLISH_CRED_KEY_ID \<and> q = P_ESTABLISH_CRED_PUB_KEY)"

lemma meta_kinds [simp]:
  "meta_kind (meta_fixed n a d e) = FixedBytes n" "meta_kind (meta_var n a d e) = VarBytes n"
  "meta_kind (meta_scalar k a d e) = k"
  by (simp_all add: meta_fixed_def meta_var_def meta_scalar_def)

lemmas prop_getters = prop_get_u8_def prop_get_u16_def prop_key_def prop_get_u32_def prop_get_bool_def
  prop_get_bytes_def present_bytes_def

lemmas prop_setters = prop_set_u8_def prop_set_u16_def prop_set_u32_def prop_set_bool_def prop_set_bytes_def

text \<open>The views of two slots agree on a property when the fields behind it do.\<close>

lemma prop_view_cong:
  assumes "prop_get_u8 q s' = prop_get_u8 q s" "prop_get_u16 q s' = prop_get_u16 q s"
    "prop_get_u32 q s' = prop_get_u32 q s" "prop_get_bool q s' = prop_get_bool q s"
    "prop_get_bytes q s' = prop_get_bytes q s"
  shows "prop_view s' q = prop_view s q"
  unfolding prop_view_def assms by (rule refl)

lemmas slot_setters =
  ps_set_id_def ps_set_id_pub_key_def ps_set_id_valid_def ps_set_nonce_def
  ps_set_vm_launch_guid_def ps_set_ec_pub_key_def ps_set_se_pub_key_def ps_set_psk_co_def
  ps_set_psk_cu_def ps_set_masked_bk_boot_def ps_clear_masked_bk_boot_def ps_set_sealed_bk3_def
  ps_clear_sealed_bk3_def ps_set_bk3_session_def ps_clear_bk3_session_def ps_set_bk3_initialized_def
  ps_set_sd_initialized_def ps_set_pin_policy_def ps_set_policy_hash_def ps_clear_policy_hash_def
  ps_set_pota_thumbprint_def ps_clear_pota_thumbprint_def ps_set_sata_thumbprint_def ps_clear_sata_thumbprint_def
  ps_set_sapota_thumbprint_def ps_clear_sapota_thumbprint_def ps_set_pta_pub_key_def ps_clear_pta_pub_key_def
  ps_set_credential_def ps_clear_credential_def ps_set_state_def ps_set_generation_def
  ps_set_res_mask_def ps_set_id_key_id_def ps_set_ec_key_id_def ps_set_se_key_id_def
  ps_set_mk_key_id_def ps_set_ups_key_id_def ps_set_pta_key_id_def ps_set_unwrapping_key_id_def
  ps_set_local_mk_key_id_def ps_set_ephemeral_mk_key_id_def ps_set_sd_mk_key_id_def ps_set_unwrapping_key_required_def
  raise_flag_def drop_flag_def

lemmas slot_getters =
  ps_id_def ps_id_pub_key_def ps_id_valid_def ps_nonce_def
  ps_vm_launch_guid_def ps_ec_pub_key_def ps_se_pub_key_def ps_psk_co_def
  ps_psk_cu_def ps_masked_bk_boot_def ps_sealed_bk3_def ps_bk3_session_def
  ps_bk3_session_valid_def ps_bk3_initialized_def ps_sd_initialized_def ps_pin_policy_def
  ps_policy_hash_def ps_policy_hash_valid_def ps_pota_thumbprint_def ps_pota_thumbprint_valid_def
  ps_sata_thumbprint_def ps_sata_thumbprint_valid_def ps_sapota_thumbprint_def ps_sapota_thumbprint_valid_def
  ps_pta_pub_key_def ps_pta_pub_key_valid_def ps_credential_def ps_credential_valid_def
  ps_state_def ps_generation_def ps_res_mask_def ps_id_key_id_def
  ps_ec_key_id_def ps_se_key_id_def ps_mk_key_id_def ps_ups_key_id_def
  ps_pta_key_id_def ps_unwrapping_key_id_def ps_local_mk_key_id_def ps_ephemeral_mk_key_id_def
  ps_sd_mk_key_id_def ps_unwrapping_key_required_def ps_unwrapping_key_bk_valid_def ps_unwrapping_key_bk_def
  ps_session_table_def ps_session_meta_def
  Let_def flag_set_bits flag_bits

lemma prop_set_other:
  assumes "prop_set p v s = (Ok (), s')" "q \<noteq> p" "\<not> shadows p q"
  shows "prop_view s' q = prop_view s q"
  using assms
  by (cases v; auto simp: prop_setters slot_setters shadows_def Let_def prop_ids split: if_splits option.splits)
    (rule prop_view_cong; simp add: prop_getters slot_getters prop_ids)+

lemma prop_clear_other:
  assumes "prop_clear p s = (Ok (), s')" "q \<noteq> p" "\<not> shadows p q"
  shows "prop_view s' q = prop_view s q"
  using assms
  by (auto simp: prop_clear_def slot_setters shadows_def prop_ids split: if_splits)
    (rule prop_view_cong; simp add: prop_getters slot_getters prop_ids)+

lemma part_state_from_u8_Some: "part_state_from_u8 v = Some st \<Longrightarrow> part_state_u8 st = v"
  by (auto simp: part_state_from_u8_def split: if_splits)

lemmas prop_view_simps = prop_view_def prop_meta_def prop_ids prop_getters slot_getters

lemma prop_set_same:
  assumes "prop_set p v s = (Ok (), s')"
  shows "prop_view s' p = reads_back p v"
  using assms
  by (cases v; auto simp: prop_setters slot_setters Let_def prop_ids split: if_splits option.splits)
    (simp add: prop_view_simps store_lens unat_of_nat part_state_from_u8_Some)+

lemma prop_clear_same:
  assumes "prop_clear p s = (Ok (), s')"
  shows "prop_view s' p = None"
  using assms
  by (auto simp: prop_clear_def slot_setters prop_ids split: if_splits)
    (simp add: prop_view_simps)+

section \<open>Canonical slots\<close>

text \<open>
  A slot is canonical when what is absent is zero: the state is a known one, the tail of a blob and
  the bytes of an absent property are zeros. The store keeps slots canonical, and on a canonical
  slot the inverse that a command records restores the slot exactly.
\<close>

definition state_canon :: "u8 list \<Rightarrow> bool" where
  "state_canon b \<longleftrightarrow> (\<exists>st. b = [part_state_u8 st, 0, 0, 0])"

definition blob_canon :: "nat \<Rightarrow> u32 \<Rightarrow> u8 list \<Rightarrow> bool" where
  "blob_canon n len dat \<longleftrightarrow> (\<exists>b. length b \<le> n \<and> len = of_nat (length b) \<and> dat = b @ replicate (n - length b) 0)"

definition store_canon :: "Storage \<Rightarrow> bool" where
  "store_canon s \<longleftrightarrow> storage_wf s \<and> state_canon (st_state s) \<and>
     (\<not> bit (st_valid_flags s) 0 \<longrightarrow> st_credential s = replicate CREDENTIAL_LEN 0) \<and>
     (\<not> bit (st_valid_flags s) 1 \<longrightarrow> st_pota_thumbprint s = replicate POTA_THUMBPRINT_LEN 0) \<and>
     (\<not> bit (st_valid_flags s) 2 \<longrightarrow> st_sata_thumbprint s = replicate SATA_THUMBPRINT_LEN 0) \<and>
     (\<not> bit (st_valid_flags s) 3 \<longrightarrow> st_sapota_thumbprint s = replicate SAPOTA_THUMBPRINT_LEN 0) \<and>
     (\<not> bit (st_valid_flags s) 4 \<longrightarrow> st_pta_pub_key s = replicate PUB_KEY_LEN 0) \<and>
     (\<not> bit (st_valid_flags s) 5 \<longrightarrow> st_policy_hash s = replicate POLICY_HASH_LEN 0) \<and>
     (\<not> ps_bk3_session_valid s \<longrightarrow> ps_bk3_session s = replicate BK3_KEY_LEN 0) \<and>
     blob_canon MASKED_BK_BOOT_DATA_LEN (mbb_len (st_masked_bk_boot s)) (mbb_data (st_masked_bk_boot s)) \<and>
     blob_canon SEALED_BK3_DATA_LEN (sb3_len (st_sealed_bk3 s)) (sb3_data (st_sealed_bk3 s))"

lemma state_canonI [simp]: "state_canon [part_state_u8 st, 0, 0, 0]"
  by (auto simp: state_canon_def)

lemma blob_canonI [simp]:
  "length v \<le> n \<Longrightarrow> blob_canon n (of_nat (length v)) (v @ replicate (n - length v) 0)"
  "blob_canon n 0 (replicate n 0)"
  by (auto simp: blob_canon_def intro: exI [of _ "[]"])

lemma read_handle_cases:
  assumes "length b = 2"
  shows "read_handle b = None \<Longrightarrow> write_handle None = b" "read_handle b = Some k \<Longrightarrow> write_handle (Some k) = b"
  using write_read_handle [OF assms] by auto

definition prop_restore :: "PartPropId \<Rightarrow> PropValue option \<Rightarrow> (Storage, unit) op" where
  "prop_restore p v = (case v of None \<Rightarrow> prop_clear p | Some x \<Rightarrow> prop_set p x)"

definition restorable :: "PartPropId \<Rightarrow> Storage \<Rightarrow> bool" where
  "restorable p s \<longleftrightarrow> p \<noteq> P_BK3_INITIALIZED \<and> (p = P_RSA_UNWRAPPING_KEY_ID \<longrightarrow> ps_unwrapping_key_id s \<noteq> None)"

lemma canon_handles:
  assumes "store_canon s"
  shows "length (st_mk_key_id s) = 2" "length (st_ups_key_id s) = 2" "length (st_pta_key_id s) = 2"
    "length (st_unwrapping_key_id s) = 2" "length (st_ec_key_id s) = 2" "length (st_se_key_id s) = 2"
    "length (st_local_mk_key_id s) = 2" "length (st_ephemeral_mk_key_id s) = 2" "length (st_sd_mk_key_id s) = 2"
  using assms by (simp_all add: store_canon_def storage_wf_def)

lemma restore_handle:
  assumes "store_canon s" "prop_set_u16 p v s = (Ok (), s')" "restorable p s"
  shows "prop_restore p (prop_view s p) s' = (Ok (), s)"
  using assms canon_handles [OF assms(1)]
  by (auto simp: prop_set_u16_def slot_setters restorable_def Let_def split: if_splits)
    (simp add: prop_view_simps prop_restore_def prop_clear_def prop_setters slot_setters read_handle_cases split: option.split)+

lemma canonD:
  assumes "store_canon s"
  shows "length (st_nonce s) = NONCE_LEN" "length (st_psk_co s) = PSK_LEN" "length (st_psk_cu s) = PSK_LEN"
    "length (st_credential s) = CREDENTIAL_LEN" "length (st_pota_thumbprint s) = POTA_THUMBPRINT_LEN"
    "length (st_sata_thumbprint s) = SATA_THUMBPRINT_LEN" "length (st_sapota_thumbprint s) = SAPOTA_THUMBPRINT_LEN"
    "length (st_pta_pub_key s) = PUB_KEY_LEN" "length (st_policy_hash s) = POLICY_HASH_LEN"
    "length (bsk_key (st_bk3_session_key s)) = BK3_KEY_LEN"
    "\<not> bit (st_valid_flags s) 0 \<Longrightarrow> st_credential s = replicate CREDENTIAL_LEN 0"
    "\<not> bit (st_valid_flags s) 1 \<Longrightarrow> st_pota_thumbprint s = replicate POTA_THUMBPRINT_LEN 0"
    "\<not> bit (st_valid_flags s) 2 \<Longrightarrow> st_sata_thumbprint s = replicate SATA_THUMBPRINT_LEN 0"
    "\<not> bit (st_valid_flags s) 3 \<Longrightarrow> st_sapota_thumbprint s = replicate SAPOTA_THUMBPRINT_LEN 0"
    "\<not> bit (st_valid_flags s) 4 \<Longrightarrow> st_pta_pub_key s = replicate PUB_KEY_LEN 0"
    "\<not> bit (st_valid_flags s) 5 \<Longrightarrow> st_policy_hash s = replicate POLICY_HASH_LEN 0"
  using assms by (auto simp: store_canon_def storage_wf_def slot_getters)

lemma restore_flagged:
  assumes "store_canon s" "prop_set_bytes p v s = (Ok (), s')" "p \<notin> {P_SEALED_BK3, P_MASKED_BK_BOOT, P_BK3_SESSION}"
  shows "prop_restore p (prop_view s p) s' = (Ok (), s)"
  using assms canonD [OF assms(1)]
  by (auto simp: prop_set_bytes_def slot_setters split: if_splits)
    (simp add: prop_view_simps prop_restore_def prop_clear_def prop_setters slot_setters flag_simps split: if_split)+

lemma canon_blobs:
  assumes "store_canon s"
  obtains b c where "length b \<le> 300" "st_masked_bk_boot s =
      \<lparr>mbb_len = of_nat (length b), mbb_data = b @ replicate (300 - length b) 0\<rparr>"
    "length c \<le> 512" "st_sealed_bk3 s = \<lparr>sb3_len = of_nat (length c), sb3_data = c @ replicate (512 - length c) 0\<rparr>"
proof -
  obtain b c where b: "length b \<le> 300" "mbb_len (st_masked_bk_boot s) = of_nat (length b)"
      "mbb_data (st_masked_bk_boot s) = b @ replicate (300 - length b) 0"
    and c: "length c \<le> 512" "sb3_len (st_sealed_bk3 s) = of_nat (length c)"
      "sb3_data (st_sealed_bk3 s) = c @ replicate (512 - length c) 0"
    using assms by (auto simp: store_canon_def blob_canon_def store_lens)
  show ?thesis by (rule that [OF b(1) _ c(1)]) (use b c in auto)
qed

lemma restore_blobs:
  assumes "store_canon s" "prop_set_bytes p v s = (Ok (), s')" "p \<in> {P_SEALED_BK3, P_MASKED_BK_BOOT, P_BK3_SESSION}"
  shows "prop_restore p (prop_view s p) s' = (Ok (), s)"
proof -
  obtain b c where bc: "length b \<le> 300" "st_masked_bk_boot s =
      \<lparr>mbb_len = of_nat (length b), mbb_data = b @ replicate (300 - length b) 0\<rparr>"
    "length c \<le> 512" "st_sealed_bk3 s = \<lparr>sb3_len = of_nat (length c), sb3_data = c @ replicate (512 - length c) 0\<rparr>"
    by (rule canon_blobs [OF assms(1)])
  have k: "\<not> bsk_is_valid (st_bk3_session_key s) \<Longrightarrow> bsk_key (st_bk3_session_key s) = replicate 48 0"
    "length (bsk_key (st_bk3_session_key s)) = 48"
    using assms(1) by (simp_all add: store_canon_def storage_wf_def store_lens slot_getters)
  consider (m) "p = P_MASKED_BK_BOOT" | (l) "p = P_SEALED_BK3" | (k) "p = P_BK3_SESSION" using assms(3) by auto
  then show ?thesis
  proof cases
    case m
    then have s': "s' = s\<lparr>st_masked_bk_boot := \<lparr>mbb_len = of_nat (length v), mbb_data = v @ replicate (300 - length v) 0\<rparr>\<rparr>"
      "length v \<le> 300"
      using assms(2) bc by (auto simp: prop_set_bytes_def prop_ids slot_setters store_lens split: if_splits)
    have g: "prop_view s p = (if b = [] then None else Some (VBytes b))"
      using bc m by (simp add: prop_view_simps store_lens unat_of_nat)
    show ?thesis
      using bc s' m unfolding g by (auto simp: prop_restore_def prop_clear_def prop_setters slot_setters prop_ids store_lens)
  next
    case l
    then have s': "s' = s\<lparr>st_sealed_bk3 := \<lparr>sb3_len = of_nat (length v), sb3_data = v @ replicate (512 - length v) 0\<rparr>\<rparr>"
      "length v \<le> 512" "sb3_len (st_sealed_bk3 s) = 0"
      using assms(2) bc by (auto simp: prop_set_bytes_def prop_ids slot_setters store_lens split: if_splits)
    then have "unat (of_nat (length c) :: u32) = 0" using bc(4) by simp
    then have "c = []" using bc(3) by (simp add: unat_of_nat)
    then show ?thesis
      using bc s' l by (auto simp: prop_view_simps prop_restore_def prop_clear_def slot_setters store_lens)
  next
    case kk: k
    then have s': "s' = s\<lparr>st_bk3_session_key := \<lparr>bsk_is_valid = True, bsk_key = v\<rparr>\<rparr>" "length v = 48"
      using assms(2) by (auto simp: prop_set_bytes_def prop_ids slot_setters store_lens split: if_splits)
    have e: "bsk_is_valid (st_bk3_session_key s) = x \<Longrightarrow> bsk_key (st_bk3_session_key s) = y \<Longrightarrow>
      \<lparr>bsk_is_valid = x, bsk_key = y\<rparr> = st_bk3_session_key s" for x y by auto
    show ?thesis
      using k s' kk by (auto simp: prop_view_simps prop_restore_def prop_clear_def prop_setters slot_setters store_lens e)
  qed
qed

lemma restore_scalar:
  assumes "store_canon s" "restorable p s"
  shows "prop_set_u8 p v s = (Ok (), s') \<Longrightarrow> prop_restore p (prop_view s p) s' = (Ok (), s)"
    "prop_set_bool p b s = (Ok (), s') \<Longrightarrow> prop_restore p (prop_view s p) s' = (Ok (), s)"
proof -
  obtain st where st: "st_state s = [part_state_u8 st, 0, 0, 0]" using assms(1) by (auto simp: store_canon_def state_canon_def)
  show "prop_set_u8 p v s = (Ok (), s') \<Longrightarrow> prop_restore p (prop_view s p) s' = (Ok (), s)"
    using st by (auto simp: prop_set_u8_def slot_setters split: if_splits option.splits)
      (simp add: prop_view_simps prop_restore_def prop_setters slot_setters)
  show "prop_set_bool p b s = (Ok (), s') \<Longrightarrow> prop_restore p (prop_view s p) s' = (Ok (), s)"
    using assms(2) by (auto simp: prop_set_bool_def slot_setters restorable_def split: if_splits)
      (simp add: prop_view_simps prop_restore_def prop_setters slot_setters flag_simps)+
qed

lemma prop_restore_inverse:
  assumes "store_canon s" "prop_set p v s = (Ok (), s')" "restorable p s"
  shows "prop_restore p (prop_view s p) s' = (Ok (), s)"
  using assms restore_handle restore_scalar restore_flagged restore_blobs
  by (cases v) (auto simp: prop_set_u32_def, blast)

lemmas canon_defs = store_canon_def storage_wf_def slot_getters

lemma prop_set_canon:
  assumes "store_canon s" "prop_set p v s = (Ok (), s')"
  shows "store_canon s'"
  using assms
  by (cases v; auto simp: prop_setters slot_setters Let_def split: if_splits option.splits)
    (simp add: canon_defs; fail)+

lemma prop_clear_canon:
  assumes "store_canon s" "prop_clear p s = (Ok (), s')"
  shows "store_canon s'"
  using assms
  by (auto simp: prop_clear_def slot_setters split: if_splits)
    (simp add: canon_defs store_lens; fail)+

end
