(* ===== verification/PartCommands.thy ===== *)
theory PartCommands
  imports UnoPart UndoProperties PartLaws
begin

text \<open>
  The typed partition state of the core (\<open>fw/core/lib/src/part_state.rs\<close>) with its policies, and the
  commands that provision a partition: the key staging and the atomic commit of \<open>PartInit\<close> and
  \<open>PartFinal\<close> (\<open>ddi/tbor/part_init.rs\<close>, \<open>part_final.rs\<close>), each with the inverses it records, and what the
  dispatcher does with the log at the end of a command (\<open>fw/core/lib/src/io.rs\<close>). The accessors act on the
  slot of the calling partition; a command works on the platform state and its undo log.
\<close>

section \<open>Partition state\<close>

definition part_state :: "Storage \<Rightarrow> PartState run" where
  "part_state s =
     bindr (prop_get_u8 P_STATE s) (\<lambda>raw.
       case part_state_from_u8 raw of Some st \<Rightarrow> Ok st | None \<Rightarrow> Err InternalError)"

definition prop_present :: "'a run \<Rightarrow> bool run" where
  "prop_present result =
     (case result of
        Ok _ \<Rightarrow> Ok True
      | Err e \<Rightarrow> if e = PartPropNotFound then Ok False else Err e
      | Panic \<Rightarrow> Panic)"

definition ensure_key_id_unset :: "PartPropId \<Rightarrow> HsmError \<Rightarrow> (Storage, unit) op" where
  "ensure_key_id_unset i err =
     bindS (reads (\<lambda>s. prop_present (prop_get_u16 i s))) (\<lambda>present. if present then fails err else returns ())"

definition part_is_provisioned :: "Storage \<Rightarrow> bool run" where
  "part_is_provisioned s = prop_present (prop_get_u16 P_MK_KEY_ID s)"

definition part_set_ups_key_id :: "u16 \<Rightarrow> (Storage, unit) op" where
  "part_set_ups_key_id key_id =
     bindS (ensure_key_id_unset P_UPS_KEY_ID UpsKeyAlreadySet) (\<lambda>_. prop_set_u16 P_UPS_KEY_ID key_id)"

definition part_set_pta_key_id :: "u16 \<Rightarrow> (Storage, unit) op" where
  "part_set_pta_key_id key_id =
     bindS (ensure_key_id_unset P_PTA_KEY_ID PtaKeyAlreadySet) (\<lambda>_. prop_set_u16 P_PTA_KEY_ID key_id)"

definition pta_sec1_to_raw :: "u8 list \<Rightarrow> u8 list run" where
  "pta_sec1_to_raw sec1 = (if length sec1 \<noteq> 97 \<or> sec1 ! 0 \<noteq> 4 then Err InvalidArg else Ok (tl sec1))"

definition part_set_pta_key :: "u16 \<Rightarrow> u8 list \<Rightarrow> (Storage, unit) op" where
  "part_set_pta_key key_id pub_sec1 =
     bindS (reads (\<lambda>_. pta_sec1_to_raw pub_sec1)) (\<lambda>raw.
     bindS (part_set_pta_key_id key_id) (\<lambda>_. prop_set_bytes P_PTA_PUB_KEY raw))"

text \<open>The second operand of a conjunction is read only when the first is true.\<close>

definition and_then :: "bool run \<Rightarrow> bool run \<Rightarrow> bool run" where
  "and_then a b = bindr a (\<lambda>x. if x then b else Ok False)"

definition part_set_state :: "PartState \<Rightarrow> (Storage, unit) op" where
  "part_set_state target =
     bindS (reads part_state) (\<lambda>current.
       if current = Enabled \<and> target = Initializing then
         bindS (reads (\<lambda>s.
           and_then (prop_present (prop_get_u16 P_PTA_KEY_ID s))
           (and_then (prop_present (prop_get_u16 P_UPS_KEY_ID s))
           (and_then (prop_present (prop_get_bytes P_POLICY_HASH s))
             (prop_present (prop_get_bytes P_POTA_THUMBPRINT s)))))) (\<lambda>provisioned.
           if \<not> provisioned then fails InvalidArg else prop_set_u8 P_STATE (part_state_u8 target))
       else if current = Initializing \<and> target = Initialized then prop_set_u8 P_STATE (part_state_u8 target)
       else if current = target then returns ()
       else fails InvalidArg)"

definition part_set_faulted :: "(Storage, unit) op" where
  "part_set_faulted = prop_set_u8 P_STATE (part_state_u8 Faulted)"

section \<open>Secrets\<close>

definition part_psk_prop_id :: "u8 \<Rightarrow> PartPropId run" where
  "part_psk_prop_id psk_id = (if psk_id = 0 then Ok P_PSK_CO else if psk_id = 1 then Ok P_PSK_CU else Err InvalidPskId)"

definition part_psk :: "u8 \<Rightarrow> Storage \<Rightarrow> u8 list run" where
  "part_psk psk_id s = bindr (part_psk_prop_id psk_id) (\<lambda>i. prop_get_bytes i s)"

definition part_set_psk :: "u8 \<Rightarrow> u8 list \<Rightarrow> (Storage, unit) op" where
  "part_set_psk psk_id dat = bindS (reads (\<lambda>_. part_psk_prop_id psk_id)) (\<lambda>i. prop_set_bytes i dat)"

text \<open>The comparison without early exit: the differences of all bytes are collected.\<close>

definition byte_diff :: "u8 list \<Rightarrow> u8 list \<Rightarrow> u8" where
  "byte_diff xs ys = fold (\<lambda>(a, b) diff. diff OR (a XOR b)) (zip xs ys) 0"

definition part_psk_is_default :: "u8 \<Rightarrow> Storage \<Rightarrow> bool run" where
  "part_psk_is_default psk_id s =
     bindr (part_psk psk_id s) (\<lambda>stored.
       if psk_id = 0 \<or> psk_id = 1 then
         (let def = (if psk_id = 0 then DEFAULT_PSK_CO else DEFAULT_PSK_CU)
          in if length stored \<noteq> length def then Ok False else Ok (byte_diff stored def = 0))
       else Err InvalidPskId)"

definition part_verify_credential :: "u8 list \<Rightarrow> u8 list \<Rightarrow> Storage \<Rightarrow> unit run" where
  "part_verify_credential i pin s =
     (if length i \<noteq> 16 \<or> length pin \<noteq> 16 then Err InvalidArg
      else
        (case prop_get_bytes P_CREDENTIAL s of
           Ok stored \<Rightarrow>
             if length stored \<noteq> 32 then Err InternalError
             else let diff = byte_diff (slice 0 16 stored) i OR byte_diff (slice 16 16 stored) pin
                  in if diff = 0 then Ok () else Err InvalidAppCredentials
         | Err e \<Rightarrow> if e = PartPropNotFound then Err InvalidAppCredentials else Err e
         | Panic \<Rightarrow> Panic))"

definition part_verify_nonce :: "u8 list \<Rightarrow> Storage \<Rightarrow> unit run" where
  "part_verify_nonce nonce s =
     bindr (prop_get_bytes P_NONCE s) (\<lambda>stored.
       if length stored \<noteq> length nonce then Err NonceMismatch
       else if byte_diff stored nonce = 0 then Ok () else Err NonceMismatch)"

section \<open>Commands\<close>

type_synonym 'e cmd = "'e UnoHsmPal \<times> UndoLog"

definition cmd_pal :: "('e UnoHsmPal, 'a) op \<Rightarrow> ('e cmd, 'a) op" where
  "cmd_pal m c = (let (r, p) = m (fst c) in (r, (p, snd c)))"

definition cmd_undo :: "(UndoLog, 'a) op \<Rightarrow> ('e cmd, 'a) op" where
  "cmd_undo m c = (let (r, l) = m (snd c) in (r, (fst c, l)))"

definition cmd_slot :: "HsmIo \<Rightarrow> (Storage, 'a) op \<Rightarrow> ('e cmd, 'a) op" where
  "cmd_slot io m = cmd_pal (part_op (io_pid io) m)"

abbreviation (input) PartitionTrustAnchor :: HsmVaultKeyKind where "PartitionTrustAnchor \<equiv> 37"
abbreviation (input) UniquePartitionSecret :: HsmVaultKeyKind where "UniquePartitionSecret \<equiv> 38"
abbreviation (input) PartitionLocalMaskingKey :: HsmVaultKeyKind where "PartitionLocalMaskingKey \<equiv> 39"
abbreviation (input) PartitionEphemeralMaskingKey :: HsmVaultKeyKind where "PartitionEphemeralMaskingKey \<equiv> 40"

definition ATTR_NEVER_EXTRACTABLE :: u64 where "ATTR_NEVER_EXTRACTABLE = push_bit 7 1"
definition PTA_VAULT_ATTRS :: u64 where
  "PTA_VAULT_ATTRS = ATTR_LOCAL OR ATTR_INTERNAL OR ATTR_NEVER_EXTRACTABLE OR ATTR_SIGN"
definition PART_ROOT_VAULT_ATTRS :: u64 where
  "PART_ROOT_VAULT_ATTRS = ATTR_LOCAL OR ATTR_INTERNAL OR ATTR_NEVER_EXTRACTABLE"
definition PART_ROOT_ATTRS :: u64 where
  "PART_ROOT_ATTRS = ATTR_LOCAL OR ATTR_INTERNAL OR ATTR_NEVER_EXTRACTABLE"
definition PART_LOCAL_MK_ATTRS :: u64 where
  "PART_LOCAL_MK_ATTRS = ATTR_LOCAL OR ATTR_INTERNAL OR ATTR_NEVER_EXTRACTABLE"
definition EPHEMERAL_MK_ATTRS :: u64 where
  "EPHEMERAL_MK_ATTRS = ATTR_LOCAL OR ATTR_INTERNAL OR ATTR_NEVER_EXTRACTABLE"

text \<open>A key is created in the vault, then its deletion recorded.\<close>

definition stage_key :: "'e Hw \<Rightarrow> HsmIo \<Rightarrow> DmaBuf \<Rightarrow> HsmVaultKeyKind \<Rightarrow> u64 \<Rightarrow> ('e cmd, HsmKeyId) op" where
  "stage_key hw io k kd at =
     bindS (cmd_pal (vault_key_create hw io k kd None at)) (\<lambda>i.
     bindS (cmd_undo (push_vault_create i)) (\<lambda>_. returns i))"

subsection \<open>PartInit\<close>

record CommitInputs =
  ci_pta_pub_sec1 :: "u8 list"
  ci_policy_hash :: "u8 list"
  ci_pota_thumb :: "u8 list"
  ci_sata_thumb :: "u8 list"
  ci_sapota_thumb :: "u8 list option"

definition stage_part_keys :: "'e Hw \<Rightarrow> HsmIo \<Rightarrow> DmaBuf \<Rightarrow> DmaBuf \<Rightarrow> ('e cmd, HsmKeyId \<times> HsmKeyId) op" where
  "stage_part_keys hw io root pta_priv =
     bindS (stage_key hw io root UniquePartitionSecret PART_ROOT_VAULT_ATTRS) (\<lambda>root_key_id.
     bindS (stage_key hw io pta_priv PartitionTrustAnchor PTA_VAULT_ATTRS) (\<lambda>pta_key_id.
       returns (root_key_id, pta_key_id)))"

definition record_field_undo :: "bool \<Rightarrow> (UndoLog, unit) op" where
  "record_field_undo has_sapota =
     bindS (push_prop_restore_absent P_PTA_KEY_ID) (\<lambda>_.
     bindS (push_prop_restore_absent P_PTA_PUB_KEY) (\<lambda>_.
     bindS (push_prop_restore_absent P_UPS_KEY_ID) (\<lambda>_.
     bindS (push_prop_restore_absent P_POLICY_HASH) (\<lambda>_.
     bindS (push_prop_restore_absent P_POTA_THUMBPRINT) (\<lambda>_.
     bindS (push_prop_restore_absent P_SATA_THUMBPRINT) (\<lambda>_.
     bindS (if has_sapota then push_prop_restore_absent P_SAPOTA_THUMBPRINT else returns ()) (\<lambda>_.
       push_prop_restore_scalar P_STATE (ucast (part_state_u8 Enabled)))))))))"

definition commit_partition_state :: "HsmIo \<Rightarrow> CommitInputs \<Rightarrow> HsmKeyId \<Rightarrow> HsmKeyId \<Rightarrow> ('e cmd, unit) op" where
  "commit_partition_state io inputs root_key_id pta_key_id =
     bindS (cmd_slot io (reads (\<lambda>s. prop_present (prop_get_u16 P_PTA_KEY_ID s)))) (\<lambda>present.
       if present then fails PtaKeyAlreadySet
       else
         bindS (cmd_undo (record_field_undo (ci_sapota_thumb inputs \<noteq> None))) (\<lambda>_.
         bindS (cmd_slot io (part_set_pta_key pta_key_id (ci_pta_pub_sec1 inputs))) (\<lambda>_.
         bindS (cmd_slot io (part_set_ups_key_id root_key_id)) (\<lambda>_.
         bindS (cmd_slot io (prop_set_bytes P_POLICY_HASH (ci_policy_hash inputs))) (\<lambda>_.
         bindS (cmd_slot io (prop_set_bytes P_POTA_THUMBPRINT (ci_pota_thumb inputs))) (\<lambda>_.
         bindS (cmd_slot io (prop_set_bytes P_SATA_THUMBPRINT (ci_sata_thumb inputs))) (\<lambda>_.
         bindS (case ci_sapota_thumb inputs of
                  Some sapota \<Rightarrow> cmd_slot io (prop_set_bytes P_SAPOTA_THUMBPRINT sapota)
                | None \<Rightarrow> returns ()) (\<lambda>_.
           cmd_slot io (part_set_state Initializing)))))))))"

text \<open>The part of the handler that changes the partition.\<close>

definition part_init_commit :: "'e Hw \<Rightarrow> HsmIo \<Rightarrow> DmaBuf \<Rightarrow> DmaBuf \<Rightarrow> CommitInputs \<Rightarrow> ('e cmd, unit) op" where
  "part_init_commit hw io root pta_priv inputs =
     bindS (stage_part_keys hw io root pta_priv) (\<lambda>(root_key_id, pta_key_id).
       commit_partition_state io inputs root_key_id pta_key_id)"

subsection \<open>PartFinal\<close>

definition stage_final_keys ::
  "'e Hw \<Rightarrow> HsmIo \<Rightarrow> DmaBuf \<Rightarrow> DmaBuf \<Rightarrow> DmaBuf \<Rightarrow> ('e cmd, HsmKeyId \<times> HsmKeyId \<times> HsmKeyId) op" where
  "stage_final_keys hw io ups part_local_mk ephemeral_mk =
     bindS (stage_key hw io part_local_mk PartitionLocalMaskingKey PART_LOCAL_MK_ATTRS) (\<lambda>local_id.
     bindS (stage_key hw io ephemeral_mk PartitionEphemeralMaskingKey EPHEMERAL_MK_ATTRS) (\<lambda>ephemeral_id.
     bindS (stage_key hw io ups UniquePartitionSecret PART_ROOT_ATTRS) (\<lambda>ups_id.
       returns (local_id, ephemeral_id, ups_id))))"

definition record_final_undo :: "HsmKeyId \<Rightarrow> (UndoLog, unit) op" where
  "record_final_undo ums_key_id =
     bindS (push_prop_restore_absent P_LOCAL_MK_KEY_ID) (\<lambda>_.
     bindS (push_prop_restore_absent P_EPHEMERAL_MK_KEY_ID) (\<lambda>_.
     bindS (push_prop_restore_scalar P_UPS_KEY_ID (ucast ums_key_id)) (\<lambda>_.
     bindS (push_vault_disable ums_key_id) (\<lambda>_.
       push_prop_restore_scalar P_STATE (ucast (part_state_u8 Initializing))))))"

definition commit_final ::
  "HsmIo \<Rightarrow> HsmKeyId \<Rightarrow> HsmKeyId \<Rightarrow> HsmKeyId \<Rightarrow> HsmKeyId \<Rightarrow> ('e cmd, unit) op" where
  "commit_final io ums_key_id local_id ephemeral_id ups_id =
     bindS (cmd_slot io (reads part_state)) (\<lambda>st.
       if st \<noteq> Initializing then fails InvalidArg
       else
         bindS (cmd_undo (record_final_undo ums_key_id)) (\<lambda>_.
         bindS (cmd_slot io (prop_set_u16 P_LOCAL_MK_KEY_ID local_id)) (\<lambda>_.
         bindS (cmd_slot io (prop_set_u16 P_EPHEMERAL_MK_KEY_ID ephemeral_id)) (\<lambda>_.
         bindS (cmd_slot io (prop_clear P_UPS_KEY_ID)) (\<lambda>_.
         bindS (cmd_slot io (part_set_ups_key_id ups_id)) (\<lambda>_.
         bindS (cmd_pal (vault_key_disable io ums_key_id)) (\<lambda>_.
           cmd_slot io (part_set_state Initialized))))))))"

definition part_final_commit :: "'e Hw \<Rightarrow> HsmIo \<Rightarrow> HsmKeyId \<Rightarrow> DmaBuf \<Rightarrow> DmaBuf \<Rightarrow> DmaBuf \<Rightarrow> ('e cmd, unit) op" where
  "part_final_commit hw io ums_key_id ups part_local_mk ephemeral_mk =
     bindS (stage_final_keys hw io ups part_local_mk ephemeral_mk) (\<lambda>(local_id, ephemeral_id, ups_id).
       commit_final io ums_key_id local_id ephemeral_id ups_id)"

section \<open>The end of a command\<close>

definition uno_verbs :: "'e Hw \<Rightarrow> HsmIo \<Rightarrow> 'e UnoHsmPal UndoVerbs" where
  "uno_verbs hw io =
     \<lparr>v_vault_delete = vault_key_delete hw io,
      v_vault_enable = vault_key_enable io,
      v_prop_clear = (\<lambda>i. part_op (io_pid io) (prop_clear i)),
      v_prop_set_u8 = (\<lambda>i v. part_op (io_pid io) (prop_set_u8 i v)),
      v_prop_set_u16 = (\<lambda>i v. part_op (io_pid io) (prop_set_u16 i v)),
      v_prop_set_u32 = (\<lambda>i v. part_op (io_pid io) (prop_set_u32 i v)),
      v_prop_set_bool = (\<lambda>i v. part_op (io_pid io) (prop_set_bool i v)),
      v_prop_set_bytes = (\<lambda>i v. part_op (io_pid io) (prop_set_bytes i v)),
      v_session_destroy = uno_session_destroy hw io\<rparr>"

text \<open>
  The walk of the log after the completion was posted: commit when the handler and the posting both
  succeeded, undo otherwise; a poisoned walk faults the partition.
\<close>

definition walk_undo :: "'e Hw \<Rightarrow> HsmIo \<Rightarrow> bool \<Rightarrow> bool \<Rightarrow> UndoLog \<Rightarrow> ('e UnoHsmPal, unit) op" where
  "walk_undo hw io handler_ok cqe_ok log =
     bindS (\<lambda>p. fst (if handler_ok \<and> cqe_ok then apply_commit (uno_verbs hw io) log p else apply_undo (uno_verbs hw io) log p))
       (\<lambda>outcome. if outcome = Poisoned then best_effort (part_op (io_pid io) part_set_faulted) else returns ())"

definition partition_enabled :: "HsmIo \<Rightarrow> 'e UnoHsmPal \<Rightarrow> bool" where
  "partition_enabled io p =
     (case partition (io_pid io) of
        Ok i \<Rightarrow> (case part_state (pal_parts p ! i) of Ok st \<Rightarrow> st \<in> {Enabled, Initializing, Initialized} | _ \<Rightarrow> False)
      | _ \<Rightarrow> False)"

end
