(* ===== verification/PartRollback.thy ===== *)
theory PartRollback
  imports PartCommands UnoPartLaws
begin

text \<open>
  Commands roll back: the verbs of the Uno PAL satisfy the contract \<open>undo_effects\<close> of the undo log, with
  the keys of the vault and the bytes of all partition slots as the observation, and whatever \<open>PartInit\<close>
  and \<open>PartFinal\<close> have done when they stop, the log they have written leads back to the observation at
  their start.
\<close>

section \<open>The contract of the verbs\<close>

definition io_okay :: "'e Hw \<Rightarrow> HsmIo \<Rightarrow> 'e UnoHsmPal \<Rightarrow> bool" where
  "io_okay hw io p \<longleftrightarrow> engine_ok (hw_engine hw) \<and> steady io p \<and> unat (io_pid io) < NUM_PARTITIONS \<and>
     length (pal_parts p) = NUM_PARTITIONS \<and> ADMIN_IO_INDEX < length (pal_io_slots p)"

type_synonym pal_view = "(HsmKeyId \<Rightarrow> vkey option) \<times> Storage list"

definition pal_view :: "'e UnoHsmPal \<Rightarrow> pal_view" where
  "pal_view p = (pal_keys p, pal_parts p)"

definition io_slot :: "HsmIo \<Rightarrow> 'e UnoHsmPal \<Rightarrow> Storage" where
  "io_slot io p = pal_parts p ! unat (io_pid io)"

text \<open>The verbs on a slot alone.\<close>

definition slot_verbs :: "Storage UndoVerbs" where
  "slot_verbs =
     \<lparr>v_vault_delete = (\<lambda>_. fails UnsupportedCmd), v_vault_enable = (\<lambda>_. fails UnsupportedCmd),
      v_prop_clear = prop_clear, v_prop_set_u8 = prop_set_u8, v_prop_set_u16 = prop_set_u16, v_prop_set_u32 = prop_set_u32,
      v_prop_set_bool = prop_set_bool, v_prop_set_bytes = prop_set_bytes, v_session_destroy = (\<lambda>_. fails UnsupportedCmd)\<rparr>"

text \<open>
  What an inverse does to the observation, where it is certain to succeed. The fast-path core takes part
  in the deletion of a bulk key and of a session and may refuse: nothing is promised for those.
\<close>

fun uno_effect :: "HsmIo \<Rightarrow> UndoAction \<Rightarrow> pal_view \<Rightarrow> pal_view option" where
  "uno_effect io (VaultCreate k) (K, P) =
     (case K k of
        Some v \<Rightarrow> if in_mask (ps_res_mask (P ! unat (io_pid io))) k \<and> \<not> is_bulk_kind (vk_kind v) then Some (K(k := None), P) else None
      | None \<Rightarrow> None)"
| "uno_effect io (VaultDisable k) (K, P) =
     (case K k of Some v \<Rightarrow> Some (K(k \<mapsto> v\<lparr>vk_disabled := False\<rparr>), P) | None \<Rightarrow> None)"
| "uno_effect io (SessionDestroy s) (K, P) = None"
| "uno_effect io a (K, P) =
     (case undo_action slot_verbs a (P ! unat (io_pid io)) of
        (Ok _, S) \<Rightarrow> Some (K, P[unat (io_pid io) := S])
      | _ \<Rightarrow> None)"

lemma okay_held:
  assumes "io_okay hw io p"
  shows "held (\<lambda>_. True) (io_pid io) (pal_parts p) (io_slot io p) (pal_keys p) p"
  using assms by (simp add: io_okay_def held_def io_slot_def steady_def admin_io_views)

lemma slot_op_okay:
  assumes ok: "io_okay hw io p" and r: "m (io_slot io p) = (r, S)" and mask: "ps_res_mask S = ps_res_mask (io_slot io p)"
  shows "\<exists>p'. part_op (io_pid io) m p = (r, p') \<and> io_okay hw io p' \<and> pal_view p' = (pal_keys p, (pal_parts p)[unat (io_pid io) := S])"
proof -
  let ?p = "p\<lparr>pal_parts := (pal_parts p)[unat (io_pid io) := S]\<rparr>"
  note h = part_op_held [OF okay_held [OF ok], of m, OF r mask]
  have "io_okay hw io ?p" using ok h(2) by (auto simp: io_okay_def held_def steady_def)
  then show ?thesis using h(1) by (simp add: pal_view_def pal_keys_def)
qed

lemma moves_okay:
  assumes "io_okay hw io p" "vault_moves p K p'" "steady io p'"
  shows "io_okay hw io p'" "pal_view p' = (K, pal_parts p)"
  using assms vault_movesD [OF assms(2)] by (simp_all add: io_okay_def pal_view_def)

lemma setter_mask:
  "ps_res_mask (snd (ps_set_nonce v S)) = ps_res_mask S" "ps_res_mask (snd (ps_set_psk_co v S)) = ps_res_mask S"
  "ps_res_mask (snd (ps_set_psk_cu v S)) = ps_res_mask S" "ps_res_mask (snd (ps_set_credential v S)) = ps_res_mask S"
  "ps_res_mask (snd (ps_set_sealed_bk3 v S)) = ps_res_mask S" "ps_res_mask (snd (ps_set_masked_bk_boot v S)) = ps_res_mask S"
  "ps_res_mask (snd (ps_set_bk3_session v S)) = ps_res_mask S" "ps_res_mask (snd (ps_set_pota_thumbprint v S)) = ps_res_mask S"
  "ps_res_mask (snd (ps_set_sata_thumbprint v S)) = ps_res_mask S" "ps_res_mask (snd (ps_set_sapota_thumbprint v S)) = ps_res_mask S"
  "ps_res_mask (snd (ps_set_pta_pub_key v S)) = ps_res_mask S" "ps_res_mask (snd (ps_set_policy_hash v S)) = ps_res_mask S"
  by (simp_all add: ps_set_nonce_def ps_set_psk_co_def ps_set_psk_cu_def ps_set_credential_def ps_set_sealed_bk3_def ps_set_masked_bk_boot_def ps_set_bk3_session_def ps_set_pota_thumbprint_def ps_set_sata_thumbprint_def ps_set_sapota_thumbprint_def ps_set_pta_pub_key_def ps_set_policy_hash_def raise_flag_def ps_res_mask_def)

lemma clear_mask:
  "ps_res_mask (ps_clear_credential S) = ps_res_mask S" "ps_res_mask (ps_clear_pota_thumbprint S) = ps_res_mask S"
  "ps_res_mask (ps_clear_sata_thumbprint S) = ps_res_mask S" "ps_res_mask (ps_clear_sapota_thumbprint S) = ps_res_mask S"
  "ps_res_mask (ps_clear_bk3_session S) = ps_res_mask S" "ps_res_mask (ps_clear_sealed_bk3 S) = ps_res_mask S"
  "ps_res_mask (ps_clear_masked_bk_boot S) = ps_res_mask S" "ps_res_mask (ps_clear_pta_pub_key S) = ps_res_mask S"
  "ps_res_mask (ps_clear_policy_hash S) = ps_res_mask S"
  by (simp_all add: ps_clear_credential_def ps_clear_pota_thumbprint_def ps_clear_sata_thumbprint_def ps_clear_sapota_thumbprint_def ps_clear_bk3_session_def ps_clear_sealed_bk3_def ps_clear_masked_bk_boot_def ps_clear_pta_pub_key_def ps_clear_policy_hash_def drop_flag_def ps_res_mask_def)

lemma handle_mask:
  "ps_res_mask (ps_set_mk_key_id k S) = ps_res_mask S" "ps_res_mask (ps_set_ups_key_id k S) = ps_res_mask S"
  "ps_res_mask (ps_set_pta_key_id k S) = ps_res_mask S" "ps_res_mask (ps_set_se_key_id k S) = ps_res_mask S"
  "ps_res_mask (ps_set_ec_key_id k S) = ps_res_mask S" "ps_res_mask (ps_set_local_mk_key_id k S) = ps_res_mask S"
  "ps_res_mask (ps_set_ephemeral_mk_key_id k S) = ps_res_mask S" "ps_res_mask (ps_set_sd_mk_key_id k S) = ps_res_mask S"
  "ps_res_mask (ps_set_unwrapping_key_id k S) = ps_res_mask S"
  "ps_res_mask (ps_set_state st S) = ps_res_mask S" "ps_res_mask (ps_set_bk3_initialized b S) = ps_res_mask S" "ps_res_mask (ps_set_sd_initialized b S) = ps_res_mask S"
  by (simp_all add: ps_set_mk_key_id_def ps_set_ups_key_id_def ps_set_pta_key_id_def ps_set_se_key_id_def ps_set_ec_key_id_def ps_set_local_mk_key_id_def ps_set_ephemeral_mk_key_id_def ps_set_sd_mk_key_id_def ps_set_unwrapping_key_id_def ps_set_state_def ps_set_bk3_initialized_def ps_set_sd_initialized_def raise_flag_def drop_flag_def ps_res_mask_def)

lemma mask_if: "ps_res_mask (snd (if c then a else b)) = (if c then ps_res_mask (snd a) else ps_res_mask (snd b))"
  by simp

lemma prop_mask [simp]:
  "ps_res_mask (snd (prop_clear i S)) = ps_res_mask S" "ps_res_mask (snd (prop_set_u8 i x8 S)) = ps_res_mask S"
  "ps_res_mask (snd (prop_set_u16 i x16 S)) = ps_res_mask S" "ps_res_mask (snd (prop_set_u32 i x32 S)) = ps_res_mask S"
  "ps_res_mask (snd (prop_set_bool i b S)) = ps_res_mask S" "ps_res_mask (snd (prop_set_bytes i bs S)) = ps_res_mask S"
  subgoal unfolding prop_clear_def by (simp only: mask_if clear_mask handle_mask snd_conv if_cancel)
  subgoal by (simp add: prop_set_u8_def handle_mask split: option.split)
  subgoal unfolding prop_set_u16_def Let_def by (simp only: mask_if handle_mask snd_conv if_cancel)
  subgoal by (simp add: prop_set_u32_def)
  subgoal unfolding prop_set_bool_def by (simp only: mask_if handle_mask snd_conv if_cancel)
  subgoal unfolding prop_set_bytes_def by (simp only: mask_if setter_mask snd_conv if_cancel)
  done

lemma slot_action_mask: "ps_res_mask (snd (undo_action slot_verbs a S)) = ps_res_mask S"
  by (cases a) (auto simp: slot_verbs_def split: option.split PartPropKind.split)

lemma owns_in_mask:
  assumes "io_okay hw io p" "in_mask (ps_res_mask (io_slot io p)) k"
  shows "owned (vault_of io p) k"
  using assms by (simp add: io_okay_def in_mask_def owned_def bit_valid_table vault_of_def res_mask_of_def partition_def io_slot_def)

lemma delete_effect:
  assumes ok: "io_okay hw io p" and k: "pal_keys p k = Some v" "in_mask (ps_res_mask (io_slot io p)) k" "\<not> is_bulk_kind (vk_kind v)"
  shows "\<exists>p'. vault_key_delete hw io k p = (Ok (), p') \<and> io_okay hw io p' \<and> pal_view p' = ((pal_keys p)(k := None), pal_parts p)"
proof -
  have hw: "engine_ok (hw_engine hw)" and st: "steady io p" and vok: "vault_ok p" using ok by (simp_all add: io_okay_def steady_def)
  have own: "owned_key (vault_of io p) k = Some v"
    using owns_in_mask [OF ok k(2)] k(1) by (simp add: owned_key_def vault_of_views(1))
  obtain e where e: "key_entry (vault_of io p) k = Ok e"
    using entry_present_result [of k "fst (split_key_id k)" "snd (split_key_id k)" "vault_of io p"] own
    by (auto simp: key_entry_def case_prod_beta)
  then have "entry_kind e = vk_kind v" using key_entry_result [OF e] own by (metis option.inject)
  then have run: "vault_key_delete hw io k p = vault_op io (vault_delete (hw_gdma hw) k) p"
    using e k(3) by (simp add: vault_key_delete_def bindS_def)
  show ?thesis
    by (rule achieves_cases [OF delete_achieves [OF hw vok, of io k]])
      (use run k(1) moves_okay [OF ok] steady_without [OF st] in auto)
qed

lemma enable_effect:
  assumes ok: "io_okay hw io p" and k: "pal_keys p k = Some v"
  shows "\<exists>p'. vault_key_enable io k p = (Ok (), p') \<and> io_okay hw io p' \<and>
    pal_view p' = ((pal_keys p)(k \<mapsto> v\<lparr>vk_disabled := False\<rparr>), pal_parts p)"
proof -
  have st: "steady io p" and vok: "vault_ok p" using ok by (simp_all add: io_okay_def steady_def)
  have steady: "steady io p'" if "vault_moves p ((pal_keys p)(k \<mapsto> v\<lparr>vk_disabled := False\<rparr>)) p'" for p'
    by (rule steady_moves [OF st that]) (use k in \<open>auto split: if_splits\<close>)
  show ?thesis
    by (rule achieves_cases [OF enable_achieves [OF vok, of io k]])
      (use k steady moves_okay [OF ok] in \<open>auto simp: vault_key_enable_def\<close>)
qed

lemma slot_effect:
  assumes ok: "io_okay hw io p" and a: "a \<in> {PropAbsent i, PropScalar i x, PropBytes i bs}"
    and e: "uno_effect io a (pal_view p) = Some v"
  shows "\<exists>p'. undo_action (uno_verbs hw io) a p = (Ok (), p') \<and> io_okay hw io p' \<and> pal_view p' = v"
proof -
  let ?S = "io_slot io p"
  obtain S where S: "undo_action slot_verbs a ?S = (Ok (), S)" and v: "v = (pal_keys p, (pal_parts p)[unat (io_pid io) := S])"
    using e a by (auto simp: pal_view_def io_slot_def split: prod.splits run.splits)
  have "undo_action (uno_verbs hw io) a p = part_op (io_pid io) (undo_action slot_verbs a) p"
    using a S by (auto simp: uno_verbs_def slot_verbs_def split: option.splits PartPropKind.splits)
  moreover have "ps_res_mask S = ps_res_mask ?S" using slot_action_mask [of a ?S] S by simp
  ultimately show ?thesis using slot_op_okay [OF ok, of "undo_action slot_verbs a", OF S] v by simp
qed

interpretation uno_undo: undo_effects "uno_verbs hw io" "io_okay hw io" pal_view "uno_effect io" for hw io
proof unfold_locales
  fix p a v assume ok: "io_okay hw io p" and e: "uno_effect io a (pal_view p) = Some v"
  show "\<exists>p'. undo_action (uno_verbs hw io) a p = (Ok (), p') \<and> io_okay hw io p' \<and> pal_view p' = v"
  proof (cases a)
    case (VaultCreate k)
    then show ?thesis
      using e delete_effect [OF ok, of k] by (auto simp: pal_view_def io_slot_def uno_verbs_def split: option.splits if_splits)
  next
    case (VaultDisable k)
    then show ?thesis using e enable_effect [OF ok, of k] by (auto simp: pal_view_def uno_verbs_def split: option.splits)
  next
    case (SessionDestroy sid)
    then show ?thesis using e by (simp add: pal_view_def)
  next
    case (PropAbsent i)
    then show ?thesis by (intro slot_effect [OF ok _ e]) blast
  next
    case (PropScalar i x)
    then show ?thesis by (intro slot_effect [OF ok _ e]) blast
  next
    case (PropBytes i bs)
    then show ?thesis by (intro slot_effect [OF ok _ e]) blast
  qed
qed

end
