(* ===== verification/CommandRollback.thy ===== *)
theory CommandRollback
  imports PartRollback
begin

text \<open>
  The inverses \<open>PartInit\<close> and \<open>PartFinal\<close> record before they change anything stay right while they do:
  at every point where a command can stop, walking its log back gives the keys and the slots as they were.
\<close>

section \<open>Walking back\<close>

fun view_undo :: "HsmIo \<Rightarrow> UndoAction list \<Rightarrow> pal_view \<Rightarrow> pal_view option" where
  "view_undo io [] w = Some w"
| "view_undo io (a # as) w = (case uno_effect io a w of None \<Rightarrow> None | Some w' \<Rightarrow> view_undo io as w')"

definition idle :: "HsmIo \<Rightarrow> UndoAction \<Rightarrow> pal_view \<Rightarrow> bool" where
  "idle io a w \<longleftrightarrow> uno_effect io a w = Some w"

lemma view_undo_reverts: "view_undo io (rev as) w = Some v \<Longrightarrow> undo_effects.reverts (uno_effect io) v as w"
  by (induction as arbitrary: w rule: rev_induct)
    (auto intro: uno_undo.reverts.intros split: option.splits)

lemma view_undo_append: "view_undo io (as @ bs) w = (case view_undo io as w of None \<Rightarrow> None | Some w' \<Rightarrow> view_undo io bs w')"
  by (induction as arbitrary: w) (simp_all split: option.split)

lemma view_undo_idle: "\<forall>a \<in> set as. idle io a w \<Longrightarrow> view_undo io as w = Some w"
  by (induction as) (simp_all add: idle_def)

text \<open>A change whose inverse was recorded among others that find nothing to do.\<close>

lemma write_step:
  assumes "\<forall>b \<in> set ys. idle io b w" "\<forall>b \<in> set ys. idle io b w'" "idle io a w" "uno_effect io a w' = Some w"
  shows "view_undo io (rev (xs @ a # ys)) w' = view_undo io (rev (xs @ a # ys)) w"
  using assms by (simp add: view_undo_append view_undo_idle) (simp add: idle_def)

section \<open>Properties at rest\<close>

definition write_once :: "PartPropId set" where
  "write_once = {P_PTA_KEY_ID, P_PTA_PUB_KEY, P_UPS_KEY_ID, P_POLICY_HASH, P_POTA_THUMBPRINT, P_SATA_THUMBPRINT,
     P_SAPOTA_THUMBPRINT, P_LOCAL_MK_KEY_ID, P_EPHEMERAL_MK_KEY_ID}"

text \<open>The property an inverse restores has the value it restores.\<close>

fun kept :: "UndoAction \<Rightarrow> Storage \<Rightarrow> bool" where
  "kept (PropAbsent i) S \<longleftrightarrow> i \<in> write_once \<and> prop_view S i = None"
| "kept (PropScalar i x) S \<longleftrightarrow> i = P_STATE \<and> prop_view S i = Some (VU8 (ucast x)) \<or> i = P_UPS_KEY_ID \<and> prop_view S i = Some (VU16 (ucast x))"
| "kept _ S \<longleftrightarrow> False"

fun prop_of :: "UndoAction \<Rightarrow> PartPropId" where
  "prop_of (PropAbsent i) = i" | "prop_of (PropScalar i x) = i" | "prop_of (PropBytes i b) = i" | "prop_of _ = P_ID"

lemma scalar_verbs:
  "undo_action slot_verbs (PropScalar P_STATE x) = prop_set P_STATE (VU8 (ucast x))"
  "undo_action slot_verbs (PropScalar P_UPS_KEY_ID x) = prop_set P_UPS_KEY_ID (VU16 (ucast x))"
  by (simp_all add: slot_verbs_def prop_meta_def prop_ids)

lemma absent_verb: "undo_action slot_verbs (PropAbsent i) = prop_clear i"
  by (simp add: slot_verbs_def)

lemma clear_runs:
  "prop_clear P_PTA_KEY_ID S = (Ok (), ps_set_pta_key_id None S)" "prop_clear P_UPS_KEY_ID S = (Ok (), ps_set_ups_key_id None S)"
  "prop_clear P_LOCAL_MK_KEY_ID S = (Ok (), ps_set_local_mk_key_id None S)"
  "prop_clear P_EPHEMERAL_MK_KEY_ID S = (Ok (), ps_set_ephemeral_mk_key_id None S)"
  "prop_clear P_PTA_PUB_KEY S = (Ok (), ps_clear_pta_pub_key S)" "prop_clear P_POLICY_HASH S = (Ok (), ps_clear_policy_hash S)"
  "prop_clear P_POTA_THUMBPRINT S = (Ok (), ps_clear_pota_thumbprint S)"
  "prop_clear P_SATA_THUMBPRINT S = (Ok (), ps_clear_sata_thumbprint S)"
  "prop_clear P_SAPOTA_THUMBPRINT S = (Ok (), ps_clear_sapota_thumbprint S)"
  by (simp_all add: prop_clear_def prop_ids)

lemma clear_idem:
  "ps_set_pta_key_id k (ps_set_pta_key_id k' S) = ps_set_pta_key_id k S"
  "ps_set_ups_key_id k (ps_set_ups_key_id k' S) = ps_set_ups_key_id k S"
  "ps_set_local_mk_key_id k (ps_set_local_mk_key_id k' S) = ps_set_local_mk_key_id k S"
  "ps_set_ephemeral_mk_key_id k (ps_set_ephemeral_mk_key_id k' S) = ps_set_ephemeral_mk_key_id k S"
  "ps_clear_pta_pub_key (ps_clear_pta_pub_key S) = ps_clear_pta_pub_key S"
  "ps_clear_policy_hash (ps_clear_policy_hash S) = ps_clear_policy_hash S"
  "ps_clear_pota_thumbprint (ps_clear_pota_thumbprint S) = ps_clear_pota_thumbprint S"
  "ps_clear_sata_thumbprint (ps_clear_sata_thumbprint S) = ps_clear_sata_thumbprint S"
  "ps_clear_sapota_thumbprint (ps_clear_sapota_thumbprint S) = ps_clear_sapota_thumbprint S"
  "ps_set_state st (ps_set_state st' S) = ps_set_state st S"
  by (simp_all add: ps_set_pta_key_id_def ps_set_ups_key_id_def ps_set_local_mk_key_id_def ps_set_ephemeral_mk_key_id_def
      ps_clear_pta_pub_key_def ps_clear_policy_hash_def ps_clear_pota_thumbprint_def ps_clear_sata_thumbprint_def
      ps_clear_sapota_thumbprint_def ps_set_state_def drop_flag_def and.assoc)

lemma clear_twice: "i \<in> write_once \<Longrightarrow> prop_clear i S = (Ok (), S') \<Longrightarrow> prop_clear i S' = (Ok (), S')"
  by (auto simp: write_once_def clear_runs clear_idem)

text \<open>Something a write-once property can be set to.\<close>

definition sample :: "PartPropId \<Rightarrow> PropValue" where
  "sample i = (if i \<in> {P_PTA_KEY_ID, P_UPS_KEY_ID, P_LOCAL_MK_KEY_ID, P_EPHEMERAL_MK_KEY_ID} then VU16 0
     else if i = P_PTA_PUB_KEY then VBytes (replicate PUB_KEY_LEN 0)
     else if i = P_POLICY_HASH then VBytes (replicate POLICY_HASH_LEN 0)
     else if i = P_POTA_THUMBPRINT then VBytes (replicate POTA_THUMBPRINT_LEN 0)
     else if i = P_SATA_THUMBPRINT then VBytes (replicate SATA_THUMBPRINT_LEN 0)
     else VBytes (replicate SAPOTA_THUMBPRINT_LEN 0))"

lemma sample_set: "i \<in> write_once \<Longrightarrow> \<exists>S'. prop_set i (sample i) S = (Ok (), S')"
  by (auto simp: write_once_def sample_def prop_ids prop_set_u16_def prop_set_bytes_def ps_set_pta_pub_key_def
      ps_set_policy_hash_def ps_set_pota_thumbprint_def ps_set_sata_thumbprint_def ps_set_sapota_thumbprint_def)

lemma absent_idle:
  assumes "store_canon S" "i \<in> write_once" "prop_view S i = None"
  shows "prop_clear i S = (Ok (), S)"
proof -
  obtain S' where s: "prop_set i (sample i) S = (Ok (), S')" using sample_set [OF assms(2)] by blast
  have "restorable i S" using assms(2) by (auto simp: restorable_def write_once_def prop_ids)
  from prop_restore_inverse [OF assms(1) s this] have "prop_clear i S' = (Ok (), S)" using assms(3) by (simp add: prop_restore_def)
  then show ?thesis by (rule clear_twice [OF assms(2)])
qed

lemma scalar_idle:
  assumes "store_canon S" "prop_view S i = Some v" "i \<in> {P_STATE, P_UPS_KEY_ID}"
  shows "prop_set i v S = (Ok (), S)"
proof -
  have i: "restorable i S" using assms(3) by (auto simp: restorable_def prop_ids)
  have twice: "S'' = S'" if "prop_set i v S = (Ok (), S')" "prop_set i v S' = (Ok (), S'')" for S' S''
    using that assms(3) by (cases v) (auto simp: prop_setters prop_ids clear_idem Let_def split: option.splits if_splits)
  have "\<exists>S'. prop_set i v S = (Ok (), S')"
    using assms by (auto simp: prop_view_def prop_meta_def prop_ids prop_getters prop_setters ps_state_def split: option.splits run.splits)
  then obtain S' where s: "prop_set i v S = (Ok (), S')" by blast
  from prop_restore_inverse [OF assms(1) s i] have "prop_set i v S' = (Ok (), S)" using assms(2) by (simp add: prop_restore_def)
  with twice [OF s] s show ?thesis by simp
qed

lemma kept_idle:
  assumes "store_canon S" "kept a S"
  shows "undo_action slot_verbs a S = (Ok (), S)"
proof (cases a)
  case (PropAbsent i)
  then show ?thesis using absent_idle [OF assms(1)] assms(2) by (simp add: absent_verb del: undo_action.simps)
next
  case (PropScalar i x)
  then show ?thesis
    using scalar_idle [OF assms(1), of i] assms(2) by (auto simp: scalar_verbs simp del: undo_action.simps prop_set.simps)
qed (use assms(2) in simp_all)

lemma kept_other:
  assumes "prop_set i v S = (Ok (), S')" "kept a S" "prop_of a \<noteq> i"
  shows "kept a S'"
proof -
  have "\<not> shadows i (prop_of a)" using assms(2) by (cases a) (auto simp: shadows_def write_once_def prop_ids)
  from prop_set_other [OF assms(1,3) this] show ?thesis using assms(2) by (cases a) auto
qed

section \<open>Commands in flight\<close>

definition log_room :: "nat \<Rightarrow> UndoLog \<Rightarrow> bool" where
  "log_room n l \<longleftrightarrow> (nentries l + n) * ENTRY_SIZE + arena_used l \<le> length (log_buf l) \<and> length (log_buf l) \<le> 65535"

text \<open>
  The partition of the IO has the slot \<open>S\<close> and the vault the keys \<open>K\<close>; the log stands for \<open>as\<close>, which lead
  back to \<open>v\<close>, and has room for \<open>n\<close> more entries.
\<close>

definition at_cmd ::
  "'e Hw \<Rightarrow> HsmIo \<Rightarrow> pal_view \<Rightarrow> Storage list \<Rightarrow> (HsmKeyId \<Rightarrow> vkey option) \<Rightarrow> Storage \<Rightarrow> UndoAction list \<Rightarrow> nat \<Rightarrow> 'e cmd \<Rightarrow> bool" where
  "at_cmd hw io v P K S as n c \<longleftrightarrow>
     io_okay hw io (fst c) \<and> length P = NUM_PARTITIONS \<and> pal_view (fst c) = (K, P[unat (io_pid io) := S]) \<and>
     ps_res_mask S = ps_res_mask (P ! unat (io_pid io)) \<and>
     holds (snd c) as \<and> log_room n (snd c) \<and> view_undo io (rev as) (K, P[unat (io_pid io) := S]) = Some v"

definition walks_back :: "'e Hw \<Rightarrow> HsmIo \<Rightarrow> pal_view \<Rightarrow> 'e cmd \<Rightarrow> bool" where
  "walks_back hw io v c \<longleftrightarrow>
     (\<exists>p. apply_undo (uno_verbs hw io) (snd c) (fst c) = ((Ok WalkOk, p), log_zeroize (snd c)) \<and> io_okay hw io p \<and> pal_view p = v)"

lemma at_cmdD:
  assumes "at_cmd hw io v P K S as n c"
  shows "io_slot io (fst c) = S" "pal_keys (fst c) = K" "pal_parts (fst c) = P[unat (io_pid io) := S]" "unat (io_pid io) < length P"
    "io_okay hw io (fst c)" "P[unat (io_pid io) := S] ! unat (io_pid io) = S" "ps_res_mask S = ps_res_mask (P ! unat (io_pid io))"
  using assms by (auto simp: at_cmd_def io_okay_def io_slot_def pal_view_def)

lemma at_walks_back: "at_cmd hw io v P K S as n c \<Longrightarrow> walks_back hw io v c"
  unfolding at_cmd_def walks_back_def using uno_undo.rollback view_undo_reverts by metis

text \<open>The inverses that find nothing to do.\<close>

definition calm :: "(HsmKeyId \<Rightarrow> vkey option) \<Rightarrow> Storage \<Rightarrow> UndoAction \<Rightarrow> bool" where
  "calm K S a \<longleftrightarrow> kept a S \<or> (\<exists>k u. a = VaultDisable k \<and> K k = Some u \<and> \<not> vk_disabled u)"

lemma effect_prop:
  assumes "kept a T" "undo_action slot_verbs a S = (Ok (), S')" "unat (io_pid io) < length P"
  shows "uno_effect io a (K, P[unat (io_pid io) := S]) = Some (K, P[unat (io_pid io) := S'])"
  using assms by (cases a) (simp_all del: undo_action.simps)

lemma calm_idle:
  assumes "store_canon S" "calm K S a" "unat (io_pid io) < length P"
  shows "idle io a (K, P[unat (io_pid io) := S])"
proof (cases "kept a S")
  case True
  then show ?thesis using effect_prop [OF True kept_idle [OF assms(1) True] assms(3)] by (simp add: idle_def)
next
  case False
  then obtain k u where "a = VaultDisable k" "K k = Some u" "\<not> vk_disabled u" using assms(2) by (auto simp: calm_def)
  then show ?thesis by (auto simp: idle_def fun_upd_idem)
qed

lemma push_plain:
  assumes "holds l as" "log_room (Suc n) l" "\<forall>i b. a \<noteq> PropBytes i b"
  shows "\<exists>l'. push_action a l = (Ok (), l') \<and> holds l' (as @ [a]) \<and> log_room n l'"
proof -
  have "arena_cost a = 0" using assms(3) by (cases a) auto
  then have "fits_log a l" using assms by (simp add: fits_log_def log_room_def algebra_simps)
  then obtain l' where l: "push_action a l = (Ok (), l')" "holds l' (as @ [a])" "length (log_buf l') = length (log_buf l)"
    using push_action_result [OF assms(1), of a] assms(2) by (auto simp: log_room_def)
  have "\<exists>e. push_action a = push_entry e"
    using assms(3) by (cases a) (auto simp: push_vault_create_def push_vault_disable_def push_session_destroy_def
        push_prop_restore_absent_def push_prop_restore_scalar_def fun_eq_iff)
  then obtain e where "push_action a = push_entry e" by blast
  then have "l' = snd (push_entry e l)" using l(1) by simp
  then have "arena_used l' = arena_used l" by (simp add: push_entry_def push_entry_reserving_def Let_def)
  moreover have "nentries l' = nentries l + 1" using l(2) assms(1) by (simp add: holds_def)
  ultimately show ?thesis using l assms(2) by (auto simp: log_room_def algebra_simps)
qed

lemma push_at:
  assumes c: "at_cmd hw io v P K S as (Suc n) c" and a: "\<forall>i b. a \<noteq> PropBytes i b" "store_canon S" "calm K S a"
  shows "achieves (cmd_undo (push_action a)) c (\<lambda>_. at_cmd hw io v P K S (as @ [a]) n) E"
proof -
  obtain l where l: "push_action a (snd c) = (Ok (), l)" "holds l (as @ [a])" "log_room n l"
    using push_plain [of "snd c" as n a] a(1) c by (auto simp: at_cmd_def)
  have "idle io a (K, P[unat (io_pid io) := S])" by (rule calm_idle [OF a(2,3) at_cmdD(4) [OF c]])
  then have "at_cmd hw io v P K S (as @ [a]) n (fst c, l)" using c l by (simp add: at_cmd_def idle_def)
  then show ?thesis using l(1) by (simp add: achieves_def cmd_undo_def)
qed

lemma slot_at:
  assumes c: "at_cmd hw io v P K S as n c" and m: "m S = (r, S')" "r \<noteq> Panic" "ps_res_mask S' = ps_res_mask S"
    and stay: "view_undo io (rev as) (K, P[unat (io_pid io) := S']) = view_undo io (rev as) (K, P[unat (io_pid io) := S])"
  shows "achieves (cmd_slot io m) c (\<lambda>x c'. r = Ok x \<and> at_cmd hw io v P K S' as n c') (\<lambda>e c'. r = Err e \<and> at_cmd hw io v P K S' as n c')"
proof -
  note d = at_cmdD [OF c]
  have m': "m (io_slot io (fst c)) = (r, S')" "ps_res_mask S' = ps_res_mask (io_slot io (fst c))" using m d(1) by simp_all
  obtain p where p: "part_op (io_pid io) m (fst c) = (r, p)" "io_okay hw io p" "pal_view p = (K, P[unat (io_pid io) := S'])"
    using slot_op_okay [OF d(5), of m, OF m'] d(2,3) by auto
  then have "at_cmd hw io v P K S' as n (p, snd c)" using c stay m(3) by (simp add: at_cmd_def)
  then show ?thesis using p(1) m(2) by (cases r) (simp_all add: achieves_def cmd_slot_def cmd_pal_def)
qed

lemma read_at:
  assumes "at_cmd hw io v P K S as n c" "f S \<noteq> Panic"
  shows "achieves (cmd_slot io (reads f)) c (\<lambda>x c'. f S = Ok x \<and> at_cmd hw io v P K S as n c') (\<lambda>e c'. f S = Err e \<and> at_cmd hw io v P K S as n c')"
  by (rule slot_at [OF assms(1), of "reads f"]) (simp_all add: assms(2) reads_def)

lemma stage_at:
  assumes c: "at_cmd hw io v P K S as (Suc n) c" and kd: "\<not> is_bulk_kind kd"
  shows "achieves (stage_key hw io k kd at) c
    (\<lambda>i c'. K i = None \<and> in_mask (ps_res_mask S) i \<and>
       at_cmd hw io v P (K(i \<mapsto> new_key (io_pid io) kd None at (buf_bytes k))) S (as @ [VaultCreate i]) n c')
    (\<lambda>_. at_cmd hw io v P K S as (Suc n))"
  unfolding stage_key_def
proof (rule achieves_bind)
  note d = at_cmdD [OF c]
  have hw: "engine_ok (hw_engine hw)" and st: "steady io (fst c)" and vok: "vault_ok (fst c)" using d(5) by (simp_all add: io_okay_def steady_def)
  let ?new = "new_key (io_pid io) kd None at (buf_bytes k)"
  have ok: "steady io p" if "vault_moves (fst c) (K(i \<mapsto> ?new)) p" for i p
    by (rule steady_moves [OF st that]) (use kd d(2) in \<open>auto simp: new_key_def split: if_splits\<close>)
  have ok': "steady io p" if "vault_moves (fst c) K p" for p
    by (rule steady_moves [OF st that]) (use d(2) in auto)
  note moved = moves_okay [OF d(5)]
  have "achieves (vault_key_create hw io k kd None at) (fst c)
      (\<lambda>i p. K i = None \<and> owns io (fst c) i \<and> io_okay hw io p \<and> pal_view p = (K(i \<mapsto> ?new), pal_parts (fst c)))
      (\<lambda>_ p. io_okay hw io p \<and> pal_view p = (K, pal_parts (fst c)))"
    unfolding vault_key_create_def if_not_P [OF kd]
    by (rule achieves_mono [OF create_achieves [OF hw vok, of io "io_pid io" k kd None at]])
      (use ok ok' moved d(2) in auto)
  then show "achieves (cmd_pal (vault_key_create hw io k kd None at)) c
      (\<lambda>i c'. K i = None \<and> in_mask (ps_res_mask S) i \<and> io_okay hw io (fst c') \<and> pal_view (fst c') = (K(i \<mapsto> ?new), pal_parts (fst c)) \<and> snd c' = snd c)
      (\<lambda>_. at_cmd hw io v P K S as (Suc n))"
    by (rule achieves_cases)
      (use c d in \<open>auto simp: achieves_def cmd_pal_def at_cmd_def owns_def owned_def bit_valid_table vault_of_def res_mask_of_def
        partition_def in_mask_def io_okay_def\<close>)
  fix i and c1 :: "'a cmd"
  assume i: "K i = None \<and> in_mask (ps_res_mask S) i \<and> io_okay hw io (fst c1) \<and> pal_view (fst c1) = (K(i \<mapsto> ?new), pal_parts (fst c)) \<and> snd c1 = snd c"
  obtain l where l: "push_vault_create i (snd c) = (Ok (), l)" "holds l (as @ [VaultCreate i])" "log_room n l"
    using push_plain [of "snd c" as n "VaultCreate i"] c by (auto simp: at_cmd_def)
  have "uno_effect io (VaultCreate i) (K(i \<mapsto> ?new), P[unat (io_pid io) := S]) = Some (K, P[unat (io_pid io) := S])"
    using i kd d(6) by (simp add: new_key_def fun_upd_idem)
  then have "at_cmd hw io v P (K(i \<mapsto> ?new)) S (as @ [VaultCreate i]) n (fst c1, l)"
    using c i l d(3) by (simp add: at_cmd_def del: uno_effect.simps)
  then show "achieves (bindS (cmd_undo (push_vault_create i)) (\<lambda>_. returns i)) c1
      (\<lambda>i c'. K i = None \<and> in_mask (ps_res_mask S) i \<and> at_cmd hw io v P (K(i \<mapsto> ?new)) S (as @ [VaultCreate i]) n c')
      (\<lambda>_. at_cmd hw io v P K S as (Suc n))"
    using l(1) i by (simp add: achieves_def bindS_def cmd_undo_def)
qed

section \<open>Writes of a command\<close>

definition quiet :: "Storage \<Rightarrow> unit run \<times> Storage \<Rightarrow> bool" where
  "quiet S rs \<longleftrightarrow> (case fst rs of Ok _ \<Rightarrow> True | Err _ \<Rightarrow> snd rs = S | Panic \<Rightarrow> False)"

lemma quiet_if: "quiet S (if c then a else b) \<longleftrightarrow> (if c then quiet S a else quiet S b)"
  by simp

lemma quiet_simps: "quiet S (Ok x, S')" "quiet S (Err e, S)"
  by (simp_all add: quiet_def)

lemma setter_quiet:
  "quiet S (ps_set_nonce v S)" "quiet S (ps_set_psk_co v S)" "quiet S (ps_set_psk_cu v S)" "quiet S (ps_set_credential v S)"
  "quiet S (ps_set_sealed_bk3 v S)" "quiet S (ps_set_masked_bk_boot v S)" "quiet S (ps_set_bk3_session v S)"
  "quiet S (ps_set_pota_thumbprint v S)" "quiet S (ps_set_sata_thumbprint v S)" "quiet S (ps_set_sapota_thumbprint v S)"
  "quiet S (ps_set_pta_pub_key v S)" "quiet S (ps_set_policy_hash v S)"
  by (simp_all add: quiet_simps ps_set_nonce_def ps_set_psk_co_def ps_set_psk_cu_def ps_set_credential_def ps_set_sealed_bk3_def
      ps_set_masked_bk_boot_def ps_set_bk3_session_def ps_set_pota_thumbprint_def ps_set_sata_thumbprint_def
      ps_set_sapota_thumbprint_def ps_set_pta_pub_key_def ps_set_policy_hash_def)

lemma prop_set_quiet: "quiet S (prop_set i v S)"
proof (cases v)
  case (VU16 x)
  then show ?thesis by (simp only: prop_set.simps prop_set_u16_def Let_def quiet_if quiet_simps if_cancel)
next
  case (VBytes b)
  then show ?thesis by (simp only: prop_set.simps prop_set_bytes_def quiet_if quiet_simps setter_quiet if_cancel)
qed (simp_all add: prop_set_u8_def prop_set_u32_def prop_set_bool_def quiet_simps split: option.split)

lemma prop_set_mask: "ps_res_mask (snd (prop_set i v S)) = ps_res_mask S"
  by (cases v) simp_all

text \<open>Setting a property whose inverse is on the log while the inverses after it have nothing to do.\<close>

lemma write_prog:
  assumes canon: "store_canon S" and a: "kept a S" "prop_set (prop_of a) x S = (Ok (), S')"
    and ys: "\<forall>b \<in> set ys. calm K S b \<and> prop_of b \<noteq> prop_of a" and P: "unat (io_pid io) < length P"
  shows "store_canon S'" "\<forall>b \<in> set ys. calm K S' b"
    "view_undo io (rev (zs @ a # ys)) (K, P[unat (io_pid io) := S']) = view_undo io (rev (zs @ a # ys)) (K, P[unat (io_pid io) := S])"
proof -
  show canon': "store_canon S'" by (rule prop_set_canon [OF canon a(2)])
  show calm': "\<forall>b \<in> set ys. calm K S' b" using ys kept_other [OF a(2)] by (auto simp: calm_def)
  have r: "restorable (prop_of a) S" using a(1) by (cases a) (auto simp: restorable_def write_once_def prop_ids)
  have "undo_action slot_verbs a S' = (Ok (), S)"
    using prop_restore_inverse [OF canon a(2) r] a(1)
    by (cases a) (auto simp: prop_restore_def scalar_verbs absent_verb simp del: undo_action.simps prop_set.simps)
  then have restore: "uno_effect io a (K, P[unat (io_pid io) := S']) = Some (K, P[unat (io_pid io) := S])"
    by (rule effect_prop [OF a(1) _ P])
  show "view_undo io (rev (zs @ a # ys)) (K, P[unat (io_pid io) := S']) = view_undo io (rev (zs @ a # ys)) (K, P[unat (io_pid io) := S])"
    by (rule write_step [OF _ _ _ restore])
      (use ys calm' a(1) calm_idle [OF canon _ P] calm_idle [OF canon' _ P] in \<open>auto simp: calm_def\<close>)
qed

lemma step_at:
  assumes c: "at_cmd hw io v P K S L n c" and L: "L = zs @ a # ys" and canon: "store_canon S" and a: "kept a S"
    and ys: "\<forall>b \<in> set ys. calm K S b \<and> prop_of b \<noteq> prop_of a" and m: "m S = prop_set (prop_of a) x S"
  shows "achieves (cmd_slot io m) c
    (\<lambda>_ c'. \<exists>S'. prop_set (prop_of a) x S = (Ok (), S') \<and> store_canon S' \<and> (\<forall>b \<in> set ys. calm K S' b) \<and> at_cmd hw io v P K S' L n c')
    (\<lambda>_. walks_back hw io v)"
proof -
  obtain r S' where r: "prop_set (prop_of a) x S = (r, S')" by fastforce
  have q: "r \<noteq> Panic" "r = Err e \<Longrightarrow> S' = S" for e using prop_set_quiet [of S "prop_of a" x] r by (auto simp: quiet_def)
  have mask: "ps_res_mask S' = ps_res_mask S" using prop_set_mask [of "prop_of a" x S] r by simp
  show ?thesis
  proof (cases r)
    case (Ok u)
    have "prop_set (prop_of a) x S = (Ok (), S')" using r Ok by simp
    note w = write_prog(1,2) [OF canon a this ys at_cmdD(4) [OF c]] write_prog(3) [OF canon a this ys at_cmdD(4) [OF c], of zs]
    show ?thesis
      by (rule achieves_mono [OF slot_at [OF c, of m, OF m [unfolded r] q(1) mask]]) (use w r Ok L in \<open>auto intro: at_walks_back\<close>)
  next
    case (Err e)
    show ?thesis
      by (rule achieves_mono [OF slot_at [OF c, of m, OF m [unfolded r] q(1) mask]]) (use q(2) [OF Err] Err in \<open>auto intro: at_walks_back\<close>)
  qed (use q(1) in simp)
qed

end
