(* ===== verification/PartProvision.thy ===== *)
theory PartProvision
  imports CommandRollback
begin

text \<open>
  The two commands that provision a partition, at every point where they can stop: \<open>PartInit\<close> on an enabled
  partition without provisioning, \<open>PartFinal\<close> on an initializing one whose root key is live. Their logs fit
  the buffer the dispatcher gives them.
\<close>

section \<open>Recording\<close>

primrec push_all :: "UndoAction list \<Rightarrow> (UndoLog, unit) op" where
  "push_all [] = returns ()"
| "push_all (a # as) = bindS (push_action a) (\<lambda>_. push_all as)"

lemma bind_returns [simp]: "bindS m returns = m"
  by (auto simp: bindS_def fun_eq_iff split: prod.split run.split)

lemma returns_bind [simp]: "bindS (returns x) f = f x"
  by (simp add: bindS_def returns_def fun_eq_iff)

lemma cmd_undo_bind: "cmd_undo (bindS m f) = bindS (cmd_undo m) (\<lambda>x. cmd_undo (f x))"
  by (auto simp: cmd_undo_def bindS_def fun_eq_iff split: prod.split run.split)

lemma push_all_at:
  assumes "store_canon S"
  shows "at_cmd hw io v P K S as (length xs + n) c \<Longrightarrow> \<forall>a \<in> set xs. calm K S a \<Longrightarrow>
    achieves (cmd_undo (push_all xs)) c (\<lambda>_. at_cmd hw io v P K S (as @ xs) n) E"
proof (induction xs arbitrary: as c)
  case Nil
  then show ?case by (simp add: achieves_def cmd_undo_def returns_def)
next
  case (Cons a xs)
  have nb: "\<forall>i b. a \<noteq> PropBytes i b" using Cons.prems(2) by (auto simp: calm_def)
  have c: "at_cmd hw io v P K S as (Suc (length xs + n)) c" using Cons.prems(1) by simp
  show ?case
    unfolding push_all.simps cmd_undo_bind
    by (rule achieves_bind [OF push_at [OF c nb assms]])
      (use Cons.prems(2) Cons.IH [of "as @ [a]"] in auto)
qed

section \<open>PartInit\<close>

definition init_actions :: "bool \<Rightarrow> UndoAction list" where
  "init_actions has_sapota =
     [PropAbsent P_PTA_KEY_ID, PropAbsent P_PTA_PUB_KEY, PropAbsent P_UPS_KEY_ID, PropAbsent P_POLICY_HASH,
      PropAbsent P_POTA_THUMBPRINT, PropAbsent P_SATA_THUMBPRINT] @
     (if has_sapota then [PropAbsent P_SAPOTA_THUMBPRINT] else []) @ [PropScalar P_STATE (ucast (part_state_u8 Enabled))]"

definition unprovisioned :: "Storage \<Rightarrow> bool" where
  "unprovisioned S \<longleftrightarrow> store_canon S \<and> ps_state S = Ok Enabled \<and>
     (\<forall>i \<in> {P_PTA_KEY_ID, P_PTA_PUB_KEY, P_UPS_KEY_ID, P_POLICY_HASH, P_POTA_THUMBPRINT, P_SATA_THUMBPRINT, P_SAPOTA_THUMBPRINT}.
        prop_view S i = None)"

lemma record_init: "record_field_undo b = push_all (init_actions b)"
  by (cases b) (simp_all add: record_field_undo_def init_actions_def)

lemma state_view: "prop_view S P_STATE = opt_run (\<lambda>st. VU8 (part_state_u8 st)) (ps_state S)"
  by (simp add: prop_view_def prop_meta_def prop_ids prop_get_u8_def bindr_def split: run.split)

lemma state_kept: "kept (PropScalar P_STATE (ucast (part_state_u8 st))) S \<longleftrightarrow> ps_state S = Ok st"
proof -
  have "part_state_u8 a = part_state_u8 b \<longleftrightarrow> a = b" for a b by (cases a; cases b) simp_all
  moreover have "P_STATE \<noteq> P_UPS_KEY_ID" by (simp add: prop_ids)
  ultimately show ?thesis by (cases "ps_state S") (simp_all add: state_view ucast_ucast_id)
qed

lemma init_calm: "unprovisioned S \<Longrightarrow> a \<in> set (init_actions b) \<Longrightarrow> calm K S a"
  using state_kept [of Enabled S]
  by (auto simp: init_actions_def calm_def unprovisioned_def write_once_def simp del: kept.simps(2) split: if_splits)

lemma handle_absent:
  "prop_view S P_PTA_KEY_ID = None \<longleftrightarrow> prop_get_u16 P_PTA_KEY_ID S = Err PartPropNotFound"
  "prop_view S P_UPS_KEY_ID = None \<longleftrightarrow> prop_get_u16 P_UPS_KEY_ID S = Err PartPropNotFound"
  "prop_view S P_POLICY_HASH = None \<longleftrightarrow> prop_get_bytes P_POLICY_HASH S = Err PartPropNotFound"
  "prop_view S P_POTA_THUMBPRINT = None \<longleftrightarrow> prop_get_bytes P_POTA_THUMBPRINT S = Err PartPropNotFound"
  by (simp_all add: prop_view_def prop_meta_def prop_ids prop_get_u16_def prop_key_def prop_get_bytes_def present_bytes_def bindr_def
      split: option.split)

lemma get_present:
  "prop_present (prop_get_u16 P_PTA_KEY_ID S) = Ok (prop_view S P_PTA_KEY_ID \<noteq> None)"
  "prop_present (prop_get_u16 P_UPS_KEY_ID S) = Ok (prop_view S P_UPS_KEY_ID \<noteq> None)"
  "prop_present (prop_get_bytes P_POLICY_HASH S) = Ok (prop_view S P_POLICY_HASH \<noteq> None)"
  "prop_present (prop_get_bytes P_POTA_THUMBPRINT S) = Ok (prop_view S P_POTA_THUMBPRINT \<noteq> None)"
  by (simp_all add: prop_view_def prop_meta_def prop_ids prop_get_u16_def prop_key_def prop_get_bytes_def present_bytes_def bindr_def
      prop_present_def split: option.split)

lemma part_state_eq: "part_state S = ps_state S"
  by (cases "ps_state S"; cases "case ps_state S of Ok st \<Rightarrow> st | _ \<Rightarrow> Enabled")
    (simp_all add: part_state_def prop_get_u8_def bindr_def part_state_from_u8_def)

lemma set_ups_run: "prop_view S P_UPS_KEY_ID = None \<Longrightarrow> part_set_ups_key_id k S = prop_set P_UPS_KEY_ID (VU16 k) S"
  by (simp add: part_set_ups_key_id_def ensure_key_id_unset_def bindS_def get_present)

lemma set_pta_run:
  assumes "prop_view S P_PTA_KEY_ID = None"
  shows "part_set_pta_key k sec1 S = (Err InvalidArg, S) \<or>
    (\<exists>S1 S2. prop_set P_PTA_KEY_ID (VU16 k) S = (Ok (), S1) \<and> prop_set P_PTA_PUB_KEY (VBytes (tl sec1)) S1 = (Ok (), S2) \<and>
       part_set_pta_key k sec1 S = (Ok (), S2))"
proof -
  have h: "prop_set_u16 P_PTA_KEY_ID k S = (Ok (), ps_set_pta_key_id (Some k) S)" by (simp add: prop_set_u16_def prop_ids)
  have b: "length raw = 96 \<Longrightarrow> \<exists>S2. prop_set_bytes P_PTA_PUB_KEY raw S1 = (Ok (), S2)" for raw S1
    by (simp add: prop_set_bytes_def ps_set_pta_pub_key_def prop_ids store_lens)
  show ?thesis
    using assms h b [of "tl sec1"]
    by (auto simp: part_set_pta_key_def part_set_pta_key_id_def ensure_key_id_unset_def pta_sec1_to_raw_def bindS_def get_present)
qed

lemma set_state_run:
  assumes "ps_state S = Ok Enabled"
  shows "part_set_state Initializing S = (Err InvalidArg, S) \<or>
    (part_set_state Initializing S = prop_set P_STATE (VU8 (part_state_u8 Initializing)) S \<and>
     (\<forall>i \<in> {P_PTA_KEY_ID, P_UPS_KEY_ID, P_POLICY_HASH, P_POTA_THUMBPRINT}. prop_view S i \<noteq> None))"
  using assms by (auto simp: part_set_state_def part_state_eq bindS_def and_then_def bindr_def get_present)

text \<open>The writes of the commit one after the other, each with its inverse on the log.\<close>

definition committing ::
  "'e Hw \<Rightarrow> HsmIo \<Rightarrow> pal_view \<Rightarrow> Storage list \<Rightarrow> (HsmKeyId \<Rightarrow> vkey option) \<Rightarrow> UndoAction list \<Rightarrow> UndoAction list \<Rightarrow> nat \<Rightarrow> 'e cmd \<Rightarrow> bool" where
  "committing hw io v P K L ys n c \<longleftrightarrow>
     (\<exists>S. at_cmd hw io v P K S L n c \<and> store_canon S \<and> (\<forall>b \<in> set ys. calm K S b) \<and> (\<exists>zs. L = zs @ ys) \<and> distinct (map prop_of ys))"

lemma committing_write:
  assumes c: "committing hw io v P K L (PropAbsent i # ys) n c"
    and m: "\<And>S. prop_view S i = None \<Longrightarrow> m S = prop_set i x S"
  shows "achieves (cmd_slot io m) c (\<lambda>_. committing hw io v P K L ys n) (\<lambda>_. walks_back hw io v)"
proof -
  obtain S zs where s: "at_cmd hw io v P K S L n c" "store_canon S" "\<forall>b \<in> set (PropAbsent i # ys). calm K S b"
    "L = zs @ PropAbsent i # ys" "distinct (map prop_of (PropAbsent i # ys))" using c by (auto simp: committing_def)
  have k: "kept (PropAbsent i) S" using s(3) by (simp add: calm_def)
  have ys: "\<forall>b \<in> set ys. calm K S b \<and> prop_of b \<noteq> prop_of (PropAbsent i)" using s(3,5) by auto
  have run: "m S = prop_set (prop_of (PropAbsent i)) x S" using m k by simp
  have "\<exists>zs. L = zs @ ys" using s(4) by (intro exI [of _ "zs @ [PropAbsent i]"]) simp
  then show ?thesis
    by (intro achieves_mono [OF step_at [OF s(1,4,2) k ys, where m = m, OF run]]) (use s(5) in \<open>auto simp: committing_def\<close>)
qed

lemma commit_pta:
  assumes c: "committing hw io v P K L (PropAbsent P_PTA_KEY_ID # PropAbsent P_PTA_PUB_KEY # ys) n c"
  shows "achieves (cmd_slot io (part_set_pta_key k sec1)) c (\<lambda>_. committing hw io v P K L ys n) (\<lambda>_. walks_back hw io v)"
proof -
  let ?a = "PropAbsent P_PTA_KEY_ID" and ?b = "PropAbsent P_PTA_PUB_KEY"
  obtain S zs where s: "at_cmd hw io v P K S L n c" "store_canon S" "\<forall>b \<in> set (?a # ?b # ys). calm K S b"
    "L = zs @ ?a # ?b # ys" "distinct (map prop_of (?a # ?b # ys))" using c unfolding committing_def by blast
  note i = at_cmdD(4) [OF s(1)]
  have ka: "kept ?a S" using s(3) by (auto simp: calm_def)
  then have none: "prop_view S P_PTA_KEY_ID = None" by simp
  show ?thesis
    using set_pta_run [OF none, of k sec1]
  proof (elim disjE exE conjE)
    assume "part_set_pta_key k sec1 S = (Err InvalidArg, S)"
    from slot_at [OF s(1), of "part_set_pta_key k sec1", OF this] show ?thesis
      by (rule achieves_mono) (auto intro: at_walks_back)
  next
    fix S1 S2 assume r: "prop_set P_PTA_KEY_ID (VU16 k) S = (Ok (), S1)" "prop_set P_PTA_PUB_KEY (VBytes (tl sec1)) S1 = (Ok (), S2)"
      "part_set_pta_key k sec1 S = (Ok (), S2)"
    have r1: "prop_set (prop_of ?a) (VU16 k) S = (Ok (), S1)" and r2: "prop_set (prop_of ?b) (VBytes (tl sec1)) S1 = (Ok (), S2)"
      using r(1,2) by (simp_all only: prop_of.simps)
    have y1: "\<forall>b \<in> set (?b # ys). calm K S b \<and> prop_of b \<noteq> prop_of ?a" using s(3,5) by force
    note w1 = write_prog(1,2) [OF s(2) ka r1 y1 i]
    have kb: "kept ?b S1" and y2: "\<forall>b \<in> set ys. calm K S1 b \<and> prop_of b \<noteq> prop_of ?b" using w1(2) s(5) by (auto simp: calm_def) force
    note w2 = write_prog(1,2) [OF w1(1) kb r2 y2 i]
    have stay: "view_undo io (rev L) (K, P[unat (io_pid io) := S2]) = view_undo io (rev L) (K, P[unat (io_pid io) := S])"
      using write_prog(3) [OF w1(1) kb r2 y2 i, of "zs @ [?a]"] write_prog(3) [OF s(2) ka r1 y1 i, of zs] s(4) by simp
    have mask: "ps_res_mask S2 = ps_res_mask S" using prop_set_mask r(1,2) by (metis snd_conv)
    have "\<exists>zs. L = zs @ ys" using s(4) by (intro exI [of _ "zs @ [?a, ?b]"]) simp
    then show ?thesis
      by (intro achieves_mono [OF slot_at [OF s(1), of "part_set_pta_key k sec1", OF r(3) _ mask stay]]) (use w2 s(5) in \<open>auto simp: committing_def\<close>)
  qed
qed

lemma commit_state:
  assumes c: "committing hw io v P K L [PropScalar P_STATE (ucast (part_state_u8 Enabled))] n c"
  shows "achieves (cmd_slot io (part_set_state Initializing)) c
    (\<lambda>_ c'. \<exists>S. at_cmd hw io v P K S L n c' \<and> ps_state S = Ok Initializing \<and>
       (\<forall>i \<in> {P_PTA_KEY_ID, P_UPS_KEY_ID, P_POLICY_HASH, P_POTA_THUMBPRINT}. prop_view S i \<noteq> None)) (\<lambda>_. walks_back hw io v)"
proof -
  let ?a = "PropScalar P_STATE (ucast (part_state_u8 Enabled))"
  obtain S zs where s: "at_cmd hw io v P K S L n c" "store_canon S" "calm K S ?a" "L = zs @ [?a]" using c by (auto simp: committing_def)
  have k: "kept ?a S" using s(3) by (simp add: calm_def del: kept.simps)
  then have en: "ps_state S = Ok Enabled" by (simp only: state_kept)
  show ?thesis
    using set_state_run [OF en]
  proof (elim disjE conjE)
    assume "part_set_state Initializing S = (Err InvalidArg, S)"
    from slot_at [OF s(1), of "part_set_state Initializing", OF this] show ?thesis
      by (rule achieves_mono) (auto intro: at_walks_back)
  next
    assume r: "part_set_state Initializing S = prop_set P_STATE (VU8 (part_state_u8 Initializing)) S"
      and p: "\<forall>i \<in> {P_PTA_KEY_ID, P_UPS_KEY_ID, P_POLICY_HASH, P_POTA_THUMBPRINT}. prop_view S i \<noteq> None"
    have post: "ps_state S' = Ok Initializing \<and> (\<forall>i \<in> {P_PTA_KEY_ID, P_UPS_KEY_ID, P_POLICY_HASH, P_POTA_THUMBPRINT}. prop_view S' i \<noteq> None)"
      if "prop_set P_STATE (VU8 (part_state_u8 Initializing)) S = (Ok (), S')" for S'
    proof -
      have "prop_view S' i = prop_view S i" if "i \<in> {P_PTA_KEY_ID, P_UPS_KEY_ID, P_POLICY_HASH, P_POTA_THUMBPRINT}" for i
        using prop_set_other [OF \<open>prop_set P_STATE _ S = (Ok (), S')\<close>, of i] that by (auto simp: shadows_def prop_ids)
      moreover have "S' = ps_set_state Initializing S" using that by (simp add: prop_set_u8_def part_state_from_u8_def)
      moreover have "ps_state (ps_set_state Initializing S) = Ok Initializing"
        by (simp add: ps_state_def ps_set_state_def part_state_from_u8_def)
      ultimately show ?thesis using p by simp
    qed
    show ?thesis
      by (rule achieves_mono [OF step_at [OF s(1,4,2) k, where m = "part_set_state Initializing" and x = "VU8 (part_state_u8 Initializing)"]])
        (use r post in \<open>auto simp del: prop_set.simps\<close>)
  qed
qed

lemma record_init_at:
  assumes c: "at_cmd hw io v P K S as 8 c" and S: "unprovisioned S"
  shows "achieves (cmd_undo (record_field_undo b)) c (\<lambda>_ c'. \<exists>n. committing hw io v P K (as @ init_actions b) (init_actions b) n c') E"
proof -
  have n: "at_cmd hw io v P K S as (length (init_actions b) + (if b then 0 else 1)) c" using c by (simp add: init_actions_def numeral_eq_Suc)
  have canon: "store_canon S" and calms: "\<forall>a \<in> set (init_actions b). calm K S a"
    using S init_calm [OF S] by (simp_all add: unprovisioned_def)
  have d: "distinct (map prop_of (init_actions b))" by (simp add: init_actions_def prop_ids)
  show ?thesis
    unfolding record_init
    by (rule achieves_mono [OF push_all_at [OF canon n]], use calms in blast, unfold committing_def, use canon calms d in blast)
qed

lemma commit_init_at:
  fixes c :: "'e cmd"
  assumes c: "at_cmd hw io v P K S as 8 c" and S: "unprovisioned S"
  shows "achieves (commit_partition_state io inputs root pta) c
    (\<lambda>_ c'. \<exists>S' L n. at_cmd hw io v P K S' L n c' \<and> ps_state S' = Ok Initializing \<and>
       (\<forall>i \<in> {P_PTA_KEY_ID, P_UPS_KEY_ID, P_POLICY_HASH, P_POTA_THUMBPRINT}. prop_view S' i \<noteq> None)) (\<lambda>_. walks_back hw io v)"
    (is "achieves _ _ ?Q ?E")
proof -
  let ?b = "ci_sapota_thumb inputs \<noteq> None"
  let ?st = "PropScalar P_STATE (ucast (part_state_u8 Enabled))"
  have none: "prop_view S P_PTA_KEY_ID = None" using S by (simp add: unprovisioned_def)
  have sapota: "achieves (case ci_sapota_thumb inputs of
      Some sapota \<Rightarrow> cmd_slot io (prop_set_bytes P_SAPOTA_THUMBPRINT sapota) | None \<Rightarrow> returns ()) c1
      (\<lambda>_. committing hw io v P K L [?st] n) ?E"
    if "committing hw io v P K L ((if ?b then [PropAbsent P_SAPOTA_THUMBPRINT] else []) @ [?st]) n c1" for L n and c1 :: "'e cmd"
    using that committing_write [of hw io v P K L P_SAPOTA_THUMBPRINT "[?st]" n c1 "prop_set_bytes P_SAPOTA_THUMBPRINT _" "VBytes _"]
    by (cases "ci_sapota_thumb inputs") simp_all
  have writes: "achieves
      (bindS (cmd_slot io (part_set_pta_key pta (ci_pta_pub_sec1 inputs))) (\<lambda>_.
       bindS (cmd_slot io (part_set_ups_key_id root)) (\<lambda>_.
       bindS (cmd_slot io (prop_set_bytes P_POLICY_HASH (ci_policy_hash inputs))) (\<lambda>_.
       bindS (cmd_slot io (prop_set_bytes P_POTA_THUMBPRINT (ci_pota_thumb inputs))) (\<lambda>_.
       bindS (cmd_slot io (prop_set_bytes P_SATA_THUMBPRINT (ci_sata_thumb inputs))) (\<lambda>_.
       bindS (case ci_sapota_thumb inputs of
           Some sapota \<Rightarrow> cmd_slot io (prop_set_bytes P_SAPOTA_THUMBPRINT sapota) | None \<Rightarrow> returns ()) (\<lambda>_.
         cmd_slot io (part_set_state Initializing)))))))) c1 ?Q ?E"
    if "committing hw io v P K L (init_actions ?b) n c1" for L n and c1 :: "'e cmd"
    using that unfolding init_actions_def append_Cons append_Nil
    apply -
    apply (rule achieves_bind [OF commit_pta], assumption)
    apply (rule achieves_bind [OF committing_write [where x = "VU16 root"]], assumption, rule set_ups_run, assumption)
    apply (rule achieves_bind [OF committing_write [where x = "VBytes (ci_policy_hash inputs)"]], assumption, simp)
    apply (rule achieves_bind [OF committing_write [where x = "VBytes (ci_pota_thumb inputs)"]], assumption, simp)
    apply (rule achieves_bind [OF committing_write [where x = "VBytes (ci_sata_thumb inputs)"]], assumption, simp)
    apply (rule achieves_bind [OF sapota], assumption)
    apply (rule achieves_mono [OF commit_state], assumption, blast, assumption)
    done
  show ?thesis
    unfolding commit_partition_state_def
    apply (rule achieves_bind [OF achieves_mono [OF read_at [OF c, where f = "\<lambda>s. prop_present (prop_get_u16 P_PTA_KEY_ID s)"]]])
       apply (simp add: get_present)
      apply assumption
     apply (use at_walks_back in blast)
    apply (elim conjE, simp only: get_present none run.inject simp_thms if_False)
    apply (rule achieves_bind [OF record_init_at [OF _ S]], assumption)
    apply (elim exE, rule writes, assumption)
    done
qed

text \<open>The state a command starts from.\<close>

lemma start_at:
  assumes "io_okay hw io p" "holds l []" "log_room n l"
  shows "at_cmd hw io (pal_view p) (pal_parts p) (pal_keys p) (io_slot io p) [] n (p, l)"
  using assms by (simp add: at_cmd_def io_okay_def pal_view_def io_slot_def)

definition init_done :: "HsmIo \<Rightarrow> DmaBuf \<Rightarrow> DmaBuf \<Rightarrow> 'e UnoHsmPal \<Rightarrow> 'e UnoHsmPal \<Rightarrow> bool" where
  "init_done io root pta_priv p p' \<longleftrightarrow>
     (\<exists>r t. pal_keys p r = None \<and> pal_keys p t = None \<and> r \<noteq> t \<and>
        pal_keys p' = (pal_keys p)(r \<mapsto> new_key (io_pid io) UniquePartitionSecret None PART_ROOT_VAULT_ATTRS (buf_bytes root),
          t \<mapsto> new_key (io_pid io) PartitionTrustAnchor None PTA_VAULT_ATTRS (buf_bytes pta_priv))) \<and>
     (\<forall>j. j \<noteq> unat (io_pid io) \<longrightarrow> pal_parts p' ! j = pal_parts p ! j) \<and>
     ps_state (io_slot io p') = Ok Initializing \<and>
     (\<forall>i \<in> {P_PTA_KEY_ID, P_UPS_KEY_ID, P_POLICY_HASH, P_POTA_THUMBPRINT}. prop_view (io_slot io p') i \<noteq> None)"

lemma plain_kinds:
  "\<not> is_bulk_kind PartitionTrustAnchor" "\<not> is_bulk_kind UniquePartitionSecret" "\<not> is_bulk_kind PartitionLocalMaskingKey"
  "\<not> is_bulk_kind PartitionEphemeralMaskingKey"
  by (simp_all add: is_bulk_kind_def)

lemma part_init_at:
  fixes p :: "'e UnoHsmPal"
  assumes ok: "io_okay hw io p" and l: "holds l []" "log_room 10 l" and S: "unprovisioned (io_slot io p)"
  shows "achieves (part_init_commit hw io root pta_priv inputs) (p, l)
    (\<lambda>_ c. walks_back hw io (pal_view p) c \<and> init_done io root pta_priv p (fst c)) (\<lambda>_. walks_back hw io (pal_view p))"
    (is "achieves _ _ ?Q ?E")
proof -
  let ?at = "at_cmd hw io (pal_view p) (pal_parts p)" and ?K = "pal_keys p" and ?S = "io_slot io p"
  let ?r = "new_key (io_pid io) UniquePartitionSecret None PART_ROOT_VAULT_ATTRS (buf_bytes root)"
  let ?t = "new_key (io_pid io) PartitionTrustAnchor None PTA_VAULT_ATTRS (buf_bytes pta_priv)"
  have c0: "?at ?K ?S [] (Suc 9) (p, l)" using start_at [OF ok l(1), of 10] l(2) by simp
  have last: "achieves (commit_partition_state io inputs r t) c ?Q ?E"
    if c: "?at (?K(r \<mapsto> ?r, t \<mapsto> ?t)) ?S as 8 c" and fresh: "?K r = None" "(?K(r \<mapsto> ?r)) t = None" for r t as and c :: "'e cmd"
  proof (rule achieves_mono [OF commit_init_at [OF c S]]; (elim exE conjE)?)
    fix x :: unit and c' :: "'e cmd" and S' L n
    assume c': "?at (?K(r \<mapsto> ?r, t \<mapsto> ?t)) S' L n c'" and s: "ps_state S' = Ok Initializing"
      "\<forall>i \<in> {P_PTA_KEY_ID, P_UPS_KEY_ID, P_POLICY_HASH, P_POTA_THUMBPRINT}. prop_view S' i \<noteq> None"
    note d = at_cmdD [OF c']
    have "init_done io root pta_priv p (fst c')"
      unfolding init_done_def d(1-3) using fresh s by (intro conjI exI [of _ r] exI [of _ t]) (auto split: if_splits)
    then show "walks_back hw io (pal_view p) c' \<and> init_done io root pta_priv p (fst c')" using at_walks_back [OF c'] by blast
  qed
  show ?thesis
    unfolding part_init_commit_def stage_part_keys_def
    apply (rule achieves_bind [where R = "\<lambda>(r, t) c. \<exists>as. ?K r = None \<and> (?K(r \<mapsto> ?r)) t = None \<and> ?at (?K(r \<mapsto> ?r, t \<mapsto> ?t)) ?S as 8 c"])
     apply (rule achieves_bind [OF achieves_errs [OF stage_at [OF c0 plain_kinds(2)]]])
      apply (use at_walks_back in blast)
     apply (elim conjE)
     apply (rule achieves_bind [OF achieves_errs [OF stage_at [where n = 8, OF _ plain_kinds(1)]]])
       apply simp
      apply (use at_walks_back in blast)
     apply (simp, blast)
    apply (auto intro: last)
    done
qed

section \<open>PartFinal\<close>

definition final_actions :: "HsmKeyId \<Rightarrow> UndoAction list" where
  "final_actions ums =
     [PropAbsent P_LOCAL_MK_KEY_ID, PropAbsent P_EPHEMERAL_MK_KEY_ID, PropScalar P_UPS_KEY_ID (ucast ums), VaultDisable ums,
      PropScalar P_STATE (ucast (part_state_u8 Initializing))]"

definition finalizable :: "HsmKeyId \<Rightarrow> (HsmKeyId \<Rightarrow> vkey option) \<Rightarrow> Storage \<Rightarrow> bool" where
  "finalizable ums K S \<longleftrightarrow> store_canon S \<and> ps_state S = Ok Initializing \<and> prop_view S P_UPS_KEY_ID = Some (VU16 ums) \<and>
     prop_view S P_LOCAL_MK_KEY_ID = None \<and> prop_view S P_EPHEMERAL_MK_KEY_ID = None \<and>
     (\<exists>u. K ums = Some u \<and> \<not> vk_disabled u \<and> \<not> is_bulk_kind (vk_kind u) \<and> in_mask (ps_res_mask S) ums)"

lemma record_final: "record_final_undo ums = push_all (final_actions ums)"
  by (simp add: record_final_undo_def final_actions_def)

lemma ups_kept: "kept (PropScalar P_UPS_KEY_ID (ucast ums)) S \<longleftrightarrow> prop_view S P_UPS_KEY_ID = Some (VU16 ums)"
  by (simp add: prop_ids ucast_ucast_id)

lemma final_calm:
  assumes "finalizable ums K S" "a \<in> set (final_actions ums)"
  shows "calm K S a"
proof -
  have "kept (PropScalar P_STATE (ucast (part_state_u8 Initializing))) S" using assms(1) unfolding finalizable_def state_kept by blast
  moreover have "kept (PropScalar P_UPS_KEY_ID (ucast ums)) S" using assms(1) unfolding finalizable_def ups_kept by blast
  ultimately show ?thesis
    using assms by (auto simp: final_actions_def calm_def finalizable_def write_once_def simp del: kept.simps(2))
qed

text \<open>Whatever the root handle is set to, its recorded inverse points it back.\<close>

lemma repoint:
  assumes canon: "store_canon S" and a: "prop_view S P_UPS_KEY_ID = Some (VU16 ums)" and P: "unat (io_pid io) < length P"
    and ys: "\<forall>b \<in> set ys. calm K S b \<and> prop_of b \<noteq> P_UPS_KEY_ID"
  shows "store_canon (ps_set_ups_key_id k S)" "\<forall>b \<in> set ys. calm K (ps_set_ups_key_id k S) b"
    "view_undo io (rev (zs @ PropScalar P_UPS_KEY_ID (ucast ums) # ys)) (K, P[unat (io_pid io) := ps_set_ups_key_id k S]) =
     view_undo io (rev (zs @ PropScalar P_UPS_KEY_ID (ucast ums) # ys)) (K, P[unat (io_pid io) := S])"
proof -
  let ?a = "PropScalar P_UPS_KEY_ID (ucast ums)" and ?S = "ps_set_ups_key_id k S"
  have run: "prop_clear P_UPS_KEY_ID S = (Ok (), ps_set_ups_key_id None S)"
    "prop_set P_UPS_KEY_ID (VU16 h) T = (Ok (), ps_set_ups_key_id (Some h) T)" for h T
    by (rule clear_runs, simp add: prop_set_u16_def prop_ids)
  show canon': "store_canon ?S"
    using prop_clear_canon [OF canon run(1)] prop_set_canon [OF canon run(2)] by (cases k) simp_all
  have view: "prop_view ?S i = prop_view S i" if "i \<noteq> P_UPS_KEY_ID" for i
    using prop_clear_other [OF run(1) that] prop_set_other [OF run(2) that] by (cases k) (auto simp: shadows_def prop_ids)
  have "kept b ?S" if "kept b S" "prop_of b \<noteq> P_UPS_KEY_ID" for b using that view by (cases b) auto
  then show calm': "\<forall>b \<in> set ys. calm K ?S b" using ys by (auto simp: calm_def)
  have ka: "kept ?a S" using a unfolding ups_kept .
  have "prop_set P_UPS_KEY_ID (VU16 ums) S = (Ok (), S)" by (rule scalar_idle [OF canon a]) simp
  then have "ps_set_ups_key_id (Some ums) S = S" by (simp only: run(2)) simp
  then have "undo_action slot_verbs ?a ?S = (Ok (), S)" unfolding scalar_verbs run(2) by (simp add: clear_idem ucast_ucast_id)
  from effect_prop [OF ka this P]
  show "view_undo io (rev (zs @ ?a # ys)) (K, P[unat (io_pid io) := ?S]) = view_undo io (rev (zs @ ?a # ys)) (K, P[unat (io_pid io) := S])"
    by (rule write_step [rotated 3]) (use ys calm' ka calm_idle [OF canon _ P] calm_idle [OF canon' _ P] in \<open>auto simp: calm_def simp del: kept.simps\<close>)
qed

lemma commit_repoint:
  fixes c :: "'e cmd" and ums :: HsmKeyId
  assumes c: "committing hw io v P K L (PropScalar P_UPS_KEY_ID (ucast ums) # ys) n c"
  shows "achieves (bindS (cmd_slot io (prop_clear P_UPS_KEY_ID)) (\<lambda>_. cmd_slot io (part_set_ups_key_id h))) c
    (\<lambda>_ c'. committing hw io v P K L ys n c' \<and> ps_ups_key_id (io_slot io (fst c')) = (if h = KEY_ABSENT then None else Some h)) (\<lambda>_. walks_back hw io v)"
proof -
  let ?a = "PropScalar P_UPS_KEY_ID (ucast ums)"
  obtain S zs where s: "at_cmd hw io v P K S L n c" "store_canon S" "calm K S ?a" "\<forall>b \<in> set ys. calm K S b"
    "L = zs @ ?a # ys" "distinct (map prop_of (?a # ys))" using c unfolding committing_def by auto
  have a: "prop_view S P_UPS_KEY_ID = Some (VU16 ums)" using s(3) unfolding calm_def ups_kept by auto
  have ys: "\<forall>b \<in> set ys. calm K S b \<and> prop_of b \<noteq> P_UPS_KEY_ID" using s(4,6) by force
  note rp = repoint [OF s(2) a at_cmdD(4) [OF s(1)] ys]
  let ?S1 = "ps_set_ups_key_id None S" and ?S2 = "ps_set_ups_key_id (Some h) S"
  have none: "prop_view ?S1 P_UPS_KEY_ID = None" using prop_clear_same [OF clear_runs(2)] .
  have set: "part_set_ups_key_id h ?S1 = (Ok (), ?S2)"
    unfolding set_ups_run [OF none] by (simp add: prop_set_u16_def prop_ids clear_idem)
  have ys': "\<exists>zs. L = zs @ ys" using s(5) by (intro exI [of _ "zs @ [?a]"]) simp
  have slot: "ps_ups_key_id ?S2 = (if h = KEY_ABSENT then None else Some h)"
    by (simp add: ps_ups_key_id_def ps_set_ups_key_id_def)
  have after: "committing hw io v P K L ys n c' \<and> ps_ups_key_id (io_slot io (fst c')) = (if h = KEY_ABSENT then None else Some h)"
    if "at_cmd hw io v P K ?S2 L n c'" for c' :: "'e cmd"
    unfolding at_cmdD(1) [OF that] slot committing_def using that rp(1,2) ys' s(6) by auto
  show ?thesis
    apply (rule achieves_bind [OF achieves_mono [OF slot_at [OF s(1), of "prop_clear P_UPS_KEY_ID", OF clear_runs(2)],
        where Q' = "\<lambda>_. at_cmd hw io v P K ?S1 L n" and E' = "\<lambda>_. walks_back hw io v"]])
         apply simp
        apply (simp add: handle_mask)
       apply (use rp(3) s(5) in simp)
      apply blast
     apply (blast intro: at_walks_back)
    apply (rule achieves_mono [OF slot_at [of hw io v P K ?S1 L n _ "part_set_ups_key_id h", OF _ set]])
        apply assumption
       apply simp
      apply (simp add: handle_mask)
     apply (use rp(3) s(5) in simp)
     apply (use after in blast)
    apply (blast intro: at_walks_back)
    done
qed

lemma commit_disable:
  fixes c :: "'e cmd"
  assumes c: "committing hw io v P K L (VaultDisable k # ys) n c" and k: "K k = Some u" "\<not> vk_disabled u"
    and ys: "\<forall>b \<in> set ys. \<forall>j. b \<noteq> VaultDisable j"
  shows "achieves (cmd_pal (vault_key_disable io k)) c
    (\<lambda>_ c'. committing hw io v P (K(k \<mapsto> u\<lparr>vk_disabled := True\<rparr>)) L ys n c' \<and> io_slot io (fst c') = io_slot io (fst c)) (\<lambda>_. walks_back hw io v)"
proof -
  let ?K = "K(k \<mapsto> u\<lparr>vk_disabled := True\<rparr>)"
  obtain S zs where s: "at_cmd hw io v P K S L n c" "store_canon S" "\<forall>b \<in> set ys. calm K S b" "L = zs @ VaultDisable k # ys"
    "distinct (map prop_of ys)" using c unfolding committing_def by auto
  note d = at_cmdD [OF s(1)]
  have st: "steady io (fst c)" and vok: "vault_ok (fst c)" using d(5) by (simp_all add: io_okay_def steady_def)
  have calm': "\<forall>b \<in> set ys. calm ?K S b" using s(3) ys by (auto simp: calm_def)
  have e: "uno_effect io (VaultDisable k) (?K, P[unat (io_pid io) := S]) = Some (K, P[unat (io_pid io) := S])" using k by (auto simp: fun_upd_idem)
  have kc: "calm K S (VaultDisable k)" using k by (simp add: calm_def)
  have stay: "view_undo io (rev L) (?K, P[unat (io_pid io) := S]) = view_undo io (rev L) (K, P[unat (io_pid io) := S])"
    unfolding s(4) by (rule write_step [rotated 3, OF e]) (use s(3) calm' kc calm_idle [OF s(2) _ d(4)] in auto)
  have move: "at_cmd hw io v P K' S L n (p, snd c)" if "vault_moves (fst c) K' p" "steady io p" "K' = K \<or> K' = ?K" for K' p
    using moves_okay [OF d(5) that(1,2)] that(3) s(1) stay d(3) by (auto simp: at_cmd_def)
  have st1: "steady io p" if "vault_moves (fst c) ?K p" for p
    by (rule steady_moves [OF st that]) (use k d(2) in \<open>auto split: if_splits\<close>)
  have st2: "steady io p" if "vault_moves (fst c) K p" for p
    by (rule steady_moves [OF st that]) (use d(2) in auto)
  have zs: "\<exists>zs. L = zs @ ys" using s(4) by (intro exI [of _ "zs @ [VaultDisable k]"]) simp
  have fin: "committing hw io v P ?K L ys n (p, snd c) \<and> io_slot io p = S" if "vault_moves (fst c) ?K p" for p
    using move [OF that st1 [OF that]] s(2,5) calm' zs at_cmdD(1) [OF move [OF that st1 [OF that]]] unfolding committing_def by auto
  show ?thesis
    by (rule achieves_cases [OF disable_achieves [OF vok, of io k]])
      (use fin d(1,2) k(1) at_walks_back [OF move [OF _ st2]] in \<open>auto simp: achieves_def cmd_pal_def vault_key_disable_def\<close>)
qed

lemma commit_final_state:
  fixes c :: "'e cmd"
  assumes c: "committing hw io v P K L [PropScalar P_STATE (ucast (part_state_u8 Initializing))] n c"
    and h: "ps_ups_key_id (io_slot io (fst c)) = h"
  shows "achieves (cmd_slot io (part_set_state Initialized)) c
    (\<lambda>_ c'. \<exists>S. at_cmd hw io v P K S L n c' \<and> ps_state S = Ok Initialized \<and> ps_ups_key_id S = h) (\<lambda>_. walks_back hw io v)"
proof -
  let ?a = "PropScalar P_STATE (ucast (part_state_u8 Initializing))"
  obtain S zs where s: "at_cmd hw io v P K S L n c" "store_canon S" "calm K S ?a" "L = zs @ [?a]" using c by (auto simp: committing_def)
  have k: "kept ?a S" using s(3) by (simp add: calm_def del: kept.simps)
  then have st: "ps_state S = Ok Initializing" by (simp only: state_kept)
  have run: "part_set_state Initialized S = prop_set P_STATE (VU8 (part_state_u8 Initialized)) S"
    by (simp add: part_set_state_def part_state_eq bindS_def st)
  have h': "ps_ups_key_id S = h" using h at_cmdD(1) [OF s(1)] by simp
  have post: "ps_state S' = Ok Initialized \<and> ps_ups_key_id S' = h" if "prop_set P_STATE (VU8 (part_state_u8 Initialized)) S = (Ok (), S')" for S'
    using that h' by (auto simp: prop_set_u8_def part_state_from_u8_def ps_state_def ps_set_state_def ps_ups_key_id_def)
  show ?thesis
    by (rule achieves_mono [OF step_at [OF s(1,4,2) k, where m = "part_set_state Initialized" and x = "VU8 (part_state_u8 Initialized)"]])
      (use run post in \<open>auto simp del: prop_set.simps\<close>)
qed

lemma commit_final_at:
  fixes c :: "'e cmd"
  assumes c: "at_cmd hw io v P K S as 5 c" and S: "finalizable ums K S" and u: "K ums = Some u"
  shows "achieves (commit_final io ums lid eid rid) c
    (\<lambda>_ c'. \<exists>S' n. at_cmd hw io v P (K(ums \<mapsto> u\<lparr>vk_disabled := True\<rparr>)) S' (as @ final_actions ums) n c' \<and> ps_state S' = Ok Initialized \<and>
       ps_ups_key_id S' = (if rid = KEY_ABSENT then None else Some rid)) (\<lambda>_. walks_back hw io v)"
    (is "achieves _ _ ?Q ?E")
proof -
  let ?st = "PropScalar P_STATE (ucast (part_state_u8 Initializing))"
  let ?L = "as @ final_actions ums" and ?h = "if rid = KEY_ABSENT then None else Some rid"
  have init: "part_state S = Ok Initializing" and canon: "store_canon S" and live: "\<not> vk_disabled u"
    using S u by (auto simp: finalizable_def part_state_eq)
  have calms: "\<forall>a \<in> set (final_actions ums). calm K S a" using final_calm [OF S] by blast
  have d: "distinct (map prop_of (final_actions ums))" by (simp add: final_actions_def prop_ids)
  have n: "at_cmd hw io v P K S as (length (final_actions ums) + 0) c" using c by (simp add: final_actions_def numeral_eq_Suc)
  have note_all: "achieves (cmd_undo (record_final_undo ums)) c1 (\<lambda>_ c'. committing hw io v P K ?L (final_actions ums) 0 c') E"
    if "at_cmd hw io v P K S as (length (final_actions ums) + 0) c1" for c1 :: "'e cmd" and E
    unfolding record_final
    by (rule achieves_mono [OF push_all_at [OF canon that]], use calms in blast, unfold committing_def, use canon calms d in blast)
  have tail: "achieves (bindS (cmd_pal (vault_key_disable io ums)) (\<lambda>_. cmd_slot io (part_set_state Initialized))) c1 ?Q ?E"
    if "committing hw io v P K ?L [VaultDisable ums, ?st] 0 c1 \<and> ps_ups_key_id (io_slot io (fst c1)) = ?h" for c1 :: "'e cmd"
    apply (rule achieves_bind [OF commit_disable [OF conjunct1 [OF that] u live]], simp)
    apply (elim conjE, rule achieves_mono [OF commit_final_state [where h = ?h]], assumption)
    using that by auto
  have writes: "achieves
      (bindS (cmd_slot io (prop_set_u16 P_LOCAL_MK_KEY_ID lid)) (\<lambda>_.
       bindS (cmd_slot io (prop_set_u16 P_EPHEMERAL_MK_KEY_ID eid)) (\<lambda>_.
       bindS (bindS (cmd_slot io (prop_clear P_UPS_KEY_ID)) (\<lambda>_. cmd_slot io (part_set_ups_key_id rid))) (\<lambda>_.
       bindS (cmd_pal (vault_key_disable io ums)) (\<lambda>_. cmd_slot io (part_set_state Initialized)))))) c1 ?Q ?E"
    if "committing hw io v P K ?L (final_actions ums) 0 c1" for c1 :: "'e cmd"
    using that unfolding final_actions_def [of ums]
    apply -
    apply (rule achieves_bind [OF committing_write [where x = "VU16 lid"]], assumption, simp)
    apply (rule achieves_bind [OF committing_write [where x = "VU16 eid"]], assumption, simp)
    apply (rule achieves_bind [OF commit_repoint], assumption)
    apply (rule tail [unfolded final_actions_def], assumption)
    done
  have assoc: "bindS (bindS m f) g = bindS m (\<lambda>x. bindS (f x) g)" for m :: "('e cmd, unit) op" and f :: "unit \<Rightarrow> ('e cmd, unit) op" and g :: "unit \<Rightarrow> ('e cmd, unit) op"
    by (auto simp: bindS_def fun_eq_iff split: prod.split run.split)
  show ?thesis
    unfolding commit_final_def
    apply (rule achieves_bind [OF achieves_mono [OF read_at [OF n, where f = part_state]]])
       apply (simp add: init)
      apply assumption
     apply (use at_walks_back in blast)
    apply (elim conjE, simp only: init run.inject simp_thms if_False)
    apply (rule achieves_bind [OF note_all], assumption)
    apply (rule writes [unfolded assoc], assumption)
    done
qed

section \<open>The end of a command\<close>

lemma walk_undo_back:
  assumes "walks_back hw io v c" "\<not> (handler_ok \<and> cqe_ok)"
  shows "\<exists>p. walk_undo hw io handler_ok cqe_ok (snd c) (fst c) = (Ok (), p) \<and> io_okay hw io p \<and> pal_view p = v"
  using assms by (auto simp: walks_back_def walk_undo_def bindS_def)

lemma apply_commit_holds: "holds l as \<Longrightarrow> fst (apply_commit verbs l s) = run_commit verbs as s"
  using commit_walk_suffix [of l as 0 verbs s] by (simp add: apply_commit_def) (simp add: holds_def)

lemma run_commit_idle:
  assumes "\<forall>a \<in> set as. \<forall>k. a \<noteq> VaultDisable k"
  shows "run_commit verbs (as @ bs) s = run_commit verbs bs s"
  using assms by (induction as) (auto split: UndoAction.split)

lemma run_commit_one:
  assumes "v_vault_delete verbs k s = (Ok (), s')" "\<forall>a \<in> set as. \<forall>k. a \<noteq> VaultDisable k" "\<forall>a \<in> set bs. \<forall>k. a \<noteq> VaultDisable k"
  shows "run_commit verbs (as @ VaultDisable k # bs) s = (Ok WalkOk, s')"
  using run_commit_idle [OF assms(2), of verbs "VaultDisable k # bs" s] run_commit_idle [OF assms(3), of verbs "[]" s'] assms(1) by simp

lemma mask_not_absent: "in_mask m k \<Longrightarrow> k \<noteq> KEY_ABSENT"
  by (auto simp: in_mask_def split_key_id_def KEY_ABSENT_def TABLE_COUNT_eq)

definition final_done :: "HsmIo \<Rightarrow> HsmKeyId \<Rightarrow> DmaBuf \<Rightarrow> DmaBuf \<Rightarrow> DmaBuf \<Rightarrow> 'e UnoHsmPal \<Rightarrow> 'e UnoHsmPal \<Rightarrow> bool" where
  "final_done io ums ups mk eph p p' \<longleftrightarrow>
     (\<exists>lid eid rid. pal_keys p lid = None \<and> pal_keys p eid = None \<and> pal_keys p rid = None \<and> distinct [lid, eid, rid] \<and>
        pal_keys p' = (pal_keys p)(lid \<mapsto> new_key (io_pid io) PartitionLocalMaskingKey None PART_LOCAL_MK_ATTRS (buf_bytes mk),
          eid \<mapsto> new_key (io_pid io) PartitionEphemeralMaskingKey None EPHEMERAL_MK_ATTRS (buf_bytes eph),
          rid \<mapsto> new_key (io_pid io) UniquePartitionSecret None PART_ROOT_ATTRS (buf_bytes ups), ums := None) \<and>
        ps_ups_key_id (io_slot io p') = Some rid) \<and>
     (\<forall>j. j \<noteq> unat (io_pid io) \<longrightarrow> pal_parts p' ! j = pal_parts p ! j) \<and> ps_state (io_slot io p') = Ok Initialized"

lemma part_final_at:
  fixes p :: "'e UnoHsmPal"
  assumes ok: "io_okay hw io p" and l: "holds l []" "log_room 8 l" and S: "finalizable ums (pal_keys p) (io_slot io p)"
  shows "achieves (part_final_commit hw io ums ups mk eph) (p, l)
    (\<lambda>_ c. walks_back hw io (pal_view p) c \<and>
       (\<exists>p'. walk_undo hw io True True (snd c) (fst c) = (Ok (), p') \<and> io_okay hw io p' \<and> final_done io ums ups mk eph p p'))
    (\<lambda>_. walks_back hw io (pal_view p))"
    (is "achieves _ _ ?Q ?E")
proof -
  let ?at = "at_cmd hw io (pal_view p) (pal_parts p)" and ?K = "pal_keys p" and ?S = "io_slot io p"
  let ?kl = "new_key (io_pid io) PartitionLocalMaskingKey None PART_LOCAL_MK_ATTRS (buf_bytes mk)"
  let ?ke = "new_key (io_pid io) PartitionEphemeralMaskingKey None EPHEMERAL_MK_ATTRS (buf_bytes eph)"
  let ?kr = "new_key (io_pid io) UniquePartitionSecret None PART_ROOT_ATTRS (buf_bytes ups)"
  obtain u where u: "?K ums = Some u" "\<not> vk_disabled u" "\<not> is_bulk_kind (vk_kind u)" "in_mask (ps_res_mask ?S) ums"
    using S by (auto simp: finalizable_def)
  have c0: "?at ?K ?S [] (Suc 7) (p, l)" using start_at [OF ok l(1), of 8] l(2) by simp
  have last: "achieves (commit_final io ums a b r) c ?Q ?E"
    if c: "?at (?K(a \<mapsto> ?kl, b \<mapsto> ?ke, r \<mapsto> ?kr)) ?S [VaultCreate a, VaultCreate b, VaultCreate r] 5 c"
      and fresh: "?K a = None" "(?K(a \<mapsto> ?kl)) b = None" "(?K(a \<mapsto> ?kl, b \<mapsto> ?ke)) r = None" "in_mask (ps_res_mask ?S) r"
    for a b r and c :: "'e cmd"
  proof -
    let ?K3 = "?K(a \<mapsto> ?kl, b \<mapsto> ?ke, r \<mapsto> ?kr)" and ?L = "[VaultCreate a, VaultCreate b, VaultCreate r] @ final_actions ums"
    have ne: "distinct [a, b, r, ums]" using fresh u(1) by (auto split: if_splits)
    then have k3: "?K3 ums = Some u" using u(1) by auto
    have f3: "finalizable ums ?K3 ?S" using S k3 u by (simp add: finalizable_def)
    have post: "?Q x c'" if c': "?at (?K3(ums \<mapsto> u\<lparr>vk_disabled := True\<rparr>)) S' ?L n c'" and s: "ps_state S' = Ok Initialized"
      "ps_ups_key_id S' = (if r = KEY_ABSENT then None else Some r)" for x :: unit and c' :: "'e cmd" and S' n
    proof -
      note d = at_cmdD [OF c']
      have mask: "in_mask (ps_res_mask (io_slot io (fst c'))) ums" using u(4) d(1,7) by (simp add: io_slot_def)
      have key: "pal_keys (fst c') ums = Some (u\<lparr>vk_disabled := True\<rparr>)" using d(2) by simp
      obtain p' where p': "vault_key_delete hw io ums (fst c') = (Ok (), p')" "io_okay hw io p'"
        "pal_view p' = ((pal_keys (fst c'))(ums := None), pal_parts (fst c'))"
        using delete_effect [OF d(5) key mask] u(3) by auto
      let ?xs = "[VaultCreate a, VaultCreate b, VaultCreate r] @ take 3 (final_actions ums)" and ?ys = "drop 4 (final_actions ums)"
      have del: "v_vault_delete (uno_verbs hw io) ums (fst c') = (Ok (), p')" using p'(1) by (simp add: uno_verbs_def)
      have "holds (snd c') ?L" using c' by (simp add: at_cmd_def)
      moreover have "?L = ?xs @ VaultDisable ums # ?ys" by (simp add: final_actions_def)
      ultimately have "holds (snd c') (?xs @ VaultDisable ums # ?ys)" by metis
      then have "fst (apply_commit (uno_verbs hw io) (snd c') (fst c')) = (Ok WalkOk, p')"
        using run_commit_one [OF del, of ?xs ?ys] by (simp add: apply_commit_holds final_actions_def del: run_commit.simps)
      then have w: "walk_undo hw io True True (snd c') (fst c') = (Ok (), p')" by (simp add: walk_undo_def bindS_def)
      have slot: "io_slot io p' = S'" using p'(3) d(3,6) by (simp add: pal_view_def io_slot_def)
      have "final_done io ums ups mk eph p p'"
        unfolding final_done_def slot
        using p'(3) d(2,3) s ne fresh mask_not_absent [OF fresh(4)]
        by (intro conjI exI [of _ a] exI [of _ b] exI [of _ r]) (auto simp: pal_view_def fun_eq_iff)
      then show ?thesis using at_walks_back [OF c'] w p'(2) by blast
    qed
    show ?thesis
      by (rule achieves_mono [OF commit_final_at [OF c f3 k3]], elim exE conjE, rule post, assumption+)
  qed
  show ?thesis
    unfolding part_final_commit_def stage_final_keys_def
    apply (rule achieves_bind [where R = "\<lambda>(a, b, r) c. ?K a = None \<and> (?K(a \<mapsto> ?kl)) b = None \<and> (?K(a \<mapsto> ?kl, b \<mapsto> ?ke)) r = None \<and>
        in_mask (ps_res_mask ?S) r \<and> ?at (?K(a \<mapsto> ?kl, b \<mapsto> ?ke, r \<mapsto> ?kr)) ?S [VaultCreate a, VaultCreate b, VaultCreate r] 5 c"])
     apply (rule achieves_bind [OF achieves_errs [OF stage_at [OF c0 plain_kinds(3)]]])
      apply (use at_walks_back in blast)
     apply (elim conjE)
     apply (rule achieves_bind [OF achieves_errs [OF stage_at [where n = 6, OF _ plain_kinds(4)]]])
       apply simp
      apply (use at_walks_back in blast)
     apply (elim conjE)
     apply (rule achieves_bind [OF achieves_errs [OF stage_at [where n = 5, OF _ plain_kinds(2)]]])
       apply simp
      apply (use at_walks_back in blast)
     apply simp
    apply (auto intro: last)
    done
qed

end
