(* ===== verification/VaultProperties.thy ===== *)
theory VaultProperties
  imports KeyVaultOps
begin

text \<open>
  What the key vault guarantees, over every state it can reach: the invariant, the functional
  behaviour of each operation against the abstract view, the exact outcome of a creation, and
  the absence of key residue in free space. The witnesses run the operations on an empty vault.
\<close>

section \<open>An empty vault\<close>

definition empty_table :: vtable where
  "empty_table = \<lparr>vt_entries = replicate ENTRIES_PER_TABLE 0, vt_bitmap = replicate BITMAP_WORDS 0,
     vt_blob = replicate BLOB_SIZE 0\<rparr>"

definition empty_storage :: "u128 \<Rightarrow> VaultStorage" where
  "empty_storage m = \<lparr>res_mask = m, tables = replicate TABLE_COUNT empty_table\<rparr>"

lemma used_zero: "b < BLOB_BLOCKS \<Longrightarrow> \<not> used (replicate BITMAP_WORDS 0) b"
  by (simp add: used_def geometry_defs)

lemma empty_table_not_present [simp]: "\<not> present empty_table i" "slot_blocks empty_table i = {}"
  by (auto simp: present_def slot_blocks_def empty_table_def)

lemma empty_table_fields [simp]:
  "vt_entries empty_table = replicate ENTRIES_PER_TABLE 0"
  "vt_bitmap empty_table = replicate BITMAP_WORDS 0" "vt_blob empty_table = replicate BLOB_SIZE 0"
  by (simp_all add: empty_table_def)

lemma empty_table_wf: "table_wf empty_table" "table_clean empty_table"
  using used_zero by (auto simp: table_wf_def table_clean_def blk.tracks_def)

lemma empty_storage_wf [simp]: "vault_wf (empty_storage m)" "vault_clean (empty_storage m)"
  by (simp_all add: vault_wf_def vault_clean_def tables_shape_def empty_storage_def empty_table_wf)

lemma empty_storage_abs [simp]: "vault_abs (empty_storage m) k = None"
  by (simp add: vault_abs_def empty_storage_def slot_view_def split: prod.splits)

lemma empty_storage_stageable:
  assumes "bit m 0" "0 < n" "n \<le> BLOB_BLOCKS"
  shows "stageable (empty_storage m) n 0"
proof -
  have "free_run (replicate BITMAP_WORDS 0) 0 n"
    using used_zero assms(3) by (auto simp: free_run_def)
  then show ?thesis
    using assms(1)
    by (auto simp: stageable_def is_valid_table_iff empty_storage_def TABLE_COUNT_eq slot_bounds)
      (rule exI [of _ 0], simp)
qed

section \<open>Reachable vaults\<close>

text \<open>
  One call of a vault operation, or a switch to the handle of another partition (\<open>VaultStorage::new\<close>
  with its resource mask over the same tables).
\<close>

inductive vault_step :: "gdma \<Rightarrow> VaultStorage \<Rightarrow> VaultStorage \<Rightarrow> bool" for g where
  create: "vault_create g app k kd sess at s = (r, s') \<Longrightarrow> vault_step g s s'"
| create_sync: "vault_create_sync app k kd sess at s = (r, s') \<Longrightarrow> vault_step g s s'"
| delete: "vault_delete g kid s = (r, s') \<Longrightarrow> vault_step g s s'"
| disable: "vault_disable kid s = (r, s') \<Longrightarrow> vault_step g s s'"
| enable: "vault_enable kid s = (r, s') \<Longrightarrow> vault_step g s s'"
| delete_by_session: "vault_delete_by_session g sess s = (r, s') \<Longrightarrow> vault_step g s s'"
| clear: "vault_clear g s = (r, s') \<Longrightarrow> vault_step g s s'"
| switch: "vault_step g s (s\<lparr>res_mask := m\<rparr>)"

inductive vault_reachable :: "gdma \<Rightarrow> VaultStorage \<Rightarrow> bool" for g where
  init: "vault_reachable g (empty_storage m)"
| step: "vault_reachable g s \<Longrightarrow> vault_step g s s' \<Longrightarrow> vault_reachable g s'"

lemma vault_step_inv:
  assumes g: "gdma_scrubbing g" and st: "vault_step g s s'" and wf: "vault_wf s" and cl: "vault_clean s"
  shows "vault_wf s' \<and> vault_clean s'"
  using st
proof cases
  case (create app k kd sess at r)
  have "gdma_controller g" using g by (simp add: gdma_scrubbing_def)
  then show ?thesis
    using create_Ok(1,2) [OF _ wf, of g app k kd sess at _ s'] create_no_panic_err [OF g wf create] cl create
    by (cases r) auto
next
  case (create_sync app k kd sess at r)
  have std: "gdma_controller std_gdma" "gdma_scrubbing std_gdma" by unfold_locales
  note cs = create_sync [unfolded create_sync_eq [OF wf]]
  show ?thesis
    using create_Ok(1,2) [OF std(1) wf, of app k kd sess at _ s'] create_no_panic_err [OF std(2) wf cs] cl cs
    by (cases r) auto
next
  case (delete kid r) then show ?thesis using delete_result [OF g wf, of kid] cl by simp
next
  case (disable kid r) then show ?thesis using disable_result [OF wf, of kid] cl by simp
next
  case (enable kid r) then show ?thesis using enable_result [OF wf, of kid] cl by simp
next
  case (delete_by_session sess r)
  then show ?thesis using delete_by_session_result [OF g wf, of sess] cl by auto
next
  case (clear r) then show ?thesis using clear_result [OF g wf] cl by auto
next
  case (switch m)
  then show ?thesis using wf cl by (simp add: vault_wf_def vault_clean_def tables_shape_def)
qed

section \<open>The exact outcome of a creation\<close>

definition create_outcome :: "VaultStorage \<Rightarrow> HsmVaultKeyKind \<Rightarrow> nat \<Rightarrow> HsmKeyId run" where
  "create_outcome s kd n =
     bindr (key_len kd) (\<lambda>spec. bindr (check spec n) (\<lambda>_.
       if \<exists>t. stageable s (run_len n) t then
         (let t = (LEAST t. stageable s (run_len n) t)
          in Ok (make_key_id t (LEAST i. i < ENTRIES_PER_TABLE \<and> \<not> present (tables s ! t) i)))
       else Err (if \<exists>t. fragmented s (run_len n) t then DefragmentationNeeded else NotEnoughSpace)))"

lemma free_slot_Least:
  assumes "free_slot s t = Some i" "t < TABLE_COUNT"
  shows "i = (LEAST i. i < ENTRIES_PER_TABLE \<and> \<not> present (tables s ! t) i)"
proof -
  have "(i < ENTRIES_PER_TABLE \<and> (case storage_entry s t i of Ok e \<Rightarrow> entry_is_free e | _ \<Rightarrow> False)) \<longleftrightarrow>
      (i < ENTRIES_PER_TABLE \<and> \<not> present (tables s ! t) i)" for i
    using assms(2) by (auto simp: storage_entry_eq present_def)
  then show ?thesis using find_upt_Least [OF assms(1) [unfolded free_slot_def]] by simp
qed

lemma std_scrubbing: "gdma_controller std_gdma" "gdma_scrubbing std_gdma"
  by unfold_locales

lemma create_sync_outcome:
  assumes wf: "vault_wf s"
  shows "fst (vault_create_sync app k kd sess at s) = create_outcome s kd (buf_len k)"
proof -
  let ?st = "stage_key_slot app kd sess at (buf_len k) s"
  have eq: "fst (vault_create_sync app k kd sess at s) =
      bindr (fst ?st) (\<lambda>(t, slot, start). Ok (make_key_id t slot))"
  proof (rule stage_cases [OF wf, of app kd sess at "buf_len k"])
    fix e assume "?st = (Err e, s)"
    then show ?thesis by (simp add: vault_create_sync_def bindS_def)
  next
    fix t slot start s1
    assume st: "?st = (Ok (t, slot, start), s1)"
      "\<And>bs. staged s s1 t slot start (buf_len k) (new_key app kd sess at bs)"
    obtain r s' where c: "vault_create_sync app k kd sess at s = (r, s')" by fastforce
    have "r \<noteq> Panic"
      using create_no_panic_err(1) [OF std_scrubbing(2) wf] c create_sync_eq [OF wf] by simp
    moreover have "t < TABLE_COUNT"
      using st(2) [of "[]"] is_valid_table_less by (auto simp: staged_def)
    ultimately show ?thesis
      using c st(1) by (auto simp: vault_create_sync_def bindS_def blob_mut_def Let_def split: if_splits)
  qed
  consider (k) e where "key_len kd = Err e" | (c) spec e where "key_len kd = Ok spec" "check spec (buf_len k) = Err e"
    | (s) spec p where "key_len kd = Ok spec" "check spec (buf_len k) = Ok p"
    by (metis key_len_not_Panic check_not_Panic run.exhaust)
  then show ?thesis
  proof cases
    case k then show ?thesis by (simp add: eq stage_key_slot_reject create_outcome_def)
  next
    case c then show ?thesis by (simp add: eq stage_key_slot_reject(2) create_outcome_def)
  next
    case sp: s
    show ?thesis
    proof (cases "\<exists>t. stageable s (run_len (buf_len k)) t")
      case True
      with stage_key_slot_result [OF wf sp, of app sess at] obtain t slot start s1 where
        st: "?st = (Ok (t, slot, start), s1)" "t = (LEAST t. stageable s (run_len (buf_len k)) t)"
          "stageable s (run_len (buf_len k)) t" "free_slot s t = Some slot" by auto
      have "t < TABLE_COUNT" using st(3) is_valid_table_less by (auto simp: stageable_def)
      from free_slot_Least [OF st(4) this] show ?thesis
        using True sp st(1,2) by (simp add: eq create_outcome_def Let_def)
    next
      case False
      with stage_key_slot_result [OF wf sp, of app sess at] sp show ?thesis
        by (simp add: eq create_outcome_def)
    qed
  qed
qed

section \<open>A concrete run\<close>

definition demo_key :: DmaBuf where
  "demo_key = \<lparr>buf_ptr = 0x20000000, buf_bytes = replicate 16 0xA5\<rparr>"

lemma demo_len: "key_len Aes128 = Ok (Fixed 16)" "check (Fixed 16) (buf_len demo_key) = Ok 16"
  by (simp_all add: key_len_def KIND_LEN_def demo_key_def)

lemma run_len_16: "run_len 16 = 6"
  by (simp add: run_len_def storage_bytes_eq blocks_for_def geometry_defs)

lemma empty_outcome:
  assumes "bit m 0"
  shows "create_outcome (empty_storage m) Aes128 16 = Ok 0"
proof -
  have st: "stageable (empty_storage m) (run_len 16) 0"
    by (rule empty_storage_stageable [OF assms]) (simp_all add: run_len_16 BLOB_BLOCKS_eq)
  then have l: "(LEAST t. stageable (empty_storage m) (run_len 16) t) = 0"
    by (intro Least_equality) simp_all
  have "(LEAST i. i < ENTRIES_PER_TABLE \<and> \<not> present (tables (empty_storage m) ! 0) i) = 0"
    by (intro Least_equality) (simp_all add: empty_storage_def slot_bounds)
  then show ?thesis
    using st l demo_len by (auto simp: create_outcome_def demo_key_def make_key_id_def)
qed

lemma demo_created:
  "\<exists>s'. vault_create std_gdma 7 demo_key Aes128 (Some 3) 5 (empty_storage 1) = (Ok 0, s')"
proof -
  have "fst (vault_create_sync 7 demo_key Aes128 (Some 3) 5 (empty_storage 1)) = Ok 0"
    by (subst create_sync_outcome) (simp_all add: demo_key_def empty_outcome)
  then show ?thesis
    by (metis create_sync_eq empty_storage_wf(1) prod.collapse)
qed

definition demo_state :: VaultStorage where
  "demo_state = snd (vault_create std_gdma 7 demo_key Aes128 (Some 3) 5 (empty_storage 1))"

lemma demo_state:
  "vault_create std_gdma 7 demo_key Aes128 (Some 3) 5 (empty_storage 1) = (Ok 0, demo_state)"
  "vault_wf demo_state" "res_mask demo_state = 1"
  "vault_abs demo_state = [0 \<mapsto> new_key 7 Aes128 (Some 3) 5 (replicate 16 0xA5)]"
proof -
  show c: "vault_create std_gdma 7 demo_key Aes128 (Some 3) 5 (empty_storage 1) = (Ok 0, demo_state)"
    using demo_created by (auto simp: demo_state_def)
  note ok = create_Ok [OF std_scrubbing(1) empty_storage_wf(1) c]
  show "vault_wf demo_state" "res_mask demo_state = 1"
    using ok by (simp_all add: empty_storage_def)
  show "vault_abs demo_state = [0 \<mapsto> new_key 7 Aes128 (Some 3) 5 (replicate 16 0xA5)]"
    using ok(6) by (auto simp: demo_key_def fun_eq_iff)
qed

lemma demo_owned: "owned demo_state 0" "owned_key demo_state 0 = vault_abs demo_state 0"
  "live_key demo_state 0 = Some (new_key 7 Aes128 (Some 3) 5 (replicate 16 0xA5))"
  by (simp_all add: owned_def owned_key_def live_key_def is_valid_table_iff demo_state split_key_id_def
      TABLE_COUNT_eq new_key_def)

section \<open>Properties\<close>

text \<open>C1 (vault_reachable_invariant): in every vault state reachable by the public operations, with any
  DMA controller that always scrubs, each table is well formed (every present entry resolves to
  a legal run, runs are disjoint, the bitmap is exactly their union) and every byte of the blobs
  outside the runs is zero: no key material is left behind.\<close>

theorem vault_reachable_invariant:
  assumes "gdma_scrubbing g" "vault_reachable g s"
  shows "vault_wf s \<and> vault_clean s"
  using assms(2) by (induction rule: vault_reachable.induct) (auto simp: vault_step_inv [OF assms(1)])

theorem vault_reachable_invariant_witness: "vault_wf demo_state \<and> vault_clean demo_state"
  by (rule vault_reachable_invariant [OF std_scrubbing(2)
        vault_reachable.step [OF vault_reachable.init [of _ 1] vault_step.create [OF demo_state(1)]]])

text \<open>C2 (vault_create_correct): creating a key never panics. On success the returned id lies in a table
  the partition owns, was unused, and now denotes exactly the given kind, application, session,
  attributes and key bytes, enabled, while every other key is unchanged; on any error no key
  has changed. Either way the tables stay well formed and the free space clean.\<close>

theorem vault_create_correct:
  assumes "gdma_scrubbing g" "vault_wf s"
  shows "case vault_create g app k kd sess at s of
      (Ok kid, s') \<Rightarrow> owned s kid \<and> vault_abs s kid = None \<and>
        vault_abs s' = (vault_abs s)(kid \<mapsto> new_key app kd sess at (buf_bytes k)) \<and>
        vault_wf s' \<and> (vault_clean s \<longrightarrow> vault_clean s')
    | (Err e, s') \<Rightarrow> vault_abs s' = vault_abs s \<and> vault_wf s' \<and> (vault_clean s \<longrightarrow> vault_clean s')
    | (Panic, s') \<Rightarrow> False"
proof -
  obtain r s' where c: "vault_create g app k kd sess at s = (r, s')" by fastforce
  have "gdma_controller g" using assms(1) by (simp add: gdma_scrubbing_def)
  note ok = create_Ok [OF this assms(2), of app k kd sess at _ s']
  note err = create_no_panic_err [OF assms c]
  show ?thesis using c ok err by (cases r) auto
qed

theorem vault_create_correct_witness:
  "vault_abs demo_state 0 = Some (new_key 7 Aes128 (Some 3) 5 (replicate 16 0xA5)) \<and> vault_clean demo_state"
  using vault_create_correct [OF std_scrubbing(2) empty_storage_wf(1) [of 1],
      where app = 7 and k = demo_key and kd = Aes128 and sess = "Some 3" and at = 5]
  by (simp add: demo_state(1)) (simp add: demo_key_def)

text \<open>C19 (vault_create_outcome): the result of a synchronous creation is determined: the errors of the
  kind and length contract first, then the id of the first free slot of the first owned table
  that has a free slot and a large enough free run, or \<open>DefragmentationNeeded\<close> when some owned
  table with a free slot has enough free blocks in total, or \<open>NotEnoughSpace\<close>.\<close>

theorem vault_create_outcome:
  assumes "vault_wf s"
  shows "fst (vault_create_sync app k kd sess at s) = create_outcome s kd (buf_len k)"
  by (rule create_sync_outcome [OF assms])

theorem vault_create_outcome_witness:
  "fst (vault_create_sync 7 demo_key Aes128 (Some 3) 5 (empty_storage 1)) = Ok 0"
  by (subst vault_create_outcome) (simp_all add: demo_key_def empty_outcome)

text \<open>C30 (vault_create_sync_equiv): the CPU-only creation behaves as the GDMA one with the std PAL's
  controller, result and state alike.\<close>

theorem vault_create_sync_equiv:
  assumes "vault_wf s"
  shows "vault_create_sync app k kd sess at s = vault_create std_gdma app k kd sess at s"
  by (rule create_sync_eq [OF assms])

theorem vault_create_sync_equiv_witness:
  "vault_create_sync 7 demo_key Aes128 (Some 3) 5 (empty_storage 1) = (Ok 0, demo_state)"
  by (subst vault_create_sync_equiv) (simp_all add: demo_state(1))

text \<open>C10 (vault_lookup_correct): each lookup returns the field of the live key (present, in an owned table,
  not disabled) and \<open>KeyNotFound\<close> for every other id; no lookup panics.\<close>

theorem vault_lookup_correct:
  assumes "vault_wf s"
  shows "vault_key s k = (case live_key s k of None \<Rightarrow> Err KeyNotFound | Some v \<Rightarrow> Ok (vk_bytes v)) \<and>
    key_kind s k = (case live_key s k of None \<Rightarrow> Err KeyNotFound | Some v \<Rightarrow> Ok (vk_kind v)) \<and>
    key_session s k = (case live_key s k of None \<Rightarrow> Err KeyNotFound | Some v \<Rightarrow> Ok (vk_session v)) \<and>
    key_session_binding s k = (case live_key s k of None \<Rightarrow> Err KeyNotFound | Some v \<Rightarrow> Ok (vk_session v)) \<and>
    key_attrs s k = (case live_key s k of None \<Rightarrow> Err KeyNotFound | Some v \<Rightarrow> Ok (vk_attrs v)) \<and>
    key_present s k = (case owned_key s k of None \<Rightarrow> Err KeyNotFound | Some v \<Rightarrow> Ok (vk_bytes v))"
  using lookup_results [OF assms] by blast

theorem vault_lookup_correct_witness:
  "vault_key demo_state 0 = Ok (replicate 16 0xA5) \<and> key_kind demo_state 0 = Ok Aes128 \<and>
   key_attrs demo_state 0 = Ok 5 \<and> key_session demo_state 0 = Ok (Some 3)"
  using vault_lookup_correct [OF demo_state(2), of 0] by (simp add: demo_owned new_key_def)

text \<open>C3 (vault_delete_correct): deleting an id whose slot holds a key (enabled or disabled) succeeds and
  removes exactly that key, leaving its bytes zero; a free slot gives \<open>KeyNotFound\<close> and an id
  beyond the last table \<open>InvalidArg\<close>, both without a change.\<close>

theorem vault_delete_correct:
  assumes "gdma_scrubbing g" "vault_wf s"
  shows "case vault_delete g k s of (r, s') \<Rightarrow>
    vault_wf s' \<and> (vault_clean s \<longrightarrow> vault_clean s') \<and> res_mask s' = res_mask s \<and>
    (if fst (split_key_id k) \<ge> TABLE_COUNT then r = Err InvalidArg \<and> s' = s
     else if vault_abs s k = None then r = Err KeyNotFound \<and> s' = s
     else r = Ok () \<and> vault_abs s' = (vault_abs s)(k := None))"
  by (rule delete_result [OF assms])

theorem vault_delete_correct_witness:
  "fst (vault_delete std_gdma 0 demo_state) = Ok () \<and>
   vault_abs (snd (vault_delete std_gdma 0 demo_state)) = Map.empty"
  using vault_delete_correct [OF std_scrubbing(2) demo_state(2), of 0]
  by (auto simp: demo_state(4) split_key_id_def TABLE_COUNT_eq split: prod.splits)

text \<open>C20 (vault_delete_by_session_correct): closing a session always succeeds and removes exactly the keys,
  enabled or disabled, that owned tables hold for that session.\<close>

theorem vault_delete_by_session_correct:
  assumes "gdma_scrubbing g" "vault_wf s"
  shows "\<exists>s'. vault_delete_by_session g sess s = (Ok (), s') \<and> vault_wf s' \<and>
    (vault_clean s \<longrightarrow> vault_clean s') \<and> res_mask s' = res_mask s \<and>
    vault_abs s' = without_keys s (\<lambda>v. vk_session v = Some sess)"
  by (rule delete_by_session_result [OF assms])

theorem vault_delete_by_session_correct_witness:
  "vault_abs (snd (vault_delete_by_session std_gdma 3 demo_state)) 0 = None \<and>
   vault_abs (snd (vault_delete_by_session std_gdma 4 demo_state)) 0 \<noteq> None"
  using vault_delete_by_session_correct [OF std_scrubbing(2) demo_state(2), of 3]
    vault_delete_by_session_correct [OF std_scrubbing(2) demo_state(2), of 4]
  by (auto simp: without_keys_def demo_state(4) demo_owned(1) new_key_def)

text \<open>Clearing the vault of a partition always succeeds and removes exactly the keys
  of its own tables; the keys of every other partition stay.\<close>

lemma vault_clear_correct:
  assumes "gdma_scrubbing g" "vault_wf s"
  shows "\<exists>s'. vault_clear g s = (Ok (), s') \<and> vault_wf s' \<and>
    (vault_clean s \<longrightarrow> vault_clean s') \<and> res_mask s' = res_mask s \<and>
    vault_abs s' = (\<lambda>k. if owned s k then None else vault_abs s k)"
proof -
  have "without_keys s (\<lambda>_. True) = (\<lambda>k. if owned s k then None else vault_abs s k)"
    by (auto simp: without_keys_def fun_eq_iff split: option.splits)
  then show ?thesis using clear_result [OF assms] by simp
qed

text \<open>Disabling a live key hides it from every lookup, keeps its slot and bytes, and
  leaves every other key as it was; an id that is not live gives \<open>KeyNotFound\<close>.\<close>

lemma vault_disable_hides:
  assumes "vault_wf s"
  shows "case vault_disable k s of (r, s') \<Rightarrow> vault_wf s' \<and>
    (case live_key s k of
       None \<Rightarrow> r = Err KeyNotFound \<and> s' = s
     | Some v \<Rightarrow> r = Ok () \<and> vault_abs s' = (vault_abs s)(k \<mapsto> v\<lparr>vk_disabled := True\<rparr>) \<and>
         live_key s' = (live_key s)(k := None) \<and> vault_key s' k = Err KeyNotFound)"
proof -
  obtain r s' where d: "vault_disable k s = (r, s')" by fastforce
  note res = disable_result [OF assms, of k, unfolded d, simplified]
  show ?thesis
  proof (cases "live_key s k")
    case None
    with res d assms show ?thesis by simp
  next
    case (Some v)
    with res have r: "r = Ok ()" "vault_abs s' = (vault_abs s)(k \<mapsto> v\<lparr>vk_disabled := True\<rparr>)"
      "vault_wf s'" "res_mask s' = res_mask s" by simp_all
    have "owned s' = owned s"
      using r(4) by (simp add: owned_def is_valid_table_def fun_eq_iff)
    then have "live_key s' = (live_key s)(k := None)"
      using r(2) by (auto simp: live_key_def owned_key_def fun_eq_iff split: option.splits)
    then show ?thesis
      using Some r d lookup_results(1) [OF r(3), of k] by simp
  qed
qed

text \<open>Enabling a key just disabled restores the vault bit for bit, which
  is what the rollback of a soft delete relies on.\<close>

lemma vault_disable_enable_round_trip:
  assumes "vault_wf s" "fst (vault_disable k s) = Ok ()"
  shows "vault_enable k (snd (vault_disable k s)) = (Ok (), s)"
proof -
  obtain t i where k: "split_key_id k = (t, i)" by fastforce
  let ?e = "vt_entries (tables s ! t) ! i"
  have "live_key s k \<noteq> None"
    using assms(2) vault_entry_result [OF k, of s] k
    by (auto simp: vault_disable_def bindS_def split: option.splits)
  then obtain v where v: "owned_key s k = Some v" "\<not> vk_disabled v" "live_key s k = Some v"
    by (auto simp: live_key_def split: option.splits if_splits)
  note o = owned_keyD [OF v(1) k]
  have i: "i < ENTRIES_PER_TABLE" "\<not> entry_is_free ?e" using o(3) by (simp_all add: present_def)
  note wf = vault_wfD [OF assms(1) o(2)]
  have "vault_disable k s = (Ok (), upd_table t (vt_entries_update (\<lambda>es. es[i := set_disabled True (es ! i)])) s)"
    using k o(2) i v(3) vault_entry_result [OF k, of s]
    by (simp add: vault_disable_def bindS_def entry_mut_def)
  then show ?thesis
    using k o(2) i wf(2) table_wfD(1) [OF wf(1)] set_disabled_back [of ?e] v(2) o(4)
    by (simp add: vault_enable_def bindS_def entry_mut_def storage_entry_eq) (simp add: upd_table_id)
qed

text \<open>C36 (staged_key_is_live): the slot that \<open>stage_key_slot\<close> returns is already visible to lookups, with
  whatever bytes its run holds, before the caller has written the key: the comment on
  \<open>stage_key_slot\<close> says the opposite.\<close>

theorem staged_key_is_live:
  assumes "vault_wf s" "stage_key_slot app kd sess at n s = (Ok (t, slot, start), s1)"
  shows "\<exists>bs. live_key s1 (make_key_id t slot) = Some (new_key app kd sess at bs) \<and>
    vault_key s1 (make_key_id t slot) = Ok bs \<and> length bs = n"
proof -
  have st: "staged s s1 t slot start n (new_key app kd sess at bs)" for bs
    by (rule stage_cases [OF assms(1), of app kd sess at n]) (use assms(2) in auto)
  let ?e = "vt_entries (tables s1 ! t) ! slot"
  define bs where "bs = vk_bytes (entry_view (tables s1 ! t) ?e)"
  have d: "is_valid_table s t" "vault_wf s1" "res_mask s1 = res_mask s" "present (tables s1 ! t) slot"
    "tb_len (tables s1 ! t) ?e = Ok n" "slot < ENTRIES_PER_TABLE"
    "vault_abs s1 (make_key_id t slot) = Some (entry_view (tables s1 ! t) ?e)"
    using st [of "[]"] by (simp_all add: staged_def)
  have v: "entry_view (tables s1 ! t) ?e = new_key app kd sess at bs"
  proof -
    have "(entry_view (tables s1 ! t) ?e)\<lparr>vk_bytes := bs\<rparr> = new_key app kd sess at bs"
      using st [of bs] by (simp add: staged_def new_key_def)
    moreover have "(entry_view (tables s1 ! t) ?e)\<lparr>vk_bytes := bs\<rparr> = entry_view (tables s1 ! t) ?e"
      by (simp add: bs_def)
    ultimately show ?thesis by simp
  qed
  have tc: "t < TABLE_COUNT" using is_valid_table_less [OF d(1)] .
  have "is_valid_table s1 t" using d(1,3) by (simp add: is_valid_table_def)
  then have lv: "live_key s1 (make_key_id t slot) = Some (new_key app kd sess at bs)"
    using d(6,7) v tc by (simp add: live_key_def owned_key_def owned_def new_key_def)
  note wf = vault_wfD [OF d(2) tc]
  have "length bs = n"
    using location_of_result(2) [OF d(2) tc table_wfD(4) [OF wf(1) d(4)] d(5)] d(5) table_wfD(2) [OF wf(1)]
    by (simp add: bs_def entry_view_def)
  then show ?thesis
    using lv lookup_results(1) [OF d(2), of "make_key_id t slot"] by (simp add: new_key_def)
qed

theorem staged_key_is_live_witness:
  "\<exists>t slot start s1 bs. stage_key_slot 7 Aes128 None 5 16 (empty_storage 1) = (Ok (t, slot, start), s1) \<and>
     vault_key s1 (make_key_id t slot) = Ok bs"
proof -
  have "stageable (empty_storage 1) (run_len 16) 0"
    by (rule empty_storage_stageable) (simp_all add: run_len_16 BLOB_BLOCKS_eq)
  moreover have "check (Fixed 16) 16 = Ok 16" by simp
  ultimately obtain t slot start s1 where
    st: "stage_key_slot 7 Aes128 None 5 16 (empty_storage 1) = (Ok (t, slot, start), s1)"
    using stage_key_slot_result [OF empty_storage_wf(1) [of 1] demo_len(1), of 16 16 7 None 5]
    by (auto split: if_splits)
  show ?thesis
    using st staged_key_is_live [OF empty_storage_wf(1) st] by blast
qed

text \<open>The read-only visit of a session's keys calls its closure once for
  every key, enabled or disabled, that the partition holds for the session, with that key's kind
  and bytes: the set that closing the session then deletes.\<close>

lemma for_each_session_key_correct:
  assumes "vault_wf s"
  shows "\<exists>ks. (\<forall>f c. for_each_session_key s sess f c = visit_all f ks c) \<and> distinct (map fst ks) \<and>
    set ks = {(k, vk_kind v, vk_bytes v) | k v. owned_key s k = Some v \<and> vk_session v = Some sess}"
proof (intro exI conjI allI)
  have "\<forall>(t, i) \<in> set (all_slots s). is_valid_table s t \<and> i < ENTRIES_PER_TABLE"
    by (auto simp: set_all_slots)
  then show "for_each_session_key s sess f c = visit_all f (session_keys s sess (all_slots s)) c" for f c
    unfolding for_each_session_key_def by (rule visit_session_keys_eq [OF assms])
qed (rule distinct_session_keys set_session_keys)+

end
