(* ===== verification/StdSession.thy ===== *)
theory StdSession
  imports SessionStore
begin

text \<open>
  The std PAL's session table (\<open>fw/plat/std/pal/src/drivers/session.rs\<close>), which keeps the handshake
  state of a pending slot itself and evicts the oldest one by a sequence stamp. It interprets the
  same contract \<open>session_slots\<close> as the Uno table, with a different rule for the PSK-change budget
  of a renegotiated session.
\<close>

definition SESSION_PENDING_BLOB_MAX :: nat where "SESSION_PENDING_BLOB_MAX = 256"

section \<open>Pending blobs\<close>

record PendingBlob =
  pb_data :: "u8 list"
  pb_len :: nat

definition PendingBlob_default :: PendingBlob where
  "PendingBlob_default = \<lparr>pb_data = replicate SESSION_PENDING_BLOB_MAX 0, pb_len = 0\<rparr>"

definition blob_clear :: "PendingBlob \<Rightarrow> PendingBlob" where
  "blob_clear b = b\<lparr>pb_data := replicate (length (pb_data b)) 0, pb_len := 0\<rparr>"

definition blob_store :: "u8 list \<Rightarrow> (PendingBlob, unit) op" where
  "blob_store src b =
     (if length src > SESSION_PENDING_BLOB_MAX then (Err InvalidArg, b)
      else (Ok (), b\<lparr>pb_data := src @ replicate (length (pb_data b) - length src) 0, pb_len := length src\<rparr>))"

definition as_slice :: "PendingBlob \<Rightarrow> u8 list" where
  "as_slice b = take (pb_len b) (pb_data b)"

section \<open>The table\<close>

record StdSessionTable =
  std_alloc_mask :: u8
  std_renego_mask :: u8
  std_pending_mask :: u8
  std_psk_change_mask :: u8
  phys_ids :: "u16 list"
  pending_blobs :: "PendingBlob list"
  pending_seqs :: "u64 list"
  next_init_seq :: u64

definition std_new :: StdSessionTable where
  "std_new = \<lparr>std_alloc_mask = 0, std_renego_mask = 0, std_pending_mask = 0, std_psk_change_mask = 0,
     phys_ids = replicate MAX_SESSIONS 0, pending_blobs = replicate MAX_SESSIONS PendingBlob_default,
     pending_seqs = replicate MAX_SESSIONS 0, next_init_seq = 0\<rparr>"

definition backup :: "StdSessionTable \<Rightarrow> u8" where
  "backup s = std_alloc_mask s AND NOT (std_pending_mask s)"

definition restore :: "u8 \<Rightarrow> StdSessionTable \<Rightarrow> StdSessionTable" where
  "restore m s = s\<lparr>std_alloc_mask := m, std_renego_mask := m, std_pending_mask := 0,
     std_psk_change_mask := 0, phys_ids := replicate MAX_SESSIONS 0,
     pending_blobs := map blob_clear (pending_blobs s),
     pending_seqs := replicate MAX_SESSIONS 0, next_init_seq := 0\<rparr>"

definition std_active_slot :: "StdSessionTable \<Rightarrow> u16 \<Rightarrow> nat run" where
  "std_active_slot s sid =
     (let slot = unat sid in
      if slot \<ge> MAX_SESSIONS \<or> \<not> test_bit (std_alloc_mask s) slot then Err SessionNotFound else Ok slot)"

definition std_create :: "u16 \<Rightarrow> (StdSessionTable, u16) op" where
  "std_create p s =
     (let slot = trailing_ones (std_alloc_mask s) in
      if slot \<ge> MAX_SESSIONS then (Err VaultSessionLimitReached, s)
      else (Ok (of_nat slot), s\<lparr>std_alloc_mask := bit_on slot (std_alloc_mask s),
              phys_ids := (phys_ids s)[slot := p]\<rparr>))"

definition std_delete :: "u16 \<Rightarrow> (StdSessionTable, u16) op" where
  "std_delete sid =
     bindS (reads (\<lambda>s. std_active_slot s sid)) (\<lambda>slot s.
       let was_pending = test_bit (std_pending_mask s) slot;
           phys = (if was_pending then 0 else phys_ids s ! slot)
       in (Ok phys, s\<lparr>std_alloc_mask := bit_off slot (std_alloc_mask s),
             std_renego_mask := bit_off slot (std_renego_mask s),
             std_pending_mask := bit_off slot (std_pending_mask s),
             std_psk_change_mask := bit_off slot (std_psk_change_mask s),
             phys_ids := (phys_ids s)[slot := 0],
             pending_blobs := (pending_blobs s)[slot := blob_clear (pending_blobs s ! slot)],
             pending_seqs := (pending_seqs s)[slot := 0]\<rparr>))"

definition std_physical_id :: "StdSessionTable \<Rightarrow> u16 \<Rightarrow> u16 run" where
  "std_physical_id s sid =
     bindr (std_active_slot s sid)
       (\<lambda>slot. if test_bit (std_pending_mask s) slot then Err SessionNotFound else Ok (phys_ids s ! slot))"

definition std_recreate :: "u16 \<Rightarrow> u16 \<Rightarrow> (StdSessionTable, u16) op" where
  "std_recreate sid p =
     bindS (reads (\<lambda>s. std_active_slot s sid)) (\<lambda>slot s.
       if \<not> test_bit (std_renego_mask s) slot then (Err InvalidArg, s)
       else (Ok sid, s\<lparr>std_renego_mask := bit_off slot (std_renego_mask s),
               std_psk_change_mask := bit_off slot (std_psk_change_mask s),
               phys_ids := (phys_ids s)[slot := p]\<rparr>))"

definition std_state :: "StdSessionTable \<Rightarrow> u16 \<Rightarrow> HsmSessionState" where
  "std_state s sid = (case std_active_slot s sid of
     Ok slot \<Rightarrow>
       if test_bit (std_pending_mask s) slot then StPending
       else if test_bit (std_renego_mask s) slot then StNeedsRenegotiation
       else StActive
   | _ \<Rightarrow> StInvalid)"

definition std_limit_reached :: "StdSessionTable \<Rightarrow> bool" where
  "std_limit_reached s \<longleftrightarrow> count_ones (std_alloc_mask s) \<ge> MAX_SESSIONS"

definition std_install_pending :: "nat \<Rightarrow> u8 list \<Rightarrow> (StdSessionTable, unit) op" where
  "std_install_pending slot handshake s =
     (case blob_store handshake (pending_blobs s ! slot) of
        (Ok _, b) \<Rightarrow>
          (let seq = next_init_seq s + 1 in
           (Ok (), s\<lparr>pending_blobs := (pending_blobs s)[slot := b],
              std_alloc_mask := bit_on slot (std_alloc_mask s),
              std_pending_mask := bit_on slot (std_pending_mask s),
              next_init_seq := seq, pending_seqs := (pending_seqs s)[slot := seq],
              phys_ids := (phys_ids s)[slot := 0]\<rparr>))
      | (Err e, b) \<Rightarrow> (Err e, s\<lparr>pending_blobs := (pending_blobs s)[slot := b]\<rparr>)
      | (Panic, b) \<Rightarrow> (Panic, s))"

definition oldest_pending :: "StdSessionTable \<Rightarrow> nat list \<Rightarrow> nat option \<times> u64" where
  "oldest_pending s slots =
     fold (\<lambda>slot (victim, victim_seq).
         if test_bit (std_pending_mask s) slot \<and> pending_seqs s ! slot < victim_seq
         then (Some slot, pending_seqs s ! slot) else (victim, victim_seq))
       slots (None, - 1)"

definition std_create_pending :: "SessionRole \<Rightarrow> u8 list \<Rightarrow> (StdSessionTable, u16) op" where
  "std_create_pending role handshake s =
     (if length handshake > SESSION_PENDING_BLOB_MAX then (Err InvalidArg, s)
      else let (lo, hi) = role_slot_range role in
        case List.find (\<lambda>slot. \<not> test_bit (std_alloc_mask s) slot) [lo..<hi + 1] of
          Some slot \<Rightarrow> bindS (std_install_pending slot handshake) (\<lambda>_. returns (of_nat slot)) s
        | None \<Rightarrow>
            (case fst (oldest_pending s [lo..<hi + 1]) of
               Some slot \<Rightarrow>
                 bindS (std_delete (of_nat slot))
                   (\<lambda>_. bindS (std_install_pending slot handshake) (\<lambda>_. returns (of_nat slot))) s
             | None \<Rightarrow> (Err VaultSessionLimitReached, s)))"

definition pending_state :: "StdSessionTable \<Rightarrow> u16 \<Rightarrow> u8 list run" where
  "pending_state s sid =
     bindr (std_active_slot s sid)
       (\<lambda>slot. if \<not> test_bit (std_pending_mask s) slot then Err SessionNotPending
               else Ok (as_slice (pending_blobs s ! slot)))"

definition std_promote :: "u16 \<Rightarrow> u16 \<Rightarrow> (StdSessionTable, unit) op" where
  "std_promote sid p =
     bindS (reads (\<lambda>s. std_active_slot s sid)) (\<lambda>slot s.
       if \<not> test_bit (std_pending_mask s) slot then (Err SessionNotPending, s)
       else (Ok (), s\<lparr>std_pending_mask := bit_off slot (std_pending_mask s),
               std_psk_change_mask := bit_off slot (std_psk_change_mask s),
               pending_blobs := (pending_blobs s)[slot := blob_clear (pending_blobs s ! slot)],
               pending_seqs := (pending_seqs s)[slot := 0],
               phys_ids := (phys_ids s)[slot := p]\<rparr>))"

definition std_try_consume_psk_change :: "u16 \<Rightarrow> (StdSessionTable, unit) op" where
  "std_try_consume_psk_change sid =
     bindS (reads (\<lambda>s. std_active_slot s sid)) (\<lambda>slot s.
       if test_bit (std_pending_mask s) slot then (Err SessionNotFound, s)
       else if test_bit (std_psk_change_mask s) slot then (Err InvalidPermissions, s)
       else (Ok (), s\<lparr>std_psk_change_mask := bit_on slot (std_psk_change_mask s)\<rparr>))"

section \<open>The abstract view\<close>

definition std_view :: "StdSessionTable \<Rightarrow> u8 list slots" where
  "std_view s i =
     (if \<not> bit (std_alloc_mask s) i then SFree
      else if bit (std_pending_mask s) i then SPending (as_slice (pending_blobs s ! i))
      else if bit (std_renego_mask s) i then SRenego (phys_ids s ! i) (bit (std_psk_change_mask s) i)
      else SActive (phys_ids s ! i) (bit (std_psk_change_mask s) i))"

definition std_shape :: "StdSessionTable \<Rightarrow> bool" where
  "std_shape s \<longleftrightarrow> length (phys_ids s) = 8 \<and> length (pending_blobs s) = 8 \<and> length (pending_seqs s) = 8 \<and>
     (\<forall>b \<in> set (pending_blobs s). length (pb_data b) = SESSION_PENDING_BLOB_MAX)"

text \<open>The stamps of pending slots never exceed the counter, and the counter has not wrapped.\<close>

definition std_wf :: "StdSessionTable \<Rightarrow> bool" where
  "std_wf s \<longleftrightarrow> std_shape s \<and> next_init_seq s < - 1 \<and>
     (\<forall>i. (bit (std_pending_mask s) i \<longrightarrow> pending_seqs s ! i \<le> next_init_seq s \<and>
            bit (std_alloc_mask s) i \<and> \<not> bit (std_renego_mask s) i \<and> \<not> bit (std_psk_change_mask s) i) \<and>
          (bit (std_renego_mask s) i \<longrightarrow> bit (std_alloc_mask s) i) \<and>
          (bit (std_psk_change_mask s) i \<longrightarrow> bit (std_alloc_mask s) i))"

definition std_can_reserve :: "StdSessionTable \<Rightarrow> u8 list \<Rightarrow> bool" where
  "std_can_reserve s h \<longleftrightarrow> length h \<le> SESSION_PENDING_BLOB_MAX \<and> next_init_seq s + 1 < - 1"

lemma std_wfD:
  assumes "std_wf s"
  shows "std_shape s" "next_init_seq s < - 1"
    "bit (std_pending_mask s) i \<Longrightarrow> pending_seqs s ! i \<le> next_init_seq s"
    "bit (std_pending_mask s) i \<Longrightarrow> bit (std_alloc_mask s) i"
    "bit (std_pending_mask s) i \<Longrightarrow> \<not> bit (std_renego_mask s) i"
    "bit (std_pending_mask s) i \<Longrightarrow> \<not> bit (std_psk_change_mask s) i"
    "bit (std_renego_mask s) i \<Longrightarrow> bit (std_alloc_mask s) i"
    "bit (std_psk_change_mask s) i \<Longrightarrow> bit (std_alloc_mask s) i"
  using assms by (auto simp: std_wf_def)

lemma std_view_free: "std_view s i = SFree \<longleftrightarrow> \<not> bit (std_alloc_mask s) i"
  by (simp add: std_view_def)

lemma std_active_slot_eq:
  "std_active_slot s sid = (if bit (std_alloc_mask s) (unat sid) then Ok (unat sid) else Err SessionNotFound)"
  using bit_u8 [of "std_alloc_mask s" "unat sid"] by (auto simp: std_active_slot_def MAX_SESSIONS_def Let_def)

lemma blob_clear_len [simp]: "length (pb_data (blob_clear b)) = length (pb_data b)"
  by (simp add: blob_clear_def)

lemma std_shape_blobs:
  assumes "std_shape s" "length (pb_data b) = SESSION_PENDING_BLOB_MAX" "length xs = 8" "length ys = 8"
  shows "std_shape (s\<lparr>pending_blobs := (pending_blobs s)[i := b], phys_ids := xs, pending_seqs := ys\<rparr>)"
  using assms set_update_subset_insert [of "pending_blobs s" i b] by (auto simp: std_shape_def)

section \<open>Refinement of the abstract table\<close>

lemma std_upd:
  assumes wf: "std_wf s" and sh: "std_shape s'" and nx: "next_init_seq s' < - 1" "next_init_seq s \<le> next_init_seq s'"
    and oth: "\<And>i. i \<noteq> slot \<Longrightarrow> bit (std_alloc_mask s') i = bit (std_alloc_mask s) i"
      "\<And>i. i \<noteq> slot \<Longrightarrow> bit (std_renego_mask s') i = bit (std_renego_mask s) i"
      "\<And>i. i \<noteq> slot \<Longrightarrow> bit (std_pending_mask s') i = bit (std_pending_mask s) i"
      "\<And>i. i \<noteq> slot \<Longrightarrow> bit (std_psk_change_mask s') i = bit (std_psk_change_mask s) i"
      "\<And>i. i \<noteq> slot \<Longrightarrow> phys_ids s' ! i = phys_ids s ! i"
      "\<And>i. i \<noteq> slot \<Longrightarrow> pending_blobs s' ! i = pending_blobs s ! i"
      "\<And>i. i \<noteq> slot \<Longrightarrow> pending_seqs s' ! i = pending_seqs s ! i"
    and own: "bit (std_pending_mask s') slot \<Longrightarrow> pending_seqs s' ! slot \<le> next_init_seq s' \<and>
        bit (std_alloc_mask s') slot \<and> \<not> bit (std_renego_mask s') slot \<and> \<not> bit (std_psk_change_mask s') slot"
      "bit (std_renego_mask s') slot \<Longrightarrow> bit (std_alloc_mask s') slot"
      "bit (std_psk_change_mask s') slot \<Longrightarrow> bit (std_alloc_mask s') slot"
  shows "std_wf s'" "std_view s' = (std_view s)(slot := std_view s' slot)"
proof -
  show "std_wf s'"
    unfolding std_wf_def
  proof (intro conjI allI impI)
    fix i
    show "bit (std_pending_mask s') i \<Longrightarrow> pending_seqs s' ! i \<le> next_init_seq s'"
      using std_wfD(3) [OF wf, of i] oth own nx(2) by (cases "i = slot") (auto intro: order_trans)
    show "bit (std_pending_mask s') i \<Longrightarrow> bit (std_alloc_mask s') i"
      "bit (std_pending_mask s') i \<Longrightarrow> \<not> bit (std_renego_mask s') i"
      "bit (std_pending_mask s') i \<Longrightarrow> \<not> bit (std_psk_change_mask s') i"
      "bit (std_renego_mask s') i \<Longrightarrow> bit (std_alloc_mask s') i"
      "bit (std_psk_change_mask s') i \<Longrightarrow> bit (std_alloc_mask s') i"
      using std_wfD(4-) [OF wf, of i] oth own by (cases "i = slot"; simp)+
  qed (rule sh nx)+
  show "std_view s' = (std_view s)(slot := std_view s' slot)"
    using oth by (auto simp: std_view_def fun_eq_iff)
qed

lemma std_refines_at:
  assumes free: "\<And>v. v (unat sid) = SFree \<Longrightarrow> sp v = (Err SessionNotFound, v)"
    and body: "\<And>s. std_wf s \<Longrightarrow> bit (std_alloc_mask s) (unat sid) \<Longrightarrow> unat sid < 8 \<Longrightarrow>
      std_wf (snd (body (unat sid) s)) \<and>
      (fst (body (unat sid) s), std_view (snd (body (unat sid) s))) = sp (std_view s)"
  shows "refines std_wf std_view (bindS (reads (\<lambda>s. std_active_slot s sid)) body) sp"
  unfolding refines_def
proof (intro allI impI)
  fix s assume wf: "std_wf s"
  show "std_wf (snd (bindS (reads (\<lambda>s. std_active_slot s sid)) body s)) \<and>
      (fst (bindS (reads (\<lambda>s. std_active_slot s sid)) body s),
       std_view (snd (bindS (reads (\<lambda>s. std_active_slot s sid)) body s))) = sp (std_view s)"
  proof (cases "bit (std_alloc_mask s) (unat sid)")
    case False
    then show ?thesis using free [of "std_view s"] wf by (simp add: bindS_def std_active_slot_eq std_view_free)
  next
    case True
    then show ?thesis using body [OF wf True bit_u8 [OF True]] by (simp add: bindS_def std_active_slot_eq)
  qed
qed

lemma std_find_free:
  "List.find (\<lambda>i. \<not> bit m i) [0..<MAX_SESSIONS] =
    (if trailing_ones m < MAX_SESSIONS then Some (trailing_ones m) else None)"
  using find_not_takeWhile [of "bit m" 8] by (simp add: trailing_ones_def MAX_SESSIONS_def)

lemma std_create_refines: "refines std_wf std_view (std_create p) (spec_create p)"
  unfolding refines_def
proof (intro allI impI)
  fix s assume wf: "std_wf s"
  note sh = std_wfD(1) [OF wf]
  let ?i = "trailing_ones (std_alloc_mask s)"
  show "std_wf (snd (std_create p s)) \<and>
      (fst (std_create p s), std_view (snd (std_create p s))) = spec_create p (std_view s)"
  proof (cases "?i < MAX_SESSIONS")
    case False
    then show ?thesis using wf by (simp add: std_create_def spec_create_def std_view_free std_find_free)
  next
    case True
    then have i: "?i < 8" "\<not> bit (std_alloc_mask s) ?i"
      using trailing_ones_free by (auto simp: MAX_SESSIONS_def)
    define s' where "s' = s\<lparr>std_alloc_mask := bit_on ?i (std_alloc_mask s), phys_ids := (phys_ids s)[?i := p]\<rparr>"
    have nb: "\<not> bit (std_pending_mask s) ?i" "\<not> bit (std_renego_mask s) ?i" "\<not> bit (std_psk_change_mask s) ?i"
      using i std_wfD(4-) [OF wf, of ?i] by auto
    have u: "std_wf s'" "std_view s' = (std_view s)(?i := std_view s' ?i)"
      by (rule std_upd [OF wf, of _ ?i];
          use sh i nb std_wfD(2) [OF wf] in \<open>auto simp: s'_def mask_bits std_shape_def\<close>)+
    have "std_view s' ?i = SActive p False"
      using sh i nb by (simp add: std_view_def s'_def mask_bits std_shape_def)
    then show ?thesis
      using True u by (simp add: std_create_def spec_create_def std_view_free std_find_free s'_def Let_def)
  qed
qed

definition std_cleared :: "nat \<Rightarrow> StdSessionTable \<Rightarrow> StdSessionTable" where
  "std_cleared slot s = s\<lparr>std_alloc_mask := bit_off slot (std_alloc_mask s),
     std_renego_mask := bit_off slot (std_renego_mask s),
     std_pending_mask := bit_off slot (std_pending_mask s),
     std_psk_change_mask := bit_off slot (std_psk_change_mask s),
     phys_ids := (phys_ids s)[slot := 0],
     pending_blobs := (pending_blobs s)[slot := blob_clear (pending_blobs s ! slot)],
     pending_seqs := (pending_seqs s)[slot := 0]\<rparr>"

lemma std_shape_update:
  assumes "std_shape s" "length (phys_ids s') = 8" "length (pending_seqs s') = 8" "slot < 8"
    "pending_blobs s' = (pending_blobs s)[slot := b]" "length (pb_data b) = SESSION_PENDING_BLOB_MAX"
  shows "std_shape s'"
  using assms set_update_subset_insert [of "pending_blobs s" slot b] by (auto simp: std_shape_def)

lemma std_blob_len: "std_shape s \<Longrightarrow> slot < 8 \<Longrightarrow> length (pb_data (pending_blobs s ! slot)) = SESSION_PENDING_BLOB_MAX"
  by (simp add: std_shape_def)

lemma std_cleared_result:
  assumes wf: "std_wf s" and i: "slot < 8"
  shows "std_wf (std_cleared slot s)" "std_view (std_cleared slot s) = (std_view s)(slot := SFree)"
proof -
  note sh = std_wfD(1) [OF wf]
  define s' where "s' = std_cleared slot s"
  have sh': "std_shape s'"
    by (rule std_shape_update [OF sh _ _ i])
      (use sh i std_blob_len [OF sh i] in \<open>auto simp: s'_def std_cleared_def std_shape_def\<close>)
  have u: "std_wf s'" "std_view s' = (std_view s)(slot := std_view s' slot)"
    by (rule std_upd [OF wf sh', of slot];
        use i std_wfD(2) [OF wf] in \<open>auto simp: s'_def std_cleared_def mask_bits\<close>)+
  have "std_view s' slot = SFree" by (simp add: s'_def std_cleared_def mask_bits std_view_free)
  with u show "std_wf (std_cleared slot s)" "std_view (std_cleared slot s) = (std_view s)(slot := SFree)"
    by (simp_all add: s'_def)
qed

lemma std_delete_refines: "refines std_wf std_view (void (std_delete sid)) (spec_delete sid)"
  unfolding std_delete_def void_bind
proof (rule std_refines_at, simp add: spec_delete_def, goal_cases)
  case (1 s)
  then show ?case
    using std_cleared_result [OF 1(1,3)]
    by (simp add: void_eq spec_delete_def Let_def std_view_free [of s] flip: std_cleared_def)
qed

lemma std_promote_refines: "refines std_wf std_view (std_promote sid p) (spec_promote sid p)"
  unfolding std_promote_def
proof (rule std_refines_at, simp add: spec_promote_def, goal_cases)
  case (1 s)
  note sh = std_wfD(1) [OF 1(1)]
  let ?i = "unat sid"
  show ?case
  proof (cases "bit (std_pending_mask s) ?i")
    case False
    then show ?thesis using 1 by (auto simp: spec_promote_def std_view_def)
  next
    case True
    define s' where "s' = s\<lparr>std_pending_mask := bit_off ?i (std_pending_mask s),
      std_psk_change_mask := bit_off ?i (std_psk_change_mask s),
      pending_blobs := (pending_blobs s)[?i := blob_clear (pending_blobs s ! ?i)],
      pending_seqs := (pending_seqs s)[?i := 0], phys_ids := (phys_ids s)[?i := p]\<rparr>"
    have nb: "\<not> bit (std_renego_mask s) ?i" using std_wfD(5) [OF 1(1) True] .
    have sh': "std_shape s'"
      by (rule std_shape_update [OF sh _ _ 1(3), where b = "blob_clear (pending_blobs s ! ?i)"])
        (use sh std_blob_len [OF sh 1(3)] in \<open>auto simp: s'_def std_shape_def\<close>)
    have u: "std_wf s'" "std_view s' = (std_view s)(?i := std_view s' ?i)"
      by (rule std_upd [OF 1(1) sh', of ?i];
          use 1(2,3) nb std_wfD(2) [OF 1(1)] in \<open>auto simp: s'_def mask_bits\<close>)+
    have "std_view s' ?i = SActive p False"
      using sh 1 nb by (simp add: s'_def mask_bits std_view_def std_shape_def)
    moreover have "std_view s ?i = SPending (as_slice (pending_blobs s ! ?i))"
      using True 1 by (simp add: std_view_def)
    ultimately show ?thesis
      using u True by (simp add: spec_promote_def s'_def)
  qed
qed

lemma std_consume_refines: "refines std_wf std_view (std_try_consume_psk_change sid) (spec_consume sid)"
  unfolding std_try_consume_psk_change_def
proof (rule std_refines_at, simp add: spec_consume_def, goal_cases)
  case (1 s)
  note sh = std_wfD(1) [OF 1(1)]
  let ?i = "unat sid"
  show ?case
  proof (cases "bit (std_pending_mask s) ?i \<or> bit (std_psk_change_mask s) ?i")
    case True
    then show ?thesis using 1 by (auto simp: spec_consume_def std_view_def)
  next
    case False
    define s' where "s' = s\<lparr>std_psk_change_mask := bit_on ?i (std_psk_change_mask s)\<rparr>"
    have u: "std_wf s'" "std_view s' = (std_view s)(?i := std_view s' ?i)"
      by (rule std_upd [OF 1(1), of _ ?i];
          use sh 1 False std_wfD [OF 1(1)] in \<open>auto simp: s'_def mask_bits std_shape_def\<close>)+
    have "std_view s' ?i = (if bit (std_renego_mask s) ?i then SRenego (phys_ids s ! ?i) True
        else SActive (phys_ids s ! ?i) True)"
      using 1 False by (simp add: s'_def mask_bits std_view_def)
    moreover have "std_view s ?i = (if bit (std_renego_mask s) ?i then SRenego (phys_ids s ! ?i) False
        else SActive (phys_ids s ! ?i) False)"
      using False 1 by (simp add: std_view_def)
    ultimately show ?thesis using u False by (simp add: spec_consume_def s'_def)
  qed
qed

lemma std_recreate_refines: "refines std_wf std_view (std_recreate sid p) (spec_recreate False sid p)"
  unfolding std_recreate_def
proof (rule std_refines_at, simp add: spec_recreate_def, goal_cases)
  case (1 s)
  note sh = std_wfD(1) [OF 1(1)]
  let ?i = "unat sid"
  show ?case
  proof (cases "bit (std_renego_mask s) ?i")
    case False
    then show ?thesis using 1 by (auto simp: spec_recreate_def std_view_def)
  next
    case True
    then have np: "\<not> bit (std_pending_mask s) ?i" using std_wfD(5) [OF 1(1)] by blast
    define s' where "s' = s\<lparr>std_renego_mask := bit_off ?i (std_renego_mask s),
      std_psk_change_mask := bit_off ?i (std_psk_change_mask s), phys_ids := (phys_ids s)[?i := p]\<rparr>"
    have u: "std_wf s'" "std_view s' = (std_view s)(?i := std_view s' ?i)"
      by (rule std_upd [OF 1(1), of _ ?i];
          use sh 1(2,3) np std_wfD(2) [OF 1(1)] in \<open>auto simp: s'_def mask_bits std_shape_def\<close>)+
    have "std_view s' ?i = SActive p False"
      using sh 1 np by (simp add: s'_def mask_bits std_view_def std_shape_def)
    moreover have "std_view s ?i = SRenego (phys_ids s ! ?i) (bit (std_psk_change_mask s) ?i)"
      using True 1 np by (simp add: std_view_def)
    ultimately show ?thesis using u True by (simp add: spec_recreate_def s'_def)
  qed
qed

section \<open>Handshakes and eviction\<close>

lemma oldest_pending_fold:
  "case fold (\<lambda>slot (victim, victim_seq).
         if bit m slot \<and> seqs ! slot < victim_seq then (Some slot, seqs ! slot) else (victim, victim_seq))
       xs (v, vs) of (v', vs') \<Rightarrow>
     vs' \<le> vs \<and> (\<forall>j \<in> set xs. bit m j \<longrightarrow> vs' \<le> seqs ! j) \<and>
     ((v', vs') = (v, vs) \<or> (\<exists>i \<in> set xs. v' = Some i \<and> bit m i \<and> vs' = seqs ! i))"
  for m :: u8 and seqs :: "u64 list"
proof (induction xs arbitrary: v vs)
  case (Cons x xs)
  show ?case
  proof (cases "bit m x \<and> seqs ! x < vs")
    case True
    with Cons.IH [where v = "Some x" and vs = "seqs ! x"] show ?thesis by (auto split: prod.splits)
  next
    case False
    with Cons.IH [where v = v and vs = vs] show ?thesis by (auto simp: not_less split: prod.splits)
  qed
qed simp

lemma oldest_pending_result:
  assumes "std_wf s"
  shows "case fst (oldest_pending s xs) of
      None \<Rightarrow> \<forall>j \<in> set xs. \<not> bit (std_pending_mask s) j
    | Some i \<Rightarrow> i \<in> set xs \<and> bit (std_pending_mask s) i \<and>
        (\<forall>j \<in> set xs. bit (std_pending_mask s) j \<longrightarrow> pending_seqs s ! i \<le> pending_seqs s ! j)"
proof -
  obtain v vs where f: "oldest_pending s xs = (v, vs)" by fastforce
  have r: "\<forall>j \<in> set xs. bit (std_pending_mask s) j \<longrightarrow> vs \<le> pending_seqs s ! j"
    "(v, vs) = (None, - 1) \<or> (\<exists>i \<in> set xs. v = Some i \<and> bit (std_pending_mask s) i \<and> vs = pending_seqs s ! i)"
    using oldest_pending_fold [where m = "std_pending_mask s" and seqs = "pending_seqs s" and xs = xs and v = None and vs = "- 1"] f
    by (simp_all add: oldest_pending_def)
  have "bit (std_pending_mask s) j \<Longrightarrow> pending_seqs s ! j < - 1" for j
    using std_wfD(2,3) [OF assms] by (meson order_le_less_trans)
  with r show ?thesis using f by (cases v) (auto simp: not_le [symmetric])
qed

lemma std_install_result:
  assumes wf: "std_wf s" and i: "slot < 8" and h: "std_can_reserve s h"
    and nb: "\<not> bit (std_renego_mask s) slot" "\<not> bit (std_psk_change_mask s) slot"
  shows "\<exists>s'. std_install_pending slot h s = (Ok (), s') \<and> std_wf s' \<and>
    std_view s' = (std_view s)(slot := SPending h)"
proof -
  note sh = std_wfD(1) [OF wf]
  from h have hl: "length h \<le> SESSION_PENDING_BLOB_MAX" and nx: "next_init_seq s + 1 < - 1"
    by (simp_all add: std_can_reserve_def)
  define b where "b = (pending_blobs s ! slot)\<lparr>pb_data := h @ replicate (length (pb_data (pending_blobs s ! slot)) - length h) 0,
    pb_len := length h\<rparr>"
  have bl: "length (pb_data b) = SESSION_PENDING_BLOB_MAX" "as_slice b = h"
    using hl std_blob_len [OF sh i] by (simp_all add: b_def as_slice_def)
  define s' where "s' = s\<lparr>pending_blobs := (pending_blobs s)[slot := b],
    std_alloc_mask := bit_on slot (std_alloc_mask s), std_pending_mask := bit_on slot (std_pending_mask s),
    next_init_seq := next_init_seq s + 1, pending_seqs := (pending_seqs s)[slot := next_init_seq s + 1],
    phys_ids := (phys_ids s)[slot := 0]\<rparr>"
  have ev: "std_install_pending slot h s = (Ok (), s')"
    using hl by (simp add: std_install_pending_def blob_store_def b_def s'_def Let_def)
  have sh': "std_shape s'"
    by (rule std_shape_update [OF sh _ _ i _ bl(1)]) (use sh in \<open>auto simp: s'_def std_shape_def\<close>)
  have "1 + next_init_seq s \<noteq> 0"
    using std_wfD(2) [OF wf] by (metis add.commute eq_neg_iff_add_eq_0 order_less_irrefl)
  then have mono: "next_init_seq s \<le> next_init_seq s + 1"
    by (simp add: word_le_nat_alt unatSuc add.commute)
  have u: "std_wf s'" "std_view s' = (std_view s)(slot := std_view s' slot)"
    by (rule std_upd [OF wf sh', of slot];
        use i sh nx mono nb in \<open>auto simp: s'_def mask_bits std_shape_def\<close>)+
  have "std_view s' slot = SPending h"
    using sh i bl(2) by (simp add: s'_def std_view_def mask_bits std_shape_def)
  with u ev show ?thesis by auto
qed

lemma std_reserve_refines:
  assumes wf: "std_wf s" and h: "std_can_reserve s h" and r: "std_create_pending role h s = (r, s')"
  shows "std_wf s' \<and> reserve_ok role h (std_view s) r (std_view s')"
proof -
  obtain lo hi where rg: "role_slot_range role = (lo, hi)" by fastforce
  note hi = role_range_less [OF rg]
  let ?xs = "[lo..<hi + 1]"
  have hl: "\<not> length h > SESSION_PENDING_BLOB_MAX" using h by (simp add: std_can_reserve_def)
  have fv: "List.find (\<lambda>i. std_view s i = SFree) ?xs = List.find (\<lambda>i. \<not> bit (std_alloc_mask s) i) ?xs"
    by (simp add: std_view_free)
  show ?thesis
  proof (cases "List.find (\<lambda>i. \<not> bit (std_alloc_mask s) i) ?xs")
    case (Some i)
    then have i: "i < 8" "\<not> bit (std_alloc_mask s) i" using find_SomeD [OF Some] hi by auto
    then have "\<not> bit (std_renego_mask s) i" "\<not> bit (std_psk_change_mask s) i" using std_wfD(7,8) [OF wf] by blast+
    from std_install_result [OF wf i(1) h this] show ?thesis
      using r rg Some fv hl by (auto simp: std_create_pending_def bindS_def reserve_ok_def)
  next
    case none: None
    then have al: "bit (std_alloc_mask s) i" if "lo \<le> i" "i \<le> hi" for i
      using that by (auto simp: find_None)
    have est: "established (std_view s i) \<longleftrightarrow> \<not> bit (std_pending_mask s) i" if "lo \<le> i" "i \<le> hi" for i
      using al [OF that] by (simp add: std_view_def)
    note old = oldest_pending_result [OF wf, of ?xs]
    show ?thesis
    proof (cases "fst (oldest_pending s ?xs)")
      case (Some i)
      with old have i: "lo \<le> i" "i \<le> hi" "bit (std_pending_mask s) i" by auto
      then have i8: "i < 8" using hi by simp
      have un: "unat (of_nat i :: u16) = i" using i8 by (simp add: unat_of_nat)
      note cl = std_cleared_result [OF wf i8]
      have del: "std_delete (of_nat i) s = (Ok 0, std_cleared i s)"
        using al [OF i(1,2)] i(3) un by (simp add: std_delete_def bindS_def std_active_slot_eq std_cleared_def)
      have "std_can_reserve (std_cleared i s) h"
        using h by (simp add: std_can_reserve_def std_cleared_def)
      moreover have "\<not> bit (std_renego_mask (std_cleared i s)) i" "\<not> bit (std_psk_change_mask (std_cleared i s)) i"
        by (simp_all add: std_cleared_def mask_bits)
      ultimately obtain s2 where s2: "std_install_pending i h (std_cleared i s) = (Ok (), s2)" "std_wf s2"
        "std_view s2 = (std_view (std_cleared i s))(i := SPending h)"
        using std_install_result [OF cl(1) i8] by blast
      have rs: "r = Ok (of_nat i)" "s' = s2"
        using r rg none Some hl del s2(1) by (simp_all add: std_create_pending_def bindS_def)
      have "std_view s' = (std_view s)(i := SPending h)" using s2(3) cl(2) rs by simp
      then show ?thesis
        using rg none fv s2(2) est [OF i(1,2)] i rs by (auto simp: reserve_ok_def)
    next
      case None
      then have "\<forall>i. lo \<le> i \<and> i \<le> hi \<longrightarrow> established (std_view s i)"
        using est old by auto
      then show ?thesis
        using r rg None none fv wf hl by (auto simp: std_create_pending_def reserve_ok_def)
    qed
  qed
qed

text \<open>A disable takes a backup and restores it: the reset of the Uno table.\<close>

definition std_renego_all :: "(StdSessionTable, unit) op" where
  "std_renego_all s = (Ok (), restore (backup s) s)"

lemma std_renego_all_refines: "refines std_wf std_view std_renego_all spec_renego_all"
  unfolding refines_def
proof (intro allI impI)
  fix s assume wf: "std_wf s"
  note sh = std_wfD(1) [OF wf]
  have bm: "bit (backup s) i \<longleftrightarrow> bit (std_alloc_mask s) i \<and> \<not> bit (std_pending_mask s) i" for i
    by (auto simp: backup_def bit_simps dest: bit_u8)
  have "std_shape (restore (backup s) s)"
    using sh by (auto simp: restore_def std_shape_def MAX_SESSIONS_def)
  then have "std_wf (restore (backup s) s)" by (simp add: std_wf_def restore_def word_gt_0)
  moreover have "std_view (restore (backup s) s) = (\<lambda>i. if established (std_view s i) then SRenego 0 False else SFree)"
  proof
    fix i
    show "std_view (restore (backup s) s) i = (if established (std_view s i) then SRenego 0 False else SFree)"
      using bit_u8 [of "std_alloc_mask s" i] by (simp add: std_view_def bm restore_def MAX_SESSIONS_def)
  qed
  ultimately show "std_wf (snd (std_renego_all s)) \<and>
      (fst (std_renego_all s), std_view (snd (std_renego_all s))) = spec_renego_all (std_view s)"
    by (simp add: std_renego_all_def spec_renego_all_def)
qed

interpretation stds: session_slots std_view std_wf std_create "\<lambda>i. void (std_delete i)"
  std_create_pending std_promote std_try_consume_psk_change std_recreate
  std_renego_all False std_can_reserve
  by unfold_locales
    (simp_all add: std_create_refines std_delete_refines std_promote_refines std_consume_refines
      std_recreate_refines std_renego_all_refines std_reserve_refines)

end
