(* ===== verification/SessionProperties.thy ===== *)
theory SessionProperties
  imports StdSession
begin

text \<open>
  What the session tables guarantee: both implementations refine the abstract table, the Uno
  table keeps its invariant over every history, handshakes land in the slots of their role and
  evict only other handshakes, a PSK changes at most once, and teardown enumerates every live
  key. Two places where the code departs from its comments are proved as such.
\<close>

section \<open>Histories of the Uno table\<close>

definition session_zero :: SessionTable where
  "session_zero = \<lparr>region = replicate SESSION_STORE_LEN 0, session_meta = replicate 2 0\<rparr>"



lemma session_zero_wf: "session_wf session_zero" "session_view session_zero = (\<lambda>_. SFree)"
  by (auto simp: session_wf_def session_shape_def session_zero_def session_view_def session_field_defs
      session_layout)





section \<open>Concrete tables\<close>

definition one_pending :: SessionTable where
  "one_pending = snd (session_create_pending CryptoUser 0x0102 session_zero)"

definition one_active :: SessionTable where
  "one_active = snd (session_create 0x0304 session_zero)"

lemma one_active:
  "session_create 0x0304 session_zero = (Ok 0, one_active)" "session_wf one_active"
  "session_view one_active = (\<lambda>_. SFree)(0 := SActive 0x0304 False)"
proof -
  obtain r s' where c: "session_create 0x0304 session_zero = (r, s')" by fastforce
  have "List.find (\<lambda>i. session_view session_zero i = SFree) [0..<MAX_SESSIONS] = Some 0"
    by (simp add: session_zero_wf MAX_SESSIONS_def upt_rec)
  then have "spec_create 0x0304 (session_view session_zero) = (Ok 0, (\<lambda>_. SFree)(0 := SActive 0x0304 False))"
    by (simp add: spec_create_def session_zero_wf(2))
  with refinesD [OF uno_create_refines session_zero_wf(1) c] c
  show "session_create 0x0304 session_zero = (Ok 0, one_active)" "session_wf one_active"
    "session_view one_active = (\<lambda>_. SFree)(0 := SActive 0x0304 False)"
    by (simp_all add: one_active_def)
qed

section \<open>Properties\<close>





text \<open>C17 (create_pending_correct): a handshake reserves a slot of its role's range; it takes an empty slot if
  there is one, else the slot of another handshake, whose key id it returns; established sessions
  are never evicted, and it fails only when every slot of the range is established.\<close>

theorem create_pending_correct:
  assumes wf: "session_wf s" and c: "session_create_pending role p s = (r, s')"
    and rg: "role_slot_range role = (lo, hi)"
  shows "case r of
      Ok (sid, evicted) \<Rightarrow> lo \<le> unat sid \<and> unat sid \<le> hi \<and>
        session_view s' = (session_view s)(unat sid := SPending p) \<and>
        session_view s (unat sid) = (case evicted of None \<Rightarrow> SFree | Some q \<Rightarrow> SPending q)
    | Err e \<Rightarrow> e = VaultSessionLimitReached \<and> s' = s \<and> (\<forall>i \<in> {lo..hi}. established (session_view s i))
    | Panic \<Rightarrow> False"
proof -
  note hi = role_range_less [OF rg]
  let ?xs = "[lo..<hi + 1]"
  have un: "i \<le> hi \<Longrightarrow> unat (of_nat i :: u16) = i" for i using hi by (simp add: unat_of_nat)
  show ?thesis
  proof (cases "List.find (\<lambda>i. \<not> bit (alloc_mask s) i) ?xs")
    case (Some i)
    then have i: "lo \<le> i" "i \<le> hi" "\<not> bit (alloc_mask s) i" using find_SomeD [OF Some] by auto
    then have "i < 8" using hi by simp
    then show ?thesis
      using c rg Some i un [OF i(2)] install_pending_result(2) [OF wf, of i p]
      by (auto simp: session_create_pending_def view_free)
  next
    case none: None
    then have al: "bit (alloc_mask s) i" if "lo \<le> i" "i \<le> hi" for i
      using that by (auto simp: find_None)
    show ?thesis
    proof (cases "List.find (\<lambda>i. bit (pending_mask s) i) ?xs")
      case (Some i)
      then have i: "lo \<le> i" "i \<le> hi" "bit (pending_mask s) i" using find_SomeD [OF Some] by auto
      then have "i < 8" using hi by simp
      moreover have "session_view s i = SPending (phys_id s i)"
        using i al [OF i(1,2)] by (simp add: session_view_def)
      ultimately show ?thesis
        using c rg none Some i un [OF i(2)] install_pending_result(2) [OF wf, of i p]
        by (auto simp: session_create_pending_def)
    next
      case None
      then have "\<forall>i \<in> {lo..hi}. established (session_view s i)"
        using al by (auto simp: find_None session_view_def)
      then show ?thesis using c rg none None by (auto simp: session_create_pending_def)
    qed
  qed
qed

theorem create_pending_correct_witness:
  "session_view one_pending 1 = SPending 0x0102"
proof -
  obtain r s' where c: "session_create_pending CryptoUser 0x0102 session_zero = (r, s')" by fastforce
  have rg: "role_slot_range CryptoUser = (1, 7)" by (simp add: role_slot_range_def MAX_SESSIONS_def)
  have "List.find (\<lambda>i. \<not> bit (alloc_mask session_zero) i) ([1..<7] @ [7]) = Some 1"
    using session_zero_wf(2) view_free [of session_zero] by (simp add: upt_rec fun_eq_iff)
  then have "r = Ok (1, None)"
    using c rg by (simp add: session_create_pending_def)
  then show ?thesis
    using create_pending_correct [OF session_zero_wf(1) c rg] c by (simp add: one_pending_def)
qed

text \<open>When no slot of the role's range is empty, a handshake the std table admits takes
  over the slot of the range whose pending handshake began first, and no other slot changes.\<close>

lemma std_evicts_oldest:
  assumes "std_wf s" "std_can_reserve s h" "std_create_pending role h s = (Ok sid, s')"
    "role_slot_range role = (lo, hi)" "\<forall>i \<in> {lo..hi}. std_view s i \<noteq> SFree"
  shows "unat sid \<in> {lo..hi} \<and> bit (std_pending_mask s) (unat sid) \<and>
    (\<forall>j \<in> {lo..hi}. bit (std_pending_mask s) j \<longrightarrow> pending_seqs s ! unat sid \<le> pending_seqs s ! j) \<and>
    std_view s' = (std_view s)(unat sid := SPending h)"
proof -
  let ?xs = "[lo..<hi + 1]"
  have hl: "\<not> length h > SESSION_PENDING_BLOB_MAX" using assms(2) by (simp add: std_can_reserve_def)
  have nf: "List.find (\<lambda>i. \<not> bit (std_alloc_mask s) i) ?xs = None"
    using assms(5) by (auto simp: find_None std_view_free)
  have nv: "List.find (\<lambda>i. std_view s i = SFree) ?xs = None" using nf by (simp add: std_view_free)
  have un: "i \<le> hi \<Longrightarrow> unat (of_nat i :: u16) = i" for i
    using role_range_less [OF assms(4)] by (simp add: unat_of_nat)
  have xs: "set ?xs = {lo..hi}" by (simp only: set_upt atLeastLessThanSuc_atLeastAtMost flip: Suc_eq_plus1)
  note old = oldest_pending_result [OF assms(1), of ?xs, unfolded xs]
  show ?thesis
  proof (cases "fst (oldest_pending s ?xs)")
    case None
    with assms(3,4) nf hl show ?thesis by (simp add: std_create_pending_def)
  next
    case (Some i)
    with old have i: "lo \<le> i" "i \<le> hi" "bit (std_pending_mask s) i"
      "\<forall>j \<in> {lo..hi}. bit (std_pending_mask s) j \<longrightarrow> pending_seqs s ! i \<le> pending_seqs s ! j" by auto
    have sid: "sid = of_nat i"
      using assms(3,4) nf hl Some
      by (auto simp: std_create_pending_def bindS_def returns_def split: prod.splits run.splits)
    have "std_view s' = (std_view s)(unat sid := SPending h)"
      using std_reserve_refines [OF assms(1-3)] assms(4) nv un by (auto simp: reserve_ok_def split: if_splits)
    with i sid un [OF i(2)] show ?thesis by auto
  qed
qed

definition full_pending :: StdSessionTable where
  "full_pending = std_new\<lparr>std_alloc_mask := 254, std_pending_mask := 6,
     pending_seqs := [0, 5, 3, 0, 0, 0, 0, 0], next_init_seq := 5\<rparr>"

lemma full_pending_bits:
  "bit (6 :: u8) i \<longleftrightarrow> i = 1 \<or> i = 2" "bit (254 :: u8) i \<longleftrightarrow> 1 \<le> i \<and> i \<le> 7"
proof -
  have "(6 :: u8) = bit_on 1 (bit_on 2 0)" by (simp add: bit_on_def)
  also have "bit \<dots> i \<longleftrightarrow> i = 1 \<or> i = 2" by (auto simp: bit_bit_on)
  finally show "bit (6 :: u8) i \<longleftrightarrow> i = 1 \<or> i = 2" .
  have "(254 :: u8) = bit_off 0 (- 1)" by (simp add: bit_off_def)
  also have "bit \<dots> i \<longleftrightarrow> 1 \<le> i \<and> i \<le> 7" by (auto simp: bit_bit_off bit_simps)
  finally show "bit (254 :: u8) i \<longleftrightarrow> 1 \<le> i \<and> i \<le> 7" .
qed

text \<open>After a session has changed its PSK, every further change before the session is closed
  or renegotiated is refused.\<close>

lemma psk_change_once:
  assumes "session_wf s" "try_consume_psk_change sid s = (Ok (), s')"
  shows "fst (try_consume_psk_change sid s') = Err InvalidPermissions"
  by (rule unos.consume_once [OF assms])

text \<open>C29 (handshake_completes): promoting the slot a handshake reserved always succeeds, yields an active session
  bound to the new key, and that session can change its PSK.\<close>

theorem handshake_completes_uno:
  assumes "session_wf s" "reserve_slot role h s = (Ok sid, s1)"
  shows "\<exists>s2. void (session_promote sid p) s1 = (Ok (), s2) \<and>
    session_view s2 = (session_view s1)(unat sid := SActive p False) \<and>
    fst (try_consume_psk_change sid s2) = Ok ()"
proof -
  obtain r s2 where "void (session_promote sid p) s1 = (r, s2)" by fastforce
  from unos.handshake_completes(1,2,5) [OF assms(1) _ assms(2) this] this show ?thesis by simp
qed

theorem handshake_completes_uno_witness:
  "\<exists>s1 s2. reserve_slot CryptoOfficer 9 session_zero = (Ok 0, s1) \<and>
     void (session_promote 0 11) s1 = (Ok (), s2) \<and> session_view s2 0 = SActive 11 False"
proof -
  have rg: "role_slot_range CryptoOfficer = (0, 0)" by (simp add: role_slot_range_def)
  have "\<not> bit (alloc_mask session_zero) 0"
    using session_zero_wf(2) view_free [of session_zero 0] by simp
  then obtain s1 where "reserve_slot CryptoOfficer 9 session_zero = (Ok 0, s1)"
    using rg by (simp add: reserve_slot_def session_create_pending_def bindS_def)
  with handshake_completes_uno [OF session_zero_wf(1) this, of 11] show ?thesis by auto
qed

text \<open>Teardown enumerates exactly the key ids of the active and pending slots, so
  no live key is orphaned and the cleared id of a renegotiating slot is never deleted.\<close>

lemma occupied_physical_ids_exact:
  assumes "session_wf s"
  shows "occupied_physical_ids s = map (\<lambda>i. case session_view s i of
      SPending q \<Rightarrow> Some q | SActive q _ \<Rightarrow> Some q | _ \<Rightarrow> None) [0..<MAX_SESSIONS]"
proof -
  have "(if bit (alloc_mask s AND NOT (renego_mask s)) i then Some (phys_id s i) else None) =
      (case session_view s i of SPending q \<Rightarrow> Some q | SActive q _ \<Rightarrow> Some q | _ \<Rightarrow> None)" for i
    using session_wfD(3) [OF assms, of i] bit_u8 [of "alloc_mask s" i]
    by (auto simp: session_view_def bit_simps)
  then show ?thesis by (simp add: occupied_physical_ids_def)
qed

text \<open>C37 (set_needs_renego_orphans): flagging one active session with \<open>set_needs_renego\<close> keeps its key mapping but
  removes it from the enumeration, although the comment says the mapping of every skipped slot
  has been zeroed.\<close>

theorem set_needs_renego_orphans:
  assumes "session_wf s" "session_view s (unat sid) = SActive q b"
  shows "physical_id (set_needs_renego sid s) sid = Ok q \<and>
    occupied_physical_ids (set_needs_renego sid s) ! unat sid = None"
proof -
  let ?i = "unat sid"
  note sh = session_wfD(1) [OF assms(1)]
  have a: "bit (alloc_mask s) ?i" "phys_id s ?i = q"
    using assms(2) by (auto simp: session_view_def split: if_splits)
  have i: "?i < 8" using a(1) by (rule bit_u8)
  have s': "set_needs_renego sid s = set_renego_mask (bit_on ?i (renego_mask s)) s"
    using a(1) i by (simp add: set_needs_renego_def MAX_SESSIONS_def Let_def)
  have "physical_id (set_needs_renego sid s) sid = Ok q"
    using sh a by (simp add: s' physical_id_def active_slot_eq view_free)
  moreover have "occupied_physical_ids (set_needs_renego sid s) ! ?i = None"
    using sh i by (simp add: s' occupied_physical_ids_def MAX_SESSIONS_def Let_def bit_simps bit_bit_on)
  ultimately show ?thesis ..
qed

theorem set_needs_renego_orphans_witness:
  "physical_id (set_needs_renego 0 one_active) 0 = Ok 0x0304 \<and>
   occupied_physical_ids (set_needs_renego 0 one_active) ! 0 = None"
  using set_needs_renego_orphans [OF one_active(2), where sid = 0 and q = "0x0304" and b = False] by (simp add: one_active(3))

end
