(* ===== verification/PlatformExamples.thy ===== *)
theory PlatformExamples
  imports UnoInvariant PartProvision VaultProperties SessionProperties
begin

text \<open>
  Concrete platform states: hardware that answers, a vault with one key, partitions as after a reset, and
  one partition with a chosen slot that owns the table of the key. They satisfy the invariant.
\<close>

definition demo_hw :: "unit Hw" where
  "demo_hw = \<lparr>hw_engine = memcpy_engine, hw_ipc = (\<lambda>b d. (b, d)), hw_rng = (\<lambda>d. (0, d)),
     hw_ecc_gen = (\<lambda>d. (Ok (replicate 48 0, replicate 96 0, 96), d)), hw_mask_bk_boot = (\<lambda>_ d. (Ok [], d))\<rparr>"

lemma demo_hw_ok: "hw_ok demo_hw" "engine_ok (hw_engine demo_hw)"
  by (simp_all add: hw_ok_def demo_hw_def memcpy_engine_ok P384_PRIV_LEN_def ID_PUB_KEY_LEN_def)

definition one_key :: "HsmVaultKeyKind \<Rightarrow> u8 list \<Rightarrow> VaultStorage" where
  "one_key kd bs = snd (vault_create std_gdma 3 \<lparr>buf_ptr = 0, buf_bytes = bs\<rparr> kd None 1 (empty_storage 1))"

lemma one_key:
  assumes "key_len kd = Ok spec" "check spec (length bs) = Ok n" "run_len (length bs) \<le> BLOB_BLOCKS" "0 < run_len (length bs)"
  shows "vault_wf (one_key kd bs)" "vault_clean (one_key kd bs)" "vault_abs (one_key kd bs) = [0 \<mapsto> new_key 3 kd None 1 bs]"
proof -
  let ?b = "\<lparr>buf_ptr = 0, buf_bytes = bs\<rparr> :: DmaBuf"
  have st: "stageable (empty_storage 1) (run_len (length bs)) 0" by (rule empty_storage_stageable) (use assms in simp_all)
  then have l: "(LEAST t. stageable (empty_storage 1) (run_len (length bs)) t) = 0" by (intro Least_equality) simp_all
  have "(LEAST i. i < ENTRIES_PER_TABLE \<and> \<not> present (tables (empty_storage 1) ! 0) i) = 0"
    by (intro Least_equality) (simp_all add: empty_storage_def slot_bounds)
  then have "create_outcome (empty_storage 1) kd (length bs) = Ok 0"
    using st l assms by (auto simp: create_outcome_def make_key_id_def)
  then have "fst (vault_create_sync 3 ?b kd None 1 (empty_storage 1)) = Ok 0" by (subst create_sync_outcome) simp_all
  then obtain s where c: "vault_create std_gdma 3 ?b kd None 1 (empty_storage 1) = (Ok 0, s)"
    by (metis create_sync_eq empty_storage_wf(1) prod.collapse)
  note ok = create_Ok [OF std_scrubbing(1) empty_storage_wf(1) c]
  have s: "one_key kd bs = s" using c by (simp add: one_key_def)
  show "vault_wf (one_key kd bs)" "vault_clean (one_key kd bs)" using ok(1,2) s by simp_all
  show "vault_abs (one_key kd bs) = [0 \<mapsto> new_key 3 kd None 1 bs]" using ok(6) s by (auto simp: fun_eq_iff)
qed

definition blank_slot :: IoSlot where
  "blank_slot = \<lparr>sl_nondma = \<lparr>hp_wm = 0, hp_pk = 0, hp_mem = replicate (heap_cap NONDMA) 0\<rparr>,
     sl_dma = \<lparr>hp_wm = 0, hp_pk = 0, hp_mem = replicate (heap_cap DMA) 0\<rparr>\<rparr>"

lemma blank_slot_clean: "clean_slot blank_slot"
  by (simp add: blank_slot_def clean_slot_def slot_inv_def heap_inv_def heap_of_def NONDMA_def DMA_def)

definition reset_slot :: Storage where
  "reset_slot = ps_reset Storage_zeroed"

definition demo_pal :: "VaultStorage \<Rightarrow> Storage \<Rightarrow> unit UnoHsmPal" where
  "demo_pal V S = \<lparr>pal_parts = (replicate NUM_PARTITIONS reset_slot)[3 := S], pal_tables = tables V,
     pal_fp_slots = replicate NUM_FP_TABLES 0, pal_io_slots = replicate IO_SLOTS blank_slot, pal_dev = ()\<rparr>"

lemma read_absent: "read_handle (to_le 2 KEY_ABSENT) = None"
  by (simp add: read_handle_def)

lemma reset_session: "session_table_of reset_slot = session_zero"
  by (simp add: session_table_of_def session_zero_def reset_slot_def ps_reset_def Storage_zeroed_def Let_def
      ps_session_table_def ps_session_meta_def SESSION_TABLE_LEN_def session_layout)

lemma reset_fields:
  "st_res_mask reset_slot = replicate RES_MASK_LEN 0" "st_state reset_slot = replicate 4 0"
  "st_id_key_id reset_slot = to_le 2 KEY_ABSENT" "st_ec_key_id reset_slot = to_le 2 KEY_ABSENT" "st_se_key_id reset_slot = to_le 2 KEY_ABSENT"
  "st_mk_key_id reset_slot = to_le 2 KEY_ABSENT" "st_ups_key_id reset_slot = to_le 2 KEY_ABSENT" "st_pta_key_id reset_slot = to_le 2 KEY_ABSENT"
  "st_unwrapping_key_id reset_slot = to_le 2 KEY_ABSENT" "st_local_mk_key_id reset_slot = to_le 2 KEY_ABSENT"
  "st_ephemeral_mk_key_id reset_slot = to_le 2 KEY_ABSENT" "st_sd_mk_key_id reset_slot = to_le 2 KEY_ABSENT"
  "st_valid_flags reset_slot = 0"
  by (simp_all add: reset_slot_def ps_reset_def Storage_zeroed_def Let_def)

lemma reset_slot: "ps_res_mask reset_slot = 0" "ps_state reset_slot = Ok Unallocated"
  by (simp_all add: ps_res_mask_def ps_state_def reset_fields RES_MASK_LEN_def part_state_from_u8_def from_le_def numeral_eq_Suc)

lemma reset_handles: "field_handles reset_slot = replicate 10 None"
  by (simp add: field_handles_def enabled_handles_def slot_getters reset_fields read_absent) (simp add: numeral_eq_Suc)

lemma reset_canon: "store_canon reset_slot"
proof -
  have "replicate 4 0 = [part_state_u8 Unallocated, 0, 0, 0]" by (simp add: numeral_eq_Suc)
  then have "state_canon (st_state reset_slot)" unfolding reset_fields by (simp only: state_canonI)
  then show ?thesis by (simp add: canon_defs reset_slot_def ps_reset_def Storage_zeroed_def Let_def)
qed

text \<open>A slot with the given state that owns the first table, and one that also has handles on its first key.\<close>

definition demo_slot :: "PartState \<Rightarrow> Storage" where
  "demo_slot st = ps_set_state st (ps_set_res_mask 1 reset_slot)"

lemma session_slot [simp]: "session_table_of (ps_set_state st S) = session_table_of S" "session_table_of (ps_set_res_mask m S) = session_table_of S"
  by (simp_all add: session_table_of_def ps_session_table_def ps_session_meta_def ps_set_state_def ps_set_res_mask_def)

lemma demo_slot:
  "ps_state (demo_slot st) = Ok st" "ps_res_mask (demo_slot st) = 1" "session_table_of (demo_slot st) = session_zero"
  "field_handles (demo_slot st) = replicate 10 None"
  by (simp_all add: demo_slot_def reset_session reset_handles)

lemma zero_occupied: "Some k \<notin> set (occupied_physical_ids session_zero)"
  using occupied_view [OF session_zero_wf(1)] session_zero_wf(2) by simp

lemma demo_slot_ok: "st \<noteq> Unallocated \<Longrightarrow> slot_ok (demo_slot st)"
  using session_zero_wf(1) zero_occupied by (auto simp: slot_ok_def demo_slot all_handles_split)

lemma reset_slot_ok: "slot_ok reset_slot"
  using session_zero_wf(1) zero_occupied by (auto simp: slot_ok_def reset_slot reset_session all_handles_split reset_handles)

lemma first_table: "in_mask 1 0"
  by (simp add: in_mask_def split_key_id_def TABLE_COUNT_eq)

lemma demo_parts:
  "length (pal_parts (demo_pal V S)) = NUM_PARTITIONS" "pal_parts (demo_pal V S) ! 3 = S"
  "i < NUM_PARTITIONS \<Longrightarrow> i \<noteq> 3 \<Longrightarrow> pal_parts (demo_pal V S) ! i = reset_slot"
  by (simp_all add: demo_pal_def NUM_PARTITIONS_def nth_list_update)

lemma demo_keys: "pal_keys (demo_pal V S) = vault_abs V"
  using vault_abs_mask(1) [of V 0] by (cases V) (simp add: pal_keys_def demo_pal_def)

lemma demo_pal_inv:
  assumes V: "vault_wf V" "vault_clean V" "vault_abs V = [0 \<mapsto> v]" "\<not> is_bulk_kind (vk_kind v)" and S: "slot_ok S" "ps_res_mask S = 1"
  shows "pal_inv (demo_pal V S)"
proof -
  have ok: "vault_ok (demo_pal V S)" using V(1,2) vault_abs_mask(2,3) [of V 0] by (cases V) (simp add: vault_ok_def demo_pal_def)
  have mask: "ps_res_mask (pal_parts (demo_pal V S) ! i) = (if i = 3 then 1 else 0)" if "i < NUM_PARTITIONS" for i
    using demo_parts(2) [of V S] demo_parts(3) [of i V S] that S(2) reset_slot(1) by (cases "i = 3") simp_all
  have keys: "pal_keys (demo_pal V S) k = Some u \<Longrightarrow> k = 0 \<and> \<not> is_bulk_kind (vk_kind u)" for k u
    using V(3,4) by (auto simp: demo_keys split: if_splits)
  have "fp_inv (demo_pal V S)"
    unfolding fp_inv_def using keys mask by (auto simp: demo_pal_def bit_1_iff split: if_splits)
  moreover have "slot_ok (pal_parts (demo_pal V S) ! i)" if "i < NUM_PARTITIONS" for i
    using demo_parts(2) [of V S] demo_parts(3) [of i V S] that S(1) reset_slot_ok by (cases "i = 3") simp_all
  moreover have "\<exists>i < NUM_PARTITIONS. in_mask (ps_res_mask (pal_parts (demo_pal V S) ! i)) k" if "pal_keys (demo_pal V S) k \<noteq> None" for k
    using that keys mask [of 3] first_table by (intro exI [of _ 3]) (auto simp: NUM_PARTITIONS_def)
  ultimately show ?thesis
    using ok blank_slot_clean demo_parts(1) by (auto simp: pal_inv_def demo_pal_def ADMIN_IO_INDEX_def IO_SLOTS_def)
qed

end
