(* ===== verification/UnoSessionLaws.thy ===== *)
theory UnoSessionLaws
  imports UnoSession PartRollback UnoLifecycle
begin

text \<open>
  The session calls of the Uno platform layer on the map of keys and the slots of the partitions: what
  each step does to them, the completion of a handshake, and the key material read back from a session.
\<close>

section \<open>Steps\<close>

definition at_io :: "'e Hw \<Rightarrow> HsmIo \<Rightarrow> (HsmKeyId \<Rightarrow> vkey option) \<Rightarrow> Storage list \<Rightarrow> 'e UnoHsmPal \<Rightarrow> bool" where
  "at_io hw io K P p \<longleftrightarrow> io_okay hw io p \<and> pal_keys p = K \<and> pal_parts p = P"

definition io_table :: "HsmIo \<Rightarrow> Storage list \<Rightarrow> SessionTable" where
  "io_table io P = session_table_of (P ! unat (io_pid io))"

definition with_table :: "HsmIo \<Rightarrow> SessionTable \<Rightarrow> Storage list \<Rightarrow> Storage list" where
  "with_table io t P = P[unat (io_pid io) := put_session_table t (P ! unat (io_pid io))]"

lemma put_table_same [simp]: "put_session_table (session_table_of s) s = s"
  by (simp add: put_session_table_def session_table_of_def store_ops)

lemma with_table_same [simp]: "with_table io (io_table io P) P = P"
  by (simp add: with_table_def io_table_def)

lemma io_table_with [simp]: "unat (io_pid io) < length P \<Longrightarrow> io_table io (with_table io t P) = t"
  by (simp add: with_table_def io_table_def)

lemma at_ioD:
  assumes "at_io hw io K P p"
  shows "io_okay hw io p" "pal_keys p = K" "pal_parts p = P" "engine_ok (hw_engine hw)" "steady io p" "vault_ok p"
    "unat (io_pid io) < NUM_PARTITIONS" "length P = NUM_PARTITIONS" "partition (io_pid io) = Ok (unat (io_pid io))"
    "io_slot io p = P ! unat (io_pid io)" "pal_view p = (K, P)"
  using assms by (auto simp: at_io_def io_okay_def steady_def partition_def Let_def io_slot_def pal_view_def)

lemma at_ioI: "io_okay hw io p \<Longrightarrow> pal_view p = (K, P) \<Longrightarrow> at_io hw io K P p"
  by (simp add: at_io_def pal_view_def)

lemma session_op_at:
  assumes at: "at_io hw io K P p" and m: "m (io_table io P) = (r, t)" and r: "r \<noteq> Panic"
  shows "achieves (session_op (io_pid io) m) p
    (\<lambda>x p'. r = Ok x \<and> at_io hw io K (with_table io t P) p') (\<lambda>e p'. r = Err e \<and> at_io hw io K (with_table io t P) p')"
proof -
  note d = at_ioD [OF at]
  obtain p' where "session_op (io_pid io) m p = (r, p')" "io_okay hw io p'" "pal_view p' = (K, with_table io t P)"
    using slot_op_okay [OF d(1), of "\<lambda>s. let (r, t) = m (session_table_of s) in (r, put_session_table t s)" r "put_session_table t (io_slot io p)"]
      m d(2,3,10) unfolding session_op_def with_table_def io_table_def by (auto simp: Let_def)
  then show ?thesis using r by (cases r) (simp_all add: achieves_def at_ioI)
qed

lemma session_reads_at:
  assumes at: "at_io hw io K P p"
  shows "session_reads io f p = (f (io_table io P), p)"
proof -
  note d = at_ioD [OF at]
  have "pal_parts p ! unat (io_pid io) = P ! unat (io_pid io)" using d(3) by simp
  then show ?thesis using d(3,8,9) by (simp add: session_reads_def session_op_def part_op_def bindS_def reads_def io_table_def)
qed

lemma put_at:
  assumes at: "at_io hw io K P p"
  shows "achieves (dma_put io bs) p (\<lambda>dn p'. buf_bytes (fst dn) = bs \<and> at_io hw io K P p') (\<lambda>_. at_io hw io K P)"
proof -
  note d = at_ioD [OF at]
  have i: "io_index io < length (pal_io_slots p)" using d(5) by (simp add: steady_def)
  have "at_io hw io K P (p\<lparr>pal_io_slots := S\<rparr>)" if "length S = length (pal_io_slots p)" for S
    using steady_frame [OF d(5), of "p\<lparr>pal_io_slots := S\<rparr>"] at that by (auto simp: at_io_def io_okay_def)
  then show ?thesis by (intro achieves_mono [OF dma_put_achieves [OF i]]) (use at in auto)
qed

lemma moves_at:
  assumes at: "at_io hw io K P p" and m: "vault_moves p K' p'" and bulk: "\<And>k v. K' k = Some v \<Longrightarrow> is_bulk_kind (vk_kind v) \<Longrightarrow> K k = Some v"
  shows "at_io hw io K' P p'"
proof -
  note d = at_ioD [OF at]
  have "steady io p'" by (rule steady_moves [OF d(5) m]) (use bulk d(2) in auto)
  then show ?thesis using moves_okay [OF d(1) m] d(3) by (intro at_ioI) simp_all
qed

lemma store_at:
  assumes at: "at_io hw io K P p" and kd: "\<not> is_bulk_kind kd"
  shows "achieves (store_session_key hw io blob kd) p
    (\<lambda>i p'. K i = None \<and> owns io p i \<and> at_io hw io (K(i \<mapsto> new_key (io_pid io) kd None ATTR_INTERNAL (buf_bytes blob))) P p')
    (\<lambda>_. at_io hw io K P)"
proof -
  note d = at_ioD [OF at]
  let ?new = "new_key (io_pid io) kd None ATTR_INTERNAL (buf_bytes blob)"
  have 1: "at_io hw io (K(i \<mapsto> ?new)) P p'" if m: "vault_moves p (K(i \<mapsto> ?new)) p'" for i p'
    by (rule moves_at [OF at m]) (use kd in \<open>auto simp: new_key_def split: if_splits\<close>)
  have 2: "at_io hw io K P p'" if m: "vault_moves p K p'" for p' by (rule moves_at [OF at m])
  show ?thesis
    unfolding store_session_key_def
    by (rule achieves_mono [OF create_achieves [OF d(4,6)]]) (use 1 2 d(2) in auto)
qed

lemma drop_at:
  assumes at: "at_io hw io K P p" and k: "K k \<noteq> None"
  shows "achieves (drop_session_key hw io k) p (\<lambda>_. at_io hw io (K(k := None)) P) (\<lambda>_ _. False)"
proof -
  note d = at_ioD [OF at]
  have 1: "at_io hw io (K(k := None)) P p'" if m: "vault_moves p (K(k := None)) p'" for p'
    by (rule moves_at [OF at m]) (auto split: if_splits)
  show ?thesis
    unfolding drop_session_key_def
    by (rule achieves_mono [OF delete_achieves [OF d(4,6)]]) (use 1 d(2) k in auto)
qed

text \<open>Reading a key that is live, owned and bound to no session.\<close>

lemma read_key_at:
  assumes at: "at_io hw io K P p" and k: "K k = Some v" "owns io p k" "\<not> vk_disabled v" "vk_session v = None"
  shows "pal_vault_key io k p = (Ok (vk_bytes v), p)"
proof -
  note d = at_ioD [OF at]
  have live: "live_key (vault_of io p) k = Some v"
    using k d(2) by (simp add: live_key_def owned_key_def owns_def vault_of_views(1))
  show ?thesis
    using lookup_results(3) [OF vault_of_wf [OF d(6)], of io k] location_bytes(2) [OF d(6), of io k] live k(4)
    by (simp add: pal_vault_key_def enforce_session_key_isolation_def bindS_def reads_def)
qed

section \<open>The session table\<close>

lemma table_views:
  "session_view t (unat sid) = SPending q \<Longrightarrow> session_state t sid = StPending"
  "session_state t sid = StPending \<Longrightarrow> \<exists>q. session_view t (unat sid) = SPending q"
  "session_view t (unat sid) = SActive q b \<Longrightarrow> physical_id t sid = Ok q"
  by (simp_all add: session_state_def active_slot_eq physical_id_def split: if_splits)
    (auto simp: session_view_def split: if_splits)

lemma promote_runs:
  assumes wf: "session_wf t" and v: "session_view t (unat sid) = SPending q"
  obtains t' where "session_promote sid k t = (Ok q, t')" "session_wf t'" "session_view t' = (session_view t)(unat sid := SActive k False)"
proof -
  obtain r t' where p: "session_promote sid k t = (r, t')" by fastforce
  have "r = Ok q" using v p by (auto simp: session_promote_def bindS_def reads_def active_slot_eq Let_def session_view_def split: if_splits)
  moreover from this have "void (session_promote sid k) t = (Ok (), t')" using p by (simp add: void_eq)
  from refinesD [OF uno_promote_refines wf this] have "session_wf t'" "session_view t' = (session_view t)(unat sid := SActive k False)"
    using v by (simp_all add: spec_promote_def)
  ultimately show ?thesis using that p by blast
qed

section \<open>Completing a handshake\<close>

definition promote_args_ok :: "u8 list \<Rightarrow> u8 list \<Rightarrow> u8 list \<Rightarrow> bool" where
  "promote_args_ok api_rev param_key masking_key \<longleftrightarrow>
     length api_rev = SESSION_API_REV_SIZE \<and> length param_key = SESSION_PARAM_KEY_LEN \<and> length masking_key = SESSION_MASKING_KEY_LEN"

definition session_blob :: "u8 list \<Rightarrow> u8 list \<Rightarrow> u8 list \<Rightarrow> (u8 list \<times> u8 list) option \<Rightarrow> u8 list" where
  "session_blob api_rev param_key masking_key macs =
     api_rev @ param_key @ masking_key @ (case macs of None \<Rightarrow> [] | Some (tx, rx) \<Rightarrow> tx @ rx)"

text \<open>
  What a completed handshake leaves: the session is active on a new key with the session blob, and the key of the
  handshake is gone.
\<close>

definition promoted ::
  "HsmIo \<Rightarrow> u16 \<Rightarrow> u8 list \<Rightarrow> (HsmKeyId \<Rightarrow> vkey option) \<Rightarrow> Storage list \<Rightarrow> (HsmKeyId \<Rightarrow> vkey option) \<Rightarrow> Storage list \<Rightarrow> bool" where
  "promoted io sid blob K P K' P' \<longleftrightarrow> (\<exists>q k t'. session_view (io_table io P) (unat sid) = SPending q \<and> K k = None \<and>
     in_mask (ps_res_mask (P ! unat (io_pid io))) k \<and>
     K' = K(k \<mapsto> new_key (io_pid io) SessionEx None ATTR_INTERNAL blob, q := None) \<and> P' = with_table io t' P \<and>
     session_wf t' \<and> session_view t' = (session_view (io_table io P))(unat sid := SActive k False))"

lemma owns_mask_at: "at_io hw io K P p \<Longrightarrow> owns io p k \<longleftrightarrow> in_mask (ps_res_mask (P ! unat (io_pid io))) k \<and> fst (split_key_id k) < TABLE_COUNT"
  using at_ioD(3,9) [of hw io K P p] by (auto simp: owns_def owned_def bit_valid_table vault_of_def res_mask_of_def in_mask_def)

lemma promote_at:
  fixes p :: "'e UnoHsmPal"
  assumes at: "at_io hw io K P p" and wf: "session_wf (io_table io P)"
    and live: "\<And>q. session_view (io_table io P) (unat sid) = SPending q \<Longrightarrow> K q \<noteq> None"
    and args: "promote_args_ok api_rev param_key masking_key" "mac_pair mac_tx mac_rx = Ok macs"
  shows "achieves (uno_session_promote hw io sid api_rev param_key masking_key mac_tx mac_rx) p
    (\<lambda>_ p'. \<exists>K' P'. at_io hw io K' P' p' \<and> promoted io sid (session_blob api_rev param_key masking_key macs) K P K' P')
    (\<lambda>_. at_io hw io K P)" (is "achieves _ _ ?Q ?E")
proof -
  let ?t = "io_table io P" and ?blob = "session_blob api_rev param_key masking_key macs"
  note d = at_ioD [OF at]
  have state: "pal_session_state io sid p = session_state ?t sid"
    using d(3,9) by (simp add: pal_session_state_def io_table_def)
  have finish: "achieves (bindS (session_op (io_pid io) (session_promote sid k)) (drop_session_key hw io)) p2 ?Q ?E"
    if at2: "at_io hw io (K(k \<mapsto> new_key (io_pid io) SessionEx None ATTR_INTERNAL ?blob)) P p2"
      and k: "K k = None" "in_mask (ps_res_mask (P ! unat (io_pid io))) k" and v: "session_view ?t (unat sid) = SPending q" for k q and p2 :: "'e UnoHsmPal"
  proof -
    obtain t' where t': "session_promote sid k ?t = (Ok q, t')" "session_wf t'" "session_view t' = (session_view ?t)(unat sid := SActive k False)"
      by (rule promote_runs [OF wf v])
    have q: "(K(k \<mapsto> new_key (io_pid io) SessionEx None ATTR_INTERNAL ?blob)) q \<noteq> None" using live [OF v] by simp
    show ?thesis
      apply (rule achieves_bind [OF achieves_errs [OF session_op_at [OF at2, of "session_promote sid k", OF t'(1)]]], simp, simp, elim conjE)
      apply (simp only: run.inject, hypsubst, rule achieves_mono [OF drop_at], assumption, rule q)
      using t' v k unfolding promoted_def by blast+
  qed
  show ?thesis
  proof (cases "session_state ?t sid = StPending")
    case False
    then show ?thesis using args at state
      by (simp add: uno_session_promote_def promote_args_ok_def achieves_def bindS_def reads_def d(9))
  next
    case True
    then obtain q where v: "session_view ?t (unat sid) = SPending q" using table_views(2) by blast
    have "achieves (bindS (dma_put io ?blob) (\<lambda>(blob, _). bindS (store_session_key hw io blob SessionEx) (\<lambda>phys.
        bindS (session_op (io_pid io) (session_promote sid phys)) (drop_session_key hw io)))) p ?Q ?E"
      apply (rule achieves_bind [OF put_at [OF at]], simp only: case_prod_beta)
      apply (elim conjE, rule achieves_bind [OF store_at], assumption, simp add: is_bulk_kind_def)
      by (elim conjE, rule finish) (use v in \<open>auto simp: owns_mask_at\<close>)
    then show ?thesis using args True state
      by (simp add: uno_session_promote_def promote_args_ok_def session_blob_def d(9) achieves_def bindS_def reads_def)
  qed
qed

section \<open>The masking key of a session\<close>

lemma masking_key_at:
  assumes at: "at_io hw io K P p" and v: "session_view (io_table io P) (unat sid) = SActive k b"
    and k: "K k = Some w" "owns io p k" "\<not> vk_disabled w" "vk_session w = None"
    and bytes: "vk_bytes w = session_blob api_rev param_key masking_key macs" "promote_args_ok api_rev param_key masking_key"
  shows "macs = None \<Longrightarrow> uno_session_masking_key io sid p = (Panic, p)"
    "macs = Some (tx, rx) \<Longrightarrow> length tx = SESSION_MAC_DIR_KEY_LEN \<Longrightarrow> length rx = SESSION_MAC_DIR_KEY_LEN \<Longrightarrow>
      uno_session_masking_key io sid p = (Ok (masking_key @ tx), p)"
proof -
  have run: "uno_session_masking_key io sid p = (let blob = vk_bytes w in
      bindS (if length blob = SESSION_BLOB_SIZE then returns SESSION_API_REV_SIZE
            else if length blob = SESSION_CU_BLOB_SIZE \<or> length blob = SESSION_CU_AUTH_BLOB_SIZE
            then returns (SESSION_API_REV_SIZE + SESSION_PARAM_KEY_LEN)
            else fails InternalError) (\<lambda>offset.
       if offset + SESSION_MASKING_KEY_SIZE > length blob then (\<lambda>p. (Panic, p))
       else returns (slice offset SESSION_MASKING_KEY_SIZE blob)) p)"
    using read_key_at [OF at k] table_views(3) [OF v]
    by (simp add: uno_session_masking_key_def bindS_def session_reads_at [OF at])
  show "macs = None \<Longrightarrow> uno_session_masking_key io sid p = (Panic, p)"
    using bytes by (simp add: run session_blob_def promote_args_ok_def session_sizes)
  show "macs = Some (tx, rx) \<Longrightarrow> length tx = SESSION_MAC_DIR_KEY_LEN \<Longrightarrow> length rx = SESSION_MAC_DIR_KEY_LEN \<Longrightarrow>
      uno_session_masking_key io sid p = (Ok (masking_key @ tx), p)"
    using bytes by (simp add: run session_blob_def promote_args_ok_def session_sizes slice_def returns_def)
qed

end
