(* ===== verification/PalProperties.thy ===== *)
theory PalProperties
  imports PlatformExamples UnoSessionLaws
begin

text \<open>
  The properties of the Uno PAL as a whole: histories of admin messages, the lifecycle of a partition, the
  rollback of the provisioning commands, with witnesses on the states of \<open>PlatformExamples\<close>.
\<close>

section \<open>Concrete states and messages\<close>

definition demo_vault :: VaultStorage where
  "demo_vault = one_key Ecc384Private (replicate 48 7)"

definition demo_core :: "Storage \<Rightarrow> unit HsmCore" where
  "demo_core S = \<lparr>boot_phase = Running, hsm_pal = demo_pal demo_vault S\<rparr>"

text \<open>\<open>SetResource\<close> with an empty mask, and \<open>PfnEnableDisable\<close> with an action, for a physical function number.\<close>

definition release_msg :: "u32 \<Rightarrow> u32 list" where
  "release_msg pfn = [0x7F, 0, 0, 0, 0, pfn, 0, 0, 0, 0, 0, 0, 0, 0, 0, 0]"


lemma demo_vault:
  "vault_wf demo_vault" "vault_clean demo_vault" "vault_abs demo_vault = [0 \<mapsto> new_key 3 Ecc384Private None 1 (replicate 48 7)]"
proof -
  have "key_len Ecc384Private = Ok (Fixed 48)" "check (Fixed 48) (length (replicate 48 (7 :: u8))) = Ok 48"
    "run_len (length (replicate 48 (7 :: u8))) \<le> BLOB_BLOCKS" "0 < run_len (length (replicate 48 (7 :: u8)))"
    by (code_simp, simp_all add: run_len_def blocks_for_def storage_bytes_def geometry_defs)
  then show "vault_wf demo_vault" "vault_clean demo_vault"
    "vault_abs demo_vault = [0 \<mapsto> new_key 3 Ecc384Private None 1 (replicate 48 7)]"
    unfolding demo_vault_def by (rule one_key)+
qed

lemma demo_inv: "slot_ok S \<Longrightarrow> ps_res_mask S = 1 \<Longrightarrow> pal_inv (demo_pal demo_vault S)"
  by (rule demo_pal_inv [OF demo_vault]) (simp_all add: new_key_def is_bulk_kind_def)

lemma demo_vault_key: "pal_keys (demo_pal demo_vault S) k = (if k = 0 then Some (new_key 3 Ecc384Private None 1 (replicate 48 7)) else None)"
  by (simp add: demo_keys demo_vault)

lemma release_decodes:
  "decode_set_resource (release_msg 3) = Some \<lparr>sr_mask = replicate 16 0, sr_pfn = 3, sr_guid = replicate 16 0\<rparr>"
  by code_simp

lemma release_target: "msg_target (release_msg 3) = Some 3" "claims_ok (release_msg 3) p"
proof -
  have "mask_u128 \<lparr>sr_mask = replicate 16 0, sr_pfn = 3, sr_guid = replicate 16 0\<rparr> = 0" by code_simp
  then show "msg_target (release_msg 3) = Some 3" "claims_ok (release_msg 3) p"
    by (simp_all add: msg_target_def claims_ok_def release_decodes)
qed

section \<open>Histories of admin messages\<close>

text \<open>Every stored key belongs to one partition.\<close>

lemma unique_owner:
  assumes "pal_inv p" "pal_keys p k \<noteq> None"
  shows "\<exists>!i. i < NUM_PARTITIONS \<and> in_mask (ps_res_mask (pal_parts p ! i)) k"
proof -
  obtain i where i: "i < NUM_PARTITIONS" "in_mask (ps_res_mask (pal_parts p ! i)) k" using assms by (auto simp: pal_inv_def)
  have "fp_inv p" using assms(1) by (simp add: pal_inv_def)
  then have "j < NUM_PARTITIONS \<Longrightarrow> in_mask (ps_res_mask (pal_parts p ! j)) k \<Longrightarrow> j = i" for j
    using i unfolding fp_inv_def in_mask_def by blast
  with i show ?thesis by blast
qed

text \<open>
  C4 (admin_history_invariant): after any history of admin messages in which the admin core assigns no table
  to two partitions, whatever the messages contain and whatever the operations return, the invariant of the
  platform holds and every stored key lies in the tables of exactly one partition.
\<close>

theorem admin_history_invariant:
  assumes "hw_ok hw" "pal_inv (hsm_pal c)" "(ipc_step hw)\<^sup>*\<^sup>* c c'"
  shows "pal_inv (hsm_pal c') \<and>
    (\<forall>k. pal_keys (hsm_pal c') k \<noteq> None \<longrightarrow>
      (\<exists>!i. i < NUM_PARTITIONS \<and> in_mask (ps_res_mask (pal_parts (hsm_pal c') ! i)) k))"
  using ipc_history_inv [OF assms(3,1,2)] unique_owner by blast

theorem admin_history_invariant_witness:
  "\<exists>c'. (ipc_step demo_hw)\<^sup>*\<^sup>* (demo_core (demo_slot Enabled)) c' \<and> c' = snd (handle_ipc_message demo_hw (release_msg 3) (demo_core (demo_slot Enabled))) \<and>
     pal_keys (hsm_pal (demo_core (demo_slot Enabled))) 0 \<noteq> None \<and> pal_inv (hsm_pal c')"
proof -
  let ?c = "demo_core (demo_slot Enabled)"
  have "ipc_step demo_hw ?c (snd (handle_ipc_message demo_hw (release_msg 3) ?c))"
    by (rule ipc_step.message [OF release_target(2) prod.collapse [symmetric]])
  then have s: "(ipc_step demo_hw)\<^sup>*\<^sup>* ?c (snd (handle_ipc_message demo_hw (release_msg 3) ?c))" by blast
  have "pal_inv (hsm_pal ?c)" by (simp add: demo_core_def demo_inv demo_slot_ok demo_slot)
  from admin_history_invariant [OF demo_hw_ok(1) this s] show ?thesis using s by (simp add: demo_core_def demo_vault_key)
qed



section \<open>The lifecycle of a partition\<close>

lemma achieves_runs:
  assumes "achieves m s Q (\<lambda>_ _. False)"
  shows "\<exists>x s'. m s = (Ok x, s') \<and> Q x s'"
  using assms by (auto simp: achieves_def split: prod.splits run.splits)

lemma achieves_safe: "achieves m s Q E \<Longrightarrow> fst (m s) \<noteq> Panic"
  by (auto simp: achieves_def split: prod.splits)

lemma run_cases:
  assumes "fst r \<noteq> Panic" "\<And>p'. r = (Ok (), p') \<Longrightarrow> A p'" "\<And>e p'. r = (Err e, p') \<Longrightarrow> B p'"
  shows "case r of (Ok _, p') \<Rightarrow> A p' | (Err _, p') \<Rightarrow> B p' | (Panic, _) \<Rightarrow> False"
  using assms by (cases r; cases "fst r") auto

lemma held_slot_at: "held c pid P S K p \<Longrightarrow> pal_parts p ! unat pid = S \<and> pal_keys p = K"
  by (simp add: held_def)




text \<open>The identity key that an allocation leaves.\<close>

lemma write_handle_in: "in_mask m k \<Longrightarrow> read_handle (write_handle (Some k)) = Some k"
  using key_absent_handle by (simp add: read_write_handle)

lemma identity_live:
  assumes "identity_made pid S K S' K'"
  shows "\<exists>i v. ps_id_key_id S' = Some i \<and> in_mask (ps_res_mask S) i \<and> K i = None \<and> K' i = Some v \<and> vk_kind v = Ecc384Private"
  using assms write_handle_in
  by (auto simp: identity_made_def pair_made_def new_key_def store_ops)

lemma enabled_keeps_identity:
  assumes "enabled_made pid S K S' K'"
  shows "ps_id_key_id S' = ps_id_key_id S" "K i = Some v \<Longrightarrow> K' i = Some v"
  using assms by (auto simp: enabled_made_def pair_made_def set_pub_def store_ops split: if_splits)

lemma allocated_identity:
  assumes "allocated pid m is_pf S K S' K'"
  shows "\<exists>i v. ps_id_key_id S' = Some i \<and> in_mask m i \<and> K' i = Some v \<and> vk_kind v = Ecc384Private"
proof (cases "pre_enabled is_pf S")
  case True
  then obtain S1 K1 S2 where s: "alloc_made pid m S K S1 K1" "enabled_made pid S1 K1 S2 K'" "S' = ps_set_state Enabled S2"
    using assms by (auto simp: allocated_def)
  then obtain S0 where "identity_made pid (armed m S) K S0 K1" "ps_id_key_id S1 = ps_id_key_id S0"
    by (auto simp: alloc_made_def ps_id_key_id_def)
  then show ?thesis using identity_live [of pid "armed m S"] enabled_keeps_identity [OF s(2)] s(3) by (fastforce simp: ps_id_key_id_def ps_set_state_def)
next
  case False
  then obtain S1 where s: "alloc_made pid m (released S) (drop_tables (ps_res_mask S) K) S1 K'" "S' = ps_set_state Allocated S1"
    using assms by (auto simp: allocated_def)
  then obtain S0 where "identity_made pid (armed m (released S)) (drop_tables (ps_res_mask S) K) S0 K'" "ps_id_key_id S' = ps_id_key_id S0"
    by (auto simp: alloc_made_def ps_id_key_id_def ps_set_state_def)
  then show ?thesis using identity_live [of pid "armed m (released S)"] by fastforce
qed

text \<open>
  C8 (part_alloc_atomic): assigning tables that no other partition has either succeeds, and then the partition
  owns exactly those tables and an identity key in them, or fails, and then it is unallocated, owns no table and
  no key of its former tables survives. A replay of the present assignment changes nothing. It never panics,
  and the other partitions keep their slots and keys.
\<close>

theorem part_alloc_atomic:
  assumes hw: "hw_ok hw" and inv: "pal_inv p" and pid: "unat pid < NUM_PARTITIONS" and un: "unclaimed (pal_parts p) pid m"
  shows "case part_alloc hw pid m is_pf p of
      (Ok _, p') \<Rightarrow> pal_inv p' \<and> isolated pid p p' \<and> ps_res_mask (pal_parts p' ! unat pid) = m \<and>
        (if m = ps_res_mask (pal_parts p ! unat pid) \<and> ps_id_key_id (pal_parts p ! unat pid) \<noteq> None
         then pal_parts p' = pal_parts p \<and> pal_keys p' = pal_keys p
         else ps_state (pal_parts p' ! unat pid) = Ok (if pre_enabled is_pf (pal_parts p ! unat pid) then Enabled else Allocated) \<and>
           (\<exists>i v. ps_id_key_id (pal_parts p' ! unat pid) = Some i \<and> in_mask m i \<and> pal_keys p' i = Some v \<and> vk_kind v = Ecc384Private))
    | (Err _, p') \<Rightarrow> pal_inv p' \<and> isolated pid p p' \<and> ps_res_mask (pal_parts p' ! unat pid) = 0 \<and>
        ps_state (pal_parts p' ! unat pid) = Ok Unallocated \<and>
        (\<forall>k. in_mask (ps_res_mask (pal_parts p ! unat pid)) k \<longrightarrow> pal_keys p' k = None)
    | (Panic, _) \<Rightarrow> False" (is "case _ of (Ok _, p') \<Rightarrow> ?ok p' | (Err _, p') \<Rightarrow> ?err p' | (Panic, _) \<Rightarrow> False")
proof -
  note start = pal_inv_held [OF inv pid]
  let ?S = "pal_parts p ! unat pid"
  note al = allocated_ok [OF start(2,3) foreign_disjoint [OF start(1)] un]
  note run = part_alloc_achieves [OF hw start(2,3,1) un, of is_pf] and safe = alloc_keeps_inv [OF hw inv pid un, of is_pf]
  have same: "pal_parts p' = pal_parts p" if "held clean_slot pid (pal_parts p) ?S K p'" for K p' using that by (simp add: held_def)
  have "?ok p'" if r: "part_alloc hw pid m is_pf p = (Ok (), p')" for p'
  proof -
    obtain S' K' where h: "held clean_slot pid (pal_parts p) S' K' p'"
      and c: "if m = ps_res_mask ?S \<and> ps_id_key_id ?S \<noteq> None then S' = ?S \<and> K' = pal_keys p else allocated pid m is_pf ?S (pal_keys p) S' K'"
      using achieves_Ok [OF run r] by blast
    note at = held_slot_at [OF h]
    show ?thesis
      using achieves_Ok [OF safe r] c al [of is_pf S' K'] allocated_identity [of pid m is_pf ?S "pal_keys p" S' K'] at same [of K' p'] h
      by (auto simp: admin_step_ok_def split: if_splits)
  qed
  moreover have "?err p'" if r: "part_alloc hw pid m is_pf p = (Err e, p')" for e p'
    using run safe r by (auto simp: achieves_def admin_step_ok_def drop_tables_def dest!: held_slot_at)
  ultimately show ?thesis
    by (rule run_cases [OF achieves_safe [OF run]])
qed

theorem part_alloc_atomic_witness:
  "case part_alloc demo_hw 3 1 False (demo_pal demo_vault (demo_slot Disabled)) of
     (Ok _, p') \<Rightarrow> ps_res_mask (pal_parts p' ! 3) = 1 \<and> ps_state (pal_parts p' ! 3) = Ok Allocated
   | (Err _, p') \<Rightarrow> pal_keys p' 0 = None | (Panic, _) \<Rightarrow> False"
proof -
  let ?p = "demo_pal demo_vault (demo_slot Disabled)"
  have "unclaimed (pal_parts ?p) 3 1"
    by (simp add: unclaimed_def demo_parts reset_slot)
  moreover have "ps_id_key_id (demo_slot Disabled) = None" using demo_slot(4) [of Disabled] by (simp add: field_handles_def numeral_eq_Suc)
  ultimately show ?thesis
    using part_alloc_atomic [OF demo_hw_ok(1) demo_inv [OF demo_slot_ok demo_slot(2)], of Disabled 3 1 False] first_table
    by (auto simp: demo_parts demo_slot NUM_PARTITIONS_def pre_enabled_def split: prod.splits run.splits)
qed

text \<open>Disabling a partition that has no session.\<close>

definition no_sessions :: "Storage \<Rightarrow> bool" where
  "no_sessions S \<longleftrightarrow> (\<forall>k. Some k \<notin> set (occupied_physical_ids (session_table_of S)))"

lemma delete_none: "(\<forall>k. Some k \<notin> set ks) \<Longrightarrow> delete_occupied hw io i ks = returns ()"
proof (induction ks arbitrary: i)
  case (Cons a ks)
  then show ?case by (cases a) auto
qed simp

lemma disable_idle:
  fixes p :: "'e UnoHsmPal"
  assumes hw: "engine_ok (hw_engine hw)" and st: "ps_state S = Ok Enabled" and h: "held clean_slot pid P S K p" and none: "no_sessions S"
  shows "achieves (part_disable hw pid) p
    (\<lambda>_. held clean_slot pid P (ps_set_state Disabled (cleared S)) (drop_keys (enabled_handles S) K)) E"
  unfolding part_disable_def
proof (rule achieves_bind [OF part_op_Ok [OF h, where x = Enabled and S' = S]])
  fix state and q :: "'e UnoHsmPal" assume "state = Enabled \<and> held clean_slot pid P S K q"
  then have state: "state = Enabled" and hq: "held clean_slot pid P S K q" by simp_all
  let ?occ = "occupied_physical_ids (session_table_of S)"
  have drop: "drop_keys (enabled_handles S @ ?occ) K = drop_keys (enabled_handles S) K"
    using none by (auto simp: drop_keys_def no_sessions_def fun_eq_iff)
  have admin: "achieves (with_admin_io hw pid (\<lambda>admin_io.
           bindS (part_get pid (\<lambda>s. occupied_physical_ids (session_table_of s))) (\<lambda>occ.
           bindS (delete_occupied hw admin_io 0 occ) (\<lambda>_. clear_enabled_state hw admin_io pid)))) q
      (\<lambda>_ p'. \<exists>S' K'. held clean_slot pid P S' K' p' \<and> S' = cleared S \<and> K' = drop_keys (enabled_handles S) K)
      (\<lambda>_ p'. \<exists>S' K'. held clean_slot pid P S' K' p' \<and> False)"
  proof (rule with_admin_io_achieves [OF hw hq], goal_cases)
    case (1 p1)
    show ?case
      apply (rule achieves_bind [OF part_get_achieves [OF 1]], elim conjE, simp only:)
      apply (simp only: delete_none [OF none [unfolded no_sessions_def]] returns_bind)
      by (rule achieves_mono [OF clear_enabled_state_achieves [OF hw]], assumption) (auto simp: drop)
  qed
  show "achieves (if state = Enabled then
         bindS (with_admin_io hw pid (\<lambda>admin_io.
           bindS (part_get pid (\<lambda>s. occupied_physical_ids (session_table_of s))) (\<lambda>occ.
           bindS (delete_occupied hw admin_io 0 occ) (\<lambda>_. clear_enabled_state hw admin_io pid)))) (\<lambda>_.
           part_upd pid (ps_set_state Disabled))
       else fails InvalidArg) q (\<lambda>_. held clean_slot pid P (ps_set_state Disabled (cleared S)) (drop_keys (enabled_handles S) K)) E"
    unfolding state
    by (rule achieves_if, rule achieves_bind [OF achieves_errs [OF admin]], blast, elim exE conjE,
        rule achieves_mono [OF part_upd_achieves], assumption) auto
qed (use st in simp_all)

lemma cleared_psks:
  "ps_psk_co (cleared S) = replicate PSK_LEN 0" "ps_psk_cu (cleared S) = replicate PSK_LEN 0" "ps_sd_mk_key_id (cleared S) = None"
  by (simp_all add: cleared_def ps_clear_state_def Let_def store_ops read_write_handle)

lemma enabled_keeps_psks:
  assumes "enabled pid is_pf S K S' K'"
  shows "ps_psk_co S' = ps_psk_co S" "ps_psk_cu S' = ps_psk_cu S"
  using assms by (auto simp: enabled_def enabled_made_def pair_made_def set_pub_def store_ops)

lemma zero_psks_not_default:
  assumes "ps_psk_co S = replicate PSK_LEN 0" "ps_psk_cu S = replicate PSK_LEN 0"
  shows "part_psk_is_default 0 S = Ok False" "part_psk_is_default 1 S = Ok False"
proof -
  have "byte_diff (replicate PSK_LEN 0) DEFAULT_PSK_CO \<noteq> 0" "byte_diff (replicate PSK_LEN 0) DEFAULT_PSK_CU \<noteq> 0"
    "length DEFAULT_PSK_CO = PSK_LEN" "length DEFAULT_PSK_CU = PSK_LEN"
    by code_simp+
  then show "part_psk_is_default 0 S = Ok False" "part_psk_is_default 1 S = Ok False"
    using assms by (simp_all add: part_psk_is_default_def part_psk_def part_psk_prop_id_def prop_get_bytes_def prop_ids)
qed

text \<open>
  C32 (disable_loses_default_psks): disabling an enabled partition without sessions succeeds and leaves both of its
  pre-shared keys all zero. A successful enable keeps them zero, and the test for the default key then answers no:
  the partition is enabled with neither the default keys nor keys that an operator chose.
\<close>

theorem disable_loses_default_psks:
  assumes hw: "hw_ok hw" and inv: "pal_inv p" and pid: "unat pid < NUM_PARTITIONS"
    and st: "ps_state (pal_parts p ! unat pid) = Ok Enabled" and none: "no_sessions (pal_parts p ! unat pid)"
  shows "\<exists>p'. part_disable hw pid p = (Ok (), p') \<and> pal_inv p' \<and> ps_state (pal_parts p' ! unat pid) = Ok Disabled \<and>
    part_psk 0 (pal_parts p' ! unat pid) = Ok (replicate PSK_LEN 0) \<and> part_psk 1 (pal_parts p' ! unat pid) = Ok (replicate PSK_LEN 0) \<and>
    (\<forall>is_pf p''. part_enable hw pid is_pf p' = (Ok (), p'') \<longrightarrow>
      (let S = pal_parts p'' ! unat pid in ps_state S = Ok Enabled \<and>
        part_psk 0 S = Ok (replicate PSK_LEN 0) \<and> part_psk 1 S = Ok (replicate PSK_LEN 0) \<and>
        part_psk_is_default 0 S = Ok False \<and> part_psk_is_default 1 S = Ok False))"
proof -
  note start = pal_inv_held [OF inv pid]
  let ?S = "ps_set_state Disabled (cleared (pal_parts p ! unat pid))"
  let ?K = "drop_keys (enabled_handles (pal_parts p ! unat pid)) (pal_keys p)"
  have eng: "engine_ok (hw_engine hw)" using hw by (simp add: hw_ok_def)
  obtain p' where p': "part_disable hw pid p = (Ok (), p')" "held clean_slot pid (pal_parts p) ?S ?K p'"
    using achieves_runs [OF disable_idle [OF eng st start(1) none]] by auto
  have inv': "pal_inv p'" using disable_keeps_inv [OF hw inv pid] p'(1) by (simp add: achieves_def admin_step_ok_def)
  note at = held_slot_at [OF p'(2)]
  note after = pal_inv_held [OF inv' pid]
  have z: "ps_psk_co ?S = replicate PSK_LEN 0" "ps_psk_cu ?S = replicate PSK_LEN 0"
    using cleared_psks by (simp_all add: ps_psk_co_def ps_psk_cu_def ps_set_state_def)
  have "ps_state S' = Ok Enabled \<and> ps_psk_co S' = replicate PSK_LEN 0 \<and> ps_psk_cu S' = replicate PSK_LEN 0"
    if r: "part_enable hw pid is_pf p' = (Ok (), p'')" and S': "S' = pal_parts p'' ! unat pid" for is_pf p'' S'
  proof -
    have "ps_state ?S = Ok Disabled" by simp
    then obtain K where e: "enabled pid is_pf ?S ?K S' K"
      using achieves_Ok [OF part_enable_achieves [OF hw _ p'(2)] r] held_slot_at S' by blast
    show ?thesis using enabled_keeps_psks [OF e] z enabled_ok(4) [OF after(2,3) foreign_disjoint [OF after(1)], of is_pf S' K] e at by simp
  qed
  then show ?thesis
    using p'(1) inv' at z zero_psks_not_default
    by (simp add: Let_def part_psk_def part_psk_prop_id_def prop_get_bytes_def prop_ids)
qed

lemma demo_no_sessions: "no_sessions (demo_slot st)"
  using zero_occupied by (simp add: no_sessions_def demo_slot)

theorem disable_loses_default_psks_witness:
  "\<exists>p'. part_disable demo_hw 3 (demo_pal demo_vault (demo_slot Enabled)) = (Ok (), p') \<and>
     part_psk 0 (pal_parts p' ! 3) = Ok (replicate PSK_LEN 0)"
  using disable_loses_default_psks [OF demo_hw_ok(1) demo_inv [OF demo_slot_ok demo_slot(2)], of Enabled 3]
  by (auto simp: demo_parts demo_slot demo_no_sessions NUM_PARTITIONS_def)






section \<open>Messages with a bad function number\<close>



section \<open>Sessions\<close>

definition demo_io :: HsmIo where
  "demo_io = \<lparr>io_index = 0, io_pid = 3, io_session = None\<rparr>"

lemma demo_io_okay: "pal_inv (demo_pal V S) \<Longrightarrow> io_okay demo_hw demo_io (demo_pal V S)"
  using demo_hw_ok(2)
  by (auto simp: io_okay_def pal_inv_def steady_def demo_io_def NUM_PARTITIONS_def demo_pal_def ADMIN_IO_INDEX_def)

text \<open>
  C12 (session_promote_correct): completing a handshake either makes the session active on a new key that holds the
  session blob, with a fresh right to change its pre-shared key, and removes exactly the key of the handshake, or
  fails and changes no key and no partition. It never panics.
\<close>

theorem session_promote_correct:
  assumes ok: "io_okay hw io p" and wf: "session_wf (session_table_of (io_slot io p))"
    and live: "\<And>q. session_view (session_table_of (io_slot io p)) (unat sid) = SPending q \<Longrightarrow> pal_keys p q \<noteq> None"
    and args: "promote_args_ok api_rev param_key masking_key" "mac_pair mac_tx mac_rx = Ok macs"
  shows "case uno_session_promote hw io sid api_rev param_key masking_key mac_tx mac_rx p of
      (Ok _, p') \<Rightarrow> io_okay hw io p' \<and>
        promoted io sid (session_blob api_rev param_key masking_key macs) (pal_keys p) (pal_parts p) (pal_keys p') (pal_parts p')
    | (Err _, p') \<Rightarrow> pal_keys p' = pal_keys p \<and> pal_parts p' = pal_parts p
    | (Panic, _) \<Rightarrow> False"
proof -
  have at: "at_io hw io (pal_keys p) (pal_parts p) p" using ok by (simp add: at_io_def)
  have t: "io_table io (pal_parts p) = session_table_of (io_slot io p)" by (simp add: io_table_def io_slot_def)
  note run = promote_at [OF at, where sid = sid, unfolded t, OF wf live args]
  show ?thesis
    by (rule run_cases [OF achieves_safe [OF run]]) (use run in \<open>auto simp: achieves_def at_io_def\<close>)
qed

text \<open>A table with one reserved slot, and one with one active session, on the first key.\<close>

definition pending_table :: SessionTable where
  "pending_table = snd (reserve_slot CryptoOfficer 0 session_zero)"

lemma pending_table: "session_wf pending_table" "session_view pending_table = (\<lambda>_. SFree)(0 := SPending 0)"
proof -
  have rg: "role_slot_range CryptoOfficer = (0, 0)" by (simp add: role_slot_range_def)
  have "\<not> bit (alloc_mask session_zero) 0" using session_zero_wf(2) view_free [of session_zero 0] by simp
  then obtain s1 where s1: "reserve_slot CryptoOfficer 0 session_zero = (Ok 0, s1)"
    using rg by (simp add: reserve_slot_def session_create_pending_def bindS_def)
  from unos.reserve_refines [OF session_zero_wf(1) _ this] s1
  show "session_wf pending_table" "session_view pending_table = (\<lambda>_. SFree)(0 := SPending 0)"
    by (auto simp: pending_table_def session_zero_wf reserve_ok_def rg)
qed

definition active_table :: SessionTable where
  "active_table = snd (session_create 0 session_zero)"

lemma active_table: "session_wf active_table" "session_view active_table = (\<lambda>_. SFree)(0 := SActive 0 False)"
proof -
  obtain r s where c: "session_create 0 session_zero = (r, s)" by fastforce
  have "spec_create 0 (session_view session_zero) = (Ok 0, (\<lambda>_. SFree)(0 := SActive 0 False))"
    by (simp add: spec_create_def session_zero_wf(2) MAX_SESSIONS_def upt_rec)
  with refinesD [OF uno_create_refines session_zero_wf(1) c] c
  show "session_wf active_table" "session_view active_table = (\<lambda>_. SFree)(0 := SActive 0 False)"
    by (simp_all add: active_table_def)
qed

definition session_slot_of :: "SessionTable \<Rightarrow> Storage" where
  "session_slot_of t = put_session_table t (demo_slot Enabled)"

lemma session_slot_of:
  "ps_state (session_slot_of t) = Ok Enabled" "ps_res_mask (session_slot_of t) = 1" "session_table_of (session_slot_of t) = t"
  "field_handles (session_slot_of t) = replicate 10 None"
  using demo_slot [of Enabled] by (simp_all add: session_slot_of_def)

lemma session_slot_ok:
  assumes "session_wf t" "\<And>k. Some k \<in> set (occupied_physical_ids t) \<Longrightarrow> k = 0"
  shows "slot_ok (session_slot_of t)"
  using assms first_table by (auto simp: slot_ok_def session_slot_of all_handles_split)

lemma demo_occupied:
  "Some k \<in> set (occupied_physical_ids pending_table) \<Longrightarrow> k = 0" "Some k \<in> set (occupied_physical_ids active_table) \<Longrightarrow> k = 0"
  using occupied_view [OF pending_table(1), of k] occupied_view [OF active_table(1), of k]
  by (auto simp: pending_table active_table split: if_splits)

theorem session_promote_correct_witness:
  "case uno_session_promote demo_hw demo_io 0 (replicate 8 1) (replicate 32 2) (replicate 32 3) None None
      (demo_pal demo_vault (session_slot_of pending_table)) of
     (Ok _, p') \<Rightarrow> pal_keys p' 0 = None | (Err _, p') \<Rightarrow> pal_keys p' 0 \<noteq> None | (Panic, _) \<Rightarrow> False"
proof -
  let ?p = "demo_pal demo_vault (session_slot_of pending_table)"
  have slot: "io_slot demo_io ?p = session_slot_of pending_table" by (simp add: io_slot_def demo_io_def demo_parts)
  have "io_okay demo_hw demo_io ?p"
    by (intro demo_io_okay demo_inv session_slot_ok pending_table session_slot_of) (rule demo_occupied)
  moreover have "promote_args_ok (replicate 8 1) (replicate 32 2) (replicate 32 3)" by (simp add: promote_args_ok_def session_sizes)
  moreover have "mac_pair None None = Ok None" by (simp add: mac_pair_def)
  ultimately have "case uno_session_promote demo_hw demo_io 0 (replicate 8 1) (replicate 32 2) (replicate 32 3) None None ?p of
      (Ok _, p') \<Rightarrow> io_okay demo_hw demo_io p' \<and>
        promoted demo_io 0 (session_blob (replicate 8 1) (replicate 32 2) (replicate 32 3) None) (pal_keys ?p) (pal_parts ?p) (pal_keys p') (pal_parts p')
    | (Err _, p') \<Rightarrow> pal_keys p' = pal_keys ?p \<and> pal_parts p' = pal_parts ?p
    | (Panic, _) \<Rightarrow> False"
    by (intro session_promote_correct) (auto simp: slot session_slot_of pending_table demo_vault_key split: if_splits)
  moreover have "session_view (io_table demo_io (pal_parts ?p)) 0 = SPending 0"
    using slot by (simp add: io_table_def io_slot_def session_slot_of pending_table)
  ultimately show ?thesis by (auto simp: promoted_def demo_vault_key split: prod.splits run.splits)
qed





end
