(* ===== verification/CommandProperties.thy ===== *)
theory CommandProperties
  imports PalProperties
begin

text \<open>
  The properties of the provisioning commands and of what they stand on: the rollback of \<open>PartInit\<close> and
  \<open>PartFinal\<close>, the laws of the partition properties, the vault calls of the PAL, the scratch memory of an
  IO, the random generator.
\<close>

section \<open>The provisioning commands\<close>

text \<open>
  C6 (part_init_rolls_back): on an enabled partition that is not provisioned yet, the state changes of \<open>PartInit\<close> end
  without a panic. If they succeed, two new keys are stored and the partition is initializing; if the command fails at
  any point, or its completion cannot be posted, the undo walk succeeds and gives back exactly the keys and the slots
  of before.
\<close>

theorem part_init_rolls_back:
  assumes "io_okay hw io p" "holds l []" "log_room 10 l" "unprovisioned (io_slot io p)"
  shows "case part_init_commit hw io root pta_priv inputs (p, l) of
      (Ok _, c) \<Rightarrow> init_done io root pta_priv p (fst c) \<and>
        (\<exists>p'. walk_undo hw io True False (snd c) (fst c) = (Ok (), p') \<and> pal_keys p' = pal_keys p \<and> pal_parts p' = pal_parts p)
    | (Err _, c) \<Rightarrow> (\<forall>cqe_ok. \<exists>p'. walk_undo hw io False cqe_ok (snd c) (fst c) = (Ok (), p') \<and>
        pal_keys p' = pal_keys p \<and> pal_parts p' = pal_parts p)
    | (Panic, _) \<Rightarrow> False"
proof -
  note run = part_init_at [OF assms, of root pta_priv inputs]
  have undone: "\<exists>p'. walk_undo hw io h q (snd c) (fst c) = (Ok (), p') \<and> pal_keys p' = pal_keys p \<and> pal_parts p' = pal_parts p"
    if "walks_back hw io (pal_view p) c" "\<not> (h \<and> q)" for c h q
    using walk_undo_back [OF that] by (auto simp: pal_view_def)
  show ?thesis
    by (rule run_cases [OF achieves_safe [OF run]]) (use run undone in \<open>auto simp: achieves_def\<close>)
qed

text \<open>
  C7 (part_final_settles): on a partition that is initializing, the state changes of \<open>PartFinal\<close> end without a panic. If
  they succeed and the completion is posted, the commit walk removes exactly the superseded partition secret: three new
  keys are stored, the slot names the new secret and the partition is initialized. In every other case the undo walk
  gives back exactly the keys and the slots of before, the superseded secret enabled again.
\<close>

theorem part_final_settles:
  assumes "io_okay hw io p" "holds l []" "log_room 8 l" "finalizable ums (pal_keys p) (io_slot io p)"
  shows "case part_final_commit hw io ums ups mk eph (p, l) of
      (Ok _, c) \<Rightarrow>
        (\<exists>p'. walk_undo hw io True True (snd c) (fst c) = (Ok (), p') \<and> io_okay hw io p' \<and> final_done io ums ups mk eph p p') \<and>
        (\<exists>p'. walk_undo hw io True False (snd c) (fst c) = (Ok (), p') \<and> pal_keys p' = pal_keys p \<and> pal_parts p' = pal_parts p)
    | (Err _, c) \<Rightarrow> (\<forall>cqe_ok. \<exists>p'. walk_undo hw io False cqe_ok (snd c) (fst c) = (Ok (), p') \<and>
        pal_keys p' = pal_keys p \<and> pal_parts p' = pal_parts p)
    | (Panic, _) \<Rightarrow> False"
proof -
  note run = part_final_at [OF assms, of ups mk eph]
  have undone: "\<exists>p'. walk_undo hw io h q (snd c) (fst c) = (Ok (), p') \<and> pal_keys p' = pal_keys p \<and> pal_parts p' = pal_parts p"
    if "walks_back hw io (pal_view p) c" "\<not> (h \<and> q)" for c h q
    using walk_undo_back [OF that] by (auto simp: pal_view_def)
  show ?thesis
    by (rule run_cases [OF achieves_safe [OF run]]) (use run undone in \<open>auto simp: achieves_def\<close>)
qed

text \<open>A log in the session's undo buffer, and slots at the two stages.\<close>

definition demo_log :: UndoLog where
  "demo_log = log_new (replicate 1024 0)"

lemma demo_log: "holds demo_log []" "n \<le> 100 \<Longrightarrow> log_room n demo_log"
  by (simp_all add: demo_log_def log_new_def holds_def log_room_def ENTRY_SIZE_def)

lemma canon_kept: "store_canon S \<Longrightarrow> store_canon (ps_set_state st S)" "store_canon S \<Longrightarrow> store_canon (ps_set_res_mask m S)"
  "store_canon S \<Longrightarrow> store_canon (ps_set_ups_key_id h S)"
  by (simp_all add: canon_defs ps_set_state_def ps_set_res_mask_def ps_set_ups_key_id_def state_canonI RES_MASK_LEN_def)

lemma demo_canon: "store_canon (demo_slot st)"
  unfolding demo_slot_def by (intro canon_kept reset_canon)

lemma demo_handles:
  "ps_id_key_id (demo_slot st) = None" "ps_sd_mk_key_id (demo_slot st) = None" "ps_ups_key_id (demo_slot st) = None"
  "ps_pta_key_id (demo_slot st) = None" "ps_local_mk_key_id (demo_slot st) = None" "ps_ephemeral_mk_key_id (demo_slot st) = None"
  using demo_slot(4) [of st] by (simp_all add: field_handles_def enabled_handles_def numeral_eq_Suc)

lemma demo_flags: "st_valid_flags (demo_slot st) = 0"
  by (simp add: demo_slot_def ps_set_state_def ps_set_res_mask_def reset_fields)

lemma demo_unprovisioned: "unprovisioned (demo_slot Enabled)"
  using demo_canon demo_slot(1) [of Enabled] demo_handles [of Enabled]
  by (auto simp: unprovisioned_def prop_view_def prop_meta_def prop_ids prop_get_u16_def prop_key_def prop_get_bytes_def present_bytes_def
      slot_getters demo_flags)

lemma run_case_mono:
  assumes "case r of (Ok _, c) \<Rightarrow> A c | (Err _, c) \<Rightarrow> B c | (Panic, _) \<Rightarrow> False" "\<And>c. A c \<Longrightarrow> A' c" "\<And>c. B c \<Longrightarrow> B' c"
  shows "case r of (Ok _, c) \<Rightarrow> A' c | (Err _, c) \<Rightarrow> B' c | (Panic, _) \<Rightarrow> False"
  using assms by (cases r; cases "fst r") auto

theorem part_init_rolls_back_witness:
  "case part_init_commit demo_hw demo_io \<lparr>buf_ptr = 0, buf_bytes = replicate 48 1\<rparr> \<lparr>buf_ptr = 0, buf_bytes = replicate 48 2\<rparr>
      \<lparr>ci_pta_pub_sec1 = replicate 97 4, ci_policy_hash = replicate 48 5, ci_pota_thumb = replicate 48 6, ci_sata_thumb = replicate 48 7, ci_sapota_thumb = None\<rparr>
      (demo_pal demo_vault (demo_slot Enabled), demo_log) of
     (Ok _, c) \<Rightarrow> ps_state (io_slot demo_io (fst c)) = Ok Initializing
   | (Err _, c) \<Rightarrow> (\<exists>p'. walk_undo demo_hw demo_io False True (snd c) (fst c) = (Ok (), p') \<and> pal_keys p' 0 \<noteq> None)
   | (Panic, _) \<Rightarrow> False"
proof -
  let ?p = "demo_pal demo_vault (demo_slot Enabled)"
  have slot: "io_slot demo_io ?p = demo_slot Enabled" by (simp add: io_slot_def demo_io_def demo_parts)
  have ok: "io_okay demo_hw demo_io ?p" by (intro demo_io_okay demo_inv demo_slot_ok demo_slot) simp
  have un: "unprovisioned (io_slot demo_io ?p)" unfolding slot by (rule demo_unprovisioned)
  show ?thesis
    by (rule run_case_mono [OF part_init_rolls_back [OF ok demo_log(1) demo_log(2) un]])
      (simp_all add: init_done_def, metis (no_types) demo_vault_key option.distinct(1))
qed

text \<open>A partition that is initializing, its secret under the first key.\<close>

definition init_slot :: Storage where
  "init_slot = ps_set_ups_key_id (Some 0) (demo_slot Initializing)"

lemma init_slot:
  "ps_state init_slot = Ok Initializing" "ps_res_mask init_slot = 1" "session_table_of init_slot = session_zero"
  "ps_ups_key_id init_slot = Some 0" "Some k \<in> set (field_handles init_slot) \<Longrightarrow> k = 0"
  "ps_local_mk_key_id init_slot = None" "ps_ephemeral_mk_key_id init_slot = None"
proof -
  show "ps_state init_slot = Ok Initializing" "ps_res_mask init_slot = 1" "session_table_of init_slot = session_zero"
    using demo_slot(1-3) [of Initializing]
    by (simp_all add: init_slot_def ps_set_ups_key_id_def ps_state_def ps_res_mask_def session_table_of_def ps_session_table_def ps_session_meta_def)
  show "ps_ups_key_id init_slot = Some 0" "ps_local_mk_key_id init_slot = None" "ps_ephemeral_mk_key_id init_slot = None"
    using write_handle_in [OF first_table] demo_handles [of Initializing]
    by (simp_all add: init_slot_def ps_set_ups_key_id_def ps_ups_key_id_def ps_local_mk_key_id_def ps_ephemeral_mk_key_id_def)
  show "Some k \<in> set (field_handles init_slot) \<Longrightarrow> k = 0"
    using demo_slot(4) [of Initializing]
    by (auto simp: init_slot_def field_handles_def enabled_handles_def store_ops read_write_handle numeral_eq_Suc split: if_splits)
qed

lemma init_slot_ok: "slot_ok init_slot"
  using session_zero_wf(1) zero_occupied first_table by (auto simp: slot_ok_def init_slot(1-3) all_handles_split dest!: init_slot(5))

lemma demo_finalizable: "finalizable 0 (pal_keys (demo_pal demo_vault S)) init_slot"
proof -
  have "store_canon init_slot" unfolding init_slot_def by (intro canon_kept demo_canon)
  moreover have "prop_view init_slot P_UPS_KEY_ID = Some (VU16 0)" "prop_view init_slot P_LOCAL_MK_KEY_ID = None"
    "prop_view init_slot P_EPHEMERAL_MK_KEY_ID = None"
    using init_slot by (simp_all add: prop_view_def prop_meta_def prop_ids prop_get_u16_def prop_key_def)
  ultimately show ?thesis
    using first_table by (simp add: finalizable_def init_slot demo_vault_key new_key_def is_bulk_kind_def)
qed

theorem part_final_settles_witness:
  "case part_final_commit demo_hw demo_io 0 \<lparr>buf_ptr = 0, buf_bytes = replicate 48 1\<rparr> \<lparr>buf_ptr = 0, buf_bytes = replicate 32 2\<rparr>
      \<lparr>buf_ptr = 0, buf_bytes = replicate 32 3\<rparr> (demo_pal demo_vault init_slot, demo_log) of
     (Ok _, c) \<Rightarrow> (\<exists>p'. walk_undo demo_hw demo_io True True (snd c) (fst c) = (Ok (), p') \<and> pal_keys p' 0 = None)
   | (Err _, c) \<Rightarrow> (\<exists>p'. walk_undo demo_hw demo_io False True (snd c) (fst c) = (Ok (), p') \<and> pal_keys p' 0 \<noteq> None)
   | (Panic, _) \<Rightarrow> False"
proof -
  let ?p = "demo_pal demo_vault init_slot"
  have slot: "io_slot demo_io ?p = init_slot" by (simp add: io_slot_def demo_io_def demo_parts)
  have ok: "io_okay demo_hw demo_io ?p" by (intro demo_io_okay demo_inv init_slot_ok init_slot)
  have fin: "finalizable 0 (pal_keys ?p) (io_slot demo_io ?p)" unfolding slot by (rule demo_finalizable)
  have gone: "final_done demo_io 0 u m e ?p p' \<Longrightarrow> pal_keys p' 0 = None" for u m e and p' :: "unit UnoHsmPal"
    by (auto simp: final_done_def)
  show ?thesis
    by (rule run_case_mono [OF part_final_settles [OF ok demo_log(1) demo_log(2) fin]])
      (simp, use gone in blast, metis (no_types) demo_vault_key option.distinct(1))
qed

section \<open>Partition properties\<close>





section \<open>Keys and their fast-path slots\<close>

text \<open>
  C13 (fast_path_no_alias): creating and deleting a key, deleting the keys of a session and clearing a partition's vault
  never panic and keep the vault and the fast-path bitmap consistent, whatever the fast-path core answers: afterwards
  every bulk key has a slot marked in use, and no two bulk keys share one.
\<close>

theorem fast_path_no_alias:
  assumes "engine_ok (hw_engine hw)" "steady io p"
    and "(r, p') \<in> {void (vault_key_create hw io k kd sess at) p, vault_key_delete hw io i p, delete_session_keys hw io sid p, pal_vault_clear hw io p}"
  shows "r \<noteq> Panic \<and> steady io p' \<and>
    (\<forall>a b u v. pal_keys p' a = Some u \<and> pal_keys p' b = Some v \<and> is_bulk_kind (vk_kind u) \<and> is_bulk_kind (vk_kind v) \<longrightarrow>
      bit (pal_fp_slots p' ! fst (bulk_slot u)) (snd (bulk_slot u)) \<and> (bulk_slot u = bulk_slot v \<longrightarrow> a = b))"
proof -
  have dev: "steady io (p\<lparr>pal_dev := d\<rparr>)" for d using steady_frame(1) [OF assms(2), of "p\<lparr>pal_dev := d\<rparr>"] by simp
  have "r \<noteq> Panic \<and> steady io p'"
    using assms(3) vault_key_create_steady [OF assms(1,2), of k kd sess at] vault_key_delete_steady [OF assms(1,2), of i]
      delete_session_keys_achieves [OF assms(1,2), of sid] pal_vault_clear_achieves [OF assms(1,2)] dev
    by (auto simp: achieves_def void_eq split: prod.splits run.splits)
  then show ?thesis unfolding steady_def fp_inv_def by blast
qed

theorem fast_path_no_alias_witness:
  "fst (pal_vault_clear demo_hw demo_io (demo_pal demo_vault (demo_slot Enabled))) \<noteq> Panic \<and>
   steady demo_io (snd (pal_vault_clear demo_hw demo_io (demo_pal demo_vault (demo_slot Enabled))))"
proof -
  let ?p = "demo_pal demo_vault (demo_slot Enabled)"
  have "io_okay demo_hw demo_io ?p" by (intro demo_io_okay demo_inv demo_slot_ok demo_slot) simp
  then have "steady demo_io ?p" by (simp add: io_okay_def)
  from fast_path_no_alias [OF demo_hw_ok(2) this, of "fst (pal_vault_clear demo_hw demo_io ?p)" "snd (pal_vault_clear demo_hw demo_io ?p)"]
  show ?thesis by auto
qed

section \<open>Scratch memory and random bytes\<close>




end
