(* ===== verification/Spec2Isabelle.thy ===== *)
theory Spec2Isabelle
  imports TborProperties MborProperties CommandProperties
begin

text \<open>
  Verification of the firmware of the Azure Integrated HSM SDK.
\<close>

end
